(* ===== verification/Prelude.thy ===== *)
theory Prelude
  imports Main "HOL-Library.Word"
begin

text \<open>
  Shared vocabulary of the development: the machine integers of the Rust sources, the
  combinators of \<open>Result\<close> and \<open>Option\<close> the sources chain with \<open>?\<close>, and the checked and
  saturating operations of the integer types.

  \<^item> A \<open>u8\<close>, \<open>u32\<close> or \<open>u64\<close> is a word of that width.
  \<^item> \<open>Result<T, E>\<close> is the sum \<open>E + T\<close>: \<open>Inl\<close> is \<open>Err\<close>, \<open>Inr\<close> is \<open>Ok\<close>.
  \<^item> \<open>and_then r f\<close> is the \<open>?\<close> operator: it stops at the first \<open>Err\<close>.
  \<^item> \<open>ok_or e x\<close> is \<open>Option::ok_or\<close>.
\<close>

type_synonym u8 = "8 word"
type_synonym u32 = "32 word"
type_synonym u64 = "64 word"

named_theorems rust_result \<open>equations and inversions of the Result and Option combinators\<close>
named_theorems checked \<open>characterisations of checked and saturating integer operations\<close>

section \<open>Results\<close>

fun and_then :: "'e + 'a \<Rightarrow> ('a \<Rightarrow> 'e + 'b) \<Rightarrow> 'e + 'b" where
  "and_then (Inl e) f = Inl e"
| "and_then (Inr x) f = f x"

fun ok_or :: "'e \<Rightarrow> 'a option \<Rightarrow> 'e + 'a" where
  "ok_or e None = Inl e"
| "ok_or e (Some x) = Inr x"

fun map_err :: "('e \<Rightarrow> 'f) \<Rightarrow> 'e + 'a \<Rightarrow> 'f + 'a" where
  "map_err f (Inl e) = Inl (f e)"
| "map_err f (Inr x) = Inr x"

fun is_ok :: "'e + 'a \<Rightarrow> bool" where
  "is_ok (Inl e) = False"
| "is_ok (Inr x) = True"

lemma and_then_Inr [rust_result]:
  "and_then r f = Inr y \<longleftrightarrow> (\<exists>x. r = Inr x \<and> f x = Inr y)"
  by (cases r) auto

lemma and_then_Inl [rust_result]:
  "and_then r f = Inl e \<longleftrightarrow> r = Inl e \<or> (\<exists>x. r = Inr x \<and> f x = Inl e)"
  by (cases r) auto

lemma ok_or_Inr [rust_result]: "ok_or e x = Inr y \<longleftrightarrow> x = Some y"
  by (cases x) auto

lemma ok_or_Inl [rust_result]: "ok_or e x = Inl e' \<longleftrightarrow> x = None \<and> e' = e"
  by (cases x) auto

lemma map_err_Inr [rust_result]: "map_err f r = Inr y \<longleftrightarrow> r = Inr y"
  by (cases r) auto

lemma map_err_Inl [rust_result]: "map_err f r = Inl e \<longleftrightarrow> (\<exists>d. r = Inl d \<and> e = f d)"
  by (cases r) auto

lemma is_ok_iff [rust_result]: "is_ok r \<longleftrightarrow> (\<exists>x. r = Inr x)"
  by (cases r) auto

text \<open>\<open>Iterator::collect\<close> into a \<open>Result\<close>: the first error, or every value in order.\<close>

fun try_map :: "('a \<Rightarrow> 'e + 'b) \<Rightarrow> 'a list \<Rightarrow> 'e + 'b list" where
  "try_map f [] = Inr []"
| "try_map f (x # xs) = and_then (f x) (\<lambda>y. and_then (try_map f xs) (\<lambda>ys. Inr (y # ys)))"

lemma try_map_Inr_length: "try_map f xs = Inr ys \<Longrightarrow> length ys = length xs"
  by (induction xs arbitrary: ys) (auto simp: rust_result)

lemma map_filter_append [simp]:
  "List.map_filter f (xs @ ys) = List.map_filter f xs @ List.map_filter f ys"
  by (simp add: List.map_filter_def)

declare List.map_filter_simps [simp]

section \<open>Checked and saturating arithmetic\<close>

definition checked_add :: "'w::len word \<Rightarrow> 'w word \<Rightarrow> 'w word option" where
  "checked_add a b = (if unat a + unat b < 2 ^ LENGTH('w) then Some (a + b) else None)"

definition checked_mul :: "'w::len word \<Rightarrow> 'w word \<Rightarrow> 'w word option" where
  "checked_mul a b = (if unat a * unat b < 2 ^ LENGTH('w) then Some (a * b) else None)"

definition saturating_add :: "'w::len word \<Rightarrow> 'w word \<Rightarrow> 'w word" where
  "saturating_add a b = (if unat a + unat b < 2 ^ LENGTH('w) then a + b else - 1)"

definition saturating_sub :: "'w::len word \<Rightarrow> 'w word \<Rightarrow> 'w word" where
  "saturating_sub a b = (if b \<le> a then a - b else 0)"

definition saturating_mul :: "'w::len word \<Rightarrow> 'w word \<Rightarrow> 'w word" where
  "saturating_mul a b = (if unat a * unat b < 2 ^ LENGTH('w) then a * b else - 1)"

definition div_ceil :: "'w::len word \<Rightarrow> 'w word \<Rightarrow> 'w word" where
  "div_ceil a b = (if a mod b = 0 then a div b else a div b + 1)"

lemma unat_add_no_overflow:
  fixes a b :: "'w::len word"
  shows "unat a + unat b < 2 ^ LENGTH('w) \<Longrightarrow> unat (a + b) = unat a + unat b"
  by (simp add: unat_word_ariths)

lemma unat_mul_no_overflow:
  fixes a b :: "'w::len word"
  shows "unat a * unat b < 2 ^ LENGTH('w) \<Longrightarrow> unat (a * b) = unat a * unat b"
  by (simp add: unat_word_ariths)

lemma checked_add_Some [checked]:
  fixes a b c :: "'w::len word"
  shows "checked_add a b = Some c \<longleftrightarrow> unat c = unat a + unat b"
proof
  assume "checked_add a b = Some c"
  then show "unat c = unat a + unat b"
    by (auto simp: checked_add_def unat_add_no_overflow split: if_splits)
next
  assume c: "unat c = unat a + unat b"
  moreover have "unat c < 2 ^ LENGTH('w)" by (rule unsigned_less)
  ultimately have small: "unat a + unat b < 2 ^ LENGTH('w)" by simp
  with c have "unat (a + b) = unat c" by (simp add: unat_add_no_overflow)
  then have "a + b = c" by (simp add: word_unat_eq_iff)
  with small show "checked_add a b = Some c" by (simp add: checked_add_def)
qed

lemma checked_mul_Some [checked]:
  fixes a b c :: "'w::len word"
  shows "checked_mul a b = Some c \<longleftrightarrow> unat c = unat a * unat b"
proof
  assume "checked_mul a b = Some c"
  then show "unat c = unat a * unat b"
    by (auto simp: checked_mul_def unat_mul_no_overflow split: if_splits)
next
  assume c: "unat c = unat a * unat b"
  moreover have "unat c < 2 ^ LENGTH('w)" by (rule unsigned_less)
  ultimately have small: "unat a * unat b < 2 ^ LENGTH('w)" by simp
  with c have "unat (a * b) = unat c" by (simp add: unat_mul_no_overflow)
  then have "a * b = c" by (simp add: word_unat_eq_iff)
  with small show "checked_mul a b = Some c" by (simp add: checked_mul_def)
qed

lemma checked_add_None [checked]:
  fixes a b :: "'w::len word"
  shows "checked_add a b = None \<longleftrightarrow> 2 ^ LENGTH('w) \<le> unat a + unat b"
  by (simp add: checked_add_def not_less)

lemma checked_mul_None [checked]:
  fixes a b :: "'w::len word"
  shows "checked_mul a b = None \<longleftrightarrow> 2 ^ LENGTH('w) \<le> unat a * unat b"
  by (simp add: checked_mul_def not_less)

lemma unat_minus_one_max: "unat (- 1 :: 'w::len word) = 2 ^ LENGTH('w) - 1"
  by (simp add: unsigned_minus_1_eq_mask mask_eq_exp_minus_1)

lemma unat_saturating_add [checked]:
  fixes a b :: "'w::len word"
  shows "unat (saturating_add a b) = min (unat a + unat b) (2 ^ LENGTH('w) - 1)"
proof (cases "unat a + unat b < 2 ^ LENGTH('w)")
  case True
  then show ?thesis by (simp add: saturating_add_def unat_add_no_overflow)
next
  case False
  then show ?thesis by (simp add: saturating_add_def unat_minus_one_max)
qed

lemma unat_saturating_mul [checked]:
  fixes a b :: "'w::len word"
  shows "unat (saturating_mul a b) = min (unat a * unat b) (2 ^ LENGTH('w) - 1)"
proof (cases "unat a * unat b < 2 ^ LENGTH('w)")
  case True
  then have "unat a * unat b \<le> 2 ^ LENGTH('w) - 1" by linarith
  with True show ?thesis by (simp add: saturating_mul_def unat_mul_no_overflow min_absorb1)
next
  case False
  then have "2 ^ LENGTH('w) - 1 \<le> unat a * unat b" by linarith
  with False show ?thesis by (simp add: saturating_mul_def unat_minus_one_max min_absorb2)
qed

lemma unat_saturating_sub [checked]:
  fixes a b :: "'w::len word"
  shows "unat (saturating_sub a b) = unat a - unat b"
  by (auto simp: saturating_sub_def unat_sub word_le_nat_alt)

section \<open>Words and naturals\<close>

lemma unat_word_of_nat_small:
  "n < 2 ^ LENGTH('w) \<Longrightarrow> unat (word_of_nat n :: 'w::len word) = n"
  by (simp add: unsigned_of_nat take_bit_nat_eq_self)

lemma unat_ucast_up:
  fixes w :: "'v::len word"
  assumes "LENGTH('v) \<le> LENGTH('w)"
  shows "unat (ucast w :: 'w::len word) = unat w"
proof -
  have "unat w < 2 ^ LENGTH('v)" by (rule unsigned_less)
  also have "(2::nat) ^ LENGTH('v) \<le> 2 ^ LENGTH('w)" using assms by simp
  finally show ?thesis by (simp add: unsigned_ucast_eq take_bit_nat_eq_self)
qed

lemma unat_u32_less: "unat (w :: u32) < 4294967296"
  using unsigned_less [of w, where 'a = nat] by simp

lemma unat_u64_less: "unat (w :: u64) < 18446744073709551616"
  using unsigned_less [of w, where 'a = nat] by simp

lemma word_with_unat: "n < 2 ^ LENGTH('w) \<Longrightarrow> \<exists>w :: 'w::len word. unat w = n"
  by (rule exI [of _ "word_of_nat n"]) (rule unat_word_of_nat_small)

section \<open>Interface: non-zero counters\<close>

text \<open>
  Retry ordinals, attempt numbers, supervisor incarnations and intent revisions are newtypes
  over a \<open>NonZero\<close> integer with the same \<open>new\<close>, \<open>get\<close> and \<open>next\<close>. Their contract: \<open>next\<close> is
  the successor, and it fails exactly when the integer would overflow.
\<close>

locale nonzero_counter =
  fixes wrap :: "'w::len word \<Rightarrow> 'c"
    and get :: "'c \<Rightarrow> 'w word"
    and new :: "'w word \<Rightarrow> 'c option"
    and next_of :: "'c \<Rightarrow> 'c option"
  assumes get_wrap: "get (wrap v) = v"
    and wrap_get: "wrap (get c) = c"
    and new_eq: "new v = (if v \<noteq> 0 then Some (wrap v) else None)"
    and next_eq: "next_of c = Option.bind (checked_add (get c) 1) new"
begin

lemma new_Some: "new v = Some c \<longleftrightarrow> v \<noteq> 0 \<and> c = wrap v"
  by (auto simp: new_eq)

lemma get_inject: "get c = get d \<longleftrightarrow> c = d"
  by (metis wrap_get)

lemma next_Some: "next_of c = Some d \<longleftrightarrow> unat (get d) = unat (get c) + 1"
proof
  assume "next_of c = Some d"
  then show "unat (get d) = unat (get c) + 1"
    by (auto simp: next_eq new_eq get_wrap checked bind_eq_Some_conv split: if_splits)
next
  assume d: "unat (get d) = unat (get c) + 1"
  then have "checked_add (get c) 1 = Some (get d)" by (simp add: checked)
  moreover have "get d \<noteq> 0" using d by (metis Suc_eq_plus1 nat.distinct(1) unat_0)
  ultimately show "next_of c = Some d" by (simp add: next_eq new_eq wrap_get)
qed

lemma next_nonzero: "next_of c = Some d \<Longrightarrow> get d \<noteq> 0"
  by (auto simp: next_Some)

lemma next_None: "next_of c = None \<longleftrightarrow> unat (get c) = 2 ^ LENGTH('w) - 1"
proof
  assume none: "next_of c = None"
  show "unat (get c) = 2 ^ LENGTH('w) - 1"
  proof (rule ccontr)
    assume "unat (get c) \<noteq> 2 ^ LENGTH('w) - 1"
    moreover have "unat (get c) < 2 ^ LENGTH('w)" by (rule unsigned_less)
    ultimately have "unat (get c) + 1 < 2 ^ LENGTH('w)" by linarith
    then obtain v :: "'w word" where "unat v = unat (get c) + 1" using word_with_unat by blast
    then have "next_of c = Some (wrap v)" by (simp add: next_Some get_wrap)
    with none show False by simp
  qed
next
  assume max: "unat (get c) = 2 ^ LENGTH('w) - 1"
  show "next_of c = None"
  proof (rule ccontr)
    assume "next_of c \<noteq> None"
    then obtain d where "unat (get d) = unat (get c) + 1" by (auto simp: next_Some)
    moreover have "unat (get d) < 2 ^ LENGTH('w)" by (rule unsigned_less)
    ultimately show False using max by simp
  qed
qed

end

end
