(* ===== verification/Transition.thy ===== *)
theory Transition
  imports Prelude
begin

text \<open>
  The result of one accepted event of a lifecycle state machine
  (\<open>crates/domain/src/transition.rs\<close>): the next state and the effects to perform.
  The four machines of the domain crate return it, so the theory also holds what is
  proved once for all of them: reachability under accepted events, invariants, and
  budgets of effects.
\<close>

record ('s, 'eff) transition =
  tr_state :: 's
  tr_effects :: "'eff list"

definition transition_new :: "'s \<Rightarrow> 'eff list \<Rightarrow> ('s, 'eff) transition" where
  "transition_new s effs = \<lparr>tr_state = s, tr_effects = effs\<rparr>"

definition without_effects :: "'s \<Rightarrow> ('s, 'eff) transition" where
  "without_effects s = \<lparr>tr_state = s, tr_effects = []\<rparr>"

lemmas transition_defs = transition_new_def without_effects_def

lemma transition_new_sel [simp]:
  "tr_state (transition_new s effs) = s" "tr_effects (transition_new s effs) = effs"
  by (simp_all add: transition_new_def)

lemma without_effects_sel [simp]:
  "tr_state (without_effects s) = s" "tr_effects (without_effects s) = []"
  by (simp_all add: without_effects_def)

section \<open>Runs\<close>

text \<open>
  \<open>reach step s effs s'\<close>: some sequence of accepted events leads from \<open>s\<close> to \<open>s'\<close> and
  asks for the effects \<open>effs\<close>, in order. A rejected event returns no state in the code,
  so the owner keeps the old one and a run has no step for it.
\<close>

inductive reach :: "('s \<Rightarrow> 'eff list \<Rightarrow> 's \<Rightarrow> bool) \<Rightarrow> 's \<Rightarrow> 'eff list \<Rightarrow> 's \<Rightarrow> bool"
  for step where
  reach_refl: "reach step s [] s"
| reach_step: "reach step s effs s' \<Longrightarrow> step s' effs' s'' \<Longrightarrow> reach step s (effs @ effs') s''"

lemma reach_single: "step s effs s' \<Longrightarrow> reach step s effs s'"
  using reach_step [OF reach_refl] by fastforce

lemma reach_trans:
  "reach step s' effs' s'' \<Longrightarrow> reach step s effs s' \<Longrightarrow> reach step s (effs @ effs') s''"
proof (induction arbitrary: effs rule: reach.induct)
  case (reach_refl s)
  then show ?case by simp
next
  case (reach_step t effs1 t' effs2 t'')
  then show ?case
    using reach.reach_step [of step s "effs @ effs1" t' effs2 t''] by simp
qed

text \<open>
  The executable form of a run: the events are handed to the machine in order, the effects
  are concatenated, and the first rejected event ends the run with its error.
\<close>

fun run_machine ::
  "('s \<Rightarrow> 'ev \<Rightarrow> 'e + ('s, 'eff) transition) \<Rightarrow> 's \<Rightarrow> 'ev list \<Rightarrow> 'e + 's \<times> 'eff list"
where
  "run_machine f s [] = Inr (s, [])"
| "run_machine f s (ev # evs) =
     and_then (f s ev) (\<lambda>t.
     and_then (run_machine f (tr_state t) evs) (\<lambda>(s', effs).
     Inr (s', tr_effects t @ effs)))"

lemma run_machine_reach:
  assumes step: "\<And>s ev t. ok ev \<Longrightarrow> f s ev = Inr t \<Longrightarrow> step s (tr_effects t) (tr_state t)"
  shows "run_machine f s evs = Inr (s', effs) \<Longrightarrow> list_all ok evs \<Longrightarrow> reach step s effs s'"
proof (induction evs arbitrary: s effs)
  case Nil
  then show ?case by (simp add: reach_refl)
next
  case (Cons ev evs)
  then obtain t effs' where t: "f s ev = Inr t" and rest: "run_machine f (tr_state t) evs = Inr (s', effs')"
    and effs: "effs = tr_effects t @ effs'"
    by (auto simp: rust_result)
  have "step s (tr_effects t) (tr_state t)" using Cons.prems t by (auto intro: step)
  moreover have "reach step (tr_state t) effs' s'" using Cons.IH [OF rest] Cons.prems by simp
  ultimately show ?case unfolding effs by (blast intro: reach_trans reach_single)
qed

lemma run_machine_append:
  "run_machine f s (xs @ ys) =
     and_then (run_machine f s xs) (\<lambda>(s', effs).
     and_then (run_machine f s' ys) (\<lambda>(s'', effs'). Inr (s'', effs @ effs')))"
proof (induction xs arbitrary: s)
  case Nil
  show ?case by (cases "run_machine f s ys") auto
next
  case (Cons x xs)
  show ?case
  proof (cases "f s x")
    case (Inr t)
    show ?thesis
    proof (cases "run_machine f (tr_state t) xs")
      case (Inr r)
      with \<open>f s x = Inr t\<close> Cons show ?thesis
        by (cases r; cases "run_machine f (fst r) ys") auto
    qed (use Inr Cons in simp)
  qed simp
qed

section \<open>Interface: an invariant of a machine\<close>

locale invariant_machine =
  fixes step :: "'s \<Rightarrow> 'eff list \<Rightarrow> 's \<Rightarrow> bool"
    and inv :: "'s \<Rightarrow> bool"
  assumes step_inv: "inv s \<Longrightarrow> step s effs s' \<Longrightarrow> inv s'"
begin

lemma reach_inv: "reach step s effs s' \<Longrightarrow> inv s \<Longrightarrow> inv s'"
  by (induction rule: reach.induct) (auto intro: step_inv)

end

section \<open>Interface: a budget of effects\<close>

text \<open>
  Each state has a budget; a step pays one unit for every counted effect it asks for.
  A run then asks for at most as many counted effects as its first state can pay.
\<close>

locale effect_budget = invariant_machine step inv
  for step :: "'s \<Rightarrow> 'eff list \<Rightarrow> 's \<Rightarrow> bool" and inv +
  fixes counted :: "'eff \<Rightarrow> bool"
    and budget :: "'s \<Rightarrow> nat"
  assumes step_pays:
    "inv s \<Longrightarrow> step s effs s' \<Longrightarrow> length (filter counted effs) + budget s' \<le> budget s"
begin

lemma reach_pays:
  "reach step s effs s' \<Longrightarrow> inv s \<Longrightarrow> length (filter counted effs) + budget s' \<le> budget s"
proof (induction rule: reach.induct)
  case (reach_refl s)
  then show ?case by simp
next
  case (reach_step s effs s' effs' s'')
  then have "inv s'" by (auto intro: reach_inv)
  with reach_step show ?case by (fastforce dest: step_pays)
qed

lemma reach_bounded: "reach step s effs s' \<Longrightarrow> inv s \<Longrightarrow> length (filter counted effs) \<le> budget s"
  using reach_pays by fastforce

end

section \<open>Interface: simulation by an abstract machine\<close>

text \<open>
  Every accepted event of the concrete machine is a step of the abstract one, with the same
  effects. The abstract machine may stutter (it has a silent step to the same state).
\<close>

locale simulation = invariant_machine step inv
  for step :: "'s \<Rightarrow> 'eff list \<Rightarrow> 's \<Rightarrow> bool" and inv +
  fixes abs_step :: "'a \<Rightarrow> 'eff list \<Rightarrow> 'a \<Rightarrow> bool"
    and abs_of :: "'s \<Rightarrow> 'a"
  assumes step_simulates: "inv s \<Longrightarrow> step s effs s' \<Longrightarrow> abs_step (abs_of s) effs (abs_of s')"
begin

lemma reach_simulates:
  "reach step s effs s' \<Longrightarrow> inv s \<Longrightarrow> reach abs_step (abs_of s) effs (abs_of s')"
proof (induction rule: reach.induct)
  case (reach_refl s)
  show ?case by (rule reach.reach_refl)
next
  case (reach_step s effs s' effs' s'')
  then have "inv s'" by (auto intro: reach_inv)
  with reach_step show ?case by (blast intro: reach.reach_step step_simulates)
qed

end

section \<open>Interface: consecutively numbered effects\<close>

text \<open>\<open>consecutive n ns m\<close>: the numbers \<open>ns\<close> are \<open>n + 1\<close> to \<open>m\<close>, in order.\<close>

definition consecutive :: "nat \<Rightarrow> nat list \<Rightarrow> nat \<Rightarrow> bool" where
  "consecutive n ns m \<longleftrightarrow> ns = [Suc n..<Suc m] \<and> n \<le> m"

lemma consecutive_refl [simp, intro]: "consecutive n [] n"
  by (simp add: consecutive_def)

lemma consecutive_Suc [simp]: "consecutive n [Suc n] (Suc n)"
  by (simp add: consecutive_def)

lemma consecutive_append: "consecutive n ns m \<Longrightarrow> consecutive m ms k \<Longrightarrow> consecutive n (ns @ ms) k"
  using upt_add_eq_append [of "Suc n" "Suc m" "k - m"]
  by (simp add: consecutive_def del: upt_Suc)

lemma consecutive_length: "consecutive n ns m \<Longrightarrow> m = n + length ns"
  by (simp add: consecutive_def del: upt_Suc)

lemma consecutive_upt: "consecutive n ns m \<Longrightarrow> ns = [Suc n..<Suc n + length ns]"
  using consecutive_length [of n ns m] by (simp add: consecutive_def del: upt_Suc)

text \<open>
  A machine that numbers some of its effects: \<open>at_number n s\<close> says that \<open>n\<close> is the last
  number given out in \<open>s\<close>, and each step continues the numbering.
\<close>

locale effect_numbering = invariant_machine step inv
  for step :: "'s \<Rightarrow> 'eff list \<Rightarrow> 's \<Rightarrow> bool" and inv +
  fixes number_of :: "'eff \<Rightarrow> nat option"
    and at_number :: "nat \<Rightarrow> 's \<Rightarrow> bool"
  assumes step_continues: "inv s \<Longrightarrow> at_number n s \<Longrightarrow> step s effs s' \<Longrightarrow>
    \<exists>m. consecutive n (List.map_filter number_of effs) m \<and> at_number m s'"
begin

lemma reach_continues:
  "reach step s effs s' \<Longrightarrow> inv s \<Longrightarrow> at_number n s \<Longrightarrow>
   \<exists>m. consecutive n (List.map_filter number_of effs) m \<and> at_number m s'"
proof (induction rule: reach.induct)
  case (reach_refl s)
  then show ?case by (auto simp: List.map_filter_def)
next
  case (reach_step s effs s' effs' s'')
  then obtain m where m: "consecutive n (List.map_filter number_of effs) m" "at_number m s'" by blast
  moreover have "inv s'" using reach_step by (auto intro: reach_inv)
  ultimately obtain k where "consecutive m (List.map_filter number_of effs') k" "at_number k s''"
    using reach_step.hyps(2) step_continues by blast
  with m show ?case by (auto simp: map_filter_append intro: consecutive_append)
qed

end

text \<open>A simulation carries the numbering of the abstract machine to the concrete one.\<close>

locale simulated_numbering = simulation step inv abs_step abs_of +
    abs: effect_numbering abs_step "\<lambda>_. True" number_of at_number
  for step :: "'s \<Rightarrow> 'eff list \<Rightarrow> 's \<Rightarrow> bool" and inv
    and abs_step :: "'a \<Rightarrow> 'eff list \<Rightarrow> 'a \<Rightarrow> bool" and abs_of
    and number_of :: "'eff \<Rightarrow> nat option" and at_number

sublocale simulated_numbering \<subseteq> numbering: effect_numbering step inv number_of "\<lambda>n s. at_number n (abs_of s)"
  by unfold_locales (blast dest: step_simulates intro: abs.step_continues [OF TrueI])

end
