(* ===== verification/Time.thy ===== *)
theory Time
  imports Prelude
begin

text \<open>
  Durations and boot-relative instants (\<open>crates/domain/src/time.rs\<close>).

  \<open>std::time::Duration\<close> is a count of nanoseconds: \<open>as_secs\<close> is the quotient by one
  second and \<open>subsec_nanos\<close> the rest. It is modelled as a \<open>nat\<close> of nanoseconds; the
  type's limit (a \<open>u64\<close> of seconds) is \<open>duration_ok\<close>, and \<open>duration_checked_mul\<close> fails
  exactly above it. A \<open>BootInstant\<close> is a \<open>u64\<close> of 100 ns ticks of interrupt time.
\<close>

section \<open>Durations\<close>

type_synonym duration = nat

definition nanos_per_sec :: nat where
  "nanos_per_sec = 1000000000"

definition duration_max :: duration where
  "duration_max = 2 ^ 64 * nanos_per_sec - 1"

definition duration_ok :: "duration \<Rightarrow> bool" where
  "duration_ok d \<longleftrightarrow> d \<le> duration_max"

definition from_secs :: "nat \<Rightarrow> duration" where
  "from_secs s = s * nanos_per_sec"

definition from_millis :: "nat \<Rightarrow> duration" where
  "from_millis ms = ms * 1000000"

definition as_secs :: "duration \<Rightarrow> u64" where
  "as_secs d = word_of_nat (d div nanos_per_sec)"

definition subsec_nanos :: "duration \<Rightarrow> u32" where
  "subsec_nanos d = word_of_nat (d mod nanos_per_sec)"

definition as_millis :: "duration \<Rightarrow> nat" where
  "as_millis d = d div 1000000"

definition duration_checked_mul :: "duration \<Rightarrow> u32 \<Rightarrow> duration option" where
  "duration_checked_mul d k =
     (if d * unat k \<le> duration_max then Some (d * unat k) else None)"

lemma duration_checked_mul_Some [checked]:
  "duration_checked_mul d k = Some r \<longleftrightarrow> r = d * unat k \<and> duration_ok r"
  by (auto simp: duration_checked_mul_def duration_ok_def)

lemma duration_checked_mul_None [checked]:
  "duration_checked_mul d k = None \<longleftrightarrow> \<not> duration_ok (d * unat k)"
  by (auto simp: duration_checked_mul_def duration_ok_def)

lemma unat_as_secs: "duration_ok d \<Longrightarrow> unat (as_secs d) = d div nanos_per_sec"
proof -
  assume "duration_ok d"
  then have "d < 2 ^ 64 * nanos_per_sec"
    by (simp add: duration_ok_def duration_max_def nanos_per_sec_def)
  then have "d div nanos_per_sec < 2 ^ 64"
    by (simp add: less_mult_imp_div_less)
  then show ?thesis by (simp add: as_secs_def unat_word_of_nat_small)
qed

lemma unat_subsec_nanos: "unat (subsec_nanos d) = d mod nanos_per_sec"
proof -
  have "d mod nanos_per_sec < 2 ^ 32"
    by (rule less_trans [OF mod_less_divisor]) (simp_all add: nanos_per_sec_def)
  then show ?thesis by (simp add: subsec_nanos_def unat_word_of_nat_small)
qed

section \<open>Non-zero durations\<close>

datatype non_zero_duration = NonZeroDuration (nzd_get: duration)

definition nzd_new :: "duration \<Rightarrow> non_zero_duration option" where
  "nzd_new value = (if value \<noteq> 0 then Some (NonZeroDuration value) else None)"

definition wf_nzd :: "non_zero_duration \<Rightarrow> bool" where
  "wf_nzd d \<longleftrightarrow> nzd_get d \<noteq> 0 \<and> duration_ok (nzd_get d)"

lemma nzd_new_Some: "nzd_new v = Some d \<longleftrightarrow> v \<noteq> 0 \<and> d = NonZeroDuration v"
  by (auto simp: nzd_new_def)

lemma wf_nzd_new: "nzd_new v = Some d \<Longrightarrow> duration_ok v \<Longrightarrow> wf_nzd d"
  by (auto simp: nzd_new_Some wf_nzd_def)

instantiation non_zero_duration :: linorder
begin

definition less_eq_non_zero_duration :: "non_zero_duration \<Rightarrow> non_zero_duration \<Rightarrow> bool" where
  "less_eq_non_zero_duration a b \<longleftrightarrow> nzd_get a \<le> nzd_get b"

definition less_non_zero_duration :: "non_zero_duration \<Rightarrow> non_zero_duration \<Rightarrow> bool" where
  "less_non_zero_duration a b \<longleftrightarrow> nzd_get a < nzd_get b"

instance
  by standard
    (auto simp: less_eq_non_zero_duration_def less_non_zero_duration_def
      intro: non_zero_duration.expand)

end

section \<open>Boot instants and deadlines\<close>

datatype boot_instant = BootInstant (as_interrupt_time_100ns: u64)

instantiation boot_instant :: linorder
begin

definition less_eq_boot_instant :: "boot_instant \<Rightarrow> boot_instant \<Rightarrow> bool" where
  "less_eq_boot_instant a b \<longleftrightarrow> as_interrupt_time_100ns a \<le> as_interrupt_time_100ns b"

definition less_boot_instant :: "boot_instant \<Rightarrow> boot_instant \<Rightarrow> bool" where
  "less_boot_instant a b \<longleftrightarrow> as_interrupt_time_100ns a < as_interrupt_time_100ns b"

instance
  by standard
    (auto simp: less_eq_boot_instant_def less_boot_instant_def intro: boot_instant.expand)

end

definition boot_checked_add :: "boot_instant \<Rightarrow> duration \<Rightarrow> boot_instant option" where
  "boot_checked_add at d =
     (case checked_mul (as_secs d) 10000000 of
        None \<Rightarrow> None
      | Some whole_ticks \<Rightarrow>
          let fractional_ticks = div_ceil (ucast (subsec_nanos d) :: u64) 100 in
          (case checked_add whole_ticks fractional_ticks of
             None \<Rightarrow> None
           | Some duration_ticks \<Rightarrow>
               map_option BootInstant
                 (checked_add (as_interrupt_time_100ns at) duration_ticks)))"

datatype retry_deadline = RetryDeadline (retry_instant: boot_instant)

datatype discovery_deadline = DiscoveryDeadline (discovery_instant: boot_instant)

datatype handshake_deadline = HandshakeDeadline (handshake_instant: boot_instant)

datatype stop_deadline = StopDeadline (stop_instant: boot_instant)

text \<open>The ticks a duration takes: 100 ns each, rounded up.\<close>

definition duration_ticks :: "duration \<Rightarrow> nat" where
  "duration_ticks d = (d + 99) div 100"

lemma duration_ticks_split:
  "duration_ticks d =
     d div nanos_per_sec * 10000000 + (d mod nanos_per_sec + 99) div 100"
proof -
  have "d + 99 = (d mod nanos_per_sec + 99) + (d div nanos_per_sec * 10000000) * 100"
    using div_mult_mod_eq [of d nanos_per_sec] by (simp add: nanos_per_sec_def)
  then show ?thesis by (simp add: duration_ticks_def)
qed

lemma ceil_div_100_split:
  "0 < r \<Longrightarrow> r < 100 \<Longrightarrow> (100 * q + r + 99) div 100 = q + 1" for q r :: nat
  by (rule div_nat_eqI) simp_all

lemma ceil_div_100_exact: "n mod 100 = 0 \<Longrightarrow> (n + 99) div 100 = n div 100" for n :: nat
  by (auto simp: mod_eq_0_iff_dvd elim!: dvdE intro!: div_nat_eqI)

lemma ceil_div_100_up: "n mod 100 \<noteq> 0 \<Longrightarrow> (n + 99) div 100 = n div 100 + 1" for n :: nat
  using ceil_div_100_split [of "n mod 100" "n div 100"] by simp

lemma unat_div_ceil_100:
  fixes n :: u32
  shows "unat (div_ceil (ucast n :: u64) 100) = (unat n + 99) div 100"
proof -
  have n: "unat (ucast n :: u64) = unat n"
    by (rule unat_ucast_up) simp
  have "unat n < 2 ^ 32" using unat_u32_less [of n] by simp
  then have q: "unat n div 100 < 2 ^ 32" by linarith
  have rest: "unat ((ucast n :: u64) mod 100) = unat n mod 100"
    by (simp add: unat_mod_distrib n)
  have div: "unat ((ucast n :: u64) div 100) = unat n div 100"
    by (simp add: unat_div_distrib n)
  have zero: "(ucast n :: u64) mod 100 = 0 \<longleftrightarrow> unat n mod 100 = 0"
    by (simp only: unat_eq_0 [symmetric] rest)
  show ?thesis
  proof (cases "unat n mod 100 = 0")
    case True
    then show ?thesis by (simp add: div_ceil_def zero div ceil_div_100_exact)
  next
    case False
    have "unat ((ucast n :: u64) div 100 + 1) = unat n div 100 + 1"
      using q by (subst unat_add_no_overflow) (simp_all add: div)
    with False show ?thesis by (simp add: div_ceil_def zero ceil_div_100_up)
  qed
qed

text \<open>\<open>checked_add\<close> is exact: it fails only when the tick count does not fit a \<open>u64\<close>.\<close>

lemma boot_checked_add_Some:
  assumes "duration_ok d"
  shows "boot_checked_add at d = Some r \<longleftrightarrow>
    unat (as_interrupt_time_100ns r) = unat (as_interrupt_time_100ns at) + duration_ticks d"
    (is "?lhs \<longleftrightarrow> ?rhs")
proof -
  let ?whole = "d div nanos_per_sec * 10000000"
  let ?frac = "(d mod nanos_per_sec + 99) div 100"
  have whole: "unat (as_secs d) * unat (10000000 :: u64) = ?whole"
    using assms by (simp add: unat_as_secs)
  have frac: "unat (div_ceil (ucast (subsec_nanos d) :: u64) 100) = ?frac"
    by (simp add: unat_div_ceil_100 unat_subsec_nanos)
  show ?thesis
  proof
    assume ?lhs
    then obtain w t s where
      "checked_mul (as_secs d) (10000000 :: u64) = Some w"
      "checked_add w (div_ceil (ucast (subsec_nanos d)) 100) = Some t"
      "checked_add (as_interrupt_time_100ns at) t = Some s" "r = BootInstant s"
      by (auto simp: boot_checked_add_def Let_def split: option.splits)
    then show ?rhs
      using assms by (simp add: checked frac duration_ticks_split unat_as_secs)
  next
    assume rhs: ?rhs
    then have bound: "unat (as_interrupt_time_100ns at) + (?whole + ?frac) < 2 ^ 64"
      using unat_u64_less [of "as_interrupt_time_100ns r"] by (simp add: duration_ticks_split)
    obtain w :: u64 where w: "unat w = ?whole"
      using word_with_unat [of ?whole, where 'w = 64] bound by auto
    obtain t :: u64 where t: "unat t = ?whole + ?frac"
      using word_with_unat [of "?whole + ?frac", where 'w = 64] bound by auto
    have "checked_mul (as_secs d) 10000000 = Some w"
      by (simp only: checked_mul_Some whole w)
    moreover have "checked_add w (div_ceil (ucast (subsec_nanos d)) 100) = Some t"
      by (simp only: checked_add_Some frac w t)
    moreover have "checked_add (as_interrupt_time_100ns at) t = Some (as_interrupt_time_100ns r)"
      using rhs by (simp only: checked_add_Some t duration_ticks_split)
    ultimately show ?lhs by (simp add: boot_checked_add_def)
  qed
qed

lemma boot_checked_add_later:
  assumes "duration_ok d" and "boot_checked_add at d = Some r"
  shows "at \<le> r"
  using assms by (simp add: boot_checked_add_Some less_eq_boot_instant_def word_le_nat_alt)

end
