(* ===== verification/Restart.thy ===== *)
theory Restart
  imports Time
begin

text \<open>
  Restart policies (\<open>crates/domain/src/restart.rs\<close>): retry ordinals, the exponential
  backoff with a cap, and the service and job retry policies. The theory also states the
  contract every backoff of the program keeps (a locale that the supervisor's and the
  controller's own delay functions interpret as well).
\<close>

section \<open>Retry ordinals\<close>

datatype retry_ordinal = RetryOrdinal (ordinal_get: u32)

definition ordinal_new :: "u32 \<Rightarrow> retry_ordinal option" where
  "ordinal_new value = (if value \<noteq> 0 then Some (RetryOrdinal value) else None)"

definition ordinal_first :: retry_ordinal where
  "ordinal_first = RetryOrdinal 1"

definition ordinal_next :: "retry_ordinal \<Rightarrow> retry_ordinal option" where
  "ordinal_next r = Option.bind (checked_add (ordinal_get r) 1) ordinal_new"

definition wf_ordinal :: "retry_ordinal \<Rightarrow> bool" where
  "wf_ordinal r \<longleftrightarrow> ordinal_get r \<noteq> 0"

lemma wf_ordinal_pos: "wf_ordinal r \<longleftrightarrow> 0 < unat (ordinal_get r)"
  by (simp add: wf_ordinal_def unat_gt_0)

lemma wf_ordinal_first [simp]: "wf_ordinal ordinal_first"
  by (simp add: wf_ordinal_def ordinal_first_def)

lemma unat_ordinal_first [simp]: "unat (ordinal_get ordinal_first) = 1"
  by (simp add: ordinal_first_def)

interpretation ordinal: nonzero_counter RetryOrdinal ordinal_get ordinal_new ordinal_next
  by unfold_locales (auto simp: ordinal_new_def ordinal_next_def)

lemmas ordinal_next_Some = ordinal.next_Some
lemmas ordinal_next_None = ordinal.next_None

lemma wf_ordinal_next: "ordinal_next r = Some s \<Longrightarrow> wf_ordinal s"
  using ordinal.next_nonzero by (simp add: wf_ordinal_def)

section \<open>Backoff\<close>

record backoff_policy =
  bp_initial :: non_zero_duration
  bp_multiplier :: u32
  bp_maximum :: non_zero_duration

datatype invalid_backoff_policy = MaximumLessThanInitial

definition backoff_new ::
  "non_zero_duration \<Rightarrow> u32 \<Rightarrow> non_zero_duration \<Rightarrow> invalid_backoff_policy + backoff_policy"
where
  "backoff_new initial multiplier maximum =
     (if maximum < initial then Inl MaximumLessThanInitial
      else Inr \<lparr>bp_initial = initial, bp_multiplier = multiplier, bp_maximum = maximum\<rparr>)"

definition wf_backoff :: "backoff_policy \<Rightarrow> bool" where
  "wf_backoff p \<longleftrightarrow>
     wf_nzd (bp_initial p) \<and> wf_nzd (bp_maximum p) \<and> bp_multiplier p \<noteq> 0 \<and>
     bp_initial p \<le> bp_maximum p"

lemma backoff_new_wf:
  "backoff_new i m x = Inr p \<Longrightarrow> wf_nzd i \<Longrightarrow> wf_nzd x \<Longrightarrow> m \<noteq> 0 \<Longrightarrow> wf_backoff p"
  by (auto simp: backoff_new_def wf_backoff_def split: if_splits)

text \<open>The loop of \<open>delay_for\<close>: \<open>n\<close> rounds are left, \<open>delay\<close> is the delay so far.\<close>

fun delay_loop :: "u32 \<Rightarrow> duration \<Rightarrow> nat \<Rightarrow> duration \<Rightarrow> duration" where
  "delay_loop multiplier maximum 0 delay = delay"
| "delay_loop multiplier maximum (Suc n) delay =
     (case duration_checked_mul delay multiplier of
        Some next \<Rightarrow> if next < maximum then delay_loop multiplier maximum n next else maximum
      | None \<Rightarrow> maximum)"

definition delay_for :: "backoff_policy \<Rightarrow> retry_ordinal \<Rightarrow> duration" where
  "delay_for p retry =
     (let maximum = nzd_get (bp_maximum p);
          multiplier = bp_multiplier p;
          delay = nzd_get (bp_initial p)
      in if multiplier = 1 \<or> delay = maximum then delay
         else delay_loop multiplier maximum (unat (ordinal_get retry) - 1) delay)"

text \<open>The closed form: exponential growth, cut at the maximum.\<close>

definition capped_exponential :: "nat \<Rightarrow> nat \<Rightarrow> nat \<Rightarrow> nat \<Rightarrow> nat" where
  "capped_exponential initial multiplier cap n = min cap (initial * multiplier ^ (n - 1))"

lemma capped_exponential_mono:
  assumes "0 < m" and "k \<le> n"
  shows "capped_exponential i m c k \<le> capped_exponential i m c n"
proof -
  have "m ^ (k - 1) \<le> m ^ (n - 1)" using assms by (intro power_increasing) auto
  then have "i * m ^ (k - 1) \<le> i * m ^ (n - 1)" by simp
  then show ?thesis unfolding capped_exponential_def by linarith
qed

lemma capped_exponential_ge: "0 < m \<Longrightarrow> i \<le> c \<Longrightarrow> i \<le> capped_exponential i m c n"
  by (simp add: capped_exponential_def)

lemma delay_loop_capped:
  assumes "duration_ok maximum" and "delay < maximum" and "multiplier \<noteq> 0"
  shows "delay_loop multiplier maximum n delay = min maximum (delay * unat multiplier ^ n)"
  using assms(2)
proof (induction n arbitrary: delay)
  case 0
  then show ?case by simp
next
  case (Suc n)
  let ?m = "unat multiplier"
  have "0 < ?m" using assms(3) by (simp add: unat_gt_0)
  then have grow: "delay * ?m \<le> delay * (?m * ?m ^ n)" by simp
  show ?case
  proof (cases "delay * ?m < maximum")
    case True
    then have "duration_checked_mul delay multiplier = Some (delay * ?m)"
      using assms(1) by (simp add: checked duration_ok_def)
    with True Suc.IH [OF True] show ?thesis by (simp add: mult.assoc)
  next
    case False
    then have "delay_loop multiplier maximum (Suc n) delay = maximum"
      by (auto simp: checked split: option.split)
    moreover have "maximum \<le> delay * unat multiplier ^ Suc n"
      using False grow by (simp only: power_Suc not_less)
    ultimately show ?thesis by (simp only: min_absorb1)
  qed
qed

lemma delay_for_capped:
  assumes "wf_backoff p" and "wf_ordinal r"
  shows "delay_for p r =
    capped_exponential (nzd_get (bp_initial p)) (unat (bp_multiplier p))
      (nzd_get (bp_maximum p)) (unat (ordinal_get r))"
proof -
  let ?i = "nzd_get (bp_initial p)" and ?c = "nzd_get (bp_maximum p)"
  let ?m = "unat (bp_multiplier p)"
  have le: "?i \<le> ?c" and ok: "duration_ok ?c" and m: "bp_multiplier p \<noteq> 0"
    using assms(1) by (auto simp: wf_backoff_def wf_nzd_def less_eq_non_zero_duration_def)
  have m0: "0 < ?m" using m by (simp add: unat_gt_0)
  consider "bp_multiplier p = 1" | "?i = ?c" | "bp_multiplier p \<noteq> 1" "?i < ?c" using le by linarith
  then show ?thesis
  proof cases
    case 1
    then show ?thesis using le by (simp add: delay_for_def capped_exponential_def)
  next
    case 2
    moreover have "?c \<le> ?c * ?m ^ (unat (ordinal_get r) - 1)" using m0 by simp
    ultimately show ?thesis by (simp add: delay_for_def capped_exponential_def min_def)
  next
    case 3
    then show ?thesis
      using delay_loop_capped [OF ok] m
      by (simp add: delay_for_def capped_exponential_def)
  qed
qed

subsection \<open>Interface: a backoff schedule\<close>

text \<open>
  What a retry loop relies on: the delay of retry \<open>n\<close> (from one) is at least the initial
  delay, at most the cap, and never shrinks.
\<close>

locale backoff_schedule =
  fixes delay :: "'p \<Rightarrow> nat \<Rightarrow> nat"
    and valid :: "'p \<Rightarrow> bool"
    and floor :: "'p \<Rightarrow> nat"
    and cap :: "'p \<Rightarrow> nat"
  assumes delay_floor: "valid p \<Longrightarrow> 1 \<le> n \<Longrightarrow> floor p \<le> delay p n"
    and delay_cap: "valid p \<Longrightarrow> 1 \<le> n \<Longrightarrow> delay p n \<le> cap p"
    and delay_mono: "valid p \<Longrightarrow> 1 \<le> m \<Longrightarrow> m \<le> n \<Longrightarrow> delay p m \<le> delay p n"
begin

lemma total_delay_cap: "valid p \<Longrightarrow> sum_list (map (delay p) [1..<Suc n]) \<le> n * cap p"
proof (induction n)
  case 0
  then show ?case by simp
next
  case (Suc n)
  then have "sum_list (map (delay p) [1..<Suc n]) \<le> n * cap p"
    and "delay p (Suc n) \<le> cap p" by (auto intro: delay_cap)
  then show ?case by simp
qed

lemma total_delay_floor: "valid p \<Longrightarrow> n * floor p \<le> sum_list (map (delay p) [1..<Suc n])"
proof (induction n)
  case 0
  then show ?case by simp
next
  case (Suc n)
  then have "n * floor p \<le> sum_list (map (delay p) [1..<Suc n])"
    and "floor p \<le> delay p (Suc n)" by (auto intro: delay_floor)
  then show ?case by simp
qed

lemma capped_stays: "valid p \<Longrightarrow> 1 \<le> m \<Longrightarrow> delay p m = cap p \<Longrightarrow> m \<le> n \<Longrightarrow> delay p n = cap p"
  by (metis delay_cap delay_mono le_antisym le_trans)

end

text \<open>The delay of the \<open>n\<close>-th retry, for a count that fits the ordinal's \<open>u32\<close>.\<close>

definition delay_at :: "backoff_policy \<Rightarrow> nat \<Rightarrow> duration" where
  "delay_at p n = delay_for p (RetryOrdinal (word_of_nat (min n (2 ^ 32 - 1))))"

lemma delay_at_capped:
  assumes "wf_backoff p" and "1 \<le> n"
  shows "delay_at p n =
    capped_exponential (nzd_get (bp_initial p)) (unat (bp_multiplier p))
      (nzd_get (bp_maximum p)) (min n (2 ^ 32 - 1))"
proof -
  have "unat (word_of_nat (min n (2 ^ 32 - 1)) :: u32) = min n (2 ^ 32 - 1)"
    by (rule unat_word_of_nat_small) (simp add: min_def)
  moreover from this have "wf_ordinal (RetryOrdinal (word_of_nat (min n (2 ^ 32 - 1))))"
    using assms(2) by (simp add: wf_ordinal_pos)
  ultimately show ?thesis using assms(1) by (simp add: delay_at_def delay_for_capped)
qed

interpretation domain_backoff: backoff_schedule delay_at wf_backoff
  "\<lambda>p. nzd_get (bp_initial p)" "\<lambda>p. nzd_get (bp_maximum p)"
proof
  fix p and n :: nat
  assume p: "wf_backoff p" and n: "1 \<le> n"
  then have "0 < unat (bp_multiplier p)" "nzd_get (bp_initial p) \<le> nzd_get (bp_maximum p)"
    by (auto simp: wf_backoff_def unat_gt_0 less_eq_non_zero_duration_def)
  then show "nzd_get (bp_initial p) \<le> delay_at p n"
    using p n by (simp only: delay_at_capped capped_exponential_ge)
  show "delay_at p n \<le> nzd_get (bp_maximum p)"
    using p n by (simp only: delay_at_capped) (simp add: capped_exponential_def)
next
  fix p and m n :: nat
  assume p: "wf_backoff p" and "1 \<le> m" "m \<le> n"
  moreover from this have "0 < unat (bp_multiplier p)" by (simp add: wf_backoff_def unat_gt_0)
  ultimately show "delay_at p m \<le> delay_at p n"
    by (simp only: delay_at_capped) (rule capped_exponential_mono, auto)
qed

section \<open>Service and job policies\<close>

datatype service_retry_limit = Finite u32 | Unlimited

record service_retry_policy =
  srp_limit :: service_retry_limit
  srp_reset_after :: non_zero_duration
  srp_backoff :: backoff_policy

datatype service_restart_policy =
    ServiceNever
  | ServiceOnFailure service_retry_policy
  | ServiceAlways service_retry_policy

record job_retry_policy =
  jrp_max_restarts :: u32
  jrp_backoff :: backoff_policy

datatype job_restart_policy = JobNever | JobOnFailure job_retry_policy

datatype execution_restart_policy =
    ServicePolicy service_restart_policy
  | JobPolicy job_restart_policy

fun wf_limit :: "service_retry_limit \<Rightarrow> bool" where
  "wf_limit (Finite n) = (n \<noteq> 0)"
| "wf_limit Unlimited = True"

definition wf_service_retry :: "service_retry_policy \<Rightarrow> bool" where
  "wf_service_retry p \<longleftrightarrow>
     wf_limit (srp_limit p) \<and> wf_nzd (srp_reset_after p) \<and> wf_backoff (srp_backoff p)"

definition wf_job_retry :: "job_retry_policy \<Rightarrow> bool" where
  "wf_job_retry p \<longleftrightarrow> jrp_max_restarts p \<noteq> 0 \<and> wf_backoff (jrp_backoff p)"

fun wf_restart_policy :: "execution_restart_policy \<Rightarrow> bool" where
  "wf_restart_policy (ServicePolicy ServiceNever) = True"
| "wf_restart_policy (ServicePolicy (ServiceOnFailure p)) = wf_service_retry p"
| "wf_restart_policy (ServicePolicy (ServiceAlways p)) = wf_service_retry p"
| "wf_restart_policy (JobPolicy JobNever) = True"
| "wf_restart_policy (JobPolicy (JobOnFailure p)) = wf_job_retry p"

subsection \<open>Defaults\<close>

definition default_service_max_restarts :: u32 where
  "default_service_max_restarts = 10"

definition default_service_reset_after :: duration where
  "default_service_reset_after = from_secs (5 * 60)"

definition default_backoff_initial :: duration where
  "default_backoff_initial = from_millis 250"

definition default_backoff_multiplier :: u32 where
  "default_backoff_multiplier = 2"

definition default_backoff_maximum :: duration where
  "default_backoff_maximum = from_secs 30"

text \<open>
  The \<open>Default\<close> instances unwrap with \<open>expect\<close>: \<open>None\<close> here is the panic, and
  \<open>default_backoff_is_some\<close> below shows that it cannot happen.
\<close>

definition default_backoff :: "backoff_policy option" where
  "default_backoff =
     Option.bind (nzd_new default_backoff_initial) (\<lambda>initial.
     if default_backoff_multiplier = 0 then None else
     Option.bind (nzd_new default_backoff_maximum) (\<lambda>maximum.
     case backoff_new initial default_backoff_multiplier maximum of
       Inl _ \<Rightarrow> None | Inr p \<Rightarrow> Some p))"

definition default_service_retry :: "service_retry_policy option" where
  "default_service_retry =
     (if default_service_max_restarts = 0 then None else
      Option.bind (nzd_new default_service_reset_after) (\<lambda>reset_after.
      map_option (\<lambda>b. \<lparr>srp_limit = Finite default_service_max_restarts,
                        srp_reset_after = reset_after, srp_backoff = b\<rparr>)
        default_backoff))"

definition default_service_restart :: "service_restart_policy option" where
  "default_service_restart = map_option ServiceOnFailure default_service_retry"

definition default_job_restart :: job_restart_policy where
  "default_job_restart = JobNever"

lemmas default_policy_defs =
  default_service_max_restarts_def default_service_reset_after_def default_backoff_initial_def
  default_backoff_multiplier_def default_backoff_maximum_def from_secs_def from_millis_def
  nanos_per_sec_def

lemma default_backoff_is_some: "\<exists>p. default_backoff = Some p \<and> wf_backoff p"
  by (simp add: default_backoff_def default_policy_defs nzd_new_def backoff_new_def wf_backoff_def
      wf_nzd_def duration_ok_def duration_max_def less_non_zero_duration_def
      less_eq_non_zero_duration_def)

lemma default_service_restart_is_some:
  "\<exists>p. default_service_restart = Some p \<and> wf_restart_policy (ServicePolicy p)"
proof -
  obtain b where b: "default_backoff = Some b" "wf_backoff b"
    using default_backoff_is_some by blast
  then have "default_service_restart = Some (ServiceOnFailure
      \<lparr>srp_limit = Finite 10, srp_reset_after = NonZeroDuration 300000000000, srp_backoff = b\<rparr>)"
    by (simp add: default_service_restart_def default_service_retry_def default_policy_defs
        nzd_new_def)
  moreover have "wf_restart_policy (ServicePolicy (ServiceOnFailure \<lparr>srp_limit = Finite 10,
      srp_reset_after = NonZeroDuration 300000000000, srp_backoff = b\<rparr>))"
    using b by (simp add: default_policy_defs wf_service_retry_def wf_nzd_def duration_ok_def
        duration_max_def)
  ultimately show ?thesis by blast
qed

end
