(* ===== verification/Ids.thy ===== *)
theory Ids
  imports Prelude "HOL-Library.Char_ord" "HOL-Library.List_Lexorder"
begin

text \<open>
  Identifiers of the domain (\<open>crates/domain/src/ids.rs\<close>): the workload identifier with its
  parser, the UUID newtypes, and the numbered newtypes. A Rust \<open>str\<close> is its UTF-8 bytes,
  a \<open>string\<close> here (a HOL \<open>char\<close> is one byte), so \<open>len\<close> and byte positions agree.
\<close>

section \<open>ASCII classes\<close>

definition is_ascii_lowercase :: "char \<Rightarrow> bool" where
  "is_ascii_lowercase c \<longleftrightarrow> 97 \<le> (of_char c :: nat) \<and> (of_char c :: nat) \<le> 122"

definition is_ascii_uppercase :: "char \<Rightarrow> bool" where
  "is_ascii_uppercase c \<longleftrightarrow> 65 \<le> (of_char c :: nat) \<and> (of_char c :: nat) \<le> 90"

definition is_ascii_digit :: "char \<Rightarrow> bool" where
  "is_ascii_digit c \<longleftrightarrow> 48 \<le> (of_char c :: nat) \<and> (of_char c :: nat) \<le> 57"

text \<open>\<open>Iterator::position\<close>: the index of the first element that satisfies the test.\<close>

fun position :: "('a \<Rightarrow> bool) \<Rightarrow> 'a list \<Rightarrow> nat option" where
  "position p [] = None"
| "position p (x # xs) = (if p x then Some 0 else map_option Suc (position p xs))"

lemma position_None: "position p xs = None \<longleftrightarrow> (\<forall>x \<in> set xs. \<not> p x)"
  by (induction xs) auto

lemma position_Some:
  "position p xs = Some i \<longleftrightarrow> i < length xs \<and> p (xs ! i) \<and> (\<forall>j < i. \<not> p (xs ! j))"
proof (induction xs arbitrary: i)
  case Nil
  then show ?case by simp
next
  case (Cons x xs)
  show ?case
  proof (cases "p x")
    case True
    then show ?thesis by (cases i) (auto dest: spec [of _ 0])
  next
    case False
    with Cons.IH show ?thesis by (cases i) (auto simp: less_Suc_eq_0_disj)
  qed
qed

section \<open>Workload identifiers\<close>

definition max_workload_id_bytes :: nat where
  "max_workload_id_bytes = 128"

datatype workload_id = WorkloadId (workload_id_str: string)

datatype invalid_workload_id = Empty | TooLong | InvalidBoundary | InvalidCharacter nat

definition id_boundary_char :: "char \<Rightarrow> bool" where
  "id_boundary_char c \<longleftrightarrow> is_ascii_lowercase c \<or> is_ascii_digit c"

definition id_char :: "char \<Rightarrow> bool" where
  "id_char c \<longleftrightarrow> is_ascii_lowercase c \<or> is_ascii_digit c \<or>
     c = CHR ''-'' \<or> c = CHR ''_'' \<or> c = CHR ''.''"

definition workload_id_parse :: "string \<Rightarrow> invalid_workload_id + workload_id" where
  "workload_id_parse value =
     (case value of
        [] \<Rightarrow> Inl Empty
      | first # _ \<Rightarrow>
          if length value > max_workload_id_bytes then Inl TooLong
          else if \<not> is_ascii_lowercase first \<and> \<not> is_ascii_digit first then Inl InvalidBoundary
          else if \<not> is_ascii_lowercase (last value) \<and> \<not> is_ascii_digit (last value)
            then Inl InvalidBoundary
          else (case position (\<lambda>byte. \<not> is_ascii_lowercase byte \<and> \<not> is_ascii_digit byte \<and>
                        \<not> (byte = CHR ''-'' \<or> byte = CHR ''_'' \<or> byte = CHR ''.'')) value of
                  Some index \<Rightarrow> Inl (InvalidCharacter index)
                | None \<Rightarrow> Inr (WorkloadId value)))"

definition valid_workload_id :: "string \<Rightarrow> bool" where
  "valid_workload_id v \<longleftrightarrow>
     v \<noteq> [] \<and> length v \<le> max_workload_id_bytes \<and>
     id_boundary_char (hd v) \<and> id_boundary_char (last v) \<and> (\<forall>c \<in> set v. id_char c)"

lemma position_id_char:
  "position (\<lambda>byte. \<not> is_ascii_lowercase byte \<and> \<not> is_ascii_digit byte \<and>
      \<not> (byte = CHR ''-'' \<or> byte = CHR ''_'' \<or> byte = CHR ''.'')) v =
   position (\<lambda>c. \<not> id_char c) v"
  by (rule arg_cong [where f = "\<lambda>p. position p v"]) (auto simp: id_char_def)

lemma workload_id_parse_alt:
  "workload_id_parse v =
     (if v = [] then Inl Empty
      else if length v > max_workload_id_bytes then Inl TooLong
      else if \<not> (id_boundary_char (hd v) \<and> id_boundary_char (last v)) then Inl InvalidBoundary
      else case position (\<lambda>c. \<not> id_char c) v of
             Some index \<Rightarrow> Inl (InvalidCharacter index) | None \<Rightarrow> Inr (WorkloadId v))"
  unfolding workload_id_parse_def position_id_char
  by (cases v) (auto simp: id_boundary_char_def)

lemma workload_id_parse_Inr:
  "workload_id_parse v = Inr w \<longleftrightarrow> valid_workload_id v \<and> w = WorkloadId v"
  by (auto simp: workload_id_parse_alt valid_workload_id_def position_None position_Some
      split: option.split)

lemma workload_id_parse_InvalidCharacter:
  "workload_id_parse v = Inl (InvalidCharacter i) \<longleftrightarrow>
     v \<noteq> [] \<and> length v \<le> max_workload_id_bytes \<and> id_boundary_char (hd v) \<and>
     id_boundary_char (last v) \<and> i < length v \<and> \<not> id_char (v ! i) \<and>
     (\<forall>j < i. id_char (v ! j))"
proof -
  have "workload_id_parse v = Inl (InvalidCharacter i) \<longleftrightarrow>
     v \<noteq> [] \<and> length v \<le> max_workload_id_bytes \<and> id_boundary_char (hd v) \<and>
     id_boundary_char (last v) \<and> position (\<lambda>c. \<not> id_char c) v = Some i"
    by (auto simp: workload_id_parse_alt not_less split: option.split)
  then show ?thesis by (simp add: position_Some)
qed

instantiation workload_id :: linorder
begin

definition less_eq_workload_id :: "workload_id \<Rightarrow> workload_id \<Rightarrow> bool" where
  "less_eq_workload_id a b \<longleftrightarrow> workload_id_str a \<le> workload_id_str b"

definition less_workload_id :: "workload_id \<Rightarrow> workload_id \<Rightarrow> bool" where
  "less_workload_id a b \<longleftrightarrow> workload_id_str a < workload_id_str b"

instance
  by standard (auto simp: less_eq_workload_id_def less_workload_id_def intro: workload_id.expand)

end

section \<open>UUID and hash newtypes\<close>

type_synonym uuid = "128 word"

datatype manager_session_id = ManagerSessionId (manager_session_uuid: uuid)

datatype execution_id = ExecutionId (execution_uuid: uuid)

datatype supervisor_id = SupervisorId (supervisor_uuid: uuid)

text \<open>The hash newtypes hold the 32 bytes of a SHA-256 digest.\<close>

datatype config_generation = ConfigGeneration (generation_bytes: "u8 list")

datatype process_definition_hash = ProcessDefinitionHash (process_hash_bytes: "u8 list")

datatype execution_config_hash = ExecutionConfigHash (execution_hash_bytes: "u8 list")

section \<open>Numbered newtypes\<close>

datatype supervisor_incarnation = SupervisorIncarnation (incarnation_get: u32)

definition incarnation_first :: supervisor_incarnation where
  "incarnation_first = SupervisorIncarnation 1"

definition incarnation_new :: "u32 \<Rightarrow> supervisor_incarnation option" where
  "incarnation_new value = (if value \<noteq> 0 then Some (SupervisorIncarnation value) else None)"

definition incarnation_next :: "supervisor_incarnation \<Rightarrow> supervisor_incarnation option" where
  "incarnation_next i = Option.bind (checked_add (incarnation_get i) 1) incarnation_new"

datatype intent_revision = IntentRevision (revision_get: u64)

definition revision_new :: "u64 \<Rightarrow> intent_revision option" where
  "revision_new value = (if value \<noteq> 0 then Some (IntentRevision value) else None)"

definition revision_next :: "intent_revision \<Rightarrow> intent_revision option" where
  "revision_next r = Option.bind (checked_add (revision_get r) 1) revision_new"

datatype attempt_number = AttemptNumber (attempt_get: u32)

definition attempt_first :: attempt_number where
  "attempt_first = AttemptNumber 1"

definition attempt_new :: "u32 \<Rightarrow> attempt_number option" where
  "attempt_new value = (if value \<noteq> 0 then Some (AttemptNumber value) else None)"

definition attempt_next :: "attempt_number \<Rightarrow> attempt_number option" where
  "attempt_next a = Option.bind (checked_add (attempt_get a) 1) attempt_new"

datatype observation_sequence = ObservationSequence (sequence_get: u64)

definition sequence_initial :: observation_sequence where
  "sequence_initial = ObservationSequence 0"

definition sequence_next :: "observation_sequence \<Rightarrow> observation_sequence option" where
  "sequence_next s = map_option ObservationSequence (checked_add (sequence_get s) 1)"

interpretation incarnation:
  nonzero_counter SupervisorIncarnation incarnation_get incarnation_new incarnation_next
  by unfold_locales (auto simp: incarnation_new_def incarnation_next_def)

interpretation revision: nonzero_counter IntentRevision revision_get revision_new revision_next
  by unfold_locales (auto simp: revision_new_def revision_next_def)

interpretation attempt: nonzero_counter AttemptNumber attempt_get attempt_new attempt_next
  by unfold_locales (auto simp: attempt_new_def attempt_next_def)

lemma sequence_next_Some:
  "sequence_next s = Some t \<longleftrightarrow> unat (sequence_get t) = unat (sequence_get s) + 1"
  by (cases t) (auto simp: sequence_next_def checked)

end
