(* ===== verification/Execution.thy ===== *)
theory Execution
  imports Transition Restart Ids
begin

text \<open>
  The execution state machine (\<open>crates/domain/src/execution.rs\<close>): one logical run of a
  workload with its attempts, its restart decisions and its stop escalation. The
  definitions follow the source's functions one by one; \<open>execution_transition\<close> dispatches
  an event to them. The second half holds the well-formedness invariant, what each operation
  does on each branch, and the facts about runs that the properties rest on.
\<close>

section \<open>Data\<close>

datatype exit_code = ExitCode (exit_code_get: u32)

datatype win32_error_code = Win32ErrorCode (win32_get: u32)

datatype job_execution_origin =
    Manual
  | EnabledOrigin manager_session_id
  | RerunOf execution_id

datatype execution_origin = ServiceIntent intent_revision | JobOrigin job_execution_origin

datatype preflight_failure =
    EnvironmentVariableMissing
  | ExecutableNotFound
  | WorkingDirectoryUnavailable
  | CommandLineTooLong

datatype launch_failure = Preflight preflight_failure | Win32 win32_error_code

datatype attempt_end =
    EndLaunchFailed launch_failure
  | EndExited exit_code duration
  | EndKilled
  | EndSupervisorLost

datatype service_stop_cause = ServiceStop | ServiceRestart | ServiceSessionEnded

datatype job_cancel_cause = JobCancel | JobRerun | JobSessionEnded

datatype stop_cause = ServiceCause service_stop_cause | JobCause job_cancel_cause

datatype stop_plan = CtrlBreak duration | Command duration | Kill

datatype stop_phase = AwaitingLaunch stop_deadline | Graceful stop_deadline | Killing

datatype execution_failure = AttemptFailure attempt_number attempt_end | SupervisorUnavailable

datatype infrastructure_failure = InfraSupervisorLost attempt_number

datatype execution_outcome =
    Completed exit_code
  | Failed execution_failure
  | OutcomeUnknown infrastructure_failure
  | Stopped service_stop_cause bool
  | Cancelled job_cancel_cause bool

datatype execution_phase =
    Launching attempt_number
  | Running attempt_number
  | RestartBackoff attempt_number attempt_end attempt_number retry_ordinal retry_deadline
  | Stopping attempt_number stop_phase stop_cause stop_plan
  | Terminal execution_outcome

record execution_state =
  es_id :: execution_id
  es_workload_id :: workload_id
  es_origin :: execution_origin
  es_source_definition :: process_definition_hash
  es_execution_config :: execution_config_hash
  es_success_exit_codes :: "exit_code set"
  es_restart_policy :: execution_restart_policy
  es_last_retry :: "retry_ordinal option"
  es_phase :: execution_phase

datatype execution_event =
    LaunchSucceeded attempt_number boot_instant
  | LaunchFailed attempt_number launch_failure boot_instant
  | ProcessExited attempt_number exit_code duration boot_instant
  | StopRequested stop_cause stop_plan boot_instant
  | RestartDeadlineReached retry_deadline
  | StopDeadlineReached stop_deadline
  | RestartPolicyChanged execution_restart_policy
  | SuccessExitCodesChanged "exit_code set"
  | SupervisorLost boot_instant

datatype execution_effect =
    LaunchAttempt attempt_number
  | ScheduleRestart retry_deadline
  | SendCtrlBreak
  | RunStopCommand
  | ScheduleStopDeadline stop_deadline
  | TerminateJobObject
  | PublishTerminal execution_outcome

datatype execution_transition_error =
    UnexpectedEvent
  | StaleAttempt
  | StaleDeadline
  | AttemptOverflow
  | RetryOverflow
  | DeadlineOverflow
  | PolicyKindMismatch

type_synonym exec_transition = "(execution_state, execution_effect) transition"
type_synonym execution_result = "execution_transition_error + exec_transition"

section \<open>Operations\<close>

definition exec_terminal :: "execution_state \<Rightarrow> execution_outcome \<Rightarrow> exec_transition" where
  "exec_terminal s outcome =
     transition_new (s\<lparr>es_phase := Terminal outcome\<rparr>) [PublishTerminal outcome]"

definition finish_stop :: "execution_state \<Rightarrow> stop_cause \<Rightarrow> bool \<Rightarrow> exec_transition" where
  "finish_stop s cause forced =
     exec_terminal s (case cause of
         ServiceCause c \<Rightarrow> Stopped c forced
       | JobCause c \<Rightarrow> Cancelled c forced)"

definition finish_terminal ::
  "execution_state \<Rightarrow> attempt_number \<Rightarrow> attempt_end \<Rightarrow> exec_transition"
where
  "finish_terminal s attempt end =
     exec_terminal s
       (case end of
          EndExited exit_code ran_for \<Rightarrow>
            if exit_code \<in> es_success_exit_codes s then Completed exit_code
            else Failed (AttemptFailure attempt end)
        | _ \<Rightarrow> Failed (AttemptFailure attempt end))"

definition exec_stop_deadline ::
  "boot_instant \<Rightarrow> duration \<Rightarrow> execution_transition_error + stop_deadline"
where
  "exec_stop_deadline at timeout =
     ok_or DeadlineOverflow (map_option StopDeadline (boot_checked_add at timeout))"

definition validate_stop_cause ::
  "execution_state \<Rightarrow> stop_cause \<Rightarrow> execution_transition_error + unit"
where
  "validate_stop_cause s cause =
     (case (es_origin s, cause) of
        (ServiceIntent _, ServiceCause _) \<Rightarrow> Inr ()
      | (JobOrigin _, JobCause _) \<Rightarrow> Inr ()
      | _ \<Rightarrow> Inl UnexpectedEvent)"

definition validate_policy_kind ::
  "execution_state \<Rightarrow> execution_restart_policy \<Rightarrow> execution_transition_error + unit"
where
  "validate_policy_kind s policy =
     (case (es_origin s, policy) of
        (ServiceIntent _, ServicePolicy _) \<Rightarrow> Inr ()
      | (JobOrigin _, JobPolicy _) \<Rightarrow> Inr ()
      | _ \<Rightarrow> Inl PolicyKindMismatch)"

definition exec_backoff :: "execution_state \<Rightarrow> execution_transition_error + backoff_policy" where
  "exec_backoff s =
     (case (es_origin s, es_restart_policy s) of
        (ServiceIntent _, ServicePolicy (ServiceOnFailure p)) \<Rightarrow> Inr (srp_backoff p)
      | (ServiceIntent _, ServicePolicy (ServiceAlways p)) \<Rightarrow> Inr (srp_backoff p)
      | (JobOrigin _, JobPolicy (JobOnFailure p)) \<Rightarrow> Inr (jrp_backoff p)
      | _ \<Rightarrow> Inl PolicyKindMismatch)"

fun within_limit :: "service_retry_limit \<Rightarrow> retry_ordinal \<Rightarrow> bool" where
  "within_limit (Finite maximum) retry = (ordinal_get retry \<le> maximum)"
| "within_limit Unlimited retry = True"

definition policy_permits ::
  "execution_state \<Rightarrow> attempt_end \<Rightarrow> retry_ordinal \<Rightarrow> execution_transition_error + bool"
where
  "policy_permits s end retry =
     (let failed = (case end of
                      EndExited exit_code _ \<Rightarrow> exit_code \<notin> es_success_exit_codes s
                    | _ \<Rightarrow> True)
      in case (es_origin s, es_restart_policy s) of
           (ServiceIntent _, ServicePolicy policy) \<Rightarrow>
             (case policy of
                ServiceNever \<Rightarrow> Inr False
              | ServiceOnFailure p \<Rightarrow>
                  if failed then Inr (within_limit (srp_limit p) retry) else Inr False
              | ServiceAlways p \<Rightarrow> Inr (within_limit (srp_limit p) retry))
         | (JobOrigin _, JobPolicy policy) \<Rightarrow>
             (case policy of
                JobNever \<Rightarrow> Inr False
              | JobOnFailure p \<Rightarrow> Inr (failed \<and> ordinal_get retry \<le> jrp_max_restarts p))
         | _ \<Rightarrow> Inl PolicyKindMismatch)"

text \<open>The \<open>if let\<close> at the head of \<open>finish_attempt\<close>: a stable service run resets the count.\<close>

definition reset_after_stable_run :: "execution_state \<Rightarrow> attempt_end \<Rightarrow> execution_state" where
  "reset_after_stable_run s end =
     (case (es_origin s, end, es_restart_policy s) of
        (ServiceIntent _, EndExited _ ran_for, ServicePolicy (ServiceOnFailure p)) \<Rightarrow>
          if nzd_get (srp_reset_after p) \<le> ran_for then s\<lparr>es_last_retry := None\<rparr> else s
      | (ServiceIntent _, EndExited _ ran_for, ServicePolicy (ServiceAlways p)) \<Rightarrow>
          if nzd_get (srp_reset_after p) \<le> ran_for then s\<lparr>es_last_retry := None\<rparr> else s
      | _ \<Rightarrow> s)"

definition finish_attempt ::
  "execution_state \<Rightarrow> attempt_number \<Rightarrow> attempt_end \<Rightarrow> boot_instant \<Rightarrow> execution_result"
where
  "finish_attempt s0 attempt end at =
     (let s = reset_after_stable_run s0 end in
      and_then
        (case es_last_retry s of
           Some previous \<Rightarrow> ok_or RetryOverflow (ordinal_next previous)
         | None \<Rightarrow> Inr ordinal_first) (\<lambda>retry.
      and_then (policy_permits s end retry) (\<lambda>permitted.
      if \<not> permitted then Inr (finish_terminal s attempt end)
      else
        and_then (ok_or AttemptOverflow (attempt_next attempt)) (\<lambda>next_attempt.
        and_then (exec_backoff s) (\<lambda>backoff.
        and_then (ok_or DeadlineOverflow
                    (boot_checked_add at (delay_for backoff retry))) (\<lambda>instant.
        let retry_at = RetryDeadline instant in
        Inr (transition_new
               (s\<lparr>es_last_retry := Some retry,
                  es_phase := RestartBackoff attempt end next_attempt retry retry_at\<rparr>)
               [ScheduleRestart retry_at])))))))"

definition launch_succeeded :: "execution_state \<Rightarrow> attempt_number \<Rightarrow> execution_result" where
  "launch_succeeded s attempt =
     (case es_phase s of
        Launching current \<Rightarrow>
          if current = attempt
          then Inr (without_effects (s\<lparr>es_phase := Running attempt\<rparr>))
          else Inl StaleAttempt
      | Stopping current (AwaitingLaunch deadline) cause plan \<Rightarrow>
          if current = attempt
          then (let s' = s\<lparr>es_phase := Stopping attempt (Graceful deadline) cause plan\<rparr> in
                case plan of
                  CtrlBreak _ \<Rightarrow> Inr (transition_new s' [SendCtrlBreak])
                | Command _ \<Rightarrow> Inr (transition_new s' [RunStopCommand])
                | Kill \<Rightarrow> Inl UnexpectedEvent)
          else Inl StaleAttempt
      | Stopping current _ _ _ \<Rightarrow>
          if current \<noteq> attempt then Inl StaleAttempt else Inl UnexpectedEvent
      | _ \<Rightarrow> Inl UnexpectedEvent)"

definition launch_failed ::
  "execution_state \<Rightarrow> attempt_number \<Rightarrow> launch_failure \<Rightarrow> boot_instant \<Rightarrow> execution_result"
where
  "launch_failed s attempt failure at =
     (case es_phase s of
        Launching current \<Rightarrow>
          if current = attempt then finish_attempt s attempt (EndLaunchFailed failure) at
          else Inl StaleAttempt
      | Stopping current _ cause _ \<Rightarrow>
          if current = attempt then Inr (finish_stop s cause False) else Inl StaleAttempt
      | _ \<Rightarrow> Inl UnexpectedEvent)"

definition process_exited ::
  "execution_state \<Rightarrow> attempt_number \<Rightarrow> exit_code \<Rightarrow> duration \<Rightarrow> boot_instant \<Rightarrow> execution_result"
where
  "process_exited s attempt exit_code ran_for at =
     (case es_phase s of
        Running current \<Rightarrow>
          if current = attempt then finish_attempt s attempt (EndExited exit_code ran_for) at
          else Inl StaleAttempt
      | Stopping current phase cause _ \<Rightarrow>
          if current = attempt then Inr (finish_stop s cause (phase = Killing))
          else Inl StaleAttempt
      | _ \<Rightarrow> Inl UnexpectedEvent)"

text \<open>
  In the graceful arms of \<open>stop_requested\<close> the plan is \<open>CtrlBreak\<close> or \<open>Command\<close>, so the
  inner \<open>match\<close> on it never meets its \<open>unreachable!\<close> arm.
\<close>

definition stop_requested ::
  "execution_state \<Rightarrow> stop_cause \<Rightarrow> stop_plan \<Rightarrow> boot_instant \<Rightarrow> execution_result"
where
  "stop_requested s cause plan at =
     and_then (validate_stop_cause s cause) (\<lambda>_.
       (let awaiting_launch = (\<lambda>attempt timeout.
              and_then (exec_stop_deadline at timeout) (\<lambda>deadline.
                Inr (transition_new
                  (s\<lparr>es_phase := Stopping attempt (AwaitingLaunch deadline) cause plan\<rparr>)
                  [ScheduleStopDeadline deadline])));
            graceful = (\<lambda>attempt timeout stop_effect.
              and_then (exec_stop_deadline at timeout) (\<lambda>deadline.
                Inr (transition_new
                  (s\<lparr>es_phase := Stopping attempt (Graceful deadline) cause plan\<rparr>)
                  [stop_effect, ScheduleStopDeadline deadline])));
            kill = (\<lambda>attempt.
              Inr (transition_new (s\<lparr>es_phase := Stopping attempt Killing cause plan\<rparr>)
                [TerminateJobObject]))
        in case es_phase s of
             Launching attempt \<Rightarrow>
               (case plan of
                  Kill \<Rightarrow> kill attempt
                | CtrlBreak timeout \<Rightarrow> awaiting_launch attempt timeout
                | Command timeout \<Rightarrow> awaiting_launch attempt timeout)
           | Running attempt \<Rightarrow>
               (case plan of
                  Kill \<Rightarrow> kill attempt
                | CtrlBreak timeout \<Rightarrow> graceful attempt timeout SendCtrlBreak
                | Command timeout \<Rightarrow> graceful attempt timeout RunStopCommand)
           | RestartBackoff _ _ _ _ _ \<Rightarrow> Inr (finish_stop s cause False)
           | Stopping _ _ _ _ \<Rightarrow> Inr (without_effects s)
           | Terminal _ \<Rightarrow> Inr (without_effects s)))"

definition restart_deadline_reached :: "execution_state \<Rightarrow> retry_deadline \<Rightarrow> execution_result" where
  "restart_deadline_reached s deadline =
     (case es_phase s of
        RestartBackoff _ _ next_attempt _ retry_at \<Rightarrow>
          if retry_at = deadline
          then Inr (transition_new (s\<lparr>es_phase := Launching next_attempt\<rparr>)
                 [LaunchAttempt next_attempt])
          else Inl StaleDeadline
      | _ \<Rightarrow> Inl UnexpectedEvent)"

definition stop_deadline_reached :: "execution_state \<Rightarrow> stop_deadline \<Rightarrow> execution_result" where
  "stop_deadline_reached s deadline =
     (let escalate = (\<lambda>attempt current cause plan.
            if current = deadline
            then Inr (transition_new (s\<lparr>es_phase := Stopping attempt Killing cause plan\<rparr>)
                   [TerminateJobObject])
            else Inl StaleDeadline)
      in case es_phase s of
           Stopping attempt (AwaitingLaunch current) cause plan \<Rightarrow>
             escalate attempt current cause plan
         | Stopping attempt (Graceful current) cause plan \<Rightarrow> escalate attempt current cause plan
         | Stopping _ Killing _ _ \<Rightarrow> Inr (without_effects s)
         | _ \<Rightarrow> Inl UnexpectedEvent)"

definition reconsider_backoff :: "execution_state \<Rightarrow> execution_result" where
  "reconsider_backoff s =
     (case es_phase s of
        RestartBackoff previous_attempt previous_end _ retry _ \<Rightarrow>
          and_then (policy_permits s previous_end retry) (\<lambda>permitted.
            if permitted then Inr (without_effects s)
            else Inr (finish_terminal s previous_attempt previous_end))
      | _ \<Rightarrow> Inr (without_effects s))"

definition restart_policy_changed ::
  "execution_state \<Rightarrow> execution_restart_policy \<Rightarrow> execution_result"
where
  "restart_policy_changed s policy =
     and_then (validate_policy_kind s policy) (\<lambda>_.
       reconsider_backoff (s\<lparr>es_restart_policy := policy\<rparr>))"

definition success_exit_codes_changed :: "execution_state \<Rightarrow> exit_code set \<Rightarrow> execution_result" where
  "success_exit_codes_changed s codes = reconsider_backoff (s\<lparr>es_success_exit_codes := codes\<rparr>)"

definition supervisor_lost :: "execution_state \<Rightarrow> boot_instant \<Rightarrow> execution_result" where
  "supervisor_lost s at =
     (let lost = (\<lambda>attempt.
            case es_origin s of
              JobOrigin _ \<Rightarrow> Inr (exec_terminal s (OutcomeUnknown (InfraSupervisorLost attempt)))
            | ServiceIntent _ \<Rightarrow> finish_attempt s attempt EndSupervisorLost at)
      in case es_phase s of
           Launching attempt \<Rightarrow> lost attempt
         | Running attempt \<Rightarrow> lost attempt
         | Stopping _ _ cause _ \<Rightarrow> Inr (finish_stop s cause True)
         | RestartBackoff _ _ _ _ _ \<Rightarrow> Inl UnexpectedEvent
         | Terminal _ \<Rightarrow> Inr (without_effects s))"

fun execution_transition :: "execution_state \<Rightarrow> execution_event \<Rightarrow> execution_result" where
  "execution_transition s (LaunchSucceeded attempt _) = launch_succeeded s attempt"
| "execution_transition s (LaunchFailed attempt failure at) = launch_failed s attempt failure at"
| "execution_transition s (ProcessExited attempt exit_code ran_for at) =
     process_exited s attempt exit_code ran_for at"
| "execution_transition s (StopRequested cause plan at) = stop_requested s cause plan at"
| "execution_transition s (RestartDeadlineReached deadline) = restart_deadline_reached s deadline"
| "execution_transition s (StopDeadlineReached deadline) = stop_deadline_reached s deadline"
| "execution_transition s (RestartPolicyChanged policy) = restart_policy_changed s policy"
| "execution_transition s (SuccessExitCodesChanged codes) = success_exit_codes_changed s codes"
| "execution_transition s (SupervisorLost at) = supervisor_lost s at"

text \<open>
  A step is an accepted event. The retry limits inside an event's policy are \<open>NonZero\<close> in
  the source; \<open>typed_event\<close> says what that type guarantees.
\<close>

fun typed_event :: "execution_event \<Rightarrow> bool" where
  "typed_event (RestartPolicyChanged policy) = wf_restart_policy policy"
| "typed_event _ = True"

inductive execution_step ::
  "execution_state \<Rightarrow> execution_effect list \<Rightarrow> execution_state \<Rightarrow> bool"
where
  accepted: "typed_event event \<Longrightarrow> execution_transition s event = Inr t \<Longrightarrow>
    execution_step s (tr_effects t) (tr_state t)"

inductive_cases execution_stepE: "execution_step s effs s'"

section \<open>Well-formed executions\<close>

fun is_job_origin :: "execution_origin \<Rightarrow> bool" where
  "is_job_origin (JobOrigin _) = True"
| "is_job_origin (ServiceIntent _) = False"

fun is_job_policy :: "execution_restart_policy \<Rightarrow> bool" where
  "is_job_policy (JobPolicy _) = True"
| "is_job_policy (ServicePolicy _) = False"

fun is_job_cause :: "stop_cause \<Rightarrow> bool" where
  "is_job_cause (JobCause _) = True"
| "is_job_cause (ServiceCause _) = False"

abbreviation is_job :: "execution_state \<Rightarrow> bool" where
  "is_job s \<equiv> is_job_origin (es_origin s)"

text \<open>How many retries count against the limit, and how many attempts have begun.\<close>

definition retries_used :: "execution_state \<Rightarrow> nat" where
  "retries_used s = (case es_last_retry s of None \<Rightarrow> 0 | Some r \<Rightarrow> unat (ordinal_get r))"

fun attempts_begun :: "execution_phase \<Rightarrow> nat option" where
  "attempts_begun (Launching a) = Some (unat (attempt_get a))"
| "attempts_begun (Running a) = Some (unat (attempt_get a))"
| "attempts_begun (RestartBackoff a _ _ _ _) = Some (unat (attempt_get a))"
| "attempts_begun (Stopping a _ _ _) = Some (unat (attempt_get a))"
| "attempts_begun (Terminal _) = None"

fun wf_outcome :: "bool \<Rightarrow> execution_outcome \<Rightarrow> bool" where
  "wf_outcome job (Stopped _ _) = (\<not> job)"
| "wf_outcome job (Cancelled _ _) = job"
| "wf_outcome job (OutcomeUnknown _) = job"
| "wf_outcome job (Failed (AttemptFailure _ end)) = (job \<longrightarrow> end \<noteq> EndSupervisorLost)"
| "wf_outcome job _ = True"

definition retries_match :: "execution_state \<Rightarrow> nat \<Rightarrow> bool" where
  "retries_match s restarts =
     (if is_job s then restarts = retries_used s else retries_used s \<le> restarts)"

fun wf_phase :: "execution_state \<Rightarrow> execution_phase \<Rightarrow> bool" where
  "wf_phase s (Launching a) = (0 < unat (attempt_get a) \<and> retries_match s (unat (attempt_get a) - 1))"
| "wf_phase s (Running a) = (0 < unat (attempt_get a) \<and> retries_match s (unat (attempt_get a) - 1))"
| "wf_phase s (RestartBackoff a end next retry _) =
     (0 < unat (attempt_get a) \<and> attempt_next a = Some next \<and> es_last_retry s = Some retry \<and>
      retries_match s (unat (attempt_get a)) \<and> (is_job s \<longrightarrow> end \<noteq> EndSupervisorLost) \<and>
      policy_permits s end retry = Inr True)"
| "wf_phase s (Stopping a phase cause plan) =
     (0 < unat (attempt_get a) \<and> is_job_cause cause = is_job s \<and> (plan = Kill \<longrightarrow> phase = Killing))"
| "wf_phase s (Terminal outcome) = wf_outcome (is_job s) outcome"

definition wf_execution :: "execution_state \<Rightarrow> bool" where
  "wf_execution s \<longleftrightarrow>
     is_job_policy (es_restart_policy s) = is_job s \<and> wf_restart_policy (es_restart_policy s) \<and>
     pred_option wf_ordinal (es_last_retry s) \<and> wf_phase s (es_phase s)"

text \<open>A new execution: its first attempt is being launched and no retry was used.\<close>

definition fresh_execution :: "execution_state \<Rightarrow> bool" where
  "fresh_execution s \<longleftrightarrow>
     es_phase s = Launching attempt_first \<and> es_last_retry s = None \<and>
     is_job_policy (es_restart_policy s) = is_job s \<and> wf_restart_policy (es_restart_policy s)"

lemma unat_attempt_first [simp]: "unat (attempt_get attempt_first) = 1"
  by (simp add: attempt_first_def)

lemma fresh_wf: "fresh_execution s \<Longrightarrow> wf_execution s"
  by (simp add: fresh_execution_def wf_execution_def retries_match_def retries_used_def)

section \<open>What the operations do\<close>

named_theorems exec_op \<open>definitions of the operations of an execution\<close>

lemmas [exec_op] =
  launch_succeeded_def launch_failed_def process_exited_def stop_requested_def
  restart_deadline_reached_def stop_deadline_reached_def reconsider_backoff_def
  restart_policy_changed_def success_exit_codes_changed_def supervisor_lost_def

lemma reset_after_stable_run_sel [simp]:
  "es_id (reset_after_stable_run s end) = es_id s"
  "es_origin (reset_after_stable_run s end) = es_origin s"
  "es_restart_policy (reset_after_stable_run s end) = es_restart_policy s"
  "es_success_exit_codes (reset_after_stable_run s end) = es_success_exit_codes s"
  "es_phase (reset_after_stable_run s end) = es_phase s"
  by (auto simp: reset_after_stable_run_def split: execution_origin.splits attempt_end.splits
      execution_restart_policy.splits service_restart_policy.splits)

lemma reset_after_stable_run_job: "is_job s \<Longrightarrow> reset_after_stable_run s end = s"
  by (cases "es_origin s") (simp_all add: reset_after_stable_run_def)

lemma reset_after_stable_run_last:
  "reset_after_stable_run s end = s \<or> reset_after_stable_run s end = s\<lparr>es_last_retry := None\<rparr>"
  by (auto simp: reset_after_stable_run_def split: execution_origin.splits attempt_end.splits
      execution_restart_policy.splits service_restart_policy.splits)

lemma policy_permits_cong:
  "es_origin s = es_origin s' \<Longrightarrow> es_restart_policy s = es_restart_policy s' \<Longrightarrow>
   es_success_exit_codes s = es_success_exit_codes s' \<Longrightarrow>
   policy_permits s end retry = policy_permits s' end retry"
  by (cases "end") (simp_all add: policy_permits_def)

lemma policy_permits_total:
  "is_job_policy (es_restart_policy s) = is_job s \<Longrightarrow> \<exists>b. policy_permits s end retry = Inr b"
  by (cases "es_origin s"; cases "es_restart_policy s")
    (auto simp: policy_permits_def Let_def
      split: service_restart_policy.splits job_restart_policy.splits)

lemma exec_backoff_permitted:
  "policy_permits s end retry = Inr True \<Longrightarrow> wf_restart_policy (es_restart_policy s) \<Longrightarrow>
   \<exists>b. exec_backoff s = Inr b \<and> wf_backoff b"
  by (auto simp: policy_permits_def exec_backoff_def Let_def wf_service_retry_def wf_job_retry_def
      split: execution_origin.splits execution_restart_policy.splits
        service_restart_policy.splits job_restart_policy.splits if_splits)

text \<open>The retry that \<open>finish_attempt\<close> asks the policy about.\<close>

definition upcoming_retry :: "execution_state \<Rightarrow> retry_ordinal option" where
  "upcoming_retry s = (case es_last_retry s of
     Some previous \<Rightarrow> ordinal_next previous | None \<Rightarrow> Some ordinal_first)"

lemma upcoming_retry_Some:
  "upcoming_retry s = Some r \<Longrightarrow> wf_ordinal r \<and> unat (ordinal_get r) = retries_used s + 1"
  by (auto simp: upcoming_retry_def retries_used_def ordinal_next_Some wf_ordinal_pos
      split: option.splits)

lemma finish_attempt_cases:
  assumes "finish_attempt s a end at = Inr t"
  obtains (declined) retry where
    "upcoming_retry (reset_after_stable_run s end) = Some retry"
    "policy_permits s end retry = Inr False"
    "t = finish_terminal (reset_after_stable_run s end) a end"
  | (scheduled) retry later pol instant where
    "upcoming_retry (reset_after_stable_run s end) = Some retry"
    "policy_permits s end retry = Inr True"
    "attempt_next a = Some later"
    "exec_backoff s = Inr pol"
    "boot_checked_add at (delay_for pol retry) = Some instant"
    "t = transition_new
       ((reset_after_stable_run s end)\<lparr>es_last_retry := Some retry,
          es_phase := RestartBackoff a end later retry (RetryDeadline instant)\<rparr>)
       [ScheduleRestart (RetryDeadline instant)]"
proof -
  let ?s = "reset_after_stable_run s end"
  have permits: "policy_permits ?s end r = policy_permits s end r" for r
    by (rule policy_permits_cong) simp_all
  have backoff: "exec_backoff ?s = exec_backoff s" by (simp add: exec_backoff_def)
  have "upcoming_retry ?s = (case es_last_retry ?s of Some p \<Rightarrow> ordinal_next p
      | None \<Rightarrow> Some ordinal_first)" by (simp add: upcoming_retry_def)
  then have retry: "(case es_last_retry ?s of Some p \<Rightarrow> ok_or RetryOverflow (ordinal_next p)
      | None \<Rightarrow> Inr ordinal_first) = ok_or RetryOverflow (upcoming_retry ?s)"
    by (simp split: option.split)
  from assms that show thesis
    unfolding finish_attempt_def Let_def retry permits backoff
    by (auto simp: rust_result split: if_splits)
qed

end
