(* ===== verification/Lifecycle.thy ===== *)
theory Lifecycle
  imports Execution
begin

text \<open>
  The lifecycle of an execution as \<open>docs/state-machines.md\<close> draws it: an abstract machine on
  phases only, without policies, codes or clocks. The theory shows that every accepted event
  of \<open>execution_transition\<close> preserves \<open>wf_execution\<close> and is a step of the abstract machine
  with the same effects, and then derives what runs of an execution do: attempts are numbered
  consecutively, the outcome is published once, a stop intent is final, and the restart
  budget of a job is respected.
\<close>

section \<open>The abstract machine\<close>

fun live_attempt :: "execution_phase \<Rightarrow> attempt_number option" where
  "live_attempt (Launching a) = Some a"
| "live_attempt (Running a) = Some a"
| "live_attempt _ = None"

fun stop_outcome :: "stop_cause \<Rightarrow> bool \<Rightarrow> execution_outcome" where
  "stop_outcome (ServiceCause c) forced = Stopped c forced"
| "stop_outcome (JobCause c) forced = Cancelled c forced"

text \<open>An outcome that the attempt itself brought about, not a stop.\<close>

fun attempt_outcome :: "attempt_number \<Rightarrow> execution_outcome \<Rightarrow> bool" where
  "attempt_outcome a (Completed _) = True"
| "attempt_outcome a (Failed (AttemptFailure b _)) = (b = a)"
| "attempt_outcome a (OutcomeUnknown (InfraSupervisorLost b)) = (b = a)"
| "attempt_outcome a _ = False"

fun stop_effect :: "stop_plan \<Rightarrow> execution_effect" where
  "stop_effect (CtrlBreak _) = SendCtrlBreak"
| "stop_effect (Command _) = RunStopCommand"
| "stop_effect Kill = TerminateJobObject"

inductive lifecycle :: "execution_phase \<Rightarrow> execution_effect list \<Rightarrow> execution_phase \<Rightarrow> bool" where
  stutter: "lifecycle ph [] ph"
| launched: "lifecycle (Launching a) [] (Running a)"
| retry_scheduled:
    "live_attempt ph = Some a \<Longrightarrow> attempt_next a = Some later \<Longrightarrow>
     lifecycle ph [ScheduleRestart at] (RestartBackoff a end later retry at)"
| ended:
    "live_attempt ph = Some a \<Longrightarrow> attempt_outcome a outcome \<Longrightarrow>
     lifecycle ph [PublishTerminal outcome] (Terminal outcome)"
| relaunched:
    "attempt_next a = Some later \<Longrightarrow>
     lifecycle (RestartBackoff a end later retry at) [LaunchAttempt later] (Launching later)"
| retry_withdrawn:
    "attempt_outcome a outcome \<Longrightarrow>
     lifecycle (RestartBackoff a end later retry at) [PublishTerminal outcome] (Terminal outcome)"
| retry_stopped:
    "lifecycle (RestartBackoff a end later retry at)
       [PublishTerminal (stop_outcome cause False)] (Terminal (stop_outcome cause False))"
| stop_launching:
    "plan \<noteq> Kill \<Longrightarrow>
     lifecycle (Launching a) [ScheduleStopDeadline d] (Stopping a (AwaitingLaunch d) cause plan)"
| stop_running:
    "plan \<noteq> Kill \<Longrightarrow>
     lifecycle (Running a) [stop_effect plan, ScheduleStopDeadline d]
       (Stopping a (Graceful d) cause plan)"
| stop_killing:
    "live_attempt ph = Some a \<Longrightarrow>
     lifecycle ph [TerminateJobObject] (Stopping a Killing cause Kill)"
| launched_late:
    "plan \<noteq> Kill \<Longrightarrow>
     lifecycle (Stopping a (AwaitingLaunch d) cause plan) [stop_effect plan]
       (Stopping a (Graceful d) cause plan)"
| escalated:
    "phase \<noteq> Killing \<Longrightarrow>
     lifecycle (Stopping a phase cause plan) [TerminateJobObject] (Stopping a Killing cause plan)"
| stop_finished:
    "lifecycle (Stopping a phase cause plan)
       [PublishTerminal (stop_outcome cause forced)] (Terminal (stop_outcome cause forced))"

inductive_cases lifecycle_TerminalE: "lifecycle (Terminal outcome) effs ph"
inductive_cases lifecycle_StoppingE: "lifecycle (Stopping a phase cause plan) effs ph"

text \<open>The rules at the plans and phases that the operations produce.\<close>

lemma lifecycle_intros [intro]:
  "lifecycle ph [] ph"
  "lifecycle (Launching a) [TerminateJobObject] (Stopping a Killing cause Kill)"
  "lifecycle (Running a) [TerminateJobObject] (Stopping a Killing cause Kill)"
  "lifecycle (Running a) [SendCtrlBreak, ScheduleStopDeadline d]
     (Stopping a (Graceful d) cause (CtrlBreak timeout))"
  "lifecycle (Running a) [RunStopCommand, ScheduleStopDeadline d]
     (Stopping a (Graceful d) cause (Command timeout))"
  "lifecycle (Stopping a (AwaitingLaunch d) cause (CtrlBreak timeout)) [SendCtrlBreak]
     (Stopping a (Graceful d) cause (CtrlBreak timeout))"
  "lifecycle (Stopping a (AwaitingLaunch d) cause (Command timeout)) [RunStopCommand]
     (Stopping a (Graceful d) cause (Command timeout))"
  "lifecycle (Launching a) [PublishTerminal (OutcomeUnknown (InfraSupervisorLost a))]
     (Terminal (OutcomeUnknown (InfraSupervisorLost a)))"
  "lifecycle (Running a) [PublishTerminal (OutcomeUnknown (InfraSupervisorLost a))]
     (Terminal (OutcomeUnknown (InfraSupervisorLost a)))"
  using lifecycle.stop_running [of "CtrlBreak timeout"] lifecycle.stop_running [of "Command timeout"]
    lifecycle.launched_late [of "CtrlBreak timeout"] lifecycle.launched_late [of "Command timeout"]
  by (simp_all add: lifecycle.stutter lifecycle.stop_killing lifecycle.ended)

section \<open>Every operation is a step of the abstract machine\<close>

lemma finish_stop_sel [simp]:
  "tr_state (finish_stop s cause forced) = s\<lparr>es_phase := Terminal (stop_outcome cause forced)\<rparr>"
  "tr_effects (finish_stop s cause forced) = [PublishTerminal (stop_outcome cause forced)]"
  by (cases cause; simp add: finish_stop_def exec_terminal_def)+

definition end_outcome :: "execution_state \<Rightarrow> attempt_number \<Rightarrow> attempt_end \<Rightarrow> execution_outcome" where
  "end_outcome s a end =
     (case end of
        EndExited code _ \<Rightarrow>
          if code \<in> es_success_exit_codes s then Completed code else Failed (AttemptFailure a end)
      | _ \<Rightarrow> Failed (AttemptFailure a end))"

lemma finish_terminal_sel [simp]:
  "tr_state (finish_terminal s a end) = s\<lparr>es_phase := Terminal (end_outcome s a end)\<rparr>"
  "tr_effects (finish_terminal s a end) = [PublishTerminal (end_outcome s a end)]"
  by (simp_all add: finish_terminal_def exec_terminal_def end_outcome_def)

lemma end_outcome_attempt [simp, intro]: "attempt_outcome a (end_outcome s a end)"
  by (simp add: end_outcome_def split: attempt_end.split)

lemma end_outcome_wf: "(job \<longrightarrow> end \<noteq> EndSupervisorLost) \<Longrightarrow> wf_outcome job (end_outcome s a end)"
  by (auto simp: end_outcome_def split: attempt_end.split)

lemma finish_attempt_lifecycle:
  assumes "finish_attempt s a end at = Inr t" and "live_attempt ph = Some a"
  shows "lifecycle ph (tr_effects t) (es_phase (tr_state t))"
  using assms(1)
proof (cases rule: finish_attempt_cases)
  case (declined retry)
  then show ?thesis using assms(2) by (auto intro: lifecycle.ended)
next
  case (scheduled retry later pol instant)
  then show ?thesis using assms(2) by (auto intro: lifecycle.retry_scheduled)
qed

lemma reconsider_backoff_lifecycle:
  "reconsider_backoff s = Inr t \<Longrightarrow> lifecycle (es_phase s) (tr_effects t) (es_phase (tr_state t))"
proof (cases "es_phase s")
  case (RestartBackoff a e n r d)
  assume "reconsider_backoff s = Inr t"
  with RestartBackoff consider "t = without_effects s" | "t = finish_terminal s a e"
    by (auto simp: reconsider_backoff_def rust_result split: if_split_asm)
  then show ?thesis
    by cases (simp_all add: RestartBackoff lifecycle.stutter lifecycle.retry_withdrawn)
qed (auto simp: reconsider_backoff_def)

lemma stop_requested_lifecycle:
  "stop_requested s cause plan at = Inr t \<Longrightarrow>
   lifecycle (es_phase s) (tr_effects t) (es_phase (tr_state t))"
  by (cases "es_phase s"; cases plan)
    (auto simp: stop_requested_def rust_result Let_def
      intro: lifecycle.retry_stopped lifecycle.stop_launching)

lemma execution_transition_lifecycle:
  assumes "execution_transition s event = Inr t" and "wf_execution s"
  shows "lifecycle (es_phase s) (tr_effects t) (es_phase (tr_state t))"
proof (cases event)
  case (LaunchSucceeded a at)
  then show ?thesis using assms
    by (auto simp: launch_succeeded_def Let_def
        split: execution_phase.splits stop_phase.splits stop_plan.splits if_splits
        intro: lifecycle.launched)
next
  case (LaunchFailed a failure at)
  then show ?thesis using assms
    by (auto simp: launch_failed_def split: execution_phase.splits if_splits
        intro: finish_attempt_lifecycle lifecycle.stop_finished)
next
  case (ProcessExited a code ran_for at)
  then show ?thesis using assms
    by (auto simp: process_exited_def split: execution_phase.splits if_splits
        intro: finish_attempt_lifecycle lifecycle.stop_finished)
next
  case (StopRequested cause plan at)
  then show ?thesis using assms by (auto intro: stop_requested_lifecycle)
next
  case (RestartDeadlineReached d)
  then show ?thesis using assms
    by (auto simp: restart_deadline_reached_def wf_execution_def
        split: execution_phase.splits if_splits intro: lifecycle.relaunched)
next
  case (StopDeadlineReached d)
  then show ?thesis using assms
    by (auto simp: stop_deadline_reached_def Let_def
        split: execution_phase.splits stop_phase.splits if_splits
        intro: lifecycle.stutter lifecycle.escalated)
next
  case (RestartPolicyChanged policy)
  then show ?thesis using assms reconsider_backoff_lifecycle
    by (fastforce simp: restart_policy_changed_def rust_result)
next
  case (SuccessExitCodesChanged codes)
  then show ?thesis using assms reconsider_backoff_lifecycle
    by (fastforce simp: success_exit_codes_changed_def)
next
  case (SupervisorLost at)
  then show ?thesis using assms
    by (auto simp: supervisor_lost_def exec_terminal_def Let_def
        split: execution_phase.splits execution_origin.splits
        intro: finish_attempt_lifecycle lifecycle.stop_finished)
qed

section \<open>Every operation keeps an execution well formed\<close>

lemma retries_match_phase [simp]:
  "retries_match (s\<lparr>es_phase := ph\<rparr>) n = retries_match s n"
  "retries_match (s\<lparr>es_restart_policy := p\<rparr>) n = retries_match s n"
  "retries_match (s\<lparr>es_success_exit_codes := c\<rparr>) n = retries_match s n"
  by (simp_all add: retries_match_def retries_used_def)

lemma policy_permits_phase [simp]:
  "policy_permits (s\<lparr>es_phase := ph\<rparr>) end r = policy_permits s end r"
  "policy_permits (s\<lparr>es_last_retry := x\<rparr>) end r = policy_permits s end r"
  by (rule policy_permits_cong; simp)+

lemma wf_phase_cong:
  "es_origin s = es_origin s' \<Longrightarrow> es_restart_policy s = es_restart_policy s' \<Longrightarrow>
   es_success_exit_codes s = es_success_exit_codes s' \<Longrightarrow> es_last_retry s = es_last_retry s' \<Longrightarrow>
   wf_phase s ph = wf_phase s' ph"
  by (cases ph) (simp_all add: retries_match_def retries_used_def policy_permits_cong [of s s'])

lemma wf_phase_update [simp]: "wf_phase (s\<lparr>es_phase := ph'\<rparr>) ph = wf_phase s ph"
  by (rule wf_phase_cong) simp_all

lemma wf_execution_update:
  "wf_execution s \<Longrightarrow> wf_phase s ph \<Longrightarrow> wf_execution (s\<lparr>es_phase := ph\<rparr>)"
  by (simp add: wf_execution_def)

lemma wf_live:
  "wf_execution s \<Longrightarrow> live_attempt (es_phase s) = Some a \<Longrightarrow>
   0 < unat (attempt_get a) \<and> retries_match s (unat (attempt_get a) - 1)"
  by (cases "es_phase s") (auto simp: wf_execution_def)

lemma wf_reset: "wf_execution s \<Longrightarrow> pred_option wf_ordinal (es_last_retry (reset_after_stable_run s end))"
  using reset_after_stable_run_last [of s "end"] by (auto simp: wf_execution_def)

lemma retries_used_reset: "retries_used (reset_after_stable_run s end) \<le> retries_used s"
  using reset_after_stable_run_last [of s "end"] by (auto simp: retries_used_def)

lemma retries_match_next:
  assumes match: "retries_match s (unat (attempt_get a) - 1)" and a: "0 < unat (attempt_get a)"
    and retry: "upcoming_retry (reset_after_stable_run s end) = Some retry"
    and s': "es_origin s' = es_origin s" "es_last_retry s' = Some retry"
  shows "retries_match s' (unat (attempt_get a))"
proof (cases "is_job s")
  case True
  then have "unat (ordinal_get retry) = retries_used s + 1"
    using retry by (simp add: reset_after_stable_run_job upcoming_retry_Some)
  then show ?thesis using True match a s' by (simp add: retries_match_def retries_used_def)
next
  case False
  have "unat (ordinal_get retry) \<le> retries_used s + 1"
    using upcoming_retry_Some [OF retry] retries_used_reset [of s "end"] by simp
  then show ?thesis using False match a s' by (simp add: retries_match_def retries_used_def)
qed

lemma finish_attempt_wf:
  assumes "finish_attempt s a end at = Inr t" and wf: "wf_execution s"
    and live: "live_attempt (es_phase s) = Some a" and lost: "is_job s \<longrightarrow> end \<noteq> EndSupervisorLost"
  shows "wf_execution (tr_state t)"
  using assms(1)
proof (cases rule: finish_attempt_cases)
  case (declined retry)
  then show ?thesis using wf wf_reset [OF wf] lost
    by (simp add: wf_execution_def end_outcome_wf)
next
  case (scheduled retry later pol instant)
  let ?s' = "tr_state t"
  have same: "es_origin ?s' = es_origin s" "es_restart_policy ?s' = es_restart_policy s"
    "es_success_exit_codes ?s' = es_success_exit_codes s" "es_last_retry ?s' = Some retry"
    "es_phase ?s' = RestartBackoff a end later retry (RetryDeadline instant)"
    using scheduled(6) by simp_all
  have "policy_permits ?s' end retry = Inr True"
    using scheduled(2) policy_permits_cong [of ?s' s] same by simp
  moreover have "retries_match ?s' (unat (attempt_get a))"
    using wf_live [OF wf live] scheduled(1) same by (intro retries_match_next) auto
  moreover have "wf_ordinal retry" using scheduled(1) upcoming_retry_Some by blast
  ultimately show ?thesis
    using wf wf_live [OF wf live] lost scheduled(3) by (simp add: wf_execution_def same)
qed

lemma reconsider_backoff_wf:
  assumes "reconsider_backoff s = Inr t"
    and kind: "is_job_policy (es_restart_policy s) = is_job s" "wf_restart_policy (es_restart_policy s)"
      "pred_option wf_ordinal (es_last_retry s)"
    and phase: "(\<forall>a e n r d. es_phase s = RestartBackoff a e n r d \<longrightarrow>
        policy_permits s e r = Inr True) \<Longrightarrow> wf_phase s (es_phase s)"
    and lost: "\<And>a e n r d. es_phase s = RestartBackoff a e n r d \<Longrightarrow>
        is_job s \<Longrightarrow> e \<noteq> EndSupervisorLost"
  shows "wf_execution (tr_state t)"
proof (cases "es_phase s")
  case (RestartBackoff a e n r d)
  with assms(1) consider "t = without_effects s" "policy_permits s e r = Inr True"
    | "t = finish_terminal s a e"
    by (auto simp: reconsider_backoff_def rust_result split: if_split_asm)
  then show ?thesis
  proof cases
    case 1
    then show ?thesis using kind phase RestartBackoff by (simp add: wf_execution_def)
  next
    case 2
    have "wf_outcome (is_job s) (end_outcome s a e)"
      using lost [OF RestartBackoff] by (intro end_outcome_wf) blast
    then show ?thesis using 2 kind by (simp add: wf_execution_def)
  qed
qed (use assms in \<open>auto simp: reconsider_backoff_def wf_execution_def\<close>)

lemma stop_outcome_wf: "is_job_cause cause = job \<Longrightarrow> wf_outcome job (stop_outcome cause forced)"
  by (cases cause) auto

lemma finish_stop_wf:
  "wf_execution s \<Longrightarrow> is_job_cause cause = is_job s \<Longrightarrow>
   wf_execution (tr_state (finish_stop s cause forced))"
  by (simp add: wf_execution_update stop_outcome_wf)

lemma finish_stop_stopping_wf:
  "es_phase s = Stopping a phase cause plan \<Longrightarrow> wf_execution s \<Longrightarrow>
   wf_execution (tr_state (finish_stop s cause forced))"
  by (rule finish_stop_wf) (simp_all add: wf_execution_def)

lemma validate_stop_cause_Inr:
  "validate_stop_cause s cause = Inr () \<longleftrightarrow> is_job_cause cause = is_job s"
  by (auto simp: validate_stop_cause_def split: execution_origin.splits stop_cause.splits)

lemma execution_transition_wf:
  assumes "execution_transition s event = Inr t" and wf: "wf_execution s" and "typed_event event"
  shows "wf_execution (tr_state t)"
proof (cases event)
  case (LaunchSucceeded a at)
  then show ?thesis using assms
    by (auto simp: launch_succeeded_def Let_def wf_execution_def
        split: execution_phase.splits stop_phase.splits stop_plan.splits if_splits)
next
  case (LaunchFailed a failure at)
  then show ?thesis using assms
    by (auto simp: launch_failed_def split: execution_phase.splits if_splits
        elim: finish_attempt_wf finish_stop_stopping_wf simp del: finish_stop_sel)
next
  case (ProcessExited a code ran_for at)
  then show ?thesis using assms
    by (auto simp: process_exited_def split: execution_phase.splits if_splits
        elim: finish_attempt_wf finish_stop_stopping_wf simp del: finish_stop_sel)
next
  case (StopRequested cause plan at)
  then have valid: "is_job_cause cause = is_job s" and go: "stop_requested s cause plan at = Inr t"
    using assms(1) by (auto simp: stop_requested_def rust_result validate_stop_cause_Inr)
  show ?thesis
    using go valid wf
    by (cases "es_phase s"; cases plan)
      (auto simp: stop_requested_def rust_result Let_def stop_outcome_wf wf_execution_update
        wf_execution_def)
next
  case (RestartDeadlineReached d)
  then show ?thesis using assms
    by (auto simp: restart_deadline_reached_def wf_execution_def attempt.next_Some
        split: execution_phase.splits if_splits)
next
  case (StopDeadlineReached d)
  then show ?thesis using assms
    by (auto simp: stop_deadline_reached_def Let_def wf_execution_def
        split: execution_phase.splits stop_phase.splits if_splits)
next
  case (RestartPolicyChanged policy)
  let ?s = "s\<lparr>es_restart_policy := policy\<rparr>"
  have kind: "is_job_policy policy = is_job s" and go: "reconsider_backoff ?s = Inr t"
    using assms(1) RestartPolicyChanged
    by (auto simp: restart_policy_changed_def rust_result validate_policy_kind_def
        split: execution_origin.splits execution_restart_policy.splits)
  have "wf_phase ?s (es_phase ?s)"
    if "\<forall>a e n r d. es_phase ?s = RestartBackoff a e n r d \<longrightarrow> policy_permits ?s e r = Inr True"
    using that wf by (cases "es_phase s") (auto simp: wf_execution_def)
  then show ?thesis
    using kind wf assms(3) RestartPolicyChanged
    by (intro reconsider_backoff_wf [OF go]) (auto simp: wf_execution_def)
next
  case (SuccessExitCodesChanged codes)
  let ?s = "s\<lparr>es_success_exit_codes := codes\<rparr>"
  have go: "reconsider_backoff ?s = Inr t" using assms(1) SuccessExitCodesChanged
    by (simp add: success_exit_codes_changed_def)
  have "wf_phase ?s (es_phase ?s)"
    if "\<forall>a e n r d. es_phase ?s = RestartBackoff a e n r d \<longrightarrow> policy_permits ?s e r = Inr True"
    using that wf by (cases "es_phase s") (auto simp: wf_execution_def)
  then show ?thesis
    using wf by (intro reconsider_backoff_wf [OF go]) (auto simp: wf_execution_def)
next
  case (SupervisorLost at)
  then show ?thesis using assms
    by (auto simp: supervisor_lost_def exec_terminal_def Let_def wf_execution_update
        split: execution_phase.splits execution_origin.splits
        elim: finish_attempt_wf finish_stop_stopping_wf simp del: finish_stop_sel)
qed

interpretation execution: simulation execution_step wf_execution lifecycle es_phase
  by unfold_locales
    (auto elim!: execution_stepE intro: execution_transition_wf execution_transition_lifecycle)

section \<open>Runs\<close>

abbreviation run_execution ::
  "execution_state \<Rightarrow> execution_event list \<Rightarrow>
   execution_transition_error + execution_state \<times> execution_effect list"
where
  "run_execution \<equiv> run_machine execution_transition"

lemma run_execution_reach:
  "run_execution s evs = Inr (s', effs) \<Longrightarrow> list_all typed_event evs \<Longrightarrow> reach execution_step s effs s'"
  by (rule run_machine_reach [where ok = typed_event]) (auto intro: execution_step.accepted)

subsection \<open>Published outcomes\<close>

fun published :: "execution_effect list \<Rightarrow> execution_outcome list" where
  "published [] = []"
| "published (PublishTerminal outcome # effs) = outcome # published effs"
| "published (_ # effs) = published effs"

lemma published_append [simp]: "published (xs @ ys) = published xs @ published ys"
  by (induction xs rule: published.induct) simp_all

fun outcome_of :: "execution_phase \<Rightarrow> execution_outcome list" where
  "outcome_of (Terminal outcome) = [outcome]"
| "outcome_of _ = []"

lemma lifecycle_publishes: "lifecycle ph effs ph' \<Longrightarrow> outcome_of ph @ published effs = outcome_of ph'"
proof (induction rule: lifecycle.induct)
  case (stop_running plan a d cause)
  then show ?case by (cases plan) simp_all
next
  case (launched_late plan a d cause)
  then show ?case by (cases plan) simp_all
next
  case (ended ph a outcome)
  then show ?case by (cases ph) simp_all
next
  case (retry_scheduled ph a later at "end")
  then show ?case by (cases ph) simp_all
next
  case (stop_killing ph a cause)
  then show ?case by (cases ph) simp_all
qed simp_all

lemma reach_publishes: "reach lifecycle ph effs ph' \<Longrightarrow> outcome_of ph @ published effs = outcome_of ph'"
proof (induction rule: reach.induct)
  case (reach_step s effs s' effs' s'')
  then show ?case using lifecycle_publishes [of s' effs' s''] by (simp flip: append_assoc)
qed simp

subsection \<open>Launched attempts\<close>

fun launch_number :: "execution_effect \<Rightarrow> nat option" where
  "launch_number (LaunchAttempt a) = Some (unat (attempt_get a))"
| "launch_number _ = None"

abbreviation launches :: "execution_effect list \<Rightarrow> nat list" where
  "launches \<equiv> List.map_filter launch_number"

text \<open>The attempt of a phase: the one that runs, or the last one that ran.\<close>

fun phase_attempt :: "execution_phase \<Rightarrow> attempt_number option" where
  "phase_attempt (Launching a) = Some a"
| "phase_attempt (Running a) = Some a"
| "phase_attempt (RestartBackoff a _ _ _ _) = Some a"
| "phase_attempt (Stopping a _ _ _) = Some a"
| "phase_attempt (Terminal _) = None"

text \<open>The attempts of a phase are numbered up to \<open>n\<close>; a terminal phase has none any more.\<close>

definition attempts_upto :: "nat \<Rightarrow> execution_phase \<Rightarrow> bool" where
  "attempts_upto n ph \<longleftrightarrow> (\<forall>a. phase_attempt ph = Some a \<longrightarrow> unat (attempt_get a) = n)"

lemma lifecycle_launches:
  "lifecycle ph effs ph' \<Longrightarrow> attempts_upto n ph \<Longrightarrow>
   \<exists>m. consecutive n (launches effs) m \<and> attempts_upto m ph'"
proof (induction rule: lifecycle.induct)
  case (relaunched a later "end" at)
  then show ?case by (auto simp: attempts_upto_def attempt.next_Some intro!: exI [of _ "Suc n"])
next
  case (stop_running plan a d cause)
  then show ?case by (cases plan) (auto simp: attempts_upto_def intro!: exI [of _ n])
next
  case (launched_late plan a d cause)
  then show ?case by (cases plan) (auto simp: attempts_upto_def intro!: exI [of _ n])
next
  case (retry_scheduled ph a later at "end")
  then show ?case by (cases ph) (auto simp: attempts_upto_def intro!: exI [of _ n])
next
  case (stop_killing ph a cause)
  then show ?case by (cases ph) (auto simp: attempts_upto_def intro!: exI [of _ n])
qed (auto simp: attempts_upto_def intro!: exI [of _ n])

interpretation lifecycle: effect_numbering lifecycle "\<lambda>_. True" launch_number attempts_upto
  by unfold_locales (auto dest: lifecycle_launches)

interpretation attempts: simulated_numbering execution_step wf_execution lifecycle es_phase
  launch_number attempts_upto
  by unfold_locales

subsection \<open>Stopping and termination are final\<close>

text \<open>A stopping execution keeps its cause until it ends with that cause.\<close>

inductive stopping_with :: "stop_cause \<Rightarrow> execution_phase \<Rightarrow> bool" for cause where
  still_stopping: "stopping_with cause (Stopping a phase cause plan)"
| has_stopped: "stopping_with cause (Terminal (stop_outcome cause forced))"

inductive_simps stopping_with_simps [simp]:
  "stopping_with cause (Launching a)" "stopping_with cause (Running a)"
  "stopping_with cause (RestartBackoff a end later retry at)"
  "stopping_with cause (Stopping a phase cause' plan)"
  "stopping_with cause (Terminal outcome)"

fun restarts :: "execution_effect \<Rightarrow> bool" where
  "restarts (LaunchAttempt _) = True"
| "restarts (ScheduleRestart _) = True"
| "restarts _ = False"

lemma restarts_stop_effect [simp]: "\<not> restarts (stop_effect plan)"
  by (cases plan) simp_all

lemma lifecycle_stopping:
  "lifecycle ph effs ph' \<Longrightarrow> stopping_with cause ph \<Longrightarrow>
   stopping_with cause ph' \<and> filter restarts effs = []"
  by (induction rule: lifecycle.induct) (auto elim: live_attempt.elims)

lemma reach_stopping:
  "reach lifecycle ph effs ph' \<Longrightarrow> stopping_with cause ph \<Longrightarrow>
   stopping_with cause ph' \<and> filter restarts effs = []"
  by (induction rule: reach.induct) (auto dest: lifecycle_stopping)

lemma lifecycle_terminal: "lifecycle (Terminal outcome) effs ph \<Longrightarrow> ph = Terminal outcome \<and> effs = []"
  by (erule lifecycle_TerminalE) auto

lemma reach_terminal:
  "reach lifecycle ph effs ph' \<Longrightarrow> ph = Terminal outcome \<Longrightarrow> ph' = Terminal outcome \<and> effs = []"
  by (induction rule: reach.induct) (auto dest: lifecycle_terminal)

end
