(* ===== verification/Restart_Budget.thy ===== *)
theory Restart_Budget
  imports Lifecycle
begin

text \<open>
  What the restart policy of an execution bounds. A job whose policy does not change launches
  at most \<open>max_restarts\<close> attempts after the first one; a service never has more consecutive
  retries than its limit. The theory also gives \<open>finish_attempt\<close> its closed form: the retry
  it asks about, the deadline it schedules, and the only two errors it can return.
\<close>

section \<open>The restarts a job has left\<close>

fun job_max_restarts :: "execution_restart_policy \<Rightarrow> nat" where
  "job_max_restarts (JobPolicy (JobOnFailure p)) = unat (jrp_max_restarts p)"
| "job_max_restarts _ = 0"

definition job_restarts_left :: "execution_state \<Rightarrow> nat" where
  "job_restarts_left s =
     (case es_phase s of
        Launching _ \<Rightarrow> job_max_restarts (es_restart_policy s) - retries_used s
      | Running _ \<Rightarrow> job_max_restarts (es_restart_policy s) - retries_used s
      | RestartBackoff _ _ _ _ _ \<Rightarrow> job_max_restarts (es_restart_policy s) - retries_used s + 1
      | _ \<Rightarrow> 0)"

fun changes_policy :: "execution_event \<Rightarrow> bool" where
  "changes_policy (RestartPolicyChanged _) = True"
| "changes_policy _ = False"

inductive fixed_policy_step ::
  "execution_state \<Rightarrow> execution_effect list \<Rightarrow> execution_state \<Rightarrow> bool"
where
  kept: "\<not> changes_policy event \<Longrightarrow> execution_transition s event = Inr t \<Longrightarrow>
    fixed_policy_step s (tr_effects t) (tr_state t)"

inductive_cases fixed_policy_stepE: "fixed_policy_step s effs s'"

fun is_launch :: "execution_effect \<Rightarrow> bool" where
  "is_launch (LaunchAttempt _) = True"
| "is_launch _ = False"

lemma length_launches: "length (launches effs) = length (filter is_launch effs)"
proof (induction effs)
  case (Cons eff effs)
  then show ?case by (cases eff) simp_all
qed simp

lemma job_permits:
  "policy_permits s end retry = Inr True \<Longrightarrow> is_job s \<Longrightarrow>
   unat (ordinal_get retry) \<le> job_max_restarts (es_restart_policy s)"
  by (auto simp: policy_permits_def Let_def word_le_nat_alt
      split: execution_origin.splits execution_restart_policy.splits job_restart_policy.splits)

lemma finish_attempt_pays:
  assumes "finish_attempt s a end at = Inr t" and job: "is_job s"
    and live: "live_attempt (es_phase s) = Some a"
  shows "length (filter is_launch (tr_effects t)) + job_restarts_left (tr_state t)
    \<le> job_restarts_left s"
  using assms(1)
proof (cases rule: finish_attempt_cases)
  case (declined retry)
  then show ?thesis by (simp add: job_restarts_left_def)
next
  case (scheduled retry later pol instant)
  then have "unat (ordinal_get retry) = retries_used s + 1"
    using job by (simp add: reset_after_stable_run_job upcoming_retry_Some)
  moreover have "unat (ordinal_get retry) \<le> job_max_restarts (es_restart_policy s)"
    using scheduled(2) job by (rule job_permits)
  ultimately show ?thesis
    using scheduled(6) live by (cases "es_phase s") (auto simp: job_restarts_left_def retries_used_def)
qed

lemma job_restarts_left_phase:
  "job_restarts_left (s\<lparr>es_phase := Stopping a phase cause plan\<rparr>) = 0"
  "job_restarts_left (s\<lparr>es_phase := Terminal outcome\<rparr>) = 0"
  "job_restarts_left (s\<lparr>es_success_exit_codes := codes\<rparr>) = job_restarts_left s"
  by (auto simp: job_restarts_left_def retries_used_def split: execution_phase.split)

lemma execution_transition_pays:
  assumes "execution_transition s event = Inr t" and "\<not> changes_policy event" and job: "is_job s"
  shows "length (filter is_launch (tr_effects t)) + job_restarts_left (tr_state t)
    \<le> job_restarts_left s"
proof (cases event)
  case (LaunchSucceeded a at)
  then show ?thesis using assms
    by (auto simp: launch_succeeded_def Let_def job_restarts_left_def retries_used_def
        split: execution_phase.splits stop_phase.splits stop_plan.splits if_splits)
next
  case (LaunchFailed a failure at)
  then show ?thesis using assms finish_attempt_pays [OF _ job]
    by (auto simp: launch_failed_def job_restarts_left_phase split: execution_phase.splits if_splits)
next
  case (ProcessExited a code ran_for at)
  then show ?thesis using assms finish_attempt_pays [OF _ job]
    by (auto simp: process_exited_def job_restarts_left_phase split: execution_phase.splits if_splits)
next
  case (StopRequested cause plan at)
  then show ?thesis using assms
    by (cases "es_phase s"; cases plan)
      (auto simp: stop_requested_def rust_result Let_def job_restarts_left_phase)
next
  case (RestartDeadlineReached d)
  then show ?thesis using assms
    by (auto simp: restart_deadline_reached_def job_restarts_left_def retries_used_def
        split: execution_phase.splits if_splits)
next
  case (StopDeadlineReached d)
  then show ?thesis using assms
    by (auto simp: stop_deadline_reached_def Let_def job_restarts_left_phase
        split: execution_phase.splits stop_phase.splits if_splits)
next
  case (SuccessExitCodesChanged codes)
  let ?s = "s\<lparr>es_success_exit_codes := codes\<rparr>"
  have "reconsider_backoff ?s = Inr t"
    using assms SuccessExitCodesChanged by (simp add: success_exit_codes_changed_def)
  then have "length (filter is_launch (tr_effects t)) + job_restarts_left (tr_state t)
      \<le> job_restarts_left ?s"
    by (cases "es_phase s")
      (auto simp: reconsider_backoff_def rust_result job_restarts_left_phase split: if_split_asm)
  then show ?thesis by (simp add: job_restarts_left_phase)
next
  case (SupervisorLost at)
  then show ?thesis using assms finish_attempt_pays [OF _ job]
    by (auto simp: supervisor_lost_def exec_terminal_def Let_def job_restarts_left_phase
        split: execution_phase.splits execution_origin.splits)
qed (use assms in simp)

section \<open>What no event changes\<close>

text \<open>The identity, the origin and the configuration snapshot of an execution.\<close>

definition snapshot ::
  "execution_state \<Rightarrow> execution_id \<times> workload_id \<times> execution_origin \<times>
     process_definition_hash \<times> execution_config_hash"
where
  "snapshot s = (es_id s, es_workload_id s, es_origin s, es_source_definition s,
     es_execution_config s)"

lemma snapshot_update [simp]:
  "snapshot (s\<lparr>es_phase := ph\<rparr>) = snapshot s"
  "snapshot (s\<lparr>es_last_retry := r\<rparr>) = snapshot s"
  "snapshot (s\<lparr>es_restart_policy := p\<rparr>) = snapshot s"
  "snapshot (s\<lparr>es_success_exit_codes := c\<rparr>) = snapshot s"
  by (simp_all add: snapshot_def)

lemma snapshot_reset [simp]: "snapshot (reset_after_stable_run s end) = snapshot s"
  using reset_after_stable_run_last [of s "end"] by auto

lemma snapshot_is_job: "snapshot s = snapshot s' \<Longrightarrow> is_job s = is_job s'"
  by (simp add: snapshot_def)

lemma finish_attempt_frame:
  "finish_attempt s a end at = Inr t \<Longrightarrow>
   snapshot (tr_state t) = snapshot s \<and> es_restart_policy (tr_state t) = es_restart_policy s"
  by (erule finish_attempt_cases) simp_all

lemma reconsider_backoff_frame:
  "reconsider_backoff s = Inr t \<Longrightarrow>
   snapshot (tr_state t) = snapshot s \<and> es_restart_policy (tr_state t) = es_restart_policy s"
  by (cases "es_phase s") (auto simp: reconsider_backoff_def rust_result split: if_split_asm)

lemma stop_requested_frame:
  "stop_requested s cause plan at = Inr t \<Longrightarrow>
   snapshot (tr_state t) = snapshot s \<and> es_restart_policy (tr_state t) = es_restart_policy s"
  by (cases "es_phase s"; cases plan) (auto simp: stop_requested_def rust_result Let_def)

lemma execution_transition_frame:
  assumes "execution_transition s event = Inr t"
  shows "snapshot (tr_state t) = snapshot s \<and>
    (\<not> changes_policy event \<longrightarrow> es_restart_policy (tr_state t) = es_restart_policy s)"
proof (cases event)
  case (LaunchSucceeded a at)
  then show ?thesis using assms
    by (auto simp: launch_succeeded_def Let_def
        split: execution_phase.splits stop_phase.splits stop_plan.splits if_splits)
next
  case (LaunchFailed a failure at)
  then show ?thesis using assms
    by (auto simp: launch_failed_def split: execution_phase.splits if_splits
        dest: finish_attempt_frame)
next
  case (ProcessExited a code ran_for at)
  then show ?thesis using assms
    by (auto simp: process_exited_def split: execution_phase.splits if_splits
        dest: finish_attempt_frame)
next
  case (StopRequested cause plan at)
  then show ?thesis using assms by (auto dest: stop_requested_frame)
next
  case (RestartDeadlineReached d)
  then show ?thesis using assms
    by (auto simp: restart_deadline_reached_def split: execution_phase.splits if_splits)
next
  case (StopDeadlineReached d)
  then show ?thesis using assms
    by (auto simp: stop_deadline_reached_def Let_def
        split: execution_phase.splits stop_phase.splits if_splits)
next
  case (RestartPolicyChanged policy)
  then show ?thesis using assms
    by (auto simp: restart_policy_changed_def rust_result dest: reconsider_backoff_frame)
next
  case (SuccessExitCodesChanged codes)
  then show ?thesis using assms
    by (auto simp: success_exit_codes_changed_def dest: reconsider_backoff_frame)
next
  case (SupervisorLost at)
  then show ?thesis using assms
    by (auto simp: supervisor_lost_def exec_terminal_def Let_def
        split: execution_phase.splits execution_origin.splits dest: finish_attempt_frame)
qed

lemma reach_snapshot: "reach execution_step s effs s' \<Longrightarrow> snapshot s' = snapshot s"
  by (induction rule: reach.induct) (auto elim!: execution_stepE dest: execution_transition_frame)

section \<open>The budget of a run\<close>

interpretation job: effect_budget fixed_policy_step is_job is_launch job_restarts_left
proof
  fix s effs s'
  assume "is_job s" and step: "fixed_policy_step s effs s'"
  then show "is_job s'"
    using snapshot_is_job by (metis fixed_policy_stepE execution_transition_frame)
  from step \<open>is_job s\<close> show "length (filter is_launch effs) + job_restarts_left s' \<le> job_restarts_left s"
    by (auto elim!: fixed_policy_stepE dest: execution_transition_pays)
qed

lemma run_execution_fixed_policy:
  "run_execution s evs = Inr (s', effs) \<Longrightarrow> list_all (\<lambda>ev. \<not> changes_policy ev) evs \<Longrightarrow>
   reach fixed_policy_step s effs s'"
  by (rule run_machine_reach [where ok = "\<lambda>ev. \<not> changes_policy ev"])
    (auto intro: fixed_policy_step.kept)

section \<open>The restart decision in closed form\<close>

text \<open>
  The decision that ends an attempt, over naturals: give up with an outcome, or restart as
  attempt \<open>next\<close>, which is retry \<open>n\<close> of the current series, at a deadline. The abstract
  policy has no ordinals and no loops.
\<close>

datatype decision = GiveUp execution_outcome | RestartAs nat nat retry_deadline

fun limit_allows :: "service_retry_limit \<Rightarrow> nat \<Rightarrow> bool" where
  "limit_allows (Finite m) n = (n \<le> unat m)"
| "limit_allows Unlimited n = True"

fun restart_allowed :: "execution_restart_policy \<Rightarrow> bool \<Rightarrow> nat \<Rightarrow> bool" where
  "restart_allowed (ServicePolicy ServiceNever) failed n = False"
| "restart_allowed (ServicePolicy (ServiceOnFailure p)) failed n =
     (failed \<and> limit_allows (srp_limit p) n)"
| "restart_allowed (ServicePolicy (ServiceAlways p)) failed n = limit_allows (srp_limit p) n"
| "restart_allowed (JobPolicy JobNever) failed n = False"
| "restart_allowed (JobPolicy (JobOnFailure p)) failed n =
     (failed \<and> n \<le> unat (jrp_max_restarts p))"

fun attempt_failed :: "exit_code set \<Rightarrow> attempt_end \<Rightarrow> bool" where
  "attempt_failed codes (EndExited code _) = (code \<notin> codes)"
| "attempt_failed codes _ = True"

fun ran_stably :: "execution_restart_policy \<Rightarrow> attempt_end \<Rightarrow> bool" where
  "ran_stably (ServicePolicy (ServiceOnFailure p)) (EndExited _ ran_for) =
     (nzd_get (srp_reset_after p) \<le> ran_for)"
| "ran_stably (ServicePolicy (ServiceAlways p)) (EndExited _ ran_for) =
     (nzd_get (srp_reset_after p) \<le> ran_for)"
| "ran_stably _ _ = False"

definition backoff_delay :: "backoff_policy \<Rightarrow> nat \<Rightarrow> nat" where
  "backoff_delay p n = capped_exponential (nzd_get (bp_initial p)) (unat (bp_multiplier p))
     (nzd_get (bp_maximum p)) n"

fun restart_delay :: "execution_restart_policy \<Rightarrow> nat \<Rightarrow> nat" where
  "restart_delay (ServicePolicy (ServiceOnFailure p)) n = backoff_delay (srp_backoff p) n"
| "restart_delay (ServicePolicy (ServiceAlways p)) n = backoff_delay (srp_backoff p) n"
| "restart_delay (JobPolicy (JobOnFailure p)) n = backoff_delay (jrp_backoff p) n"
| "restart_delay _ n = 0"

definition decide ::
  "execution_state \<Rightarrow> attempt_number \<Rightarrow> attempt_end \<Rightarrow> boot_instant \<Rightarrow>
   execution_transition_error + decision"
where
  "decide s a end at =
     (let policy = es_restart_policy s;
          n = (if ran_stably policy end then 0 else retries_used s) + 1
      in if \<not> restart_allowed policy (attempt_failed (es_success_exit_codes s) end) n
         then Inr (GiveUp (end_outcome s a end))
         else if unat (attempt_get a) = 2 ^ 32 - 1 then Inl AttemptOverflow
         else case boot_checked_add at (restart_delay policy n) of
                None \<Rightarrow> Inl DeadlineOverflow
              | Some instant \<Rightarrow>
                  Inr (RestartAs (unat (attempt_get a) + 1) n (RetryDeadline instant)))"

fun phase_decision :: "execution_phase \<Rightarrow> decision option" where
  "phase_decision (Terminal outcome) = Some (GiveUp outcome)"
| "phase_decision (RestartBackoff a end next retry at) =
     Some (RestartAs (unat (attempt_get next)) (unat (ordinal_get retry)) at)"
| "phase_decision _ = None"

lemma ran_stably_reset:
  "is_job_policy (es_restart_policy s) = is_job s \<Longrightarrow>
   retries_used (reset_after_stable_run s end) =
     (if ran_stably (es_restart_policy s) end then 0 else retries_used s)"
  by (auto simp: reset_after_stable_run_def retries_used_def
      split: execution_origin.splits attempt_end.splits execution_restart_policy.splits
        service_restart_policy.splits)

lemma within_limit_allows: "within_limit l retry = limit_allows l (unat (ordinal_get retry))"
  by (cases l) (simp_all add: word_le_nat_alt)

lemma policy_permits_closed:
  "is_job_policy (es_restart_policy s) = is_job s \<Longrightarrow>
   policy_permits s end retry =
     Inr (restart_allowed (es_restart_policy s) (attempt_failed (es_success_exit_codes s) end)
       (unat (ordinal_get retry)))"
  by (cases "end"; cases "es_origin s")
    (auto simp: policy_permits_def word_le_nat_alt within_limit_allows
      split: execution_restart_policy.splits service_restart_policy.splits
        job_restart_policy.splits)

lemma exec_backoff_delay:
  "exec_backoff s = Inr b \<Longrightarrow> wf_backoff b \<Longrightarrow> wf_ordinal retry \<Longrightarrow>
   delay_for b retry = restart_delay (es_restart_policy s) (unat (ordinal_get retry))"
  by (auto simp: exec_backoff_def delay_for_capped backoff_delay_def
      split: execution_origin.splits execution_restart_policy.splits
        service_restart_policy.splits job_restart_policy.splits)

lemma retries_below_attempts:
  "wf_execution s \<Longrightarrow> live_attempt (es_phase s) = Some a \<Longrightarrow> retries_used s < unat (attempt_get a)"
  using wf_live [of s a] by (auto simp: retries_match_def split: if_splits)

lemma upcoming_retry_exists:
  assumes "retries_used s < n" and "n < 2 ^ 32"
  shows "\<exists>retry. upcoming_retry s = Some retry"
proof (cases "es_last_retry s")
  case (Some r)
  then have "unat (ordinal_get r) \<noteq> 2 ^ 32 - 1" using assms by (simp add: retries_used_def)
  then have "ordinal_next r \<noteq> None" by (simp add: ordinal.next_None)
  with Some show ?thesis by (auto simp: upcoming_retry_def)
qed (simp add: upcoming_retry_def)

text \<open>The retry counter of a well-formed execution never overflows.\<close>

lemma upcoming_retry_live:
  assumes "wf_execution s" and "live_attempt (es_phase s) = Some a"
  obtains retry where "upcoming_retry (reset_after_stable_run s end) = Some retry" "wf_ordinal retry"
    "unat (ordinal_get retry) =
       (if ran_stably (es_restart_policy s) end then 0 else retries_used s) + 1"
proof -
  have "retries_used (reset_after_stable_run s end) < unat (attempt_get a)"
    using retries_below_attempts [OF assms] retries_used_reset [of s "end"] by linarith
  then obtain retry where retry: "upcoming_retry (reset_after_stable_run s end) = Some retry"
    using upcoming_retry_exists unat_u32_less by fastforce
  moreover have "is_job_policy (es_restart_policy s) = is_job s"
    using assms(1) by (simp add: wf_execution_def)
  ultimately show thesis
    using that upcoming_retry_Some [OF retry] by (simp add: ran_stably_reset)
qed

lemma finish_attempt_unfold:
  assumes retry: "upcoming_retry (reset_after_stable_run s end) = Some retry"
    and permits: "policy_permits s end retry = Inr permitted"
  shows "finish_attempt s a end at =
    (if \<not> permitted then Inr (finish_terminal (reset_after_stable_run s end) a end)
     else and_then (ok_or AttemptOverflow (attempt_next a)) (\<lambda>later.
       and_then (exec_backoff s) (\<lambda>pol.
       and_then (ok_or DeadlineOverflow (boot_checked_add at (delay_for pol retry))) (\<lambda>instant.
       Inr (transition_new
         ((reset_after_stable_run s end)\<lparr>es_last_retry := Some retry,
            es_phase := RestartBackoff a end later retry (RetryDeadline instant)\<rparr>)
         [ScheduleRestart (RetryDeadline instant)])))))"
proof -
  let ?s = "reset_after_stable_run s end"
  have "policy_permits ?s end retry = Inr permitted"
    using permits policy_permits_cong [of ?s s] by simp
  moreover have "exec_backoff ?s = exec_backoff s" by (simp add: exec_backoff_def)
  moreover have "(case es_last_retry ?s of Some p \<Rightarrow> ok_or RetryOverflow (ordinal_next p)
      | None \<Rightarrow> Inr ordinal_first) = Inr retry"
    using retry by (auto simp: upcoming_retry_def split: option.splits)
  ultimately show ?thesis by (simp add: finish_attempt_def Let_def)
qed

lemma end_outcome_reset [simp]:
  "end_outcome (reset_after_stable_run s end') a end = end_outcome s a end"
  by (cases "end") (simp_all add: end_outcome_def)

lemma finish_attempt_decides:
  assumes wf: "wf_execution s" and live: "live_attempt (es_phase s) = Some a"
  shows "and_then (finish_attempt s a end at) (\<lambda>t. Inr (phase_decision (es_phase (tr_state t)))) =
    and_then (decide s a end at) (\<lambda>d. Inr (Some d))"
proof -
  obtain retry where retry: "upcoming_retry (reset_after_stable_run s end) = Some retry"
    and ok: "wf_ordinal retry" and n: "unat (ordinal_get retry) =
      (if ran_stably (es_restart_policy s) end then 0 else retries_used s) + 1" (is "_ = ?n")
    using upcoming_retry_live [OF assms] .
  let ?allowed = "restart_allowed (es_restart_policy s)
    (attempt_failed (es_success_exit_codes s) end) ?n"
  have "is_job_policy (es_restart_policy s) = is_job s" using wf by (simp add: wf_execution_def)
  then have permits: "policy_permits s end retry = Inr ?allowed"
    using policy_permits_closed n by metis
  note unfold = finish_attempt_unfold [OF retry permits]
  show ?thesis
  proof (cases ?allowed)
    case False
    then show ?thesis by (simp add: unfold decide_def Let_def)
  next
    case True
    then obtain b where b: "exec_backoff s = Inr b" "wf_backoff b"
      using exec_backoff_permitted [of s "end" retry] permits wf by (auto simp: wf_execution_def)
    have delay: "delay_for b retry = restart_delay (es_restart_policy s) ?n"
      using exec_backoff_delay [OF b ok] n by metis
    show ?thesis
    proof (cases "attempt_next a")
      case None
      moreover from None have "unat (attempt_get a) = 2 ^ 32 - 1"
        using attempt.next_None [of a] by simp
      ultimately show ?thesis using True by (simp add: unfold decide_def Let_def)
    next
      case (Some later)
      then have "attempt_next a \<noteq> None" by simp
      then have "unat (attempt_get a) \<noteq> 2 ^ 32 - 1" using attempt.next_None [of a] by simp
      moreover have "unat (attempt_get later) = unat (attempt_get a) + 1"
        using Some attempt.next_Some by simp
      ultimately show ?thesis
        using True Some b(1) n
        by (cases "boot_checked_add at (delay_for b retry)")
          (simp_all add: unfold decide_def Let_def delay)
    qed
  qed
qed

end
