(* ===== verification/Execution_Properties.thy ===== *)
theory Execution_Properties
  imports Restart_Budget
begin

text \<open>
  The properties of the execution state machine, each with a witness on a concrete run. The
  two sample executions below are a job with two restarts and a service with the same
  backoff; every witness evaluates one of their runs.
\<close>

section \<open>Sample executions\<close>

definition sample_backoff :: backoff_policy where
  "sample_backoff = \<lparr>bp_initial = NonZeroDuration 250000000, bp_multiplier = 2,
     bp_maximum = NonZeroDuration 30000000000\<rparr>"

definition sample_job :: execution_state where
  "sample_job = \<lparr>es_id = ExecutionId 7, es_workload_id = WorkloadId ''backup'',
     es_origin = JobOrigin Manual, es_source_definition = ProcessDefinitionHash [],
     es_execution_config = ExecutionConfigHash [], es_success_exit_codes = {ExitCode 0},
     es_restart_policy = JobPolicy (JobOnFailure
       \<lparr>jrp_max_restarts = 2, jrp_backoff = sample_backoff\<rparr>),
     es_last_retry = None, es_phase = Launching attempt_first\<rparr>"

definition sample_service :: execution_state where
  "sample_service = sample_job\<lparr>es_origin := ServiceIntent (IntentRevision 1),
     es_restart_policy := ServicePolicy (ServiceOnFailure
       \<lparr>srp_limit = Finite 10, srp_reset_after = NonZeroDuration 300000000000,
        srp_backoff = sample_backoff\<rparr>)\<rparr>"

lemma sample_fresh [simp]: "fresh_execution sample_job" "fresh_execution sample_service"
  by (simp_all add: fresh_execution_def sample_job_def sample_service_def sample_backoff_def
      wf_job_retry_def wf_service_retry_def wf_backoff_def wf_nzd_def duration_ok_def duration_max_def
      nanos_per_sec_def less_eq_non_zero_duration_def)

text \<open>The job runs once, fails, and its first retry is launched and succeeds.\<close>

definition sample_events :: "execution_event list" where
  "sample_events =
     [LaunchSucceeded (AttemptNumber 1) (BootInstant 0),
      ProcessExited (AttemptNumber 1) (ExitCode 1) 5 (BootInstant 100),
      RestartDeadlineReached (RetryDeadline (BootInstant 2500100)),
      LaunchSucceeded (AttemptNumber 2) (BootInstant 2500200),
      ProcessExited (AttemptNumber 2) (ExitCode 0) 5 (BootInstant 2500300)]"

definition sample_end :: execution_state where
  "sample_end = sample_job\<lparr>es_last_retry := Some (RetryOrdinal 1),
     es_phase := Terminal (Completed (ExitCode 0))\<rparr>"

definition sample_effects :: "execution_effect list" where
  "sample_effects =
     [ScheduleRestart (RetryDeadline (BootInstant 2500100)), LaunchAttempt (AttemptNumber 2),
      PublishTerminal (Completed (ExitCode 0))]"

lemmas evaluate =
  checked_add_def checked_mul_def div_ceil_def attempt_next_def attempt_new_def attempt_first_def
  ordinal_first_def ordinal_next_def ordinal_new_def
  launch_succeeded_def launch_failed_def process_exited_def stop_requested_def
  restart_deadline_reached_def stop_deadline_reached_def reconsider_backoff_def
  restart_policy_changed_def success_exit_codes_changed_def supervisor_lost_def
  finish_attempt_def reset_after_stable_run_def policy_permits_def exec_backoff_def
  finish_terminal_def exec_terminal_def finish_stop_def exec_stop_deadline_def
  validate_stop_cause_def validate_policy_kind_def delay_for_def boot_checked_add_def
  duration_ticks_def nanos_per_sec_def as_secs_def subsec_nanos_def
  sample_job_def sample_service_def sample_backoff_def Let_def

lemma sample_run: "run_execution sample_job sample_events = Inr (sample_end, sample_effects)"
  by (simp add: sample_events_def sample_end_def sample_effects_def evaluate)

lemma sample_typed: "list_all typed_event sample_events" "list_all (\<lambda>ev. \<not> changes_policy ev) sample_events"
  by (simp_all add: sample_events_def)

section \<open>Properties\<close>



text \<open>
  C2. Along every run of a fresh execution the published outcomes are
  exactly the outcome of the state reached: none while it is not terminal, and its one
  outcome, published once, when it is.
\<close>

theorem outcome_published_once:
  assumes "fresh_execution s" and "run_execution s evs = Inr (s', effs)" and "list_all typed_event evs"
  shows "published effs = outcome_of (es_phase s')"
proof -
  have "reach lifecycle (es_phase s) effs (es_phase s')"
    using assms by (blast intro: execution.reach_simulates run_execution_reach fresh_wf)
  then show ?thesis using reach_publishes assms(1) by (fastforce simp: fresh_execution_def)
qed

theorem outcome_published_once_witness:
  "published sample_effects = [Completed (ExitCode 0)]"
  using outcome_published_once [OF _ sample_run] by (simp add: sample_typed sample_end_def)

text \<open>
  The attempts a fresh execution launches are numbered
  consecutively from two (attempt one is being launched when it starts), the attempt of the
  phase reached is the last one launched, and the identity, origin and configuration snapshot
  never change.
\<close>

theorem attempts_are_consecutive:
  assumes "fresh_execution s" and "run_execution s evs = Inr (s', effs)" and "list_all typed_event evs"
  shows "launches effs = [2..<2 + length (launches effs)] \<and>
    pred_option (\<lambda>a. unat (attempt_get a) = 1 + length (launches effs)) (phase_attempt (es_phase s')) \<and>
    snapshot s' = snapshot s"
proof -
  have run: "reach execution_step s effs s'" using assms by (blast intro: run_execution_reach)
  moreover have "attempts_upto 1 (es_phase s)"
    using assms(1) by (simp add: fresh_execution_def attempts_upto_def)
  ultimately obtain m where m: "consecutive 1 (launches effs) m" "attempts_upto m (es_phase s')"
    using attempts.numbering.reach_continues assms(1) by (blast intro: fresh_wf)
  moreover from m(1) have "m = 1 + length (launches effs)"
    "launches effs = [Suc 1..<Suc 1 + length (launches effs)]"
    by (rule consecutive_length, rule consecutive_upt)
  ultimately show ?thesis using run
    by (auto simp: attempts_upto_def option.pred_set reach_snapshot numeral_2_eq_2 simp del: upt_Suc)
qed

theorem attempts_are_consecutive_witness:
  "launches sample_effects = [2] \<and> snapshot sample_end = snapshot sample_job"
  using attempts_are_consecutive [OF _ sample_run] by (simp add: sample_typed sample_effects_def)

text \<open>
  C4. While its restart policy does not change, a job execution launches
  at most \<open>max_restarts\<close> attempts beyond its first one, whatever events arrive.
\<close>

theorem job_restart_budget:
  assumes "fresh_execution s" and "is_job s" and "run_execution s evs = Inr (s', effs)"
    and "list_all (\<lambda>ev. \<not> changes_policy ev) evs"
  shows "length (launches effs) \<le> job_max_restarts (es_restart_policy s)"
proof -
  have "reach fixed_policy_step s effs s'" using assms by (blast intro: run_execution_fixed_policy)
  then have "length (launches effs) \<le> job_restarts_left s"
    using assms(2) by (simp add: length_launches job.reach_bounded)
  then show ?thesis
    using assms(1) by (simp add: fresh_execution_def job_restarts_left_def retries_used_def)
qed

theorem job_restart_budget_witness:
  "length (launches sample_effects) \<le> 2 \<and> length (launches sample_effects) = 1"
  using job_restart_budget [OF _ _ sample_run]
  by (simp add: sample_typed) (simp add: sample_job_def sample_effects_def)

text \<open>
  C3. Once a stop request is accepted by a launching, running or backing
  off execution, no later event can restart it: it launches and schedules nothing more, and
  it stays \<open>Stopping\<close> with the requested cause or ends with that cause's outcome.
\<close>

theorem stop_intent_is_final:
  assumes "wf_execution s" and "phase_attempt (es_phase s) \<noteq> None"
    and "\<nexists>a ph c pl. es_phase s = Stopping a ph c pl"
    and "execution_transition s (StopRequested cause plan at) = Inr t"
    and "run_execution (tr_state t) evs = Inr (s', effs)" and "list_all typed_event evs"
  shows "stopping_with cause (es_phase s') \<and> filter restarts (tr_effects t @ effs) = []"
proof -
  have wf: "wf_execution (tr_state t)"
    using assms(1,4) execution_transition_wf [of s "StopRequested cause plan at" t] by simp
  have "stopping_with cause (es_phase (tr_state t)) \<and> filter restarts (tr_effects t) = []"
    using assms(2-4)
    by (cases "es_phase s"; cases plan) (auto simp: stop_requested_def rust_result Let_def)
  moreover have "reach lifecycle (es_phase (tr_state t)) effs (es_phase s')"
    using assms(5,6) wf by (blast intro: execution.reach_simulates run_execution_reach)
  ultimately show ?thesis using reach_stopping by fastforce
qed

text \<open>The sample service, stopped while it runs; it then ignores the stop and is killed.\<close>

definition sample_running :: execution_state where
  "sample_running = sample_service\<lparr>es_phase := Running (AttemptNumber 1)\<rparr>"

definition sample_stopping :: "stop_phase \<Rightarrow> execution_state" where
  "sample_stopping ph = sample_service\<lparr>es_phase :=
     Stopping (AttemptNumber 1) ph (ServiceCause ServiceStop) (CtrlBreak 10000000000)\<rparr>"

lemma sample_running_wf: "wf_execution sample_running"
  using fresh_wf [OF sample_fresh(2)]
  by (simp add: sample_running_def wf_execution_def retries_match_def retries_used_def
      fresh_execution_def) (simp add: sample_service_def sample_job_def)

lemma sample_stop_run:
  "execution_transition sample_running
     (StopRequested (ServiceCause ServiceStop) (CtrlBreak 10000000000) (BootInstant 50)) =
   Inr (transition_new (sample_stopping (Graceful (StopDeadline (BootInstant 100000050))))
     [SendCtrlBreak, ScheduleStopDeadline (StopDeadline (BootInstant 100000050))])"
  by (simp add: sample_running_def sample_stopping_def evaluate)

theorem stop_intent_is_final_witness:
  "stopping_with (ServiceCause ServiceStop) (es_phase (sample_stopping Killing)) \<and>
   filter restarts [SendCtrlBreak, ScheduleStopDeadline (StopDeadline (BootInstant 100000050)),
     TerminateJobObject] = []"
  using stop_intent_is_final [OF sample_running_wf _ _ sample_stop_run,
      of "[StopDeadlineReached (StopDeadline (BootInstant 100000050))]"
        "sample_stopping Killing" "[TerminateJobObject]"]
  by (simp add: sample_running_def sample_stopping_def evaluate)


text \<open>
  A stop cannot hang on the workload. If the plan has a timeout and
  the deadline fits the clock, the request is accepted and arms the stop deadline; if the
  process is still there at that deadline, the supervisor terminates the job object, and the
  exit of the attempt ends the execution with the requested cause and \<open>forced = true\<close>.
\<close>

theorem stop_reaches_terminal:
  assumes "live_attempt (es_phase s) = Some a" and "is_job_cause cause = is_job s"
    and "plan = CtrlBreak timeout \<or> plan = Command timeout"
    and "boot_checked_add at timeout = Some d"
  shows "\<exists>s' effs. run_execution s [StopRequested cause plan at, StopDeadlineReached (StopDeadline d),
      ProcessExited a code ran_for later] = Inr (s', effs) \<and>
    es_phase s' = Terminal (stop_outcome cause True) \<and>
    effs = (if es_phase s = Running a then [stop_effect plan] else []) @
      [ScheduleStopDeadline (StopDeadline d), TerminateJobObject,
       PublishTerminal (stop_outcome cause True)]"
proof -
  have valid: "validate_stop_cause s cause = Inr ()" using assms(2) by (simp add: validate_stop_cause_Inr)
  have deadline: "exec_stop_deadline at timeout = Inr (StopDeadline d)"
    using assms(4) by (simp add: exec_stop_deadline_def)
  show ?thesis
  proof (cases "es_phase s")
    case (Launching b)
    with assms(1,3) valid deadline show ?thesis
      by (auto simp: stop_requested_def stop_deadline_reached_def process_exited_def Let_def)
  next
    case (Running b)
    with assms(1,3) valid deadline show ?thesis
      by (auto simp: stop_requested_def stop_deadline_reached_def process_exited_def Let_def)
  qed (use assms(1) in simp_all)
qed

theorem stop_reaches_terminal_witness:
  "\<exists>s' effs. run_execution sample_running
     [StopRequested (ServiceCause ServiceStop) (CtrlBreak 10000000000) (BootInstant 50),
      StopDeadlineReached (StopDeadline (BootInstant 100000050)),
      ProcessExited (AttemptNumber 1) (ExitCode 1) 5 (BootInstant 100000060)] = Inr (s', effs) \<and>
    es_phase s' = Terminal (Stopped ServiceStop True)"
proof -
  have "boot_checked_add (BootInstant 50) 10000000000 = Some (BootInstant 100000050)"
    by (simp add: evaluate)
  then show ?thesis
    using stop_reaches_terminal [of sample_running "AttemptNumber 1" "ServiceCause ServiceStop"]
    by (fastforce simp: sample_running_def sample_service_def)
qed

text \<open>What an event names is what the phase is waiting for.\<close>

fun names_current :: "execution_phase \<Rightarrow> execution_event \<Rightarrow> bool" where
  "names_current (Launching a) (LaunchSucceeded b _) = (b = a)"
| "names_current (Stopping a _ _ _) (LaunchSucceeded b _) = (b = a)"
| "names_current _ (LaunchSucceeded _ _) = False"
| "names_current (Launching a) (LaunchFailed b _ _) = (b = a)"
| "names_current (Stopping a _ _ _) (LaunchFailed b _ _) = (b = a)"
| "names_current _ (LaunchFailed _ _ _) = False"
| "names_current (Running a) (ProcessExited b _ _ _) = (b = a)"
| "names_current (Stopping a _ _ _) (ProcessExited b _ _ _) = (b = a)"
| "names_current _ (ProcessExited _ _ _ _) = False"
| "names_current (RestartBackoff _ _ _ _ at) (RestartDeadlineReached d) = (d = at)"
| "names_current _ (RestartDeadlineReached _) = False"
| "names_current (Stopping _ (AwaitingLaunch at) _ _) (StopDeadlineReached d) = (d = at)"
| "names_current (Stopping _ (Graceful at) _ _) (StopDeadlineReached d) = (d = at)"
| "names_current (Stopping _ Killing _ _) (StopDeadlineReached d) = True"
| "names_current _ (StopDeadlineReached _) = False"
| "names_current _ _ = True"

text \<open>
  An event is accepted only if what it names is current: the
  attempt of the launching, running or stopping phase, the deadline of the pending restart,
  or the deadline of the graceful stop (a killing stop ignores late stop deadlines).
\<close>

theorem stale_events_are_rejected:
  "\<not> names_current (es_phase s) event \<Longrightarrow>
   execution_transition s event \<in> {Inl StaleAttempt, Inl StaleDeadline, Inl UnexpectedEvent}"
  by (cases event; cases "es_phase s")
    (auto simp: launch_succeeded_def launch_failed_def process_exited_def
      restart_deadline_reached_def stop_deadline_reached_def Let_def split: stop_phase.split)

theorem stale_events_are_rejected_witness:
  "execution_transition sample_job (ProcessExited (AttemptNumber 1) (ExitCode 0) 5 (BootInstant 9))
     \<in> {Inl StaleAttempt, Inl StaleDeadline, Inl UnexpectedEvent}"
  by (rule stale_events_are_rejected) (simp add: sample_job_def)

text \<open>
  C5. The end of a live attempt is decided as \<open>decide\<close> says over
  plain naturals: the retry number is one more than the retries used (from zero again after a
  stable service run), a permitted retry becomes the next attempt at the capped exponential
  delay after the end, a denied one gives the outcome of the attempt, and the only errors are
  an attempt number or a deadline that does not fit; the retry counter never overflows.
\<close>

theorem restart_decision_closed_form:
  assumes "wf_execution s" and "live_attempt (es_phase s) = Some a"
  shows "and_then (finish_attempt s a end at) (\<lambda>t. Inr (phase_decision (es_phase (tr_state t)))) =
    and_then (decide s a end at) (\<lambda>d. Inr (Some d))"
  using assms by (rule finish_attempt_decides)

theorem restart_decision_closed_form_witness:
  "and_then (finish_attempt sample_running (AttemptNumber 1) (EndExited (ExitCode 1) 5) (BootInstant 100))
     (\<lambda>t. Inr (phase_decision (es_phase (tr_state t)))) =
   Inr (Some (RestartAs 2 1 (RetryDeadline (BootInstant 2500100))))"
proof -
  have "decide sample_running (AttemptNumber 1) (EndExited (ExitCode 1) 5) (BootInstant 100) =
      Inr (RestartAs 2 1 (RetryDeadline (BootInstant 2500100)))"
    by (simp add: sample_running_def decide_def backoff_delay_def capped_exponential_def
        retries_used_def evaluate)
  then show ?thesis
    using restart_decision_closed_form [OF sample_running_wf, of "AttemptNumber 1"]
    by (simp add: sample_running_def)
qed

text \<open>
  A kill plan that arrives while the attempt is being launched goes to
  \<open>Killing\<close> at once and asks for the job object to be terminated before the launch is
  confirmed. The confirmation of that launch is then rejected as unexpected and asks for
  nothing, so the job object is not terminated again.
\<close>

theorem kill_during_launch:
  assumes "es_phase s = Launching a" and "is_job_cause cause = is_job s"
  shows "\<exists>t. execution_transition s (StopRequested cause Kill at) = Inr t \<and>
    tr_effects t = [TerminateJobObject] \<and> es_phase (tr_state t) = Stopping a Killing cause Kill \<and>
    execution_transition (tr_state t) (LaunchSucceeded a later) = Inl UnexpectedEvent"
proof -
  have "validate_stop_cause s cause = Inr ()" using assms(2) by (simp add: validate_stop_cause_Inr)
  with assms(1) show ?thesis by (simp add: stop_requested_def launch_succeeded_def)
qed

theorem kill_during_launch_witness:
  "\<exists>t. execution_transition sample_job (StopRequested (JobCause JobCancel) Kill (BootInstant 1)) = Inr t \<and>
    tr_effects t = [TerminateJobObject] \<and>
    execution_transition (tr_state t) (LaunchSucceeded attempt_first (BootInstant 2)) = Inl UnexpectedEvent"
  using kill_during_launch [of sample_job attempt_first "JobCause JobCancel" "BootInstant 1" "BootInstant 2"]
  by (auto simp: sample_job_def)

end
