(* ===== verification/Supervisor_Binding.thy ===== *)
theory Supervisor_Binding
  imports Transition Restart Ids
begin

text \<open>
  The controller's binding of an execution to its supervisor process
  (\<open>crates/domain/src/supervisor_binding.rs\<close>): launching, handshake, adoption and the
  bounded replacement of a failing supervisor. The state of the machine is an option: \<open>None\<close>
  is the code's \<open>Option::None\<close>, no binding any more.
\<close>

section \<open>Data\<close>

definition default_supervisor_max_failures :: u32 where
  "default_supervisor_max_failures = 8"

definition default_supervisor_backoff_initial :: duration where
  "default_supervisor_backoff_initial = from_millis 100"

definition default_supervisor_backoff_multiplier :: u32 where
  "default_supervisor_backoff_multiplier = 2"

definition default_supervisor_backoff_maximum :: duration where
  "default_supervisor_backoff_maximum = from_secs 5"

definition default_supervisor_handshake_timeout :: duration where
  "default_supervisor_handshake_timeout = from_secs 5"

definition default_supervisor_discovery_timeout :: duration where
  "default_supervisor_discovery_timeout = from_secs 3"

record supervisor_process_identity =
  spi_supervisor_id :: supervisor_id
  spi_incarnation :: supervisor_incarnation

definition next_incarnation :: "supervisor_process_identity \<Rightarrow> supervisor_process_identity option" where
  "next_incarnation p =
     map_option (\<lambda>i. \<lparr>spi_supervisor_id = spi_supervisor_id p, spi_incarnation = i\<rparr>)
       (incarnation_next (spi_incarnation p))"

datatype supervisor_failure_count = FailureCount (failures_get: u32)

definition failures_zero :: supervisor_failure_count where
  "failures_zero = FailureCount 0"

definition after_failure :: "supervisor_failure_count \<Rightarrow> supervisor_failure_count option" where
  "after_failure f = map_option FailureCount (checked_add (failures_get f) 1)"

definition failures_retry_ordinal :: "supervisor_failure_count \<Rightarrow> retry_ordinal option" where
  "failures_retry_ordinal f = ordinal_new (failures_get f)"

record supervisor_launch_policy =
  slp_max_failures :: u32
  slp_backoff :: backoff_policy
  slp_handshake_timeout :: non_zero_duration
  slp_discovery_timeout :: non_zero_duration

definition permits_retry_after ::
  "supervisor_launch_policy \<Rightarrow> supervisor_failure_count \<Rightarrow> bool"
where
  "permits_retry_after policy failures \<longleftrightarrow> failures_get failures < slp_max_failures policy"

text \<open>\<open>Default\<close> unwraps with \<open>expect\<close>; \<open>None\<close> is the panic that \<open>default_launch_policy_is_some\<close> excludes.\<close>

definition default_launch_policy :: "supervisor_launch_policy option" where
  "default_launch_policy =
     Option.bind (nzd_new default_supervisor_backoff_initial) (\<lambda>initial.
     if default_supervisor_backoff_multiplier = 0 then None else
     Option.bind (nzd_new default_supervisor_backoff_maximum) (\<lambda>maximum.
     case backoff_new initial default_supervisor_backoff_multiplier maximum of
       Inl _ \<Rightarrow> None
     | Inr backoff \<Rightarrow>
         if default_supervisor_max_failures = 0 then None else
         Option.bind (nzd_new default_supervisor_handshake_timeout) (\<lambda>handshake.
         map_option (\<lambda>discovery.
           \<lparr>slp_max_failures = default_supervisor_max_failures, slp_backoff = backoff,
            slp_handshake_timeout = handshake, slp_discovery_timeout = discovery\<rparr>)
           (nzd_new default_supervisor_discovery_timeout))))"

datatype supervisor_binding =
    Discovering supervisor_process_identity supervisor_failure_count discovery_deadline
  | LaunchPending supervisor_process_identity supervisor_failure_count
  | AwaitingHandshake supervisor_process_identity supervisor_failure_count handshake_deadline
  | Attached supervisor_process_identity supervisor_failure_count observation_sequence
  | BindingBackoff supervisor_process_identity supervisor_failure_count retry_deadline

datatype handshake_rejection =
    AuthenticationFailed
  | WrongManagerSession
  | WrongExecution
  | WrongSupervisor
  | WrongExecutionConfig
  | IncompatibleProtocol
  | StaleObservation

datatype supervisor_failure =
    ProcessMissing
  | FailureProcessExited
  | HandshakeTimedOut
  | HandshakeRejected handshake_rejection

datatype binding_event =
    DiscoveryAttached supervisor_process_identity observation_sequence
  | DiscoveryFailed supervisor_process_identity boot_instant supervisor_failure
  | BindingLaunchSucceeded supervisor_process_identity boot_instant
  | BindingLaunchFailed supervisor_process_identity boot_instant
  | HandshakeAccepted supervisor_process_identity observation_sequence
  | HandshakeFailed supervisor_process_identity boot_instant supervisor_failure
  | SupervisorExited supervisor_process_identity boot_instant
  | RetryDeadlineReached supervisor_process_identity retry_deadline
  | ExecutionTerminated

datatype binding_effect =
    LaunchSupervisor supervisor_process_identity
  | ArmDiscoveryDeadline discovery_deadline
  | ArmHandshakeDeadline handshake_deadline
  | ArmRetryDeadline retry_deadline
  | AdoptSupervisor supervisor_process_identity execution_id observation_sequence
  | RequestSupervisorShutdown supervisor_process_identity
  | ReportSupervisorUnavailable

datatype binding_error =
    BindingUnexpectedEvent
  | StaleProcess
  | BindingStaleDeadline
  | FailureCountOverflow
  | IncarnationOverflow
  | BindingDeadlineOverflow

type_synonym binding_result =
  "binding_error + (supervisor_binding option, binding_effect) transition"

section \<open>Operations\<close>

definition discovery_attached ::
  "supervisor_binding \<Rightarrow> supervisor_process_identity \<Rightarrow> execution_id \<Rightarrow> observation_sequence \<Rightarrow>
   binding_result"
where
  "discovery_attached b process execution last_sequence =
     (case b of
        Discovering current failures _ \<Rightarrow>
          if current \<noteq> process then Inl StaleProcess
          else Inr (transition_new (Some (Attached process failures last_sequence))
                 [AdoptSupervisor process execution last_sequence])
      | _ \<Rightarrow> Inl BindingUnexpectedEvent)"

definition binding_launch_succeeded ::
  "supervisor_binding \<Rightarrow> supervisor_process_identity \<Rightarrow> boot_instant \<Rightarrow> supervisor_launch_policy \<Rightarrow>
   binding_result"
where
  "binding_launch_succeeded b process at policy =
     (case b of
        LaunchPending current failures \<Rightarrow>
          if current \<noteq> process then Inl StaleProcess
          else
            and_then (ok_or BindingDeadlineOverflow
                (boot_checked_add at (nzd_get (slp_handshake_timeout policy)))) (\<lambda>instant.
            let deadline = HandshakeDeadline instant in
            Inr (transition_new (Some (AwaitingHandshake process failures deadline))
                   [ArmHandshakeDeadline deadline]))
      | _ \<Rightarrow> Inl BindingUnexpectedEvent)"

definition handshake_accepted ::
  "supervisor_binding \<Rightarrow> supervisor_process_identity \<Rightarrow> observation_sequence \<Rightarrow> binding_result"
where
  "handshake_accepted b process last_sequence =
     (case b of
        AwaitingHandshake current failures _ \<Rightarrow>
          if current \<noteq> process then Inl StaleProcess
          else Inr (without_effects (Some (Attached process failures last_sequence)))
      | _ \<Rightarrow> Inl BindingUnexpectedEvent)"

text \<open>The process a binding waits for or talks to; a backoff has none.\<close>

fun bound_process ::
  "supervisor_binding \<Rightarrow> (supervisor_process_identity \<times> supervisor_failure_count) option"
where
  "bound_process (Discovering process failures _) = Some (process, failures)"
| "bound_process (LaunchPending process failures) = Some (process, failures)"
| "bound_process (AwaitingHandshake process failures _) = Some (process, failures)"
| "bound_process (Attached process failures _) = Some (process, failures)"
| "bound_process (BindingBackoff _ _ _) = None"

definition process_failed ::
  "supervisor_binding \<Rightarrow> supervisor_process_identity \<Rightarrow> boot_instant \<Rightarrow> supervisor_launch_policy \<Rightarrow>
   binding_result"
where
  "process_failed b process at policy =
     and_then (ok_or BindingUnexpectedEvent (bound_process b)) (\<lambda>(current, failures).
     if current \<noteq> process then Inl StaleProcess
     else
       and_then (ok_or FailureCountOverflow (after_failure failures)) (\<lambda>failures.
       if \<not> permits_retry_after policy failures
       then Inr (transition_new None [ReportSupervisorUnavailable])
       else
         and_then (ok_or IncarnationOverflow (next_incarnation process)) (\<lambda>next_process.
         and_then (ok_or FailureCountOverflow (failures_retry_ordinal failures)) (\<lambda>retry.
         and_then (ok_or BindingDeadlineOverflow
             (boot_checked_add at (delay_for (slp_backoff policy) retry))) (\<lambda>instant.
         let retry_at = RetryDeadline instant in
         Inr (transition_new (Some (BindingBackoff next_process failures retry_at))
                [ArmRetryDeadline retry_at]))))))"

definition retry_deadline_reached ::
  "supervisor_binding \<Rightarrow> supervisor_process_identity \<Rightarrow> retry_deadline \<Rightarrow> binding_result"
where
  "retry_deadline_reached b process deadline =
     (case b of
        BindingBackoff next_process failures retry_at \<Rightarrow>
          if next_process \<noteq> process then Inl StaleProcess
          else if retry_at \<noteq> deadline then Inl BindingStaleDeadline
          else Inr (transition_new (Some (LaunchPending process failures))
                 [LaunchSupervisor process])
      | _ \<Rightarrow> Inl BindingUnexpectedEvent)"

definition binding_terminate ::
  "supervisor_binding \<Rightarrow> (supervisor_binding option, binding_effect) transition"
where
  "binding_terminate b =
     (let process = (case b of
            Discovering process _ _ \<Rightarrow> Some process
          | AwaitingHandshake process _ _ \<Rightarrow> Some process
          | Attached process _ _ \<Rightarrow> Some process
          | LaunchPending _ _ \<Rightarrow> None
          | BindingBackoff _ _ _ \<Rightarrow> None)
      in transition_new None
           (case process of Some p \<Rightarrow> [RequestSupervisorShutdown p] | None \<Rightarrow> []))"

fun binding_transition ::
  "supervisor_binding \<Rightarrow> binding_event \<Rightarrow> execution_id \<Rightarrow> supervisor_launch_policy \<Rightarrow> binding_result"
where
  "binding_transition b (DiscoveryAttached process last_sequence) execution policy =
     discovery_attached b process execution last_sequence"
| "binding_transition b (DiscoveryFailed process at _) execution policy =
     process_failed b process at policy"
| "binding_transition b (HandshakeFailed process at _) execution policy =
     process_failed b process at policy"
| "binding_transition b (SupervisorExited process at) execution policy =
     process_failed b process at policy"
| "binding_transition b (BindingLaunchSucceeded process at) execution policy =
     binding_launch_succeeded b process at policy"
| "binding_transition b (BindingLaunchFailed process at) execution policy =
     process_failed b process at policy"
| "binding_transition b (HandshakeAccepted process last_sequence) execution policy =
     handshake_accepted b process last_sequence"
| "binding_transition b (RetryDeadlineReached process deadline) execution policy =
     retry_deadline_reached b process deadline"
| "binding_transition b ExecutionTerminated execution policy = Inr (binding_terminate b)"

text \<open>A run of the machine with one policy; an ended binding accepts nothing.\<close>

fun binding_machine ::
  "execution_id \<Rightarrow> supervisor_launch_policy \<Rightarrow> supervisor_binding option \<Rightarrow> binding_event \<Rightarrow>
   binding_result"
where
  "binding_machine execution policy (Some b) event = binding_transition b event execution policy"
| "binding_machine execution policy None event = Inl BindingUnexpectedEvent"

inductive binding_step ::
  "supervisor_launch_policy \<Rightarrow> supervisor_binding option \<Rightarrow> binding_effect list \<Rightarrow>
   supervisor_binding option \<Rightarrow> bool"
  for policy where
  binding_accepted: "binding_machine execution policy b event = Inr t \<Longrightarrow>
    binding_step policy b (tr_effects t) (tr_state t)"

inductive_cases binding_stepE: "binding_step policy b effs b'"

section \<open>What a run of the binding does\<close>

lemma binding_step_accepted:
  "binding_transition b event execution policy = Inr t \<Longrightarrow>
   binding_step policy (Some b) (tr_effects t) (tr_state t)"
  using binding_accepted [of execution policy "Some b" event t] by simp

text \<open>The steps of a binding, one rule for each way a transition can go.\<close>

lemma process_failed_cases:
  assumes "process_failed b process at policy = Inr t"
  obtains (exhausted) f f' where "bound_process b = Some (process, f)" "after_failure f = Some f'"
    "\<not> permits_retry_after policy f'" "t = transition_new None [ReportSupervisorUnavailable]"
  | (backing_off) f f' later retry instant where "bound_process b = Some (process, f)"
    "after_failure f = Some f'" "permits_retry_after policy f'"
    "next_incarnation process = Some later" "failures_retry_ordinal f' = Some retry"
    "boot_checked_add at (delay_for (slp_backoff policy) retry) = Some instant"
    "t = transition_new (Some (BindingBackoff later f' (RetryDeadline instant)))
       [ArmRetryDeadline (RetryDeadline instant)]"
proof -
  from assms obtain f where b: "bound_process b = Some (process, f)"
    by (auto simp: process_failed_def rust_result split: if_splits prod.splits)
  with assms obtain f' where f': "after_failure f = Some f'"
    by (auto simp: process_failed_def rust_result)
  show thesis
  proof (cases "permits_retry_after policy f'")
    case True
    with assms b f' show thesis
      by (auto simp: process_failed_def rust_result Let_def intro: backing_off)
  next
    case False
    with assms b f' show thesis
      by (auto simp: process_failed_def rust_result intro: exhausted)
  qed
qed

lemma after_failure_Some: "after_failure f = Some f' \<longleftrightarrow> unat (failures_get f') = unat (failures_get f) + 1"
  by (cases f') (auto simp: after_failure_def checked)

lemma next_incarnation_Some:
  "next_incarnation p = Some q \<longleftrightarrow> spi_supervisor_id q = spi_supervisor_id p \<and>
   unat (incarnation_get (spi_incarnation q)) = unat (incarnation_get (spi_incarnation p)) + 1"
  by (cases q) (auto simp: next_incarnation_def incarnation.next_Some)

fun binding_failures :: "supervisor_binding \<Rightarrow> nat" where
  "binding_failures (Discovering _ f _) = unat (failures_get f)"
| "binding_failures (LaunchPending _ f) = unat (failures_get f)"
| "binding_failures (AwaitingHandshake _ f _) = unat (failures_get f)"
| "binding_failures (Attached _ f _) = unat (failures_get f)"
| "binding_failures (BindingBackoff _ f _) = unat (failures_get f)"

fun binding_process :: "supervisor_binding \<Rightarrow> supervisor_process_identity" where
  "binding_process (Discovering p _ _) = p"
| "binding_process (LaunchPending p _) = p"
| "binding_process (AwaitingHandshake p _ _) = p"
| "binding_process (Attached p _ _) = p"
| "binding_process (BindingBackoff p _ _) = p"

lemma bound_process_Some:
  "bound_process b = Some (p, f) \<Longrightarrow> binding_process b = p \<and> binding_failures b = unat (failures_get f)"
  by (cases b) auto

text \<open>
  The shape of a step, over the failures and the process of the binding alone: it waits (same
  process, same failures), it fails once, it launches the next process, or it ends.
\<close>

inductive binding_shape ::
  "nat \<Rightarrow> supervisor_binding \<Rightarrow> binding_effect list \<Rightarrow> supervisor_binding option \<Rightarrow> bool"
  for limit where
  waits: "bound_process b = Some (p, f) \<Longrightarrow> bound_process b' = Some (p, f) \<Longrightarrow>
    (\<forall>q. LaunchSupervisor q \<notin> set effs) \<Longrightarrow> \<forall>d. ArmRetryDeadline d \<notin> set effs \<Longrightarrow>
    ReportSupervisorUnavailable \<notin> set effs \<Longrightarrow> binding_shape limit b effs (Some b')"
| fails: "bound_process b = Some (p, f) \<Longrightarrow> after_failure f = Some f' \<Longrightarrow>
    unat (failures_get f') < limit \<Longrightarrow> next_incarnation p = Some q \<Longrightarrow>
    binding_shape limit b [ArmRetryDeadline d] (Some (BindingBackoff q f' d))"
| relaunches: "binding_shape limit (BindingBackoff p f d) [LaunchSupervisor p] (Some (LaunchPending p f))"
| gives_up: "bound_process b = Some (p, f) \<Longrightarrow> after_failure f = Some f' \<Longrightarrow>
    limit \<le> unat (failures_get f') \<Longrightarrow> binding_shape limit b [ReportSupervisorUnavailable] None"
| terminated: "set effs \<subseteq> range RequestSupervisorShutdown \<Longrightarrow> binding_shape limit b effs None"

lemma process_failed_shape:
  "process_failed b process at policy = Inr t \<Longrightarrow>
   binding_shape (unat (slp_max_failures policy)) b (tr_effects t) (tr_state t)"
  by (erule process_failed_cases)
    (auto simp: permits_retry_after_def word_less_nat_alt intro: fails gives_up)

lemma binding_transition_shape:
  assumes "binding_transition b event execution policy = Inr t"
  shows "binding_shape (unat (slp_max_failures policy)) b (tr_effects t) (tr_state t)"
proof (cases event)
  case (DiscoveryAttached p seq)
  then show ?thesis using assms
    by (auto simp: discovery_attached_def split: supervisor_binding.splits if_splits intro!: waits)
next
  case (BindingLaunchSucceeded p at)
  then show ?thesis using assms
    by (auto simp: binding_launch_succeeded_def rust_result Let_def
        split: supervisor_binding.splits if_splits intro!: waits)
next
  case (HandshakeAccepted p seq)
  then show ?thesis using assms
    by (auto simp: handshake_accepted_def split: supervisor_binding.splits if_splits intro!: waits)
next
  case (RetryDeadlineReached p d)
  then show ?thesis using assms
    by (auto simp: retry_deadline_reached_def split: supervisor_binding.splits if_splits
        intro: relaunches)
next
  case ExecutionTerminated
  then show ?thesis using assms
    by (auto simp: binding_terminate_def Let_def split: supervisor_binding.splits intro!: terminated)
qed (use assms in \<open>auto intro: process_failed_shape\<close>)

lemma binding_step_shape:
  "binding_step policy ob effs ob' \<Longrightarrow>
   \<exists>b. ob = Some b \<and> binding_shape (unat (slp_max_failures policy)) b effs ob'"
proof (erule binding_stepE)
  fix execution event t
  assume "effs = tr_effects t" "ob' = tr_state t" "binding_machine execution policy ob event = Inr t"
  then show ?thesis by (cases ob) (auto intro: binding_transition_shape)
qed

section \<open>Budget and numbering of supervisor processes\<close>

definition wf_binding :: "supervisor_launch_policy \<Rightarrow> supervisor_binding option \<Rightarrow> bool" where
  "wf_binding policy ob \<longleftrightarrow> pred_option (\<lambda>b. binding_failures b < unat (slp_max_failures policy)) ob"

definition supervisors_left :: "supervisor_launch_policy \<Rightarrow> supervisor_binding option \<Rightarrow> nat" where
  "supervisors_left policy ob =
     (case ob of
        None \<Rightarrow> 0
      | Some (BindingBackoff _ f _) \<Rightarrow> unat (slp_max_failures policy) - unat (failures_get f)
      | Some b \<Rightarrow> unat (slp_max_failures policy) - 1 - binding_failures b)"

definition failures_left :: "supervisor_launch_policy \<Rightarrow> supervisor_binding option \<Rightarrow> nat" where
  "failures_left policy ob =
     (case ob of None \<Rightarrow> 0 | Some b \<Rightarrow> unat (slp_max_failures policy) - binding_failures b)"

fun launches_supervisor :: "binding_effect \<Rightarrow> bool" where
  "launches_supervisor (LaunchSupervisor _) = True"
| "launches_supervisor _ = False"

fun counts_failure :: "binding_effect \<Rightarrow> bool" where
  "counts_failure (ArmRetryDeadline _) = True"
| "counts_failure ReportSupervisorUnavailable = True"
| "counts_failure _ = False"

fun incarnation_number :: "binding_effect \<Rightarrow> nat option" where
  "incarnation_number (LaunchSupervisor p) = Some (unat (incarnation_get (spi_incarnation p)))"
| "incarnation_number _ = None"

text \<open>The last incarnation launched: a backoff has chosen the next one but not launched it.\<close>

fun at_incarnation :: "nat \<Rightarrow> supervisor_binding option \<Rightarrow> bool" where
  "at_incarnation n None = True"
| "at_incarnation n (Some (BindingBackoff p _ _)) =
     (unat (incarnation_get (spi_incarnation p)) = Suc n)"
| "at_incarnation n (Some b) = (unat (incarnation_get (spi_incarnation (binding_process b))) = n)"

lemma shape_wf: "binding_shape limit b effs ob' \<Longrightarrow> binding_failures b < limit \<Longrightarrow>
  pred_option (\<lambda>b. binding_failures b < limit) ob'"
  by (induction rule: binding_shape.induct) (auto dest!: bound_process_Some)

lemma shape_failures:
  "binding_shape (unat (slp_max_failures policy)) b effs ob' \<Longrightarrow> wf_binding policy (Some b) \<Longrightarrow>
   length (filter counts_failure effs) + failures_left policy ob' \<le> failures_left policy (Some b)"
proof (induction rule: binding_shape.induct)
  case (waits b p f b' effs)
  then have "filter counts_failure effs = []"
    by (auto simp: filter_empty_conv elim!: counts_failure.elims)
  with waits show ?case by (auto simp: failures_left_def dest!: bound_process_Some)
next
  case (fails b p f f' q d)
  then show ?case
    by (auto simp: failures_left_def after_failure_Some dest!: bound_process_Some)
next
  case (gives_up b p f f')
  then show ?case
    by (auto simp: failures_left_def after_failure_Some wf_binding_def dest!: bound_process_Some)
next
  case (terminated effs b)
  then have "filter counts_failure effs = []" by (auto simp: filter_empty_conv)
  then show ?case by (simp add: failures_left_def)
qed (simp add: failures_left_def)

lemma supervisors_left_bound:
  "bound_process b = Some (p, f) \<Longrightarrow>
   supervisors_left policy (Some b) = unat (slp_max_failures policy) - 1 - unat (failures_get f)"
  by (cases b) (auto simp: supervisors_left_def)

lemma shape_supervisors:
  "binding_shape (unat (slp_max_failures policy)) b effs ob' \<Longrightarrow> wf_binding policy (Some b) \<Longrightarrow>
   length (filter launches_supervisor effs) + supervisors_left policy ob' \<le>
     supervisors_left policy (Some b)"
proof (induction rule: binding_shape.induct)
  case (waits b p f b' effs)
  then have "filter launches_supervisor effs = []"
    by (auto simp: filter_empty_conv elim!: launches_supervisor.elims)
  with waits show ?case by (simp add: supervisors_left_bound)
next
  case (fails b p f f' q d)
  then show ?case
    by (auto simp: supervisors_left_bound after_failure_Some) (simp add: supervisors_left_def)
next
  case (terminated effs b)
  then have "filter launches_supervisor effs = []" by (auto simp: filter_empty_conv)
  then show ?case by (simp add: supervisors_left_def)
qed (simp_all add: supervisors_left_def wf_binding_def)

lemma shape_incarnations:
  "binding_shape limit b effs ob' \<Longrightarrow> at_incarnation n (Some b) \<Longrightarrow>
   \<exists>m. consecutive n (List.map_filter incarnation_number effs) m \<and> at_incarnation m ob'"
proof (induction rule: binding_shape.induct)
  case (waits b p f b' effs)
  have "incarnation_number eff = None" if "eff \<in> set effs" for eff
    using waits(3) that by (cases eff) auto
  then have "List.map_filter incarnation_number effs = []"
    by (auto simp: List.map_filter_def filter_empty_conv)
  moreover have "at_incarnation n (Some b')"
    using waits by (cases b; cases b') auto
  ultimately show ?case by auto
next
  case (fails b p f f' q d)
  then show ?case
    by (cases b) (auto simp: next_incarnation_Some intro!: exI [of _ n])
next
  case (relaunches p f d)
  then show ?case by (auto intro!: exI [of _ "Suc n"])
next
  case (terminated effs b)
  then have "incarnation_number eff = None" if "eff \<in> set effs" for eff using that by auto
  then have "List.map_filter incarnation_number effs = []"
    by (auto simp: List.map_filter_def filter_empty_conv)
  then show ?case by auto
qed auto

interpretation binding: invariant_machine "binding_step policy" "wf_binding policy" for policy
  by unfold_locales
    (auto dest!: binding_step_shape simp: wf_binding_def intro: shape_wf)

interpretation supervisors: effect_budget "binding_step policy" "wf_binding policy"
  launches_supervisor "supervisors_left policy" for policy
  by unfold_locales (auto dest!: binding_step_shape intro: shape_supervisors)

interpretation failures: effect_budget "binding_step policy" "wf_binding policy"
  counts_failure "failures_left policy" for policy
  by unfold_locales (auto dest!: binding_step_shape intro: shape_failures)

interpretation incarnations: effect_numbering "binding_step policy" "\<lambda>_. True"
  incarnation_number at_incarnation for policy
  by unfold_locales (auto dest!: binding_step_shape intro: shape_incarnations)

text \<open>The durable identity never changes.\<close>

definition same_supervisor :: "supervisor_id \<Rightarrow> supervisor_binding option \<Rightarrow> bool" where
  "same_supervisor i ob \<longleftrightarrow> pred_option (\<lambda>b. spi_supervisor_id (binding_process b) = i) ob"

fun concerns :: "supervisor_id \<Rightarrow> binding_effect \<Rightarrow> bool" where
  "concerns i (LaunchSupervisor p) = (spi_supervisor_id p = i)"
| "concerns i (AdoptSupervisor p _ _) = (spi_supervisor_id p = i)"
| "concerns i (RequestSupervisorShutdown p) = (spi_supervisor_id p = i)"
| "concerns i _ = True"

lemma process_failed_identity:
  "process_failed b process at policy = Inr t \<Longrightarrow> same_supervisor i (Some b) \<Longrightarrow>
   same_supervisor i (tr_state t) \<and> list_all (concerns i) (tr_effects t)"
  by (erule process_failed_cases)
    (auto simp: same_supervisor_def next_incarnation_Some dest!: bound_process_Some)

lemma binding_transition_identity:
  assumes "binding_transition b event execution policy = Inr t" and "same_supervisor i (Some b)"
  shows "same_supervisor i (tr_state t) \<and> list_all (concerns i) (tr_effects t)"
proof (cases event)
  case (DiscoveryAttached p seq)
  then show ?thesis using assms
    by (auto simp: discovery_attached_def same_supervisor_def
        split: supervisor_binding.splits if_splits)
next
  case (BindingLaunchSucceeded p at)
  then show ?thesis using assms
    by (auto simp: binding_launch_succeeded_def rust_result Let_def same_supervisor_def
        split: supervisor_binding.splits if_splits)
next
  case (HandshakeAccepted p seq)
  then show ?thesis using assms
    by (auto simp: handshake_accepted_def same_supervisor_def
        split: supervisor_binding.splits if_splits)
next
  case (RetryDeadlineReached p d)
  then show ?thesis using assms
    by (auto simp: retry_deadline_reached_def same_supervisor_def
        split: supervisor_binding.splits if_splits)
next
  case ExecutionTerminated
  then show ?thesis using assms
    by (auto simp: binding_terminate_def Let_def same_supervisor_def split: supervisor_binding.splits)
qed (use assms process_failed_identity in auto)

lemma binding_step_identity:
  "binding_step policy ob effs ob' \<Longrightarrow> same_supervisor i ob \<Longrightarrow>
   same_supervisor i ob' \<and> list_all (concerns i) effs"
proof (erule binding_stepE)
  fix execution event t
  assume "effs = tr_effects t" "ob' = tr_state t" "binding_machine execution policy ob event = Inr t"
    and "same_supervisor i ob"
  then show ?thesis by (cases ob) (auto dest: binding_transition_identity)
qed

lemma reach_identity:
  "reach (binding_step policy) ob effs ob' \<Longrightarrow> same_supervisor i ob \<Longrightarrow>
   same_supervisor i ob' \<and> list_all (concerns i) effs"
  by (induction rule: reach.induct) (auto dest: binding_step_identity)

abbreviation failure_count :: "binding_effect list \<Rightarrow> nat" where
  "failure_count effs \<equiv> length (filter counts_failure effs)"

lemma shape_counts:
  "binding_shape limit b effs ob' \<Longrightarrow> binding_failures b < limit \<Longrightarrow>
   pred_option (\<lambda>b'. binding_failures b' = binding_failures b + failure_count effs) ob' \<and>
   (ReportSupervisorUnavailable \<in> set effs \<longrightarrow>
      ob' = None \<and> binding_failures b + failure_count effs = limit)"
proof (induction rule: binding_shape.induct)
  case (waits b p f b' effs)
  then have "filter counts_failure effs = []"
    by (auto simp: filter_empty_conv elim!: counts_failure.elims)
  with waits show ?case by (auto dest!: bound_process_Some)
qed (auto simp: after_failure_Some dest!: bound_process_Some)

lemma reach_counts:
  "reach (binding_step policy) ob effs ob' \<Longrightarrow> ob = Some b \<Longrightarrow> wf_binding policy ob \<Longrightarrow>
   pred_option (\<lambda>b'. binding_failures b' = binding_failures b + failure_count effs) ob' \<and>
   (ReportSupervisorUnavailable \<in> set effs \<longrightarrow>
      ob' = None \<and> binding_failures b + failure_count effs = unat (slp_max_failures policy))"
proof (induction rule: reach.induct)
  case (reach_step ob effs ob' effs' ob'')
  obtain b' where b': "ob' = Some b'"
    and shape: "binding_shape (unat (slp_max_failures policy)) b' effs' ob''"
    using binding_step_shape reach_step.hyps(2) by blast
  have "wf_binding policy ob'" using reach_step by (auto intro: binding.reach_inv)
  with b' have "binding_failures b' < unat (slp_max_failures policy)" by (simp add: wf_binding_def)
  from shape_counts [OF shape this] show ?case
    using reach_step.IH reach_step.prems b' by (cases ob'') auto
qed auto

lemma run_binding_reach:
  "run_machine (binding_machine execution policy) ob evs = Inr (ob', effs) \<Longrightarrow>
   reach (binding_step policy) ob effs ob'"
  by (rule run_machine_reach [where ok = "\<lambda>_. True"])
    (auto intro: binding_accepted simp: list.pred_True)

lemma default_launch_policy_is_some:
  "\<exists>p. default_launch_policy = Some p \<and> slp_max_failures p = 8 \<and> wf_backoff (slp_backoff p)"
  by (simp add: default_launch_policy_def default_supervisor_max_failures_def
      default_supervisor_backoff_initial_def default_supervisor_backoff_multiplier_def
      default_supervisor_backoff_maximum_def default_supervisor_handshake_timeout_def
      default_supervisor_discovery_timeout_def from_secs_def from_millis_def nanos_per_sec_def
      nzd_new_def backoff_new_def wf_backoff_def wf_nzd_def duration_ok_def duration_max_def
      less_non_zero_duration_def less_eq_non_zero_duration_def)

section \<open>Properties\<close>

text \<open>A supervisor that fails to start, is replaced, and fails again with a budget of two.\<close>

definition sample_policy :: supervisor_launch_policy where
  "sample_policy = \<lparr>slp_max_failures = 2, slp_backoff = \<lparr>bp_initial = NonZeroDuration 100000000,
     bp_multiplier = 2, bp_maximum = NonZeroDuration 5000000000\<rparr>,
     slp_handshake_timeout = NonZeroDuration 5000000000,
     slp_discovery_timeout = NonZeroDuration 3000000000\<rparr>"

definition sample_supervisor :: "u32 \<Rightarrow> supervisor_process_identity" where
  "sample_supervisor n = \<lparr>spi_supervisor_id = SupervisorId 9, spi_incarnation = SupervisorIncarnation n\<rparr>"

definition sample_binding_events :: "binding_event list" where
  "sample_binding_events =
     [BindingLaunchFailed (sample_supervisor 1) (BootInstant 0),
      RetryDeadlineReached (sample_supervisor 2) (RetryDeadline (BootInstant 1000000)),
      BindingLaunchSucceeded (sample_supervisor 2) (BootInstant 1000005),
      HandshakeAccepted (sample_supervisor 2) (ObservationSequence 0),
      SupervisorExited (sample_supervisor 2) (BootInstant 2000000)]"

definition sample_binding_effects :: "binding_effect list" where
  "sample_binding_effects =
     [ArmRetryDeadline (RetryDeadline (BootInstant 1000000)), LaunchSupervisor (sample_supervisor 2),
      ArmHandshakeDeadline (HandshakeDeadline (BootInstant 51000005)), ReportSupervisorUnavailable]"

lemma sample_binding_run:
  "run_machine (binding_machine (ExecutionId 7) sample_policy)
     (Some (LaunchPending (sample_supervisor 1) failures_zero)) sample_binding_events =
   Inr (None, sample_binding_effects)"
  by (simp add: sample_binding_events_def sample_binding_effects_def sample_policy_def
      sample_supervisor_def failures_zero_def process_failed_def after_failure_def checked_add_def
      permits_retry_after_def next_incarnation_def incarnation_next_def incarnation_new_def
      failures_retry_ordinal_def ordinal_new_def delay_for_def boot_checked_add_def checked_mul_def
      as_secs_def subsec_nanos_def div_ceil_def nanos_per_sec_def retry_deadline_reached_def
      binding_launch_succeeded_def handshake_accepted_def Let_def)

text \<open>
  C6. From the first launch of an execution's supervisor, whatever
  succeeds or fails: at most \<open>max_failures - 1\<close> replacements are launched, their incarnations
  count up by one from the first, and every process launched, adopted or shut down has the
  same durable supervisor identity.
\<close>

theorem supervisor_launch_budget:
  assumes "0 < unat (slp_max_failures policy)"
    and "run_machine (binding_machine execution policy) (Some (LaunchPending p failures_zero)) evs =
      Inr (ob, effs)"
  shows "length (filter launches_supervisor effs) < unat (slp_max_failures policy) \<and>
    (let first = unat (incarnation_get (spi_incarnation p)) in
     List.map_filter incarnation_number effs =
       [Suc first..<Suc first + length (List.map_filter incarnation_number effs)]) \<and>
    list_all (concerns (spi_supervisor_id p)) effs"
proof -
  have run: "reach (binding_step policy) (Some (LaunchPending p failures_zero)) effs ob"
    using assms(2) by (rule run_binding_reach)
  have "wf_binding policy (Some (LaunchPending p failures_zero))"
    using assms(1) by (simp add: wf_binding_def failures_zero_def)
  then have "length (filter launches_supervisor effs) \<le> unat (slp_max_failures policy) - 1"
    using supervisors.reach_bounded [OF run] by (simp add: supervisors_left_def failures_zero_def)
  moreover obtain m where "consecutive (unat (incarnation_get (spi_incarnation p)))
      (List.map_filter incarnation_number effs) m"
    using incarnations.reach_continues [OF run, of "unat (incarnation_get (spi_incarnation p))"] by auto
  then have "List.map_filter incarnation_number effs =
      [Suc (unat (incarnation_get (spi_incarnation p)))..<
       Suc (unat (incarnation_get (spi_incarnation p))) + length (List.map_filter incarnation_number effs)]"
    by (rule consecutive_upt)
  moreover have "list_all (concerns (spi_supervisor_id p)) effs"
    using reach_identity [OF run, of "spi_supervisor_id p"] by (simp add: same_supervisor_def)
  ultimately show ?thesis
    using assms(1) unfolding Let_def by (simp del: upt_Suc)
qed

theorem supervisor_launch_budget_witness:
  "length (filter launches_supervisor sample_binding_effects) < 2 \<and>
   List.map_filter incarnation_number sample_binding_effects = [2]"
  using supervisor_launch_budget [OF _ sample_binding_run]
  by (simp add: sample_policy_def) (simp add: sample_binding_effects_def sample_supervisor_def)

text \<open>
  C7. A binding counts every failure of its processes and a
  successful handshake or adoption forgives none: the count in the state reached is the
  number of failures so far, it stays below the limit, and the supervisor is reported
  unavailable only at the failure that exhausts the limit, which also ends the binding.
\<close>

theorem supervisor_failures_accumulate:
  assumes "0 < unat (slp_max_failures policy)"
    and "run_machine (binding_machine execution policy) (Some (LaunchPending p failures_zero)) evs =
      Inr (ob, effs)"
  shows "pred_option (\<lambda>b. binding_failures b = failure_count effs \<and>
      binding_failures b < unat (slp_max_failures policy)) ob \<and>
    (ReportSupervisorUnavailable \<in> set effs \<longrightarrow>
      ob = None \<and> failure_count effs = unat (slp_max_failures policy))"
proof -
  have run: "reach (binding_step policy) (Some (LaunchPending p failures_zero)) effs ob"
    using assms(2) by (rule run_binding_reach)
  have wf: "wf_binding policy (Some (LaunchPending p failures_zero))"
    using assms(1) by (simp add: wf_binding_def failures_zero_def)
  then have "wf_binding policy ob" using run by (blast intro: binding.reach_inv)
  then show ?thesis
    using reach_counts [OF run refl wf] by (cases ob) (auto simp: wf_binding_def failures_zero_def)
qed

theorem supervisor_failures_accumulate_witness: "failure_count sample_binding_effects = 2"
  using supervisor_failures_accumulate [OF _ sample_binding_run]
  by (simp add: sample_policy_def) (simp add: sample_binding_effects_def)

end
