(* ===== verification/Controller_State.thy ===== *)
theory Controller_State
  imports Execution
begin

text \<open>
  The controller's lifecycle state of a workload (\<open>crates/domain/src/controller.rs\<close>): the
  control of a service (what is desired, which execution exists) and the activity of a job.
  Constructors that the source scopes by their enum carry the enum's name here.
\<close>

section \<open>Data\<close>

datatype enablement = Disabled | Enabled

datatype definition_state = Available config_generation process_definition_hash | DefMissing

fun is_available :: "definition_state \<Rightarrow> bool" where
  "is_available (Available _ _) = True"
| "is_available DefMissing = False"

datatype stopped_phase = StoppedIdle | StoppedDraining execution_id

datatype running_phase =
    NeedsExecution
  | RunningActive execution_id
  | RunningDraining execution_id
  | RunningBlocked execution_id execution_outcome

datatype service_control =
    ControlStopped stopped_phase
  | ControlRunning intent_revision running_phase

record service_state =
  ss_definition :: definition_state
  ss_enablement :: enablement
  ss_control :: service_control

datatype service_cmd = CmdStart intent_revision | CmdRestart intent_revision | CmdStop

datatype service_event =
    ServiceCommand service_cmd
  | ServiceAllocated intent_revision execution_id
  | ServiceTerminated execution_id execution_outcome

datatype service_effect =
    AllocateExecution intent_revision
  | StopExecution execution_id service_stop_cause

datatype session_trigger = NeverTriggered | Triggered manager_session_id

record job_enablement =
  je_state :: enablement
  je_last_trigger :: session_trigger

datatype after_active = AfterNothing | AfterRerun

datatype job_activity = JobIdle | JobActive execution_id after_active

record job_state =
  js_definition :: definition_state
  js_enablement :: job_enablement
  js_activity :: job_activity

datatype rerun_disposition =
    NotRequested
  | RerunStart execution_id
  | RerunDefinitionMissing

datatype job_event =
    StartRequested execution_id job_execution_origin
  | RerunRequested execution_id
  | CancelRequested
  | JobTerminated execution_id execution_outcome rerun_disposition

datatype job_effect =
    StartExecution execution_id job_execution_origin
  | CancelExecution execution_id job_cancel_cause
  | RerunSkippedDefinitionMissing

datatype controller_error = DefinitionMissing | StaleExecution | StaleIntentRevision

type_synonym service_result = "controller_error + (service_state, service_effect) transition"
type_synonym job_result = "controller_error + (job_state, job_effect) transition"

section \<open>Services\<close>

definition service_command :: "service_state \<Rightarrow> service_cmd \<Rightarrow> service_result" where
  "service_command s command =
     (case command of
        CmdStart revision \<Rightarrow>
          if \<not> is_available (ss_definition s) then Inl DefinitionMissing
          else
            (let needs = (s\<lparr>ss_control := ControlRunning revision NeedsExecution\<rparr>,
                          [AllocateExecution revision]);
                 (s', effects) =
                   (case ss_control s of
                      ControlStopped StoppedIdle \<Rightarrow> needs
                    | ControlRunning _ (RunningBlocked _ _) \<Rightarrow> needs
                    | ControlStopped (StoppedDraining e) \<Rightarrow>
                        (s\<lparr>ss_control := ControlRunning revision (RunningDraining e)\<rparr>, [])
                    | ControlRunning _ _ \<Rightarrow> (s, []))
             in Inr (transition_new s' effects))
      | CmdRestart revision \<Rightarrow>
          if \<not> is_available (ss_definition s) then Inl DefinitionMissing
          else
            (let needs = (s\<lparr>ss_control := ControlRunning revision NeedsExecution\<rparr>,
                          [AllocateExecution revision]);
                 draining = (\<lambda>e. s\<lparr>ss_control := ControlRunning revision (RunningDraining e)\<rparr>);
                 (s', effects) =
                   (case ss_control s of
                      ControlStopped StoppedIdle \<Rightarrow> needs
                    | ControlRunning _ NeedsExecution \<Rightarrow> needs
                    | ControlRunning _ (RunningBlocked _ _) \<Rightarrow> needs
                    | ControlStopped (StoppedDraining e) \<Rightarrow> (draining e, [])
                    | ControlRunning _ (RunningDraining e) \<Rightarrow> (draining e, [])
                    | ControlRunning _ (RunningActive e) \<Rightarrow>
                        (draining e, [StopExecution e ServiceRestart]))
             in Inr (transition_new s' effects))
      | CmdStop \<Rightarrow>
          (let stop = (\<lambda>e. (s\<lparr>ss_control := ControlStopped (StoppedDraining e)\<rparr>,
                           [StopExecution e ServiceStop]));
               (s', effects) =
                 (case ss_control s of
                    ControlStopped _ \<Rightarrow> (s, [])
                  | ControlRunning _ (RunningActive e) \<Rightarrow> stop e
                  | ControlRunning _ (RunningDraining e) \<Rightarrow> stop e
                  | ControlRunning _ _ \<Rightarrow> (s\<lparr>ss_control := ControlStopped StoppedIdle\<rparr>, []))
           in Inr (transition_new s' effects)))"

definition service_execution_allocated ::
  "service_state \<Rightarrow> intent_revision \<Rightarrow> execution_id \<Rightarrow> service_result"
where
  "service_execution_allocated s revision e =
     (case ss_control s of
        ControlRunning current phase \<Rightarrow>
          if phase = NeedsExecution \<and> current = revision
          then Inr (without_effects (s\<lparr>ss_control := ControlRunning revision (RunningActive e)\<rparr>))
          else if current \<noteq> revision then Inl StaleIntentRevision
          else Inl StaleExecution
      | _ \<Rightarrow> Inl StaleExecution)"

definition service_execution_terminated ::
  "service_state \<Rightarrow> execution_id \<Rightarrow> execution_outcome \<Rightarrow> service_result"
where
  "service_execution_terminated s e outcome =
     (case ss_control s of
        ControlStopped (StoppedDraining current) \<Rightarrow>
          if current = e
          then Inr (transition_new (s\<lparr>ss_control := ControlStopped StoppedIdle\<rparr>) [])
          else Inl StaleExecution
      | ControlRunning revision (RunningActive current) \<Rightarrow>
          if current = e
          then Inr (transition_new
                 (s\<lparr>ss_control := ControlRunning revision (RunningBlocked e outcome)\<rparr>) [])
          else Inl StaleExecution
      | ControlRunning revision (RunningDraining current) \<Rightarrow>
          if current = e
          then Inr (transition_new (s\<lparr>ss_control := ControlRunning revision NeedsExecution\<rparr>)
                 [AllocateExecution revision])
          else Inl StaleExecution
      | _ \<Rightarrow> Inl StaleExecution)"

fun service_transition :: "service_state \<Rightarrow> service_event \<Rightarrow> service_result" where
  "service_transition s (ServiceCommand command) = service_command s command"
| "service_transition s (ServiceAllocated revision e) = service_execution_allocated s revision e"
| "service_transition s (ServiceTerminated e outcome) = service_execution_terminated s e outcome"

section \<open>Jobs\<close>

definition job_transition :: "job_state \<Rightarrow> job_event \<Rightarrow> job_result" where
  "job_transition s event =
     (let active = (\<lambda>e after. s\<lparr>js_activity := JobActive e after\<rparr>) in
      case event of
        StartRequested e origin \<Rightarrow>
          if \<not> is_available (js_definition s) then Inl DefinitionMissing
          else
            (case js_activity s of
               JobIdle \<Rightarrow> Inr (transition_new (active e AfterNothing) [StartExecution e origin])
             | JobActive _ _ \<Rightarrow> Inr (transition_new s []))
      | RerunRequested if_idle \<Rightarrow>
          if \<not> is_available (js_definition s) then Inl DefinitionMissing
          else
            (case js_activity s of
               JobIdle \<Rightarrow>
                 Inr (transition_new (active if_idle AfterNothing) [StartExecution if_idle Manual])
             | JobActive e AfterNothing \<Rightarrow>
                 Inr (transition_new (active e AfterRerun) [CancelExecution e JobRerun])
             | JobActive _ AfterRerun \<Rightarrow> Inr (transition_new s []))
      | CancelRequested \<Rightarrow>
          (case js_activity s of
             JobIdle \<Rightarrow> Inr (transition_new s [])
           | JobActive e _ \<Rightarrow>
               Inr (transition_new (active e AfterNothing) [CancelExecution e JobCancel]))
      | JobTerminated e _ rerun \<Rightarrow>
          (case js_activity s of
             JobActive current after \<Rightarrow>
               if current = e
               then
                 (case (after, rerun) of
                    (AfterNothing, NotRequested) \<Rightarrow>
                      Inr (transition_new (s\<lparr>js_activity := JobIdle\<rparr>) [])
                  | (AfterRerun, RerunDefinitionMissing) \<Rightarrow>
                      Inr (transition_new (s\<lparr>js_activity := JobIdle\<rparr>) [RerunSkippedDefinitionMissing])
                  | (AfterRerun, RerunStart next_id) \<Rightarrow>
                      Inr (transition_new (active next_id AfterNothing)
                             [StartExecution next_id (RerunOf e)])
                  | _ \<Rightarrow> Inl StaleExecution)
               else Inl StaleExecution
           | _ \<Rightarrow> Inl StaleExecution))"

section \<open>What is desired and what exists\<close>

text \<open>
  The abstract state of a service: the revision it is desired to run at (none: stopped) and
  the execution that exists for it. The table of \<open>docs/state-machines.md\<close> is about these two.
\<close>

fun desired_revision :: "service_control \<Rightarrow> intent_revision option" where
  "desired_revision (ControlStopped _) = None"
| "desired_revision (ControlRunning r _) = Some r"

fun owned_execution :: "service_control \<Rightarrow> execution_id option" where
  "owned_execution (ControlStopped (StoppedDraining e)) = Some e"
| "owned_execution (ControlRunning _ (RunningActive e)) = Some e"
| "owned_execution (ControlRunning _ (RunningDraining e)) = Some e"
| "owned_execution _ = None"

text \<open>Blocked: desired to run, but the execution of this revision has ended.\<close>

fun blocked :: "service_control \<Rightarrow> bool" where
  "blocked (ControlRunning _ (RunningBlocked _ _)) = True"
| "blocked _ = False"

fun desire :: "intent_revision option \<Rightarrow> bool \<Rightarrow> service_event \<Rightarrow> intent_revision option" where
  "desire d is_blocked (ServiceCommand (CmdStart r)) =
     (if d = None \<or> is_blocked then Some r else d)"
| "desire d is_blocked (ServiceCommand (CmdRestart r)) = Some r"
| "desire d is_blocked (ServiceCommand CmdStop) = None"
| "desire d is_blocked _ = d"

fun own :: "execution_id option \<Rightarrow> service_event \<Rightarrow> execution_id option" where
  "own x (ServiceAllocated _ e) = Some e"
| "own x (ServiceTerminated _ _) = None"
| "own x (ServiceCommand _) = x"

text \<open>The event is about what the controller has: its current revision or execution.\<close>

fun service_event_current :: "service_control \<Rightarrow> service_event \<Rightarrow> bool" where
  "service_event_current c (ServiceCommand _) = True"
| "service_event_current c (ServiceAllocated r _) = (c = ControlRunning r NeedsExecution)"
| "service_event_current c (ServiceTerminated e _) = (owned_execution c = Some e)"

lemma service_transition_abstracts:
  assumes "service_transition s event = Inr t"
  shows "desired_revision (ss_control (tr_state t)) =
      desire (desired_revision (ss_control s)) (blocked (ss_control s)) event"
    and "owned_execution (ss_control (tr_state t)) = own (owned_execution (ss_control s)) event"
    and "service_event_current (ss_control s) event"
    and "ss_definition (tr_state t) = ss_definition s"
    and "ss_enablement (tr_state t) = ss_enablement s"
  using assms
  by (cases event; auto simp: service_command_def service_execution_allocated_def
      service_execution_terminated_def Let_def
      split: service_cmd.splits service_control.splits stopped_phase.splits
        running_phase.splits if_splits)+

lemma service_transition_accepts:
  "is_ok (service_transition s event) \<longleftrightarrow>
     service_event_current (ss_control s) event \<and>
     (event \<in> range (ServiceCommand \<circ> CmdStart) \<union> range (ServiceCommand \<circ> CmdRestart) \<longrightarrow>
        is_available (ss_definition s))"
  by (cases event; auto simp: service_command_def service_execution_allocated_def
      service_execution_terminated_def Let_def
      split: service_cmd.splits service_control.splits stopped_phase.splits
        running_phase.splits if_splits prod.splits)

lemma service_transition_effects:
  assumes "service_transition s event = Inr t"
  shows "AllocateExecution r \<in> set (tr_effects t) \<Longrightarrow>
      ss_control (tr_state t) = ControlRunning r NeedsExecution"
    and "StopExecution e c \<in> set (tr_effects t) \<Longrightarrow>
      owned_execution (ss_control s) = Some e \<and> owned_execution (ss_control (tr_state t)) = Some e \<and>
      desired_revision (ss_control s) \<noteq> None \<and>
      (c = ServiceStop \<longleftrightarrow> desired_revision (ss_control (tr_state t)) = None)"
  using assms
  by (cases event; auto simp: service_command_def service_execution_allocated_def
      service_execution_terminated_def Let_def
      split: service_cmd.splits service_control.splits stopped_phase.splits
        running_phase.splits if_splits)+

lemma restarts_while_draining:
  assumes "is_available (ss_definition s)"
  shows "run_machine service_transition (s\<lparr>ss_control := ControlRunning r (RunningDraining e)\<rparr>)
      (map (ServiceCommand \<circ> CmdRestart) rs) =
    Inr (s\<lparr>ss_control := ControlRunning (last (r # rs)) (RunningDraining e)\<rparr>, [])"
proof (induction rs arbitrary: r)
  case (Cons r' rs)
  then show ?case using assms by (simp add: service_command_def)
qed simp

section \<open>Jobs run one execution at a time\<close>

fun active_execution :: "job_activity \<Rightarrow> execution_id option" where
  "active_execution JobIdle = None"
| "active_execution (JobActive e _) = Some e"

definition active_count :: "job_state \<Rightarrow> nat" where
  "active_count s = (case active_execution (js_activity s) of None \<Rightarrow> 0 | Some _ \<Rightarrow> 1)"

fun starts_execution :: "job_effect \<Rightarrow> bool" where
  "starts_execution (StartExecution _ _) = True"
| "starts_execution _ = False"

fun ends_execution :: "job_event \<Rightarrow> bool" where
  "ends_execution (JobTerminated _ _ _) = True"
| "ends_execution _ = False"

lemma job_transition_counts:
  "job_transition s event = Inr t \<Longrightarrow>
   length (filter starts_execution (tr_effects t)) + active_count s =
     (if ends_execution event then 1 else 0) + active_count (tr_state t)"
  by (auto simp: job_transition_def active_count_def Let_def
      split: job_event.splits job_activity.splits after_active.splits rerun_disposition.splits
        if_splits)

lemma job_transition_effects:
  assumes "job_transition s event = Inr t"
  shows "StartExecution e origin \<in> set (tr_effects t) \<Longrightarrow>
      active_execution (js_activity (tr_state t)) = Some e \<and>
      (case active_execution (js_activity s) of
         None \<Rightarrow> True
       | Some p \<Rightarrow> origin = RerunOf p \<and> (\<exists>outcome. event = JobTerminated p outcome (RerunStart e)))"
    and "CancelExecution e cause \<in> set (tr_effects t) \<Longrightarrow>
      active_execution (js_activity s) = Some e \<and> active_execution (js_activity (tr_state t)) = Some e"
  using assms
  by (auto simp: job_transition_def Let_def
      split: job_event.splits job_activity.splits after_active.splits rerun_disposition.splits
        if_splits)

lemma run_job_counts:
  "run_machine job_transition s evs = Inr (s', effs) \<Longrightarrow>
   length (filter starts_execution effs) + active_count s =
     length (filter ends_execution evs) + active_count s'"
proof (induction evs arbitrary: s effs)
  case (Cons ev evs)
  then obtain t effs' where t: "job_transition s ev = Inr t"
    and rest: "run_machine job_transition (tr_state t) evs = Inr (s', effs')"
    and effs: "effs = tr_effects t @ effs'" by (auto simp: rust_result)
  show ?case using Cons.IH [OF rest] job_transition_counts [OF t] effs by auto
qed simp

lemma reruns_while_active:
  assumes "is_available (js_definition s)" and "js_activity s = JobActive e AfterRerun"
  shows "run_machine job_transition s (map RerunRequested ids) = Inr (s, [])"
  using assms by (induction ids) (simp_all add: job_transition_def)

section \<open>Properties\<close>

definition sample_control :: "service_control \<Rightarrow> service_state" where
  "sample_control c = \<lparr>ss_definition = Available (ConfigGeneration []) (ProcessDefinitionHash []),
     ss_enablement = Disabled, ss_control = c\<rparr>"

definition sample_activity :: "job_activity \<Rightarrow> job_state" where
  "sample_activity a = \<lparr>js_definition = Available (ConfigGeneration []) (ProcessDefinitionHash []),
     js_enablement = \<lparr>je_state = Disabled, je_last_trigger = NeverTriggered\<rparr>, js_activity = a\<rparr>"

text \<open>
  C8. The service machine refines its abstract state, what is desired
  and which execution exists: commands alone change what is desired, allocation and
  termination alone change what exists, an allocation is accepted only for the current
  revision while an execution is needed, a termination only for the execution that exists,
  and the definition and the enablement never change.
\<close>

theorem service_control_refines:
  assumes "service_transition s event = Inr t"
  shows "desired_revision (ss_control (tr_state t)) =
      desire (desired_revision (ss_control s)) (blocked (ss_control s)) event \<and>
    owned_execution (ss_control (tr_state t)) = own (owned_execution (ss_control s)) event \<and>
    service_event_current (ss_control s) event \<and>
    ss_definition (tr_state t) = ss_definition s \<and> ss_enablement (tr_state t) = ss_enablement s"
  using service_transition_abstracts [OF assms] by simp

theorem service_control_refines_witness:
  "desired_revision (ControlRunning (IntentRevision 2) (RunningDraining (ExecutionId 5))) =
     Some (IntentRevision 2) \<and>
   owned_execution (ControlRunning (IntentRevision 2) (RunningDraining (ExecutionId 5))) =
     Some (ExecutionId 5)"
proof -
  have "service_transition (sample_control (ControlRunning (IntentRevision 1) (RunningActive (ExecutionId 5))))
      (ServiceCommand (CmdRestart (IntentRevision 2))) =
    Inr (transition_new (sample_control (ControlRunning (IntentRevision 2) (RunningDraining (ExecutionId 5))))
      [StopExecution (ExecutionId 5) ServiceRestart])"
    by (simp add: service_command_def sample_control_def)
  from service_control_refines [OF this] show ?thesis by (simp add: sample_control_def)
qed



text \<open>
  However many restarts arrive while an execution is active or draining,
  the execution is asked to stop once, and when it ends exactly one replacement is allocated,
  for the latest revision.
\<close>

theorem restarts_coalesce:
  assumes "is_available (ss_definition s)"
    and "ss_control s = ControlRunning r (RunningActive e)"
  shows "run_machine service_transition s
      (map (ServiceCommand \<circ> CmdRestart) (r' # rs) @ [ServiceTerminated e outcome]) =
    Inr (s\<lparr>ss_control := ControlRunning (last (r' # rs)) NeedsExecution\<rparr>,
      [StopExecution e ServiceRestart, AllocateExecution (last (r' # rs))])"
proof -
  have "service_transition s (ServiceCommand (CmdRestart r')) =
      Inr (transition_new (s\<lparr>ss_control := ControlRunning r' (RunningDraining e)\<rparr>)
        [StopExecution e ServiceRestart])"
    using assms by (simp add: service_command_def)
  then show ?thesis
    using restarts_while_draining [OF assms(1), of r' e rs]
    by (simp add: run_machine_append service_execution_terminated_def)
qed

theorem restarts_coalesce_witness:
  "run_machine service_transition
     (sample_control (ControlRunning (IntentRevision 1) (RunningActive (ExecutionId 5))))
     [ServiceCommand (CmdRestart (IntentRevision 2)), ServiceCommand (CmdRestart (IntentRevision 3)),
      ServiceTerminated (ExecutionId 5) (Stopped ServiceRestart False)] =
   Inr (sample_control (ControlRunning (IntentRevision 3) NeedsExecution),
     [StopExecution (ExecutionId 5) ServiceRestart, AllocateExecution (IntentRevision 3)])"
  using restarts_coalesce [of "sample_control (ControlRunning (IntentRevision 1) (RunningActive (ExecutionId 5)))"
      "IntentRevision 1" "ExecutionId 5" "IntentRevision 2" "[IntentRevision 3]"
      "Stopped ServiceRestart False"]
  by (simp add: sample_control_def)

text \<open>
  C10. Along every run of a job, the executions started and the ones
  ended account exactly for the one that may be active: since the activity is zero or one
  execution, a job never starts an execution while another is active.
\<close>

theorem job_runs_one_execution:
  assumes "run_machine job_transition s evs = Inr (s', effs)"
  shows "length (filter starts_execution effs) + active_count s =
      length (filter ends_execution evs) + active_count s' \<and> active_count s' \<le> 1"
  using run_job_counts [OF assms] by (simp add: active_count_def split: option.split)

theorem job_runs_one_execution_witness:
  "active_count (sample_activity (JobActive (ExecutionId 6) AfterNothing)) = 1"
proof -
  have "run_machine job_transition (sample_activity JobIdle)
      [StartRequested (ExecutionId 5) Manual, RerunRequested (ExecutionId 8),
       JobTerminated (ExecutionId 5) (Cancelled JobRerun False) (RerunStart (ExecutionId 6))] =
    Inr (sample_activity (JobActive (ExecutionId 6) AfterNothing),
      [StartExecution (ExecutionId 5) Manual, CancelExecution (ExecutionId 5) JobRerun,
       StartExecution (ExecutionId 6) (RerunOf (ExecutionId 5))])"
    by (simp add: job_transition_def sample_activity_def)
  from job_runs_one_execution [OF this] show ?thesis by (simp add: sample_activity_def active_count_def)
qed

text \<open>
  However many reruns are requested while a job is active, its
  execution is cancelled once with the cause \<open>Rerun\<close>, and its end starts exactly one
  replacement, recorded as the rerun of the execution that ended; a cancel in between drops
  the pending rerun, and the end then leaves the job idle.
\<close>

theorem job_reruns_coalesce:
  assumes "is_available (js_definition s)" and "js_activity s = JobActive e AfterNothing"
  shows "run_machine job_transition s (map RerunRequested (i # ids) @
        [JobTerminated e outcome (RerunStart e')]) =
      Inr (s\<lparr>js_activity := JobActive e' AfterNothing\<rparr>,
        [CancelExecution e JobRerun, StartExecution e' (RerunOf e)]) \<and>
    run_machine job_transition s (map RerunRequested (i # ids) @
        [CancelRequested, JobTerminated e outcome NotRequested]) =
      Inr (s\<lparr>js_activity := JobIdle\<rparr>, [CancelExecution e JobRerun, CancelExecution e JobCancel])"
proof -
  let ?s = "s\<lparr>js_activity := JobActive e AfterRerun\<rparr>"
  have "job_transition s (RerunRequested i) = Inr (transition_new ?s [CancelExecution e JobRerun])"
    using assms by (simp add: job_transition_def)
  moreover have "run_machine job_transition ?s (map RerunRequested ids) = Inr (?s, [])"
    using assms by (intro reruns_while_active) simp_all
  ultimately show ?thesis by (simp add: run_machine_append) (simp add: job_transition_def)
qed

theorem job_reruns_coalesce_witness:
  "run_machine job_transition (sample_activity (JobActive (ExecutionId 5) AfterNothing))
     [RerunRequested (ExecutionId 8), RerunRequested (ExecutionId 9),
      JobTerminated (ExecutionId 5) (Cancelled JobRerun False) (RerunStart (ExecutionId 6))] =
   Inr (sample_activity (JobActive (ExecutionId 6) AfterNothing),
     [CancelExecution (ExecutionId 5) JobRerun, StartExecution (ExecutionId 6) (RerunOf (ExecutionId 5))])"
  using job_reruns_coalesce [of "sample_activity (JobActive (ExecutionId 5) AfterNothing)" "ExecutionId 5"
      "ExecutionId 8" "[ExecutionId 9]" "Cancelled JobRerun False" "ExecutionId 6"]
  by (simp add: sample_activity_def)

end
