(* ===== verification/Btree.thy ===== *)
theory Btree
  imports Prelude "HOL-Library.Char_ord" "HOL-Library.List_Lexorder"
begin

text \<open>
  The ordered collections of the sources: a \<open>BTreeMap\<close> is the list of its entries in key
  order, a \<open>BTreeSet\<close> the list of its elements in order, so that iteration is the list itself.
  The interface \<open>ordered_dict\<close> states what the code relies on; both collections interpret it.
\<close>

type_synonym ('k, 'v) btree = "('k \<times> 'v) list"

definition btree_ok :: "('k::linorder, 'v) btree \<Rightarrow> bool" where
  "btree_ok t \<longleftrightarrow> sorted_wrt (<) (map fst t)"

text \<open>\<open>BTreeMap::insert\<close> without its result: the old value is \<open>map_of t k\<close> before it.\<close>

fun btree_insert :: "'k::linorder \<Rightarrow> 'v \<Rightarrow> ('k, 'v) btree \<Rightarrow> ('k, 'v) btree" where
  "btree_insert k v [] = [(k, v)]"
| "btree_insert k v ((k', v') # t) =
     (if k < k' then (k, v) # (k', v') # t
      else if k = k' then (k, v) # t
      else (k', v') # btree_insert k v t)"

fun set_insert :: "'k::linorder \<Rightarrow> 'k list \<Rightarrow> 'k list" where
  "set_insert k [] = [k]"
| "set_insert k (k' # t) =
     (if k < k' then k # k' # t else if k = k' then k' # t else k' # set_insert k t)"

definition set_ok :: "'k::linorder list \<Rightarrow> bool" where
  "set_ok t \<longleftrightarrow> sorted_wrt (<) t"

lemma btree_ok_Nil [simp]: "btree_ok []" and set_ok_Nil [simp]: "set_ok []"
  by (simp_all add: btree_ok_def set_ok_def)

lemma keys_btree_insert [simp]: "fst ` set (btree_insert k v t) = insert k (fst ` set t)"
  by (induction k v t rule: btree_insert.induct) auto

lemma set_set_insert [simp]: "set (set_insert k t) = insert k (set t)"
  by (induction k t rule: set_insert.induct) auto

lemma btree_ok_Cons:
  "btree_ok ((k, v) # t) \<longleftrightarrow> (\<forall>k' \<in> fst ` set t. k < k') \<and> btree_ok t"
  by (simp add: btree_ok_def)

lemma set_ok_Cons: "set_ok (k # t) \<longleftrightarrow> (\<forall>k' \<in> set t. k < k') \<and> set_ok t"
  by (simp add: set_ok_def)

lemma btree_insert_ok: "btree_ok t \<Longrightarrow> btree_ok (btree_insert k v t)"
proof (induction k v t rule: btree_insert.induct)
  case (2 k v k' v' t)
  then show ?case by (auto simp: btree_ok_Cons simp del: list.set_map)
qed (simp add: btree_ok_Cons)

lemma set_insert_ok: "set_ok t \<Longrightarrow> set_ok (set_insert k t)"
  by (induction k t rule: set_insert.induct) (auto simp: set_ok_Cons)

lemma map_of_below: "\<forall>k' \<in> fst ` set t. k < k' \<Longrightarrow> map_of t (k::'k::linorder) = None"
  by (force simp: map_of_eq_None_iff)

lemma map_of_btree_insert:
  "btree_ok t \<Longrightarrow> map_of (btree_insert k v t) k' = (if k' = k then Some v else map_of t k')"
proof (induction k v t rule: btree_insert.induct)
  case (2 k v j w t)
  then show ?case by (auto simp: btree_ok_Cons)
qed simp

lemma btree_ok_distinct: "btree_ok t \<Longrightarrow> distinct (map fst t)"
  by (auto simp: btree_ok_def strict_sorted_iff)

lemma set_ok_distinct: "set_ok t \<Longrightarrow> distinct t"
  by (auto simp: set_ok_def strict_sorted_iff)

text \<open>
  Two ordered maps with the same lookups are the same list: iteration order depends on the
  contents only, not on the order of insertion.
\<close>

lemma map_of_least:
  assumes "btree_ok ((k, v) # t)" and "map_of ((k, v) # t) k' = Some w"
  shows "k \<le> k'"
proof -
  have "k' \<in> fst ` set ((k, v) # t)" using assms(2) by (metis domI dom_map_of_conv_image_fst)
  then show ?thesis using assms(1) by (auto simp: btree_ok_Cons less_imp_le)
qed

lemma btree_ext: "btree_ok s \<Longrightarrow> btree_ok t \<Longrightarrow> map_of s = map_of t \<Longrightarrow> s = t"
proof (induction s arbitrary: t)
  case Nil
  then show ?case by (cases t) (auto simp: fun_eq_iff split: if_splits)
next
  case (Cons e s)
  obtain k v where e: "e = (k, v)" by (cases e)
  have "t \<noteq> []" using Cons.prems(3) by (auto simp: e fun_eq_iff split: if_splits)
  then obtain k' v' t' where t: "t = (k', v') # t'" by (metis list.exhaust surj_pair)
  note eq = fun_cong [OF Cons.prems(3)]
  have "map_of ((k', v') # t') k = Some v" "map_of ((k, v) # s) k' = Some v'"
    using eq [of k] eq [of k'] by (simp_all add: e t)
  then have "k' \<le> k" "k \<le> k'"
    using Cons.prems(1,2) unfolding e t by (blast intro: map_of_least)+
  then have k: "k' = k" by simp
  with eq [of k] have v: "v' = v" by (simp add: e t)
  have "map_of s k = None" "map_of t' k = None"
    using Cons.prems(1,2) k unfolding e t btree_ok_Cons by (auto intro: map_of_below)
  moreover have "map_of s x = map_of t' x" if "x \<noteq> k" for x
    using eq [of x] that by (simp add: e t k)
  ultimately have "map_of s = map_of t'" by (metis ext)
  then have "s = t'" using Cons.IH Cons.prems(1,2) by (simp add: e t btree_ok_Cons)
  then show ?case by (simp add: e t k v)
qed

section \<open>Interface: an ordered dictionary\<close>

locale ordered_dict =
  fixes lookup :: "'d \<Rightarrow> 'k::linorder \<Rightarrow> 'v option"
    and put :: "'k \<Rightarrow> 'v \<Rightarrow> 'd \<Rightarrow> 'd"
    and ok :: "'d \<Rightarrow> bool"
    and keys :: "'d \<Rightarrow> 'k list"
  assumes put_ok: "ok d \<Longrightarrow> ok (put k v d)"
    and lookup_put: "ok d \<Longrightarrow> lookup (put k v d) k' = (if k' = k then Some v else lookup d k')"
    and keys_lookup: "ok d \<Longrightarrow> set (keys d) = {k. lookup d k \<noteq> None}"
    and keys_sorted: "ok d \<Longrightarrow> sorted_wrt (<) (keys d)"
begin

lemma keys_distinct: "ok d \<Longrightarrow> distinct (keys d)"
  using keys_sorted by (auto simp: strict_sorted_iff)

lemma keys_put: "ok d \<Longrightarrow> set (keys (put k v d)) = insert k (set (keys d))"
  by (auto simp: keys_lookup put_ok lookup_put)

lemma keys_put_new: "ok d \<Longrightarrow> lookup d k = None \<Longrightarrow> length (keys (put k v d)) = Suc (length (keys d))"
proof -
  assume d: "ok d" and new: "lookup d k = None"
  then have "k \<notin> set (keys d)" by (simp add: keys_lookup)
  then have "card (set (keys (put k v d))) = Suc (card (set (keys d)))"
    using d by (simp add: keys_put)
  then show ?thesis using d by (simp add: distinct_card keys_distinct put_ok)
qed

end

interpretation btree: ordered_dict map_of btree_insert btree_ok "map fst"
proof
  fix d :: "('k::linorder, 'v) btree" and k v
  assume d: "btree_ok d"
  then show "btree_ok (btree_insert k v d)" by (rule btree_insert_ok)
  show "map_of (btree_insert k v d) k' = (if k' = k then Some v else map_of d k')" for k'
    using d by (rule map_of_btree_insert)
  show "set (map fst d) = {k. map_of d k \<noteq> None}" by (auto simp: map_of_eq_None_iff)
  show "sorted_wrt (<) (map fst d)" using d by (simp add: btree_ok_def)
qed

interpretation btree_set: ordered_dict "\<lambda>t k. if k \<in> set t then Some () else None"
  "\<lambda>k _. set_insert k" set_ok "\<lambda>t. t"
proof
  fix d :: "'k::linorder list" and k and v :: unit
  assume d: "set_ok d"
  then show "set_ok (set_insert k d)" by (rule set_insert_ok)
  show "sorted_wrt (<) d" using d by (simp add: set_ok_def)
qed auto

end
