(* ===== verification/Config_Model.thy ===== *)
theory Config_Model
  imports Restart Ids Btree
begin

text \<open>
  The validated configuration (\<open>crates/config/src/model.rs\<close>): workload definitions, process
  definitions with their environment overlay, stop and logging policies. Unicode case
  folding, \<open>str::to_uppercase\<close>, is a table of the Unicode standard and stays a parameter
  \<open>upper\<close>; nothing below depends on which table it is.
\<close>

datatype workload_kind = KindService | KindJob

datatype environment_name = EnvironmentName (env_name_str: string)

datatype invalid_environment_name = NameEmpty | NameContainsEquals | NameContainsNull

instantiation environment_name :: linorder
begin

definition less_eq_environment_name :: "environment_name \<Rightarrow> environment_name \<Rightarrow> bool" where
  "less_eq_environment_name a b \<longleftrightarrow> env_name_str a \<le> env_name_str b"

definition less_environment_name :: "environment_name \<Rightarrow> environment_name \<Rightarrow> bool" where
  "less_environment_name a b \<longleftrightarrow> env_name_str a < env_name_str b"

instance
  by standard
    (auto simp: less_eq_environment_name_def less_environment_name_def intro: environment_name.expand)

end

definition nul :: char where
  "nul = CHR 0x00"

definition environment_name_parse ::
  "(string \<Rightarrow> string) \<Rightarrow> string \<Rightarrow> invalid_environment_name + environment_name"
where
  "environment_name_parse upper value =
     (if value = [] then Inl NameEmpty
      else if CHR ''='' \<in> set value then Inl NameContainsEquals
      else if nul \<in> set value then Inl NameContainsNull
      else Inr (EnvironmentName (upper value)))"

record environment_overlay =
  env_set :: "(environment_name, string) btree"
  env_unset :: "environment_name list"

record process_definition =
  pd_executable :: string
  pd_arguments :: "string list"
  pd_working_directory :: string
  pd_environment :: environment_overlay

record stop_command =
  sc_executable :: string
  sc_arguments :: "string list"

datatype stop_definition =
    DefCtrlBreak duration
  | DefCommand duration stop_command
  | DefKill

datatype retention_limit = SizeLimited u64 | SizeUnlimited

datatype retention_duration = AgeLimited duration | AgeUnlimited

datatype logging_policy =
    LoggingDisabled
  | Capture u64 duration retention_limit retention_duration

record workload_definition =
  wd_id :: workload_id
  wd_kind :: workload_kind
  wd_process :: process_definition
  wd_process_hash :: process_definition_hash
  wd_success_exit_codes :: "u32 list"
  wd_restart :: execution_restart_policy
  wd_stop :: stop_definition
  wd_logging :: logging_policy

record candidate_config =
  cc_generation :: config_generation
  cc_definitions :: "(workload_id, workload_definition) btree"

section \<open>Well-formed definitions\<close>

definition wf_overlay :: "environment_overlay \<Rightarrow> bool" where
  "wf_overlay o1 \<longleftrightarrow> btree_ok (env_set o1) \<and> set_ok (env_unset o1) \<and>
     set (map fst (env_set o1)) \<inter> set (env_unset o1) = {}"

fun wf_stop :: "stop_definition \<Rightarrow> bool" where
  "wf_stop (DefCtrlBreak timeout) = (timeout \<noteq> 0)"
| "wf_stop (DefCommand timeout command) =
     (timeout \<noteq> 0 \<and> sc_executable command \<noteq> [] \<and> nul \<notin> set (sc_executable command) \<and>
      list_all (\<lambda>a. nul \<notin> set a) (sc_arguments command))"
| "wf_stop DefKill = True"

fun wf_size :: "retention_limit \<Rightarrow> bool" where
  "wf_size (SizeLimited n) = (n \<noteq> 0)"
| "wf_size SizeUnlimited = True"

fun wf_age :: "retention_duration \<Rightarrow> bool" where
  "wf_age (AgeLimited d) = (d \<noteq> 0)"
| "wf_age AgeUnlimited = True"

fun wf_logging :: "logging_policy \<Rightarrow> bool" where
  "wf_logging LoggingDisabled = True"
| "wf_logging (Capture bytes age keep_size keep_age) =
     (bytes \<noteq> 0 \<and> age \<noteq> 0 \<and> wf_size keep_size \<and> wf_age keep_age)"

fun policy_kind :: "execution_restart_policy \<Rightarrow> workload_kind" where
  "policy_kind (ServicePolicy _) = KindService"
| "policy_kind (JobPolicy _) = KindJob"

definition wf_process :: "process_definition \<Rightarrow> bool" where
  "wf_process p \<longleftrightarrow>
     pd_executable p \<noteq> [] \<and> nul \<notin> set (pd_executable p) \<and>
     list_all (\<lambda>a. nul \<notin> set a) (pd_arguments p) \<and>
     pd_working_directory p \<noteq> [] \<and> nul \<notin> set (pd_working_directory p) \<and>
     wf_overlay (pd_environment p) \<and> list_all (\<lambda>(n, v). nul \<notin> set v) (env_set (pd_environment p))"

definition wf_definition :: "workload_definition \<Rightarrow> bool" where
  "wf_definition d \<longleftrightarrow>
     wf_process (wd_process d) \<and> set_ok (wd_success_exit_codes d) \<and>
     policy_kind (wd_restart d) = wd_kind d \<and> wf_restart_policy (wd_restart d) \<and>
     wf_stop (wd_stop d) \<and> wf_logging (wd_logging d)"

end
