(* ===== verification/Bytes.thy ===== *)
theory Bytes
  imports Prelude "HOL-Library.Char_ord"
begin

text \<open>
  Text and bytes: the UTF-8 bytes of a string, the validity test of \<open>str::from_utf8\<close>, the
  decimal text of integers as \<open>to_string\<close> prints and \<open>str::parse\<close> reads it, and lines.
\<close>

section \<open>Strings as bytes\<close>

definition string_bytes :: "string \<Rightarrow> u8 list" where
  "string_bytes s = map of_char s"

definition bytes_string :: "u8 list \<Rightarrow> string" where
  "bytes_string bs = map (\<lambda>b. char_of (unat b)) bs"

lemma unat_of_char: "unat (of_char c :: u8) = of_char c"
proof -
  have "(of_char c :: nat) < 256" by simp
  moreover have "(of_char c :: u8) = word_of_nat (of_char c)" by (simp only: of_nat_of_char)
  ultimately show ?thesis using unat_word_of_nat_small [of "of_char c", where 'w = 8] by simp
qed

lemma of_char_inject: "(of_char c :: u8) = of_char d \<Longrightarrow> c = d"
proof -
  assume "(of_char c :: u8) = of_char d"
  then have "(of_char c :: nat) = of_char d" by (metis unat_of_char)
  then show ?thesis by simp
qed

lemma bytes_string_bytes [simp]: "bytes_string (string_bytes s) = s"
  by (simp add: bytes_string_def string_bytes_def comp_def unat_of_char)

lemma string_bytes_inject [simp]: "string_bytes s = string_bytes t \<longleftrightarrow> s = t"
  by (metis bytes_string_bytes)

lemma string_bytes_append [simp]: "string_bytes (s @ t) = string_bytes s @ string_bytes t"
  by (simp add: string_bytes_def)

lemma length_string_bytes [simp]: "length (string_bytes s) = length s"
  by (simp add: string_bytes_def)

lemma set_string_bytes: "of_char c \<in> set (string_bytes s) \<longleftrightarrow> c \<in> set s"
  by (auto simp: string_bytes_def dest: of_char_inject)

section \<open>UTF-8\<close>

definition in_range :: "nat \<Rightarrow> nat \<Rightarrow> u8 \<Rightarrow> bool" where
  "in_range lo hi b \<longleftrightarrow> lo \<le> unat b \<and> unat b \<le> hi"

text \<open>\<open>str::from_utf8\<close> accepts exactly the well-formed sequences of the Unicode standard.\<close>

function utf8_valid :: "u8 list \<Rightarrow> bool" where
  "utf8_valid bs =
     (case bs of
        [] \<Rightarrow> True
      | a # bs1 \<Rightarrow>
          if in_range 0 0x7F a then utf8_valid bs1
          else
            (case bs1 of
               [] \<Rightarrow> False
             | b # bs2 \<Rightarrow>
                 if in_range 0xC2 0xDF a then in_range 0x80 0xBF b \<and> utf8_valid bs2
                 else
                   (case bs2 of
                      [] \<Rightarrow> False
                    | c # bs3 \<Rightarrow>
                        if in_range 0xE0 0xEF a
                        then in_range (if a = 0xE0 then 0xA0 else 0x80)
                               (if a = 0xED then 0x9F else 0xBF) b \<and>
                             in_range 0x80 0xBF c \<and> utf8_valid bs3
                        else
                          (case bs3 of
                             [] \<Rightarrow> False
                           | d # bs4 \<Rightarrow>
                               in_range 0xF0 0xF4 a \<and>
                               in_range (if a = 0xF0 then 0x90 else 0x80)
                                 (if a = 0xF4 then 0x8F else 0xBF) b \<and>
                               in_range 0x80 0xBF c \<and> in_range 0x80 0xBF d \<and> utf8_valid bs4))))"
  by pat_completeness auto

termination by (relation "measure length") auto

declare utf8_valid.simps [simp del]

definition from_utf8 :: "u8 list \<Rightarrow> unit + string" where
  "from_utf8 bs = (if utf8_valid bs then Inr (bytes_string bs) else Inl ())"

text \<open>
  The first unit of \<open>String::from_utf8_lossy\<close>: a well-formed sequence and its length, or the
  length of the malformed part that one replacement character stands for.
\<close>

definition nth_in_range :: "nat \<Rightarrow> nat \<Rightarrow> u8 list \<Rightarrow> nat \<Rightarrow> bool" where
  "nth_in_range lo hi bs i \<longleftrightarrow> i < length bs \<and> in_range lo hi (bs ! i)"

definition utf8_unit :: "u8 \<Rightarrow> u8 list \<Rightarrow> bool \<times> nat" where
  "utf8_unit a bs =
     (if in_range 0 0x7F a then (True, 1)
      else if in_range 0xC2 0xDF a
      then (if nth_in_range 0x80 0xBF bs 0 then (True, 2) else (False, 1))
      else if in_range 0xE0 0xEF a
      then
        (if nth_in_range (if a = 0xE0 then 0xA0 else 0x80) (if a = 0xED then 0x9F else 0xBF) bs 0
         then (if nth_in_range 0x80 0xBF bs 1 then (True, 3) else (False, 2))
         else (False, 1))
      else if in_range 0xF0 0xF4 a
      then
        (if nth_in_range (if a = 0xF0 then 0x90 else 0x80) (if a = 0xF4 then 0x8F else 0xBF) bs 0
         then
           (if nth_in_range 0x80 0xBF bs 1
            then (if nth_in_range 0x80 0xBF bs 2 then (True, 4) else (False, 3))
            else (False, 2))
         else (False, 1))
      else (False, 1))"

definition replacement_character :: "u8 list" where
  "replacement_character = [0xEF, 0xBF, 0xBD]"

function from_utf8_lossy :: "u8 list \<Rightarrow> string" where
  "from_utf8_lossy [] = []"
| "from_utf8_lossy (a # bs) =
     (let (valid, n) = utf8_unit a bs in
      (if valid then bytes_string (a # take (n - 1) bs) else bytes_string replacement_character) @
      from_utf8_lossy (drop (n - 1) bs))"
  by pat_completeness auto

termination by (relation "measure length") auto

lemma nth_in_range_Cons [simp]:
  "nth_in_range lo hi [] i = False"
  "nth_in_range lo hi (b # bs) 0 = in_range lo hi b"
  "nth_in_range lo hi (b # bs) (Suc i) = nth_in_range lo hi bs i"
  by (simp_all add: nth_in_range_def)

lemma utf8_valid_unit:
  assumes "utf8_valid (a # bs)"
  shows "\<exists>n. utf8_unit a bs = (True, n) \<and> utf8_valid (drop (n - 1) bs)"
proof -
  note valid = assms [unfolded utf8_valid.simps [of "a # bs"]]
  consider "in_range 0 0x7F a"
    | b bs2 where "\<not> in_range 0 0x7F a" "in_range 0xC2 0xDF a" "bs = b # bs2"
    | b c bs3 where "\<not> in_range 0 0x7F a" "\<not> in_range 0xC2 0xDF a" "in_range 0xE0 0xEF a" "bs = b # c # bs3"
    | b c d bs4 where "\<not> in_range 0 0x7F a" "\<not> in_range 0xC2 0xDF a" "\<not> in_range 0xE0 0xEF a"
        "bs = b # c # d # bs4"
    using valid by (fastforce split: list.split_asm if_split_asm)
  then show ?thesis
    by cases (use valid in \<open>simp_all add: utf8_unit_def eval_nat_numeral\<close>)
qed

lemma from_utf8_lossy_valid: "utf8_valid bs \<Longrightarrow> from_utf8_lossy bs = bytes_string bs"
proof (induction bs rule: from_utf8_lossy.induct)
  case (2 a bs)
  obtain n where n: "utf8_unit a bs = (True, n)" "utf8_valid (drop (n - 1) bs)"
    using utf8_valid_unit [OF 2(2)] by blast
  then have "from_utf8_lossy (drop (n - 1) bs) = bytes_string (drop (n - 1) bs)"
    using 2(1) by simp
  with n show ?case by (simp add: bytes_string_def flip: map_append)
qed (simp add: bytes_string_def)

section \<open>Decimal text\<close>

definition digit_char :: "nat \<Rightarrow> char" where
  "digit_char n = char_of (48 + n)"

definition char_digit :: "char \<Rightarrow> nat option" where
  "char_digit c = (let n = (of_char c :: nat) in if 48 \<le> n \<and> n \<le> 57 then Some (n - 48) else None)"

function show_nat :: "nat \<Rightarrow> string" where
  "show_nat n = (if n < 10 then [digit_char n] else show_nat (n div 10) @ [digit_char (n mod 10)])"
  by pat_completeness auto

termination by (relation "measure (\<lambda>n. n)") auto

declare show_nat.simps [simp del]

fun parse_digits :: "string \<Rightarrow> nat \<Rightarrow> nat option" where
  "parse_digits [] acc = Some acc"
| "parse_digits (c # cs) acc =
     (case char_digit c of Some d \<Rightarrow> parse_digits cs (10 * acc + d) | None \<Rightarrow> None)"

definition parse_nat :: "string \<Rightarrow> nat option" where
  "parse_nat s = (if s = [] then None else parse_digits s 0)"

lemma char_digit_digit_char: "n < 10 \<Longrightarrow> char_digit (digit_char n) = Some n"
  by (simp add: char_digit_def digit_char_def Let_def)

lemma parse_digits_append:
  "parse_digits (xs @ ys) acc = Option.bind (parse_digits xs acc) (parse_digits ys)"
  by (induction xs arbitrary: acc) (auto split: option.split)

lemma parse_digits_show: "parse_digits (show_nat n) 0 = Some n"
proof (induction n rule: less_induct)
  case (less n)
  show ?case
  proof (cases "n < 10")
    case True
    then show ?thesis by (simp add: show_nat.simps char_digit_digit_char)
  next
    case False
    then have "parse_digits (show_nat (n div 10)) 0 = Some (n div 10)" by (intro less) simp
    then show ?thesis using False
      by (subst show_nat.simps) (simp add: parse_digits_append char_digit_digit_char)
  qed
qed

lemma show_nat_not_Nil [simp]: "show_nat n \<noteq> []"
  by (subst show_nat.simps) simp

lemma parse_show_nat [simp]: "parse_nat (show_nat n) = Some n"
  by (simp add: parse_nat_def parse_digits_show)

lemma digit_char_range: "n < 10 \<Longrightarrow> of_char (digit_char n) = 48 + n"
  by (simp add: digit_char_def)

lemma show_nat_digits: "c \<in> set (show_nat n) \<Longrightarrow> char_digit c \<noteq> None"
proof (induction n rule: less_induct)
  case (less n)
  show ?case
  proof (cases "n < 10")
    case True
    then show ?thesis using less.prems by (simp add: show_nat.simps char_digit_digit_char)
  next
    case False
    then have "c \<in> set (show_nat (n div 10)) \<or> c = digit_char (n mod 10)"
      using less.prems by (subst (asm) show_nat.simps) auto
    then show ?thesis using False less.IH [of "n div 10"] char_digit_digit_char [of "n mod 10"] by auto
  qed
qed

text \<open>\<open>str::parse\<close> for the unsigned and signed types, and \<open>to_string\<close> of a signed one.\<close>

fun strip_plus :: "string \<Rightarrow> string" where
  "strip_plus (c # cs) = (if c = CHR ''+'' \<and> cs \<noteq> [] then cs else c # cs)"
| "strip_plus [] = []"

definition parse_unsigned :: "nat \<Rightarrow> string \<Rightarrow> nat option" where
  "parse_unsigned bits s =
     (case parse_nat (strip_plus s) of
        Some n \<Rightarrow> if n < 2 ^ bits then Some n else None
      | None \<Rightarrow> None)"

definition parse_u64 :: "string \<Rightarrow> u64 option" where
  "parse_u64 s = map_option word_of_nat (parse_unsigned 64 s)"

definition parse_u32 :: "string \<Rightarrow> u32 option" where
  "parse_u32 s = map_option word_of_nat (parse_unsigned 32 s)"

definition i64_ok :: "int \<Rightarrow> bool" where
  "i64_ok i \<longleftrightarrow> - (2 ^ 63) \<le> i \<and> i < 2 ^ 63"

text \<open>The conversions between integer types, an \<open>i64\<close> being an \<open>int\<close> in its range.\<close>

definition i64_try_from :: "u64 \<Rightarrow> int option" where
  "i64_try_from n = (if uint n < 2 ^ 63 then Some (uint n) else None)"

definition u64_try_from :: "int \<Rightarrow> u64 option" where
  "u64_try_from i = (if 0 \<le> i \<and> i < 2 ^ 64 then Some (word_of_int i) else None)"

definition u32_try_from :: "int \<Rightarrow> u32 option" where
  "u32_try_from i = (if 0 \<le> i \<and> i < 2 ^ 32 then Some (word_of_int i) else None)"

definition i64_checked_add :: "int \<Rightarrow> int \<Rightarrow> int option" where
  "i64_checked_add i j = (if i64_ok (i + j) then Some (i + j) else None)"

definition i64_saturating_add :: "int \<Rightarrow> int \<Rightarrow> int" where
  "i64_saturating_add i j = max (- (2 ^ 63)) (min (2 ^ 63 - 1) (i + j))"

definition i64_saturating_sub :: "int \<Rightarrow> int \<Rightarrow> int" where
  "i64_saturating_sub i j = max (- (2 ^ 63)) (min (2 ^ 63 - 1) (i - j))"

definition show_int :: "int \<Rightarrow> string" where
  "show_int i = (if i < 0 then CHR ''-'' # show_nat (nat (- i)) else show_nat (nat i))"

definition parse_i64 :: "string \<Rightarrow> int option" where
  "parse_i64 s =
     (case s of
        c # cs \<Rightarrow>
          if c = CHR ''-'' \<and> cs \<noteq> []
          then (case parse_nat cs of
                  Some n \<Rightarrow> if n \<le> 2 ^ 63 then Some (- int n) else None
                | None \<Rightarrow> None)
          else (case parse_nat (strip_plus s) of
                  Some n \<Rightarrow> if n < 2 ^ 63 then Some (int n) else None
                | None \<Rightarrow> None)
      | [] \<Rightarrow> None)"

lemma show_nat_no_sign: "CHR ''+'' \<notin> set (show_nat n)" "CHR ''-'' \<notin> set (show_nat n)"
  using show_nat_digits [of "CHR ''+''" n] show_nat_digits [of "CHR ''-''" n]
  by (auto simp: char_digit_def)

lemma show_nat_Cons: "\<exists>c cs. show_nat n = c # cs \<and> c \<noteq> CHR ''+'' \<and> c \<noteq> CHR ''-''"
  using show_nat_no_sign [of n] by (cases "show_nat n") auto

lemma strip_plus_show [simp]: "strip_plus (show_nat n) = show_nat n"
  using show_nat_Cons [of n] by auto

lemma parse_u64_show [simp]: "parse_u64 (show_nat (unat w)) = Some w"
  using unat_u64_less [of w] by (simp add: parse_u64_def parse_unsigned_def)

lemma parse_u32_show [simp]: "parse_u32 (show_nat (unat w)) = Some w"
  using unat_u32_less [of w] by (simp add: parse_u32_def parse_unsigned_def)

lemma parse_i64_show [simp]:
  assumes "i64_ok i"
  shows "parse_i64 (show_int i) = Some i"
proof (cases "i < 0")
  case True
  then have "nat (- i) \<le> 2 ^ 63" using assms by (simp add: i64_ok_def)
  then show ?thesis using True by (simp add: show_int_def parse_i64_def)
next
  case False
  obtain c cs where shown: "show_nat (nat i) = c # cs" "c \<noteq> CHR ''-''" using show_nat_Cons by blast
  have "nat i < 2 ^ 63" using False assms by (simp add: i64_ok_def)
  then show ?thesis
    using False shown parse_show_nat [of "nat i"] strip_plus_show [of "nat i"]
    by (simp add: show_int_def parse_i64_def del: parse_show_nat strip_plus_show strip_plus.simps)
qed

section \<open>Lines\<close>

text \<open>The bytes before the first newline, and those after it.\<close>

fun split_line :: "u8 list \<Rightarrow> (u8 list \<times> u8 list) option" where
  "split_line [] = None"
| "split_line (b # bs) =
     (if b = 10 then Some ([], bs)
      else case split_line bs of Some (line, rest) \<Rightarrow> Some (b # line, rest) | None \<Rightarrow> None)"

lemma split_line_append: "10 \<notin> set line \<Longrightarrow> split_line (line @ 10 # rest) = Some (line, rest)"
  by (induction line) auto

lemma split_line_None: "split_line bs = None \<longleftrightarrow> 10 \<notin> set bs"
  by (induction bs) (auto split: option.splits)

lemma split_line_Some: "split_line bs = Some (line, rest) \<longleftrightarrow> bs = line @ 10 # rest \<and> 10 \<notin> set line"
proof
  assume "split_line bs = Some (line, rest)"
  then show "bs = line @ 10 # rest \<and> 10 \<notin> set line"
    by (induction bs arbitrary: line) (auto split: if_splits option.splits)
qed (auto simp: split_line_append)

end
