(* ===== verification/Prefix_Code.thy ===== *)
theory Prefix_Code
  imports Bytes
begin

text \<open>
  Self-delimiting encodings into bytes. The canonical hashes write every field one after the
  other without separators; two values hash the same input only if each field's encoding
  says where it ends. \<open>prefix_code enc valid\<close> is that contract, with the combinators that
  build it for pairs, counted lists, tagged alternatives and options.
\<close>

section \<open>Little-endian integers\<close>

fun le_bytes :: "nat \<Rightarrow> nat \<Rightarrow> u8 list" where
  "le_bytes 0 v = []"
| "le_bytes (Suc n) v = word_of_nat (v mod 256) # le_bytes n (v div 256)"

fun le_value :: "u8 list \<Rightarrow> nat" where
  "le_value [] = 0"
| "le_value (b # bs) = unat b + 256 * le_value bs"

lemma length_le_bytes [simp]: "length (le_bytes n v) = n"
  by (induction n arbitrary: v) simp_all

lemma unat_byte: "unat (word_of_nat (v mod 256) :: u8) = v mod 256"
  by (rule unat_word_of_nat_small) simp

lemma le_value_le_bytes: "v < 256 ^ n \<Longrightarrow> le_value (le_bytes n v) = v"
proof (induction n arbitrary: v)
  case (Suc n)
  then have "v div 256 < 256 ^ n" by (simp add: less_mult_imp_div_less mult.commute)
  then show ?case using Suc.IH unat_byte [of v] by simp
qed simp

lemma le_value_less: "le_value bs < 256 ^ length bs"
proof (induction bs)
  case (Cons b bs)
  have "unat b < 256" using unsigned_less [of b, where 'a = nat] by simp
  with Cons show ?case by simp
qed simp

lemma le_bytes_le_value: "le_bytes (length bs) (le_value bs) = bs"
proof (induction bs)
  case (Cons b bs)
  have "unat b < 256" using unsigned_less [of b, where 'a = nat] by simp
  then have "(unat b + 256 * le_value bs) mod 256 = unat b"
    and "(unat b + 256 * le_value bs) div 256 = le_value bs" by simp_all
  then show ?case using Cons by simp
qed simp

lemma le_bytes_inject:
  "v < 256 ^ n \<Longrightarrow> w < 256 ^ n \<Longrightarrow> le_bytes n v = le_bytes n w \<longleftrightarrow> v = w"
  by (metis le_value_le_bytes)

section \<open>Interface: self-delimiting encodings\<close>

locale prefix_code =
  fixes enc :: "'a \<Rightarrow> u8 list"
    and valid :: "'a \<Rightarrow> bool"
  assumes split: "valid a \<Longrightarrow> valid b \<Longrightarrow> enc a @ xs = enc b @ ys \<Longrightarrow> a = b \<and> xs = ys"
begin

lemma split_iff: "valid a \<Longrightarrow> valid b \<Longrightarrow> enc a @ xs = enc b @ ys \<longleftrightarrow> a = b \<and> xs = ys"
  using split by blast

lemma injective: "valid a \<Longrightarrow> valid b \<Longrightarrow> enc a = enc b \<Longrightarrow> a = b"
  using split [of a b "[]" "[]"] by simp

lemma elements:
  "length as = length bs \<Longrightarrow> list_all valid as \<Longrightarrow> list_all valid bs \<Longrightarrow>
   concat (map enc as) @ xs = concat (map enc bs) @ ys \<Longrightarrow> as = bs \<and> xs = ys"
proof (induction as bs rule: list_induct2)
  case (Cons a as b bs)
  have "a = b \<and> concat (map enc as) @ xs = concat (map enc bs) @ ys"
    using Cons.prems by (intro split) simp_all
  then show ?case using Cons by simp
qed simp

end

lemma prefix_code_bytes:
  "prefix_code (le_bytes n) (\<lambda>v. v < 256 ^ n)"
proof
  fix a b :: nat and xs ys
  assume ok: "a < 256 ^ n" "b < 256 ^ n" and eq: "le_bytes n a @ xs = le_bytes n b @ ys"
  then have "le_bytes n a = le_bytes n b \<and> xs = ys" by (simp add: append_eq_append_conv)
  with ok show "a = b \<and> xs = ys" by (simp add: le_bytes_inject)
qed

lemma prefix_code_image:
  assumes "prefix_code enc valid" and "\<And>a b. ok a \<Longrightarrow> ok b \<Longrightarrow> f a = f b \<Longrightarrow> a = b"
    and "\<And>a. ok a \<Longrightarrow> valid (f a)"
  shows "prefix_code (\<lambda>a. enc (f a)) ok"
proof
  fix a b xs ys
  assume "ok a" "ok b" "enc (f a) @ xs = enc (f b) @ ys"
  then have "f a = f b \<and> xs = ys" using assms(1,3) by (blast dest: prefix_code.split)
  then show "a = b \<and> xs = ys" using assms(2) \<open>ok a\<close> \<open>ok b\<close> by blast
qed

lemma prefix_code_pair:
  assumes "prefix_code enc1 valid1" and "prefix_code enc2 valid2"
  shows "prefix_code (\<lambda>(a, b). enc1 a @ enc2 b) (\<lambda>(a, b). valid1 a \<and> valid2 b)"
proof
  fix p q :: "'a \<times> 'b" and xs ys
  obtain a b c d where pq: "p = (a, b)" "q = (c, d)" by (cases p; cases q)
  assume "case p of (a, b) \<Rightarrow> valid1 a \<and> valid2 b" "case q of (a, b) \<Rightarrow> valid1 a \<and> valid2 b"
    and eq: "(case p of (a, b) \<Rightarrow> enc1 a @ enc2 b) @ xs = (case q of (a, b) \<Rightarrow> enc1 a @ enc2 b) @ ys"
  then have ok: "valid1 a" "valid2 b" "valid1 c" "valid2 d" by (simp_all add: pq)
  have "a = c \<and> enc2 b @ xs = enc2 d @ ys"
    using eq ok by (intro prefix_code.split [OF assms(1)]) (simp_all add: pq)
  then show "p = q \<and> xs = ys"
    using prefix_code.split [OF assms(2) ok(2) ok(4), of xs ys] by (simp add: pq)
qed

text \<open>A counted list: the number of elements as a \<open>u64\<close>, then the elements.\<close>

definition enc_list :: "('a \<Rightarrow> u8 list) \<Rightarrow> 'a list \<Rightarrow> u8 list" where
  "enc_list enc xs = le_bytes 8 (length xs) @ concat (map enc xs)"

definition list_fits :: "('a \<Rightarrow> bool) \<Rightarrow> 'a list \<Rightarrow> bool" where
  "list_fits valid xs \<longleftrightarrow> length xs < 2 ^ 64 \<and> list_all valid xs"

lemma prefix_code_list:
  assumes "prefix_code enc valid"
  shows "prefix_code (enc_list enc) (list_fits valid)"
proof
  fix as bs xs ys
  assume ok: "list_fits valid as" "list_fits valid bs" and eq: "enc_list enc as @ xs = enc_list enc bs @ ys"
  have "length as = length bs \<and> concat (map enc as) @ xs = concat (map enc bs) @ ys"
    using ok eq by (intro prefix_code.split [OF prefix_code_bytes [of 8]])
      (simp_all add: list_fits_def enc_list_def)
  then show "as = bs \<and> xs = ys"
    using ok prefix_code.elements [OF assms, of as bs xs ys] by (simp add: list_fits_def)
qed

text \<open>
  Tagged alternatives: the first byte decides, and within one tag the rest is a prefix code.
\<close>

lemma prefix_code_tagged:
  assumes "\<And>a b xs ys. ok a \<Longrightarrow> ok b \<Longrightarrow> tag a = tag b \<Longrightarrow> body a @ xs = body b @ ys \<Longrightarrow> a = b \<and> xs = ys"
  shows "prefix_code (\<lambda>a. tag a # body a) ok"
proof
  fix a b xs ys
  assume "ok a" "ok b" "(tag a # body a) @ xs = (tag b # body b) @ ys"
  then show "a = b \<and> xs = ys" by (intro assms) simp_all
qed

lemma prefix_code_cong:
  "prefix_code enc ok \<Longrightarrow> (\<And>a. enc' a = enc a) \<Longrightarrow> (\<And>a. ok' a \<Longrightarrow> ok a) \<Longrightarrow> prefix_code enc' ok'"
  unfolding prefix_code_def by metis

end
