(* ===== verification/Canonical.thy ===== *)
theory Canonical
  imports Config_Model Prefix_Code
begin

text \<open>
  The canonical encodings behind \<open>ProcessDefinitionHash\<close> and \<open>ConfigGeneration\<close>
  (\<open>crates/config/src/canonical.rs\<close>). The hash function itself is a parameter \<open>sha256\<close>; the
  input it receives is modelled byte for byte, and shown to determine the definitions.
\<close>

section \<open>The writer\<close>

text \<open>A \<open>HashWriter\<close> is the bytes fed to the digest so far.\<close>

type_synonym hash_writer = "u8 list"

definition write_tag :: "hash_writer \<Rightarrow> u8 \<Rightarrow> hash_writer" where
  "write_tag w value = w @ [value]"

definition write_u32 :: "hash_writer \<Rightarrow> u32 \<Rightarrow> hash_writer" where
  "write_u32 w value = w @ le_bytes 4 (unat value)"

definition write_u64 :: "hash_writer \<Rightarrow> u64 \<Rightarrow> hash_writer" where
  "write_u64 w value = w @ le_bytes 8 (unat value)"

text \<open>\<open>usize\<close> values are lengths in memory; \<open>u64::try_from\<close> cannot fail on them.\<close>

definition write_usize :: "hash_writer \<Rightarrow> nat \<Rightarrow> hash_writer" where
  "write_usize w value = write_u64 w (word_of_nat value)"

definition write_duration :: "hash_writer \<Rightarrow> duration \<Rightarrow> hash_writer" where
  "write_duration w value = w @ le_bytes 16 value"

definition write_string :: "hash_writer \<Rightarrow> string \<Rightarrow> hash_writer" where
  "write_string w value = write_usize w (length value) @ string_bytes value"

definition writer_new :: "string \<Rightarrow> hash_writer" where
  "writer_new format = le_bytes 8 (length format) @ string_bytes format"

section \<open>The encodings\<close>

definition write_process :: "hash_writer \<Rightarrow> process_definition \<Rightarrow> hash_writer" where
  "write_process w p =
     (let w = write_string w (pd_executable p);
          w = write_usize w (length (pd_arguments p));
          w = foldl write_string w (pd_arguments p);
          w = write_string w (pd_working_directory p);
          w = write_usize w (length (env_set (pd_environment p)));
          w = foldl (\<lambda>w (name, value). write_string (write_string w (env_name_str name)) value)
                w (env_set (pd_environment p));
          w = write_usize w (length (env_unset (pd_environment p)))
      in foldl (\<lambda>w name. write_string w (env_name_str name)) w (env_unset (pd_environment p)))"

definition write_backoff :: "hash_writer \<Rightarrow> backoff_policy \<Rightarrow> hash_writer" where
  "write_backoff w b =
     write_duration (write_u32 (write_duration w (nzd_get (bp_initial b))) (bp_multiplier b))
       (nzd_get (bp_maximum b))"

definition write_service_retry :: "hash_writer \<Rightarrow> service_retry_policy \<Rightarrow> hash_writer" where
  "write_service_retry w p =
     (let w = (case srp_limit p of
                 Finite limit \<Rightarrow> write_u32 (write_tag w 1) limit
               | Unlimited \<Rightarrow> write_tag w 2);
          w = write_duration w (nzd_get (srp_reset_after p))
      in write_backoff w (srp_backoff p))"

fun write_restart :: "hash_writer \<Rightarrow> execution_restart_policy \<Rightarrow> hash_writer" where
  "write_restart w (ServicePolicy ServiceNever) = write_tag w 1"
| "write_restart w (ServicePolicy (ServiceOnFailure p)) = write_service_retry (write_tag w 2) p"
| "write_restart w (ServicePolicy (ServiceAlways p)) = write_service_retry (write_tag w 3) p"
| "write_restart w (JobPolicy JobNever) = write_tag w 4"
| "write_restart w (JobPolicy (JobOnFailure p)) =
     write_backoff (write_u32 (write_tag w 5) (jrp_max_restarts p)) (jrp_backoff p)"

fun write_stop :: "hash_writer \<Rightarrow> stop_definition \<Rightarrow> hash_writer" where
  "write_stop w (DefCtrlBreak timeout) = write_duration (write_tag w 1) timeout"
| "write_stop w (DefCommand timeout command) =
     (let w = write_duration (write_tag w 2) timeout;
          w = write_string w (sc_executable command);
          w = write_usize w (length (sc_arguments command))
      in foldl write_string w (sc_arguments command))"
| "write_stop w DefKill = write_tag w 3"

fun write_logging :: "hash_writer \<Rightarrow> logging_policy \<Rightarrow> hash_writer" where
  "write_logging w LoggingDisabled = write_tag w 1"
| "write_logging w (Capture segment_size segment_age retention_size retention_age) =
     (let w = write_duration (write_u64 (write_tag w 2) segment_size) segment_age;
          w = (case retention_size of
                 SizeLimited bytes \<Rightarrow> write_u64 (write_tag w 1) bytes
               | SizeUnlimited \<Rightarrow> write_tag w 2)
      in case retention_age of
           AgeLimited age \<Rightarrow> write_duration (write_tag w 1) age
         | AgeUnlimited \<Rightarrow> write_tag w 2)"

fun kind_tag :: "workload_kind \<Rightarrow> u8" where
  "kind_tag KindService = 1"
| "kind_tag KindJob = 2"

definition write_definition :: "hash_writer \<Rightarrow> workload_definition \<Rightarrow> hash_writer" where
  "write_definition w d =
     (let w = write_tag w (kind_tag (wd_kind d));
          w = write_process w (wd_process d);
          w = write_usize w (length (wd_success_exit_codes d));
          w = foldl write_u32 w (wd_success_exit_codes d);
          w = write_restart w (wd_restart d);
          w = write_stop w (wd_stop d)
      in write_logging w (wd_logging d))"

definition process_input :: "process_definition \<Rightarrow> u8 list" where
  "process_input p = write_process (writer_new ''susm-process-definition-v1'') p"

definition process_hash ::
  "(u8 list \<Rightarrow> u8 list) \<Rightarrow> process_definition \<Rightarrow> process_definition_hash"
where
  "process_hash sha256 p = ProcessDefinitionHash (sha256 (process_input p))"

definition generation_input :: "(workload_id, workload_definition) btree \<Rightarrow> u8 list" where
  "generation_input definitions =
     (let w = writer_new ''susm-config-generation-v1'';
          w = write_usize w (length definitions)
      in foldl (\<lambda>w (id, d). write_definition (write_string w (workload_id_str id)) d) w definitions)"

definition config_generation_of ::
  "(u8 list \<Rightarrow> u8 list) \<Rightarrow> (workload_id, workload_definition) btree \<Rightarrow> config_generation"
where
  "config_generation_of sha256 definitions = ConfigGeneration (sha256 (generation_input definitions))"

section \<open>The bytes written, as self-delimiting encodings\<close>

text \<open>Lengths of strings and collections in memory fit a \<open>u64\<close>, and durations their 16 bytes.\<close>

definition string_fits :: "string \<Rightarrow> bool" where
  "string_fits s \<longleftrightarrow> length s < 2 ^ 64"

definition enc_string :: "string \<Rightarrow> u8 list" where
  "enc_string = enc_list (\<lambda>c. [of_char c])"

lemma concat_bytes: "concat (map (\<lambda>c. [of_char c]) s) = string_bytes s"
  by (induction s) (simp_all add: string_bytes_def)

lemma prefix_code_string: "prefix_code enc_string string_fits"
proof -
  have "prefix_code (\<lambda>c. [of_char c :: u8]) (\<lambda>_. True)"
    by unfold_locales (auto dest: of_char_inject)
  from prefix_code_list [OF this] show ?thesis
    unfolding enc_string_def
    by (rule prefix_code_cong) (simp_all add: list_fits_def string_fits_def list.pred_True)
qed

lemma write_usize_eq: "n < 2 ^ 64 \<Longrightarrow> write_usize w n = w @ le_bytes 8 n"
  using unat_word_of_nat_small [of n, where 'w = 64] by (simp add: write_usize_def write_u64_def)

lemma write_string_eq: "string_fits s \<Longrightarrow> write_string w s = w @ enc_string s"
  by (simp add: write_string_def write_usize_eq string_fits_def enc_string_def enc_list_def
      concat_bytes string_bytes_def)

lemma foldl_writes:
  "(\<And>w x. x \<in> set xs \<Longrightarrow> write w x = w @ enc x) \<Longrightarrow> foldl write w xs = w @ concat (map enc xs)"
  by (induction xs arbitrary: w) simp_all

lemma write_list_eq:
  assumes "length xs < 2 ^ 64" and "\<And>w x. x \<in> set xs \<Longrightarrow> write w x = w @ enc x"
  shows "foldl write (write_usize w (length xs)) xs = w @ enc_list enc xs"
proof -
  have "foldl write w' xs = w' @ concat (map enc xs)" for w'
    using assms(2) by (rule foldl_writes)
  with assms(1) show ?thesis by (simp add: write_usize_eq enc_list_def)
qed

subsection \<open>Process definitions\<close>

definition enc_env_entry :: "environment_name \<times> string \<Rightarrow> u8 list" where
  "enc_env_entry = (\<lambda>(n, v). enc_string (env_name_str n) @ enc_string v)"

definition env_name_fits :: "environment_name \<Rightarrow> bool" where
  "env_name_fits n \<longleftrightarrow> string_fits (env_name_str n)"

definition process_fits :: "process_definition \<Rightarrow> bool" where
  "process_fits p \<longleftrightarrow>
     string_fits (pd_executable p) \<and> list_fits string_fits (pd_arguments p) \<and>
     string_fits (pd_working_directory p) \<and>
     list_fits (\<lambda>(n, v). env_name_fits n \<and> string_fits v) (env_set (pd_environment p)) \<and>
     list_fits env_name_fits (env_unset (pd_environment p))"

definition enc_process :: "process_definition \<Rightarrow> u8 list" where
  "enc_process p =
     enc_string (pd_executable p) @ enc_list enc_string (pd_arguments p) @
     enc_string (pd_working_directory p) @ enc_list enc_env_entry (env_set (pd_environment p)) @
     enc_list (\<lambda>n. enc_string (env_name_str n)) (env_unset (pd_environment p))"

lemma write_process_eq: "process_fits p \<Longrightarrow> write_process w p = w @ enc_process p"
proof -
  assume fits: "process_fits p"
  let ?env = "pd_environment p"
  have args: "foldl write_string (write_usize w (length (pd_arguments p))) (pd_arguments p) =
      w @ enc_list enc_string (pd_arguments p)" for w
    using fits by (intro write_list_eq) (auto simp: process_fits_def list_fits_def list_all_iff write_string_eq)
  have set: "foldl (\<lambda>w (name, value). write_string (write_string w (env_name_str name)) value)
        (write_usize w (length (env_set ?env))) (env_set ?env) = w @ enc_list enc_env_entry (env_set ?env)" for w
    using fits
    by (intro write_list_eq)
      (auto simp: process_fits_def list_fits_def list_all_iff write_string_eq env_name_fits_def
        enc_env_entry_def)
  have unset: "foldl (\<lambda>w name. write_string w (env_name_str name))
        (write_usize w (length (env_unset ?env))) (env_unset ?env) =
      w @ enc_list (\<lambda>n. enc_string (env_name_str n)) (env_unset ?env)" for w
    using fits
    by (intro write_list_eq)
      (auto simp: process_fits_def list_fits_def list_all_iff write_string_eq env_name_fits_def)
  show ?thesis
    using fits by (simp add: write_process_def Let_def args set unset write_string_eq enc_process_def
        process_fits_def)
qed

lemma prefix_code_env_name: "prefix_code (\<lambda>n. enc_string (env_name_str n)) env_name_fits"
  by (rule prefix_code_image [OF prefix_code_string]) (auto simp: env_name_fits_def intro: environment_name.expand)

lemma prefix_code_env_entry:
  "prefix_code enc_env_entry (\<lambda>(n, v). env_name_fits n \<and> string_fits v)"
  unfolding enc_env_entry_def by (rule prefix_code_pair [OF prefix_code_env_name prefix_code_string])

lemma prefix_code_process: "prefix_code enc_process process_fits"
proof -
  note fields = prefix_code_pair [OF prefix_code_string prefix_code_pair [OF
      prefix_code_list [OF prefix_code_string] prefix_code_pair [OF prefix_code_string
      prefix_code_pair [OF prefix_code_list [OF prefix_code_env_entry]
      prefix_code_list [OF prefix_code_env_name]]]]]
  let ?fields = "\<lambda>p. (pd_executable p, pd_arguments p, pd_working_directory p,
    env_set (pd_environment p), env_unset (pd_environment p))"
  have "p = q" if "?fields p = ?fields q" for p q :: process_definition
    using that by (cases p; cases q) (auto intro: environment_overlay.equality)
  from prefix_code_image [OF fields, of process_fits ?fields] this show ?thesis
    by (simp add: process_fits_def enc_process_def [abs_def])
qed

subsection \<open>Restart policies\<close>

definition duration_fits :: "duration \<Rightarrow> bool" where
  "duration_fits d \<longleftrightarrow> d < 256 ^ 16"

lemma duration_ok_fits: "duration_ok d \<Longrightarrow> duration_fits d"
  by (simp add: duration_ok_def duration_fits_def duration_max_def nanos_per_sec_def)

lemma prefix_code_duration: "prefix_code (le_bytes 16) duration_fits"
  using prefix_code_bytes [of 16] unfolding duration_fits_def .

lemma prefix_code_nzd: "prefix_code (\<lambda>d. le_bytes 16 (nzd_get d)) (\<lambda>d. duration_fits (nzd_get d))"
  by (rule prefix_code_image [OF prefix_code_duration]) (auto intro: non_zero_duration.expand)

lemma prefix_code_u32: "prefix_code (\<lambda>v :: u32. le_bytes 4 (unat v)) (\<lambda>_. True)"
proof (rule prefix_code_image [OF prefix_code_bytes [of 4]])
  show "unat (a :: u32) < 256 ^ 4" for a using unat_u32_less [of a] by simp
qed (simp_all add: word_unat_eq_iff)

lemma prefix_code_u64: "prefix_code (\<lambda>v :: u64. le_bytes 8 (unat v)) (\<lambda>_. True)"
proof (rule prefix_code_image [OF prefix_code_bytes [of 8]])
  show "unat (a :: u64) < 256 ^ 8" for a using unat_u64_less [of a] by simp
qed (simp_all add: word_unat_eq_iff)

lemmas write_defs = write_tag_def write_u32_def write_u64_def write_duration_def

definition enc_backoff :: "backoff_policy \<Rightarrow> u8 list" where
  "enc_backoff = write_backoff []"

definition enc_service_retry :: "service_retry_policy \<Rightarrow> u8 list" where
  "enc_service_retry = write_service_retry []"

lemma write_backoff_eq: "write_backoff w b = w @ enc_backoff b"
  by (simp add: enc_backoff_def write_backoff_def write_defs)

lemma write_service_retry_eq: "write_service_retry w p = w @ enc_service_retry p"
  by (simp add: enc_service_retry_def write_service_retry_def write_defs write_backoff_eq Let_def
      split: service_retry_limit.split)

definition enc_restart :: "execution_restart_policy \<Rightarrow> u8 list" where
  "enc_restart = write_restart []"

lemma write_restart_eq: "write_restart w p = w @ enc_restart p"
  by (cases p rule: wf_restart_policy.cases)
    (simp_all add: enc_restart_def write_defs write_backoff_eq write_service_retry_eq)

definition backoff_fits :: "backoff_policy \<Rightarrow> bool" where
  "backoff_fits b \<longleftrightarrow> duration_fits (nzd_get (bp_initial b)) \<and> duration_fits (nzd_get (bp_maximum b))"

definition service_retry_fits :: "service_retry_policy \<Rightarrow> bool" where
  "service_retry_fits p \<longleftrightarrow> duration_fits (nzd_get (srp_reset_after p)) \<and> backoff_fits (srp_backoff p)"

fun restart_fits :: "execution_restart_policy \<Rightarrow> bool" where
  "restart_fits (ServicePolicy (ServiceOnFailure p)) = service_retry_fits p"
| "restart_fits (ServicePolicy (ServiceAlways p)) = service_retry_fits p"
| "restart_fits (JobPolicy (JobOnFailure p)) = backoff_fits (jrp_backoff p)"
| "restart_fits _ = True"

lemma wf_restart_fits: "wf_restart_policy p \<Longrightarrow> restart_fits p"
  by (cases p rule: wf_restart_policy.cases)
    (auto simp: wf_service_retry_def wf_job_retry_def wf_backoff_def wf_nzd_def
      service_retry_fits_def backoff_fits_def intro: duration_ok_fits)

lemma prefix_code_backoff: "prefix_code enc_backoff backoff_fits"
proof -
  note fields = prefix_code_pair [OF prefix_code_nzd prefix_code_pair [OF prefix_code_u32 prefix_code_nzd]]
  let ?fields = "\<lambda>b. (bp_initial b, bp_multiplier b, bp_maximum b)"
  have "b = c" if "?fields b = ?fields c" for b c :: backoff_policy
    using that by (cases b; cases c) simp
  from prefix_code_image [OF fields, of backoff_fits ?fields] this show ?thesis
    by (simp add: backoff_fits_def enc_backoff_def write_backoff_def [abs_def] write_defs)
qed

definition enc_limit :: "service_retry_limit \<Rightarrow> u8 list" where
  "enc_limit l = (case l of Finite n \<Rightarrow> 1 # le_bytes 4 (unat n) | Unlimited \<Rightarrow> [2])"

lemmas split_u32 = prefix_code.split_iff [OF prefix_code_u32 TrueI TrueI]
lemmas split_u64 = prefix_code.split_iff [OF prefix_code_u64 TrueI TrueI]

lemma duration_bytes_inject:
  "duration_fits a \<Longrightarrow> duration_fits b \<Longrightarrow> le_bytes 16 a = le_bytes 16 b \<longleftrightarrow> a = b"
  by (simp add: duration_fits_def le_bytes_inject)

lemmas split_duration = prefix_code.split_iff [OF prefix_code_duration] duration_bytes_inject

lemma prefix_code_limit: "prefix_code enc_limit (\<lambda>_. True)"
proof
  fix a b xs ys
  assume "enc_limit a @ xs = enc_limit b @ ys"
  then show "a = b \<and> xs = ys"
    by (cases a; cases b) (simp_all add: enc_limit_def split_u32)
qed

lemma enc_service_retry_fields:
  "enc_service_retry p = enc_limit (srp_limit p) @ le_bytes 16 (nzd_get (srp_reset_after p)) @
     enc_backoff (srp_backoff p)"
  by (cases "srp_limit p")
    (simp_all add: enc_service_retry_def write_service_retry_def write_defs write_backoff_eq enc_limit_def)

lemma prefix_code_service_retry: "prefix_code enc_service_retry service_retry_fits"
proof -
  note fields = prefix_code_pair [OF prefix_code_limit prefix_code_pair [OF prefix_code_nzd prefix_code_backoff]]
  let ?fields = "\<lambda>p. (srp_limit p, srp_reset_after p, srp_backoff p)"
  have "p = q" if "?fields p = ?fields q" for p q :: service_retry_policy
    using that by (cases p; cases q) simp
  from prefix_code_image [OF fields, of service_retry_fits ?fields] this show ?thesis
    by (simp add: service_retry_fits_def enc_service_retry_fields [abs_def])
qed

lemma prefix_code_restart: "prefix_code enc_restart restart_fits"
proof
  note splits = prefix_code.split_iff [OF prefix_code_service_retry]
    prefix_code.split_iff [OF prefix_code_backoff] split_u32
  fix a b xs ys
  assume "restart_fits a" "restart_fits b" "enc_restart a @ xs = enc_restart b @ ys"
  then show "a = b \<and> xs = ys"
    by (cases a rule: wf_restart_policy.cases; cases b rule: wf_restart_policy.cases)
      (auto simp: enc_restart_def write_defs write_backoff_eq write_service_retry_eq splits
        intro: job_retry_policy.equality)
qed

subsection \<open>Stop and logging policies\<close>

fun stop_fits :: "stop_definition \<Rightarrow> bool" where
  "stop_fits (DefCtrlBreak timeout) = duration_fits timeout"
| "stop_fits (DefCommand timeout c) =
     (duration_fits timeout \<and> string_fits (sc_executable c) \<and> list_fits string_fits (sc_arguments c))"
| "stop_fits DefKill = True"

fun enc_stop :: "stop_definition \<Rightarrow> u8 list" where
  "enc_stop (DefCtrlBreak timeout) = 1 # le_bytes 16 timeout"
| "enc_stop (DefCommand timeout c) =
     2 # le_bytes 16 timeout @ enc_string (sc_executable c) @ enc_list enc_string (sc_arguments c)"
| "enc_stop DefKill = [3]"

lemma write_strings_eq:
  "list_fits string_fits xs \<Longrightarrow>
   foldl write_string (write_usize w (length xs)) xs = w @ enc_list enc_string xs"
  by (rule write_list_eq) (auto simp: list_fits_def list_all_iff write_string_eq)

lemma write_stop_eq: "stop_fits s \<Longrightarrow> write_stop w s = w @ enc_stop s"
  by (cases s) (simp_all add: write_defs write_string_eq write_strings_eq Let_def)

lemma prefix_code_stop: "prefix_code enc_stop stop_fits"
proof
  note splits = split_duration prefix_code.split_iff [OF prefix_code_string]
    prefix_code.split_iff [OF prefix_code_list [OF prefix_code_string]]
  fix a b xs ys
  assume "stop_fits a" "stop_fits b" "enc_stop a @ xs = enc_stop b @ ys"
  then show "a = b \<and> xs = ys"
    by (cases a; cases b) (auto simp: splits intro: stop_command.equality)
qed

fun size_fits :: "retention_duration \<Rightarrow> bool" where
  "size_fits (AgeLimited d) = duration_fits d"
| "size_fits AgeUnlimited = True"

fun logging_fits :: "logging_policy \<Rightarrow> bool" where
  "logging_fits LoggingDisabled = True"
| "logging_fits (Capture bytes age keep_size keep_age) = (duration_fits age \<and> size_fits keep_age)"

fun enc_size :: "retention_limit \<Rightarrow> u8 list" where
  "enc_size (SizeLimited n) = 1 # le_bytes 8 (unat n)"
| "enc_size SizeUnlimited = [2]"

fun enc_age :: "retention_duration \<Rightarrow> u8 list" where
  "enc_age (AgeLimited d) = 1 # le_bytes 16 d"
| "enc_age AgeUnlimited = [2]"

fun enc_logging :: "logging_policy \<Rightarrow> u8 list" where
  "enc_logging LoggingDisabled = [1]"
| "enc_logging (Capture bytes age keep_size keep_age) =
     2 # le_bytes 8 (unat bytes) @ le_bytes 16 age @ enc_size keep_size @ enc_age keep_age"

lemma write_logging_eq: "write_logging w l = w @ enc_logging l"
  by (cases l) (auto simp: write_defs Let_def split: retention_limit.split retention_duration.split)

lemma prefix_code_size: "prefix_code enc_size (\<lambda>_. True)"
proof
  fix a b xs ys
  assume "enc_size a @ xs = enc_size b @ ys"
  then show "a = b \<and> xs = ys" by (cases a; cases b) (auto simp: split_u64)
qed

lemma prefix_code_age: "prefix_code enc_age size_fits"
proof
  fix a b xs ys
  assume "size_fits a" "size_fits b" "enc_age a @ xs = enc_age b @ ys"
  then show "a = b \<and> xs = ys" by (cases a; cases b) (auto simp: split_duration)
qed

lemma prefix_code_logging: "prefix_code enc_logging logging_fits"
proof
  note splits = split_u64 split_duration prefix_code.split_iff [OF prefix_code_age]
    prefix_code.split_iff [OF prefix_code_size TrueI TrueI]
  fix a b xs ys
  assume "logging_fits a" "logging_fits b" "enc_logging a @ xs = enc_logging b @ ys"
  then show "a = b \<and> xs = ys" by (cases a; cases b) (auto simp: splits)
qed

subsection \<open>Definitions and generations\<close>

type_synonym definition_view =
  "workload_kind \<times> process_definition \<times> u32 list \<times> execution_restart_policy \<times> stop_definition \<times>
   logging_policy"

text \<open>What the encoding of a definition reads: every field but the identifier and the hash.\<close>

definition canonical_view :: "workload_definition \<Rightarrow> definition_view" where
  "canonical_view d = (wd_kind d, wd_process d, wd_success_exit_codes d, wd_restart d, wd_stop d,
     wd_logging d)"

abbreviation codes_fit :: "u32 list \<Rightarrow> bool" where
  "codes_fit \<equiv> list_fits (\<lambda>_. True)"

abbreviation enc_codes :: "u32 list \<Rightarrow> u8 list" where
  "enc_codes \<equiv> enc_list (\<lambda>v. le_bytes 4 (unat v))"

definition view_fits :: "definition_view \<Rightarrow> bool" where
  "view_fits = (\<lambda>(kind, process, codes, restart, stop, logging).
     process_fits process \<and> codes_fit codes \<and> restart_fits restart \<and> stop_fits stop \<and>
     logging_fits logging)"

definition enc_view :: "definition_view \<Rightarrow> u8 list" where
  "enc_view = (\<lambda>(kind, process, codes, restart, stop, logging).
     [kind_tag kind] @ enc_process process @ enc_codes codes @ enc_restart restart @ enc_stop stop @
     enc_logging logging)"

lemma prefix_code_kind: "prefix_code (\<lambda>k. [kind_tag k]) (\<lambda>_. True)"
proof
  fix a b xs ys
  assume "[kind_tag a] @ xs = [kind_tag b] @ ys"
  then show "a = b \<and> xs = ys" by (cases a; cases b) auto
qed

lemma prefix_code_view: "prefix_code enc_view view_fits"
proof -
  note fields = prefix_code_pair [OF prefix_code_kind prefix_code_pair [OF prefix_code_process
      prefix_code_pair [OF prefix_code_list [OF prefix_code_u32] prefix_code_pair [OF
      prefix_code_restart prefix_code_pair [OF prefix_code_stop prefix_code_logging]]]]]
  from fields show ?thesis
    by (rule prefix_code_cong) (auto simp: view_fits_def enc_view_def)
qed

lemma write_definition_eq:
  assumes "view_fits (canonical_view d)"
  shows "write_definition w d = w @ enc_view (canonical_view d)"
proof -
  have fits: "process_fits (wd_process d)" "codes_fit (wd_success_exit_codes d)" "stop_fits (wd_stop d)"
    using assms by (simp_all add: view_fits_def canonical_view_def)
  have "foldl write_u32 (write_usize w (length (wd_success_exit_codes d))) (wd_success_exit_codes d) =
      w @ enc_codes (wd_success_exit_codes d)" for w
    using fits(2) by (intro write_list_eq) (simp_all add: list_fits_def write_u32_def)
  with fits show ?thesis
    by (simp add: write_definition_def Let_def write_tag_def write_process_eq write_restart_eq
        write_stop_eq write_logging_eq enc_view_def canonical_view_def)
qed

definition entry_fits :: "workload_id \<times> definition_view \<Rightarrow> bool" where
  "entry_fits = (\<lambda>(i, v). string_fits (workload_id_str i) \<and> view_fits v)"

definition enc_entry :: "workload_id \<times> definition_view \<Rightarrow> u8 list" where
  "enc_entry = (\<lambda>(i, v). enc_string (workload_id_str i) @ enc_view v)"

lemma prefix_code_entry: "prefix_code enc_entry entry_fits"
proof -
  have "prefix_code (\<lambda>i. enc_string (workload_id_str i)) (\<lambda>i. string_fits (workload_id_str i))"
    by (rule prefix_code_image [OF prefix_code_string]) (auto intro: workload_id.expand)
  from prefix_code_pair [OF this prefix_code_view] show ?thesis
    unfolding enc_entry_def entry_fits_def .
qed

definition view_entries ::
  "(workload_id, workload_definition) btree \<Rightarrow> (workload_id \<times> definition_view) list"
where
  "view_entries ds = map (\<lambda>(i, d). (i, canonical_view d)) ds"

lemma generation_input_eq:
  assumes "list_fits entry_fits (view_entries ds)"
  shows "generation_input ds =
    writer_new ''susm-config-generation-v1'' @ enc_list enc_entry (view_entries ds)"
proof -
  have "length ds < 2 ^ 64" using assms by (simp add: list_fits_def view_entries_def)
  moreover have "write_definition (write_string w (workload_id_str i)) d =
      w @ enc_entry (i, canonical_view d)" if "(i, d) \<in> set ds" for w i d
    using that assms
    by (auto simp: list_fits_def list_all_iff view_entries_def entry_fits_def enc_entry_def
        write_string_eq write_definition_eq)
  ultimately have "foldl (\<lambda>w (i, d). write_definition (write_string w (workload_id_str i)) d)
      (write_usize w (length ds)) ds = w @ enc_list (\<lambda>(i, d). enc_entry (i, canonical_view d)) ds" for w
    by (intro write_list_eq) auto
  then show ?thesis
    by (simp add: generation_input_def Let_def enc_list_def view_entries_def comp_def split_def)
qed

interpretation process_code: prefix_code enc_process process_fits
  by (rule prefix_code_process)

interpretation generation_code: prefix_code "enc_list enc_entry" "list_fits entry_fits"
  by (rule prefix_code_list [OF prefix_code_entry])

section \<open>Properties\<close>

text \<open>
  The bytes hashed into \<open>ProcessDefinitionHash\<close> determine the
  process definition: executable, arguments, working directory and overlay, with the borders
  between them. Two definitions share a hash only if SHA-256 collides on their inputs.
\<close>

theorem process_encoding_injective:
  assumes "process_fits p" and "process_fits q" and "process_input p = process_input q"
  shows "p = q"
proof -
  have "enc_process p = enc_process q"
    using assms by (simp add: process_input_def write_process_eq)
  then show ?thesis using assms by (blast intro: process_code.injective)
qed

definition sample_process :: "string list \<Rightarrow> process_definition" where
  "sample_process arguments = \<lparr>pd_executable = ''a.exe'', pd_arguments = arguments,
     pd_working_directory = ''c'', pd_environment = \<lparr>env_set = [], env_unset = []\<rparr>\<rparr>"

theorem process_encoding_injective_witness:
  "process_input (sample_process [''a'', ''b'']) \<noteq> process_input (sample_process [''ab''])"
proof
  assume "process_input (sample_process [''a'', ''b'']) = process_input (sample_process [''ab''])"
  then have "sample_process [''a'', ''b''] = sample_process [''ab'']"
    by (rule process_encoding_injective [rotated 2])
      (simp_all add: sample_process_def process_fits_def string_fits_def list_fits_def)
  then show False by (simp add: sample_process_def)
qed

definition consistent_definitions ::
  "(u8 list \<Rightarrow> u8 list) \<Rightarrow> (workload_id, workload_definition) btree \<Rightarrow> bool"
where
  "consistent_definitions sha256 ds \<longleftrightarrow>
     list_all (\<lambda>(i, d). wd_id d = i \<and> wd_process_hash d = process_hash sha256 (wd_process d)) ds"

lemma view_entries_inject:
  "consistent_definitions sha256 ds \<Longrightarrow> consistent_definitions sha256 es \<Longrightarrow>
   view_entries ds = view_entries es \<Longrightarrow> ds = es"
proof (induction ds arbitrary: es)
  case (Cons e ds)
  obtain i d where e: "e = (i, d)" by (cases e)
  obtain j f es' where es: "es = (j, f) # es'"
    using Cons.prems(3) by (cases es) (auto simp: view_entries_def)
  have "i = j" "canonical_view d = canonical_view f" "view_entries ds = view_entries es'"
    using Cons.prems(3) by (simp_all add: e es view_entries_def)
  moreover have "wd_id d = i" "wd_id f = j" "wd_process_hash d = process_hash sha256 (wd_process d)"
    "wd_process_hash f = process_hash sha256 (wd_process f)"
    using Cons.prems(1,2) by (simp_all add: e es consistent_definitions_def)
  ultimately have "d = f" by (intro workload_definition.equality) (auto simp: canonical_view_def)
  moreover have "ds = es'"
    using Cons.IH [of es'] Cons.prems(1,2) \<open>view_entries ds = view_entries es'\<close>
    by (simp add: e es consistent_definitions_def)
  ultimately show ?case using \<open>i = j\<close> by (simp add: e es)
qed (simp add: view_entries_def)

text \<open>
  C13. The bytes hashed into \<open>ConfigGeneration\<close> determine the
  whole set of definitions, in identifier order: no two different configurations feed the
  digest the same input, and none feeds it the input of a process definition.
\<close>

theorem generation_encoding_injective:
  assumes "consistent_definitions sha256 ds" and "consistent_definitions sha256 es"
    and "list_fits entry_fits (view_entries ds)" and "list_fits entry_fits (view_entries es)"
  shows "(generation_input ds = generation_input es \<longleftrightarrow> ds = es) \<and>
    (process_fits p \<longrightarrow> process_input p \<noteq> generation_input ds)"
proof -
  have "ds = es" if "generation_input ds = generation_input es"
  proof -
    have "enc_list enc_entry (view_entries ds) = enc_list enc_entry (view_entries es)"
      using that assms(3,4) by (simp add: generation_input_eq)
    then have "view_entries ds = view_entries es"
      using assms(3,4) by (blast intro: generation_code.injective)
    with assms(1,2) show ?thesis by (rule view_entries_inject)
  qed
  moreover have "process_input p \<noteq> generation_input ds" if "process_fits p"
    using that assms(3)
    by (simp add: process_input_def write_process_eq generation_input_eq writer_new_def string_bytes_def)
  ultimately show ?thesis by blast
qed

definition sample_definition :: "string \<Rightarrow> workload_definition" where
  "sample_definition name = \<lparr>wd_id = WorkloadId name, wd_kind = KindJob,
     wd_process = sample_process [], wd_process_hash = process_hash (\<lambda>bs. bs) (sample_process []),
     wd_success_exit_codes = [0], wd_restart = JobPolicy JobNever, wd_stop = DefKill,
     wd_logging = LoggingDisabled\<rparr>"

theorem generation_encoding_injective_witness:
  "generation_input [(WorkloadId ''a'', sample_definition ''a'')] \<noteq>
   generation_input [(WorkloadId ''b'', sample_definition ''b'')]"
  using generation_encoding_injective [of "\<lambda>bs. bs" "[(WorkloadId ''a'', sample_definition ''a'')]"
      "[(WorkloadId ''b'', sample_definition ''b'')]"]
  by (simp add: sample_definition_def sample_process_def consistent_definitions_def view_entries_def
      list_fits_def entry_fits_def view_fits_def canonical_view_def process_fits_def string_fits_def)

end
