(* ===== verification/Config_Raw.thy ===== *)
theory Config_Raw
  imports Canonical
begin

text \<open>
  From the deserialised TOML of one workload to its validated definition
  (\<open>crates/config/src/raw.rs\<close>). Deserialisation (serde, toml, humantime) happens before: a
  \<open>raw_definition\<close> is its result. Three things stay parameters of \<open>into_definition\<close>: the
  Unicode table \<open>upper\<close>, the third-party size parser \<open>parse_size\<close> and the digest \<open>sha256\<close>.
\<close>

section \<open>Data\<close>

datatype raw_kind = RawService | RawJob

record raw_environment =
  re_set :: "(string, string) btree"
  re_unset :: "string list"

datatype raw_restart_policy = RawNever | RawOnFailure | RawAlways

datatype raw_restart_limit = LimitFinite u32 | LimitKeyword string

record raw_backoff =
  rb_initial :: "duration option"
  rb_multiplier :: "u32 option"
  rb_maximum :: "duration option"

record raw_restart =
  rr_policy :: "raw_restart_policy option"
  rr_max_restarts :: "raw_restart_limit option"
  rr_reset_after :: "duration option"
  rr_backoff :: "raw_backoff option"

datatype raw_stop_method = RawCtrlBreak | RawCommand | RawKill

record raw_stop_command =
  rsc_executable :: string
  rsc_arguments :: "string list"

record raw_stop =
  rs_method :: "raw_stop_method option"
  rs_timeout :: "duration option"
  rs_command :: "raw_stop_command option"

datatype raw_retention_age = AgeValue duration | AgeKeyword string

record raw_logging =
  rl_capture :: "bool option"
  rl_segment_size :: "string option"
  rl_segment_age :: "duration option"
  rl_retention_size :: "string option"
  rl_retention_age :: "raw_retention_age option"

record raw_definition =
  rd_kind :: raw_kind
  rd_executable :: string
  rd_arguments :: "string list"
  rd_working_directory :: "string option"
  rd_success_exit_codes :: "u32 list option"
  rd_environment :: raw_environment
  rd_restart :: "raw_restart option"
  rd_stop :: "raw_stop option"
  rd_logging :: "raw_logging option"

text \<open>The \<open>Default\<close> instances of the optional tables.\<close>

definition raw_backoff_default :: raw_backoff where
  "raw_backoff_default = \<lparr>rb_initial = None, rb_multiplier = None, rb_maximum = None\<rparr>"

definition raw_restart_default :: raw_restart where
  "raw_restart_default = \<lparr>rr_policy = None, rr_max_restarts = None, rr_reset_after = None,
     rr_backoff = None\<rparr>"

definition raw_stop_default :: raw_stop where
  "raw_stop_default = \<lparr>rs_method = None, rs_timeout = None, rs_command = None\<rparr>"

definition raw_logging_default :: raw_logging where
  "raw_logging_default = \<lparr>rl_capture = None, rl_segment_size = None, rl_segment_age = None,
     rl_retention_size = None, rl_retention_age = None\<rparr>"

text \<open>
  The reasons of \<open>InvalidField\<close>, one constructor per message, with the values it formats.
\<close>

datatype 'e invalid_reason =
    MustNotBeEmpty
  | MustNotContainNull
  | MustBePositive
  | BadEnvironmentName string invalid_environment_name
  | DuplicateEnvironmentName string
  | InSetAndUnset environment_name
  | BadBackoff invalid_backoff_policy
  | UnknownValue string
  | JobsDoNotSupportAlways
  | JobsRequireFinite string
  | BadSize 'e
  | RequiresShell string

datatype 'e definition_error =
    InvalidField string "'e invalid_reason"
  | FieldNotAllowed string string
  | FieldRequired string string

definition default_working_directory :: string where
  "default_working_directory = ''${USERPROFILE}''"

definition default_stop_timeout :: duration where
  "default_stop_timeout = from_secs 10"

definition default_segment_size :: string where
  "default_segment_size = ''16MiB''"

definition default_segment_age :: duration where
  "default_segment_age = from_secs (60 * 60)"

definition default_retention_size :: string where
  "default_retention_size = ''1GiB''"

definition default_retention_age :: duration where
  "default_retention_age = from_secs (30 * 24 * 60 * 60)"

section \<open>Validation of texts\<close>

definition require_non_zero_duration :: "string \<Rightarrow> duration \<Rightarrow> 'e definition_error + non_zero_duration" where
  "require_non_zero_duration field value = ok_or (InvalidField field MustBePositive) (nzd_new value)"

definition validate_text :: "string \<Rightarrow> string \<Rightarrow> bool \<Rightarrow> 'e definition_error + unit" where
  "validate_text field value allow_empty =
     (if \<not> allow_empty \<and> value = [] then Inl (InvalidField field MustNotBeEmpty)
      else if nul \<in> set value then Inl (InvalidField field MustNotContainNull)
      else Inr ())"

text \<open>\<open>for value in values { check(value)?; }\<close>\<close>

fun check_all :: "('a \<Rightarrow> 'e + unit) \<Rightarrow> 'a list \<Rightarrow> 'e + unit" where
  "check_all check [] = Inr ()"
| "check_all check (x # xs) = and_then (check x) (\<lambda>_. check_all check xs)"

definition validate_arguments :: "string \<Rightarrow> string list \<Rightarrow> 'e definition_error + unit" where
  "validate_arguments field values = check_all (\<lambda>value. validate_text field value True) values"

text \<open>
  \<open>Path::extension\<close> on Windows: the part of the file name after its last dot, if the file
  name has one that is not its first character. The file name is the last component; empty
  and \<open>.\<close> components vanish, and \<open>..\<close> is not a file name. A drive prefix belongs to no
  component and two leading separators start a server and a share.
\<close>

definition is_separator :: "char \<Rightarrow> bool" where
  "is_separator c \<longleftrightarrow> c = CHR ''/'' \<or> c = CHR 0x5C"

fun split_on :: "(char \<Rightarrow> bool) \<Rightarrow> string \<Rightarrow> string list" where
  "split_on p [] = [[]]"
| "split_on p (c # cs) =
     (if p c then [] # split_on p cs
      else case split_on p cs of w # ws \<Rightarrow> (c # w) # ws | [] \<Rightarrow> [[c]])"

fun strip_prefix :: "string \<Rightarrow> string" where
  "strip_prefix (a # b # cs) =
     (if is_separator a \<and> is_separator b
      then concat (map ((#) (CHR ''/'')) (drop 2 (split_on is_separator cs)))
      else if (is_ascii_lowercase a \<or> is_ascii_uppercase a) \<and> b = CHR '':'' then cs
      else a # b # cs)"
| "strip_prefix cs = cs"

definition file_name :: "string \<Rightarrow> string option" where
  "file_name path =
     (let components = filter (\<lambda>w. w \<noteq> [] \<and> w \<noteq> ''.'') (split_on is_separator (strip_prefix path))
      in if components = [] \<or> last components = ''..'' then None else Some (last components))"

definition path_extension :: "string \<Rightarrow> string option" where
  "path_extension path =
     (case file_name path of
        None \<Rightarrow> None
      | Some name \<Rightarrow>
          let after = takeWhile (\<lambda>c. c \<noteq> CHR ''.'') (rev name) in
          if length after + 1 < length name then Some (rev after) else None)"

definition ascii_lower :: "char \<Rightarrow> char" where
  "ascii_lower c = (if is_ascii_uppercase c then char_of ((of_char c :: nat) + 32) else c)"

definition eq_ignore_ascii_case :: "string \<Rightarrow> string \<Rightarrow> bool" where
  "eq_ignore_ascii_case a b \<longleftrightarrow> map ascii_lower a = map ascii_lower b"

definition validate_executable :: "string \<Rightarrow> string \<Rightarrow> 'e definition_error + unit" where
  "validate_executable field value =
     and_then (validate_text field value False) (\<lambda>_.
       case path_extension value of
         Some extension \<Rightarrow>
           if list_ex (eq_ignore_ascii_case extension) [''cmd'', ''bat'', ''ps1'']
           then Inl (InvalidField field (RequiresShell extension))
           else Inr ()
       | None \<Rightarrow> Inr ())"

section \<open>The environment overlay\<close>

fun overlay_set ::
  "(string \<Rightarrow> string) \<Rightarrow> (string \<times> string) list \<Rightarrow> (environment_name, string) btree \<Rightarrow>
   'e definition_error + (environment_name, string) btree"
where
  "overlay_set upper [] acc = Inr acc"
| "overlay_set upper ((raw_name, value) # rest) acc =
     and_then (validate_text ''environment.set'' value True) (\<lambda>_.
     and_then (map_err (\<lambda>e. InvalidField ''environment.set'' (BadEnvironmentName raw_name e))
         (environment_name_parse upper raw_name)) (\<lambda>name.
     if map_of acc name \<noteq> None
     then Inl (InvalidField ''environment.set'' (DuplicateEnvironmentName raw_name))
     else overlay_set upper rest (btree_insert name value acc)))"

fun overlay_unset ::
  "(string \<Rightarrow> string) \<Rightarrow> (environment_name, string) btree \<Rightarrow> string list \<Rightarrow> environment_name list \<Rightarrow>
   'e definition_error + environment_name list"
where
  "overlay_unset upper set_names [] acc = Inr acc"
| "overlay_unset upper set_names (raw_name # rest) acc =
     and_then (map_err (\<lambda>e. InvalidField ''environment.unset'' (BadEnvironmentName raw_name e))
         (environment_name_parse upper raw_name)) (\<lambda>name.
     if name \<in> set acc
     then Inl (InvalidField ''environment.unset'' (DuplicateEnvironmentName raw_name))
     else if map_of set_names name \<noteq> None
     then Inl (InvalidField ''environment'' (InSetAndUnset name))
     else overlay_unset upper set_names rest (set_insert name acc))"

definition into_overlay ::
  "(string \<Rightarrow> string) \<Rightarrow> raw_environment \<Rightarrow> 'e definition_error + environment_overlay"
where
  "into_overlay upper raw =
     and_then (overlay_set upper (re_set raw) []) (\<lambda>names.
     and_then (overlay_unset upper names (re_unset raw) []) (\<lambda>removed.
     Inr \<lparr>env_set = names, env_unset = removed\<rparr>))"

section \<open>Restart policies\<close>

definition backoff_into_policy :: "raw_backoff \<Rightarrow> 'e definition_error + backoff_policy" where
  "backoff_into_policy raw =
     and_then (require_non_zero_duration ''restart.backoff.initial''
         (case rb_initial raw of Some d \<Rightarrow> d | None \<Rightarrow> default_backoff_initial)) (\<lambda>initial.
     and_then (require_non_zero_duration ''restart.backoff.maximum''
         (case rb_maximum raw of Some d \<Rightarrow> d | None \<Rightarrow> default_backoff_maximum)) (\<lambda>maximum.
     let multiplier = (case rb_multiplier raw of Some m \<Rightarrow> m | None \<Rightarrow> default_backoff_multiplier) in
     if multiplier = 0 then Inl (InvalidField ''restart.backoff.multiplier'' MustBePositive)
     else map_err (\<lambda>e. InvalidField ''restart.backoff'' (BadBackoff e))
            (backoff_new initial multiplier maximum)))"

definition reject_retry_fields :: "raw_restart \<Rightarrow> string \<Rightarrow> 'e definition_error + unit" where
  "reject_retry_fields raw context_text =
     check_all (\<lambda>(field, present). if present then Inl (FieldNotAllowed field context_text) else Inr ())
       [(''restart.max_restarts'', rr_max_restarts raw \<noteq> None),
        (''restart.reset_after'', rr_reset_after raw \<noteq> None),
        (''restart.backoff'', rr_backoff raw \<noteq> None)]"

text \<open>
  The retrying policies of a service. The policy is \<open>RawOnFailure\<close> or \<open>RawAlways\<close> here, so
  the \<open>unreachable!\<close> arm of the source is not met; \<open>expect\<close> on the default limit and on the
  non-zero match arm cannot fail.
\<close>

definition service_restart_policy_of ::
  "raw_restart \<Rightarrow> 'e definition_error + execution_restart_policy"
where
  "service_restart_policy_of raw =
     (let policy = (case rr_policy raw of Some p \<Rightarrow> p | None \<Rightarrow> RawOnFailure);
          retrying = (\<lambda>limit.
            and_then (require_non_zero_duration ''restart.reset_after''
                (case rr_reset_after raw of Some d \<Rightarrow> d | None \<Rightarrow> default_service_reset_after))
              (\<lambda>reset_after.
            and_then (backoff_into_policy
                (case rr_backoff raw of Some b \<Rightarrow> b | None \<Rightarrow> raw_backoff_default)) (\<lambda>backoff.
            let retry = \<lparr>srp_limit = limit, srp_reset_after = reset_after, srp_backoff = backoff\<rparr> in
            Inr (ServicePolicy
              (if policy = RawAlways then ServiceAlways retry else ServiceOnFailure retry)))))
      in if policy = RawNever
         then and_then (reject_retry_fields raw ''restart.policy is never'')
                (\<lambda>_. Inr (ServicePolicy ServiceNever))
         else case rr_max_restarts raw of
                None \<Rightarrow> retrying (Finite default_service_max_restarts)
              | Some (LimitFinite value) \<Rightarrow>
                  if value = 0 then Inr (ServicePolicy ServiceNever) else retrying (Finite value)
              | Some (LimitKeyword keyword) \<Rightarrow>
                  if keyword = ''unlimited'' then retrying Unlimited
                  else Inl (InvalidField ''restart.max_restarts'' (UnknownValue keyword)))"

definition job_restart_policy_of ::
  "raw_restart \<Rightarrow> 'e definition_error + execution_restart_policy"
where
  "job_restart_policy_of raw =
     (case (case rr_policy raw of Some p \<Rightarrow> p | None \<Rightarrow> RawNever) of
        RawNever \<Rightarrow>
          and_then (reject_retry_fields raw ''restart.policy is never'') (\<lambda>_. Inr (JobPolicy JobNever))
      | RawAlways \<Rightarrow> Inl (InvalidField ''restart.policy'' JobsDoNotSupportAlways)
      | RawOnFailure \<Rightarrow>
          if rr_reset_after raw \<noteq> None
          then Inl (FieldNotAllowed ''restart.reset_after'' ''the workload is a job'')
          else
            (case rr_max_restarts raw of
               Some (LimitFinite value) \<Rightarrow>
                 if value = 0 then Inr (JobPolicy JobNever)
                 else
                   and_then (backoff_into_policy
                       (case rr_backoff raw of Some b \<Rightarrow> b | None \<Rightarrow> raw_backoff_default)) (\<lambda>backoff.
                   Inr (JobPolicy (JobOnFailure
                     \<lparr>jrp_max_restarts = value, jrp_backoff = backoff\<rparr>)))
             | Some (LimitKeyword keyword) \<Rightarrow>
                 Inl (InvalidField ''restart.max_restarts'' (JobsRequireFinite keyword))
             | None \<Rightarrow>
                 Inl (FieldRequired ''restart.max_restarts'' ''a job uses on-failure restart'')))"

definition restart_policy_of ::
  "workload_kind \<Rightarrow> raw_restart option \<Rightarrow> 'e definition_error + execution_restart_policy"
where
  "restart_policy_of kind raw =
     (let raw = (case raw of Some r \<Rightarrow> r | None \<Rightarrow> raw_restart_default) in
      case kind of
        KindService \<Rightarrow> service_restart_policy_of raw
      | KindJob \<Rightarrow> job_restart_policy_of raw)"

section \<open>Stop and logging\<close>

definition stop_definition_of :: "raw_stop option \<Rightarrow> 'e definition_error + stop_definition" where
  "stop_definition_of raw =
     (let raw = (case raw of Some r \<Rightarrow> r | None \<Rightarrow> raw_stop_default) in
      case (case rs_method raw of Some m \<Rightarrow> m | None \<Rightarrow> RawCtrlBreak) of
        RawCtrlBreak \<Rightarrow>
          if rs_command raw \<noteq> None
          then Inl (FieldNotAllowed ''stop.command'' ''stop.method is ctrl-break'')
          else
            and_then (require_non_zero_duration ''stop.timeout''
                (case rs_timeout raw of Some d \<Rightarrow> d | None \<Rightarrow> default_stop_timeout)) (\<lambda>timeout.
            Inr (DefCtrlBreak (nzd_get timeout)))
      | RawCommand \<Rightarrow>
          and_then (ok_or (FieldRequired ''stop.timeout'' ''stop.method is command'')
              (rs_timeout raw)) (\<lambda>timeout.
          and_then (ok_or (FieldRequired ''stop.command'' ''stop.method is command'')
              (rs_command raw)) (\<lambda>command.
          and_then (validate_executable ''stop.command.executable'' (rsc_executable command)) (\<lambda>_.
          and_then (validate_arguments ''stop.command.arguments'' (rsc_arguments command)) (\<lambda>_.
          and_then (require_non_zero_duration ''stop.timeout'' timeout) (\<lambda>timeout.
          Inr (DefCommand (nzd_get timeout)
            \<lparr>sc_executable = rsc_executable command, sc_arguments = rsc_arguments command\<rparr>))))))
      | RawKill \<Rightarrow>
          if rs_timeout raw \<noteq> None
          then Inl (FieldNotAllowed ''stop.timeout'' ''stop.method is kill'')
          else if rs_command raw \<noteq> None
          then Inl (FieldNotAllowed ''stop.command'' ''stop.method is kill'')
          else Inr DefKill)"

definition parse_positive_size ::
  "(string \<Rightarrow> 'e + u64) \<Rightarrow> string \<Rightarrow> string \<Rightarrow> 'e definition_error + u64"
where
  "parse_positive_size parse_size field value =
     and_then (map_err (\<lambda>e. InvalidField field (BadSize e)) (parse_size value)) (\<lambda>bytes.
     if bytes = 0 then Inl (InvalidField field MustBePositive) else Inr bytes)"

definition logging_policy_of ::
  "(string \<Rightarrow> 'e + u64) \<Rightarrow> raw_logging option \<Rightarrow> 'e definition_error + logging_policy"
where
  "logging_policy_of parse_size raw =
     (let raw = (case raw of Some r \<Rightarrow> r | None \<Rightarrow> raw_logging_default) in
      if rl_capture raw = Some False
      then
        and_then (check_all (\<lambda>(field, present).
            if present then Inl (FieldNotAllowed field ''logging.capture is false'') else Inr ())
          [(''logging.segment_size'', rl_segment_size raw \<noteq> None),
           (''logging.segment_age'', rl_segment_age raw \<noteq> None),
           (''logging.retention_size'', rl_retention_size raw \<noteq> None),
           (''logging.retention_age'', rl_retention_age raw \<noteq> None)])
          (\<lambda>_. Inr LoggingDisabled)
      else
        and_then (parse_positive_size parse_size ''logging.segment_size''
            (case rl_segment_size raw of Some v \<Rightarrow> v | None \<Rightarrow> default_segment_size)) (\<lambda>segment_size.
        and_then (require_non_zero_duration ''logging.segment_age''
            (case rl_segment_age raw of Some d \<Rightarrow> d | None \<Rightarrow> default_segment_age)) (\<lambda>segment_age.
        and_then
          (case rl_retention_size raw of
             Some value \<Rightarrow>
               if value = ''unlimited'' then Inr SizeUnlimited
               else and_then (parse_positive_size parse_size ''logging.retention_size'' value)
                      (\<lambda>n. Inr (SizeLimited n))
           | None \<Rightarrow>
               and_then (parse_positive_size parse_size ''logging.retention_size'' default_retention_size)
                 (\<lambda>n. Inr (SizeLimited n))) (\<lambda>retention_size.
        and_then
          (case rl_retention_age raw of
             Some (AgeKeyword keyword) \<Rightarrow>
               if keyword = ''unlimited'' then Inr AgeUnlimited
               else Inl (InvalidField ''logging.retention_age'' (UnknownValue keyword))
           | Some (AgeValue value) \<Rightarrow>
               and_then (require_non_zero_duration ''logging.retention_age'' value)
                 (\<lambda>d. Inr (AgeLimited (nzd_get d)))
           | None \<Rightarrow> Inr (AgeLimited default_retention_age)) (\<lambda>retention_age.
        Inr (Capture segment_size (nzd_get segment_age) retention_size retention_age))))))"

section \<open>The whole definition\<close>

definition into_definition ::
  "(string \<Rightarrow> string) \<Rightarrow> (string \<Rightarrow> 'e + u64) \<Rightarrow> (u8 list \<Rightarrow> u8 list) \<Rightarrow> raw_definition \<Rightarrow> workload_id \<Rightarrow>
   'e definition_error + workload_definition"
where
  "into_definition upper parse_size sha256 raw wid =
     and_then (validate_executable ''executable'' (rd_executable raw)) (\<lambda>_.
     and_then (validate_arguments ''arguments'' (rd_arguments raw)) (\<lambda>_.
     let working_directory =
       (case rd_working_directory raw of Some d \<Rightarrow> d | None \<Rightarrow> default_working_directory) in
     and_then (validate_text ''working_directory'' working_directory False) (\<lambda>_.
     let kind = (case rd_kind raw of RawService \<Rightarrow> KindService | RawJob \<Rightarrow> KindJob) in
     and_then (into_overlay upper (rd_environment raw)) (\<lambda>overlay.
     let process = \<lparr>pd_executable = rd_executable raw, pd_arguments = rd_arguments raw,
           pd_working_directory = working_directory, pd_environment = overlay\<rparr>;
         codes = (case rd_success_exit_codes raw of Some cs \<Rightarrow> cs | None \<Rightarrow> [0]) in
     and_then (restart_policy_of kind (rd_restart raw)) (\<lambda>restart.
     and_then (stop_definition_of (rd_stop raw)) (\<lambda>stop.
     and_then (logging_policy_of parse_size (rd_logging raw)) (\<lambda>logging.
     Inr \<lparr>wd_id = wid, wd_kind = kind, wd_process = process,
          wd_process_hash = process_hash sha256 process,
          wd_success_exit_codes = foldr set_insert codes [], wd_restart = restart, wd_stop = stop,
          wd_logging = logging\<rparr>)))))))"

section \<open>What validation establishes\<close>

text \<open>Durations of the raw tables are \<open>Duration\<close> values.\<close>

definition typed_backoff :: "raw_backoff \<Rightarrow> bool" where
  "typed_backoff b \<longleftrightarrow> pred_option duration_ok (rb_initial b) \<and> pred_option duration_ok (rb_maximum b)"

definition typed_restart :: "raw_restart \<Rightarrow> bool" where
  "typed_restart r \<longleftrightarrow> pred_option duration_ok (rr_reset_after r) \<and> pred_option typed_backoff (rr_backoff r)"

lemma require_non_zero_duration_Inr:
  "require_non_zero_duration field d = Inr n \<longleftrightarrow> d \<noteq> 0 \<and> n = NonZeroDuration d"
  by (auto simp: require_non_zero_duration_def rust_result nzd_new_def split: if_splits)

lemma defaults_ok:
  "duration_ok default_backoff_initial" "duration_ok default_backoff_maximum"
  "duration_ok default_service_reset_after" "default_backoff_initial \<noteq> 0"
  by (simp_all add: default_policy_defs duration_ok_def duration_max_def)

lemma check_all_Inr: "check_all check xs = Inr () \<longleftrightarrow> (\<forall>x \<in> set xs. check x = Inr ())"
proof (induction xs)
  case (Cons x xs)
  then show ?case by (cases "check x") auto
qed simp

lemma validate_text_Inr:
  "validate_text field v allow_empty = Inr () \<longleftrightarrow> (v = [] \<longrightarrow> allow_empty) \<and> nul \<notin> set v"
  by (auto simp: validate_text_def)

lemma validate_arguments_Inr:
  "validate_arguments field xs = Inr () \<longleftrightarrow> list_all (\<lambda>a. nul \<notin> set a) xs"
  by (auto simp: validate_arguments_def check_all_Inr validate_text_Inr list_all_iff)

lemma validate_executable_Inr:
  "validate_executable field v = Inr () \<Longrightarrow> v \<noteq> [] \<and> nul \<notin> set v"
  by (auto simp: validate_executable_def rust_result validate_text_Inr split: option.splits if_splits)

lemma backoff_into_policy_wf:
  "backoff_into_policy raw = Inr b \<Longrightarrow> typed_backoff raw \<Longrightarrow> wf_backoff b"
  by (auto simp: backoff_into_policy_def rust_result require_non_zero_duration_Inr Let_def wf_nzd_def
      typed_backoff_def defaults_ok split: if_splits option.splits
      intro!: backoff_new_wf)

lemma typed_backoff_default: "typed_backoff raw_backoff_default"
  by (simp add: typed_backoff_def raw_backoff_default_def)

lemma backoff_into_policy_default_wf: "backoff_into_policy raw_backoff_default = Inr b \<Longrightarrow> wf_backoff b"
  by (erule backoff_into_policy_wf) (rule typed_backoff_default)

lemma service_restart_policy_of_wf:
  "service_restart_policy_of raw = Inr p \<Longrightarrow> typed_restart raw \<Longrightarrow>
   wf_restart_policy p \<and> policy_kind p = KindService"
  by (auto simp: service_restart_policy_of_def rust_result Let_def require_non_zero_duration_Inr typed_restart_def
      wf_service_retry_def wf_nzd_def defaults_ok default_service_max_restarts_def
      split: if_splits option.splits raw_restart_limit.splits
      intro: backoff_into_policy_wf backoff_into_policy_default_wf)

lemma job_restart_policy_of_wf:
  "job_restart_policy_of raw = Inr p \<Longrightarrow> typed_restart raw \<Longrightarrow>
   wf_restart_policy p \<and> policy_kind p = KindJob"
  by (auto simp: job_restart_policy_of_def rust_result typed_restart_def wf_job_retry_def
      split: if_splits option.splits raw_restart_limit.splits raw_restart_policy.splits
      intro: backoff_into_policy_wf backoff_into_policy_default_wf)

lemma restart_policy_of_wf:
  "restart_policy_of kind raw = Inr p \<Longrightarrow> pred_option typed_restart raw \<Longrightarrow>
   wf_restart_policy p \<and> policy_kind p = kind"
proof -
  assume ok: "restart_policy_of kind raw = Inr p" and typed: "pred_option typed_restart raw"
  define r where "r = (case raw of Some r \<Rightarrow> r | None \<Rightarrow> raw_restart_default)"
  have "typed_restart r"
    using typed by (auto simp: r_def typed_restart_def raw_restart_default_def split: option.split)
  then show ?thesis
    using ok service_restart_policy_of_wf [of r p] job_restart_policy_of_wf [of r p]
    by (cases kind) (simp_all add: restart_policy_of_def flip: r_def)
qed

lemma stop_definition_of_wf: "stop_definition_of raw = Inr s \<Longrightarrow> wf_stop s"
  by (auto simp: stop_definition_of_def rust_result Let_def require_non_zero_duration_Inr validate_arguments_Inr
      split: if_splits raw_stop_method.splits dest!: validate_executable_Inr)

lemma parse_positive_size_Inr: "parse_positive_size parse_size field v = Inr n \<Longrightarrow> n \<noteq> 0"
  by (auto simp: parse_positive_size_def rust_result split: if_splits)

lemma logging_policy_of_wf: "logging_policy_of parse_size raw = Inr l \<Longrightarrow> wf_logging l"
  by (auto simp: logging_policy_of_def rust_result Let_def require_non_zero_duration_Inr default_retention_age_def
      from_secs_def nanos_per_sec_def dest!: parse_positive_size_Inr
      split: if_splits option.splits raw_retention_age.splits)

lemma list_all_btree_insert:
  "list_all (\<lambda>(k, v). P v) t \<Longrightarrow> P v \<Longrightarrow> list_all (\<lambda>(k, v). P v) (btree_insert k v t)"
  by (induction k v t rule: btree_insert.induct) auto

lemma overlay_set_step:
  "overlay_set upper ((raw_name, v) # rest) acc = (Inr names :: 'e definition_error + (environment_name, string) btree) \<longleftrightarrow>
   (\<exists>name. nul \<notin> set v \<and> environment_name_parse upper raw_name = Inr name \<and> map_of acc name = None \<and>
      overlay_set upper rest (btree_insert name v acc) = (Inr names :: 'e definition_error + (environment_name, string) btree))"
  by (auto simp: rust_result validate_text_Inr)

lemma overlay_set_wf:
  "overlay_set upper raw acc = (Inr names :: 'e definition_error + (environment_name, string) btree) \<Longrightarrow> btree_ok acc \<Longrightarrow> list_all (\<lambda>(n, v). nul \<notin> set v) acc \<Longrightarrow>
   btree_ok names \<and> list_all (\<lambda>(n, v). nul \<notin> set v) names"
proof (induction raw arbitrary: acc)
  case (Cons e rest)
  obtain raw_name v where e: "e = (raw_name, v)" by (cases e)
  from Cons.prems(1) obtain name where "nul \<notin> set v"
    "overlay_set upper rest (btree_insert name v acc) = (Inr names :: 'e definition_error + (environment_name, string) btree)"
    unfolding e overlay_set_step by blast
  then show ?case
    using Cons.IH [of "btree_insert name v acc"] Cons.prems(2,3)
    by (simp add: btree_insert_ok list_all_btree_insert [where P = "\<lambda>v. nul \<notin> set v"])
qed simp

lemma overlay_unset_step:
  "overlay_unset upper names (raw_name # rest) acc = (Inr removed :: 'e definition_error + environment_name list) \<longleftrightarrow>
   (\<exists>name. environment_name_parse upper raw_name = Inr name \<and> name \<notin> set acc \<and> map_of names name = None \<and>
      overlay_unset upper names rest (set_insert name acc) = (Inr removed :: 'e definition_error + environment_name list))"
  by (auto simp: rust_result)

lemma overlay_unset_wf:
  "overlay_unset upper names raw acc = (Inr removed :: 'e definition_error + environment_name list) \<Longrightarrow> set_ok acc \<Longrightarrow> \<forall>n \<in> set acc. map_of names n = None \<Longrightarrow>
   set_ok removed \<and> (\<forall>n \<in> set removed. map_of names n = None)"
proof (induction raw arbitrary: acc)
  case (Cons raw_name rest)
  from Cons.prems(1) obtain name where "map_of names name = None"
    "overlay_unset upper names rest (set_insert name acc) = (Inr removed :: 'e definition_error + environment_name list)"
    unfolding overlay_unset_step by blast
  moreover from this have "\<forall>n \<in> set (set_insert name acc). map_of names n = None"
    using Cons.prems(3) by simp
  ultimately show ?case using Cons.IH Cons.prems(2) by (blast intro: set_insert_ok)
qed simp

lemma into_overlay_wf:
  assumes "into_overlay upper raw = (Inr overlay :: 'e definition_error + environment_overlay)"
  shows "wf_overlay overlay \<and> list_all (\<lambda>(n, v). nul \<notin> set v) (env_set overlay)"
proof -
  obtain names removed where
    names: "overlay_set upper (re_set raw) [] = (Inr names :: 'e definition_error + (environment_name, string) btree)"
    and removed: "overlay_unset upper names (re_unset raw) [] = (Inr removed :: 'e definition_error + environment_name list)"
    and overlay: "overlay = \<lparr>env_set = names, env_unset = removed\<rparr>"
    using assms by (auto simp: into_overlay_def rust_result)
  have "btree_ok names \<and> list_all (\<lambda>(n, v). nul \<notin> set v) names" using overlay_set_wf [OF names] by simp
  moreover have "set_ok removed \<and> (\<forall>n \<in> set removed. map_of names n = None)"
    using overlay_unset_wf [OF removed] by simp
  ultimately show ?thesis by (auto simp: overlay wf_overlay_def map_of_eq_None_iff)
qed

lemma foldr_set_insert_ok: "set_ok (foldr set_insert xs [])"
  by (induction xs) (simp_all add: set_insert_ok)

lemma definition_accepted:
  assumes "into_definition upper parse_size sha256 raw wid = Inr d"
    and "pred_option typed_restart (rd_restart raw)"
  shows "wf_definition d \<and> wd_id d = wid \<and>
    wd_process_hash d = process_hash sha256 (wd_process d)"
proof -
  from assms(1) obtain overlay restart stop logging kind codes directory where
    "validate_executable ''executable'' (rd_executable raw) = (Inr () :: 'a definition_error + unit)"
    "validate_arguments ''arguments'' (rd_arguments raw) = (Inr () :: 'a definition_error + unit)"
    "validate_text ''working_directory'' directory False = (Inr () :: 'a definition_error + unit)"
    "into_overlay upper (rd_environment raw) = (Inr overlay :: 'a definition_error + environment_overlay)"
    "restart_policy_of kind (rd_restart raw) = (Inr restart :: 'a definition_error + execution_restart_policy)"
    "stop_definition_of (rd_stop raw) = (Inr stop :: 'a definition_error + stop_definition)"
    "logging_policy_of parse_size (rd_logging raw) = Inr logging"
    and d: "d = \<lparr>wd_id = wid, wd_kind = kind, wd_process = \<lparr>pd_executable = rd_executable raw,
        pd_arguments = rd_arguments raw, pd_working_directory = directory, pd_environment = overlay\<rparr>,
      wd_process_hash = process_hash sha256 \<lparr>pd_executable = rd_executable raw,
        pd_arguments = rd_arguments raw, pd_working_directory = directory, pd_environment = overlay\<rparr>,
      wd_success_exit_codes = foldr set_insert codes [], wd_restart = restart, wd_stop = stop,
      wd_logging = logging\<rparr>"
    by (auto simp: into_definition_def rust_result Let_def)
  note facts = this(1-7)
  show ?thesis
    using into_overlay_wf [OF facts(4)] restart_policy_of_wf [OF facts(5) assms(2)]
      stop_definition_of_wf [OF facts(6)] logging_policy_of_wf [OF facts(7)]
      validate_executable_Inr [OF facts(1)] facts(2,3)
    by (simp add: d wf_definition_def wf_process_def foldr_set_insert_ok validate_arguments_Inr
        validate_text_Inr)
qed

section \<open>Properties\<close>

text \<open>
  C14. A definition that validation accepts is well formed: its
  texts have no null character, the executable and the working directory are not empty, no
  environment name is both set and unset or set twice, its restart policy is of its kind with
  positive limits and a valid backoff, timeouts and log limits are positive, and its process
  hash is the hash of its own process definition.
\<close>

theorem definition_is_well_formed:
  assumes "into_definition upper parse_size sha256 raw wid = Inr d"
    and "pred_option typed_restart (rd_restart raw)"
  shows "wf_definition d \<and> wd_id d = wid \<and>
    wd_process_hash d = process_hash sha256 (wd_process d)"
  using assms by (rule definition_accepted)

definition sample_raw :: raw_definition where
  "sample_raw = \<lparr>rd_kind = RawJob, rd_executable = ''a.exe'', rd_arguments = [''-v''],
     rd_working_directory = None, rd_success_exit_codes = Some [3, 0, 3],
     rd_environment = \<lparr>re_set = [(''A'', ''1'')], re_unset = [''B'']\<rparr>,
     rd_restart = Some \<lparr>rr_policy = Some RawOnFailure, rr_max_restarts = Some (LimitFinite 3),
       rr_reset_after = None, rr_backoff = None\<rparr>,
     rd_stop = None, rd_logging = Some (raw_logging_default\<lparr>rl_capture := Some False\<rparr>)\<rparr>"

definition sample_accepted :: workload_definition where
  "sample_accepted =
     (let process = \<lparr>pd_executable = ''a.exe'', pd_arguments = [''-v''],
            pd_working_directory = default_working_directory,
            pd_environment = \<lparr>env_set = [(EnvironmentName ''A'', ''1'')],
              env_unset = [EnvironmentName ''B'']\<rparr>\<rparr>
      in \<lparr>wd_id = WorkloadId ''a'', wd_kind = KindJob, wd_process = process,
          wd_process_hash = process_hash (\<lambda>bs. bs) process, wd_success_exit_codes = [0, 3],
          wd_restart = JobPolicy (JobOnFailure \<lparr>jrp_max_restarts = 3, jrp_backoff =
            \<lparr>bp_initial = NonZeroDuration 250000000, bp_multiplier = 2,
             bp_maximum = NonZeroDuration 30000000000\<rparr>\<rparr>),
          wd_stop = DefCtrlBreak 10000000000, wd_logging = LoggingDisabled\<rparr>)"

lemma sample_raw_accepted:
  "into_definition (\<lambda>s. s) (\<lambda>s. Inl s) (\<lambda>bs. bs) sample_raw (WorkloadId ''a'') = Inr sample_accepted"
  by (simp add: into_definition_def sample_raw_def sample_accepted_def Let_def validate_executable_def
      validate_text_def validate_arguments_def path_extension_def file_name_def is_separator_def
      is_ascii_lowercase_def is_ascii_uppercase_def nul_def eq_ignore_ascii_case_def ascii_lower_def
      into_overlay_def environment_name_parse_def restart_policy_of_def job_restart_policy_of_def
      backoff_into_policy_def raw_backoff_default_def require_non_zero_duration_def nzd_new_def backoff_new_def
      default_policy_defs less_non_zero_duration_def stop_definition_of_def raw_stop_default_def
      default_stop_timeout_def logging_policy_of_def raw_logging_default_def
      default_working_directory_def less_environment_name_def)

theorem definition_is_well_formed_witness:
  "wf_definition sample_accepted \<and> wd_id sample_accepted = WorkloadId ''a''"
  using definition_is_well_formed [OF sample_raw_accepted]
  by (simp add: sample_raw_def typed_restart_def)

text \<open>
  A retrying policy with the limit \<open>0\<close> becomes the policy
  \<open>never\<close> of its kind, so no accepted definition retries zero times. The backoff and the
  reset duration beside it are not looked at: even a zero multiplier is accepted there.
\<close>

theorem zero_restarts_means_never:
  "restart_policy_of KindService (Some \<lparr>rr_policy = Some RawOnFailure,
      rr_max_restarts = Some (LimitFinite 0), rr_reset_after = reset, rr_backoff = backoff\<rparr>) =
     (Inr (ServicePolicy ServiceNever) :: 'e definition_error + execution_restart_policy) \<and>
   restart_policy_of KindJob (Some \<lparr>rr_policy = Some RawOnFailure,
      rr_max_restarts = Some (LimitFinite 0), rr_reset_after = None, rr_backoff = backoff\<rparr>) =
     (Inr (JobPolicy JobNever) :: 'e definition_error + execution_restart_policy)"
  by (simp add: restart_policy_of_def service_restart_policy_of_def job_restart_policy_of_def)

text \<open>
  C28. A stop table for \<open>ctrl-break\<close> needs no timeout: without one, the
  default of ten seconds is inserted, exactly as when the whole table is missing; \<open>command\<close>
  without a timeout is rejected, and so is a zero timeout of either method.
\<close>

theorem stop_timeout_defaults:
  "stop_definition_of (Some \<lparr>rs_method = Some RawCtrlBreak, rs_timeout = None, rs_command = None\<rparr>) =
     (Inr (DefCtrlBreak (from_secs 10)) :: 'e definition_error + stop_definition) \<and>
   stop_definition_of None = (Inr (DefCtrlBreak (from_secs 10)) :: 'e definition_error + stop_definition) \<and>
   stop_definition_of (Some \<lparr>rs_method = Some RawCommand, rs_timeout = None, rs_command = command\<rparr>) =
     (Inl (FieldRequired ''stop.timeout'' ''stop.method is command'') ::
       'e definition_error + stop_definition) \<and>
   stop_definition_of (Some \<lparr>rs_method = Some RawCtrlBreak, rs_timeout = Some 0, rs_command = None\<rparr>) =
     (Inl (InvalidField ''stop.timeout'' MustBePositive) :: 'e definition_error + stop_definition)"
  by (simp add: stop_definition_of_def raw_stop_default_def default_stop_timeout_def
      require_non_zero_duration_def nzd_new_def from_secs_def nanos_per_sec_def)

end
