(* ===== verification/Config_Loader.thy ===== *)
theory Config_Loader
  imports Config_Raw
begin

text \<open>
  Loading a configuration directory (\<open>crates/config/src/loader.rs\<close>). The file system is an
  argument: what the two directory scans and the file reads return, errors included. The TOML
  deserialiser \<open>parse_toml\<close> is a parameter beside those of \<open>into_definition\<close>. Paths are
  relative to the directory, so a path is the name of its entry.
\<close>

section \<open>Data\<close>

definition max_file_bytes :: u64 where
  "max_file_bytes = 1024 * 1024"

definition max_total_bytes :: u64 where
  "max_total_bytes = 16 * 1024 * 1024"

definition max_workload_files :: nat where
  "max_workload_files = 4096"

text \<open>A file name the operating system returned: Unicode, or not, with its extension.\<close>

datatype os_name = UnicodeName string | OtherName "string option" nat

datatype ('io, 'toml, 'e) load_error =
    LoadIo os_name 'io
  | DirectoryIo 'io
  | MissingDirectory
  | NotRegularFile os_name
  | NonUnicodeFilename os_name
  | LoadInvalidWorkloadId os_name invalid_workload_id
  | FileTooLarge os_name
  | TooManyFiles
  | TooManyBytes
  | InvalidUtf8 os_name
  | LoadToml os_name 'toml
  | LoadDefinition os_name "'e definition_error"
  | DuplicateId string os_name os_name
  | ChangedDuringRead

record 'io file_metadata =
  fm_is_file :: bool
  fm_is_symlink :: bool
  fm_len :: u64
  fm_modified :: "'io + nat"

record 'io dir_entry =
  de_name :: os_name
  de_metadata :: "'io + 'io file_metadata"

record file_snapshot =
  fs_path :: os_name
  fs_size :: u64
  fs_modified :: nat

fun os_extension :: "os_name \<Rightarrow> string option" where
  "os_extension (UnicodeName name) = path_extension name"
| "os_extension (OtherName extension _) = extension"

text \<open>\<open>Path::file_stem\<close>: the file name without its extension.\<close>

definition file_stem :: "string \<Rightarrow> string option" where
  "file_stem path =
     (case file_name path of
        None \<Rightarrow> None
      | Some name \<Rightarrow>
          (case path_extension name of
             None \<Rightarrow> Some name
           | Some extension \<Rightarrow> Some (take (length name - length extension - 1) name)))"

fun os_stem :: "os_name \<Rightarrow> string option" where
  "os_stem (UnicodeName name) = file_stem name"
| "os_stem (OtherName _ _) = None"

section \<open>Enumeration\<close>

fun enumerate_entries ::
  "(string \<Rightarrow> string) \<Rightarrow> ('io + 'io dir_entry) list \<Rightarrow> (string, file_snapshot) btree \<Rightarrow> string list \<Rightarrow>
   ('io, 'toml, 'e) load_error + (string, file_snapshot) btree"
where
  "enumerate_entries upper [] snapshots folded = Inr snapshots"
| "enumerate_entries upper (item # rest) snapshots folded =
     and_then (map_err DirectoryIo item) (\<lambda>entry.
     let path = de_name entry in
     if \<not> (case os_extension path of
             Some extension \<Rightarrow> eq_ignore_ascii_case extension ''toml'' | None \<Rightarrow> False)
     then enumerate_entries upper rest snapshots folded
     else
       and_then (map_err (LoadIo path) (de_metadata entry)) (\<lambda>metadata.
       if \<not> fm_is_file metadata \<or> fm_is_symlink metadata then Inl (NotRegularFile path)
       else if max_file_bytes < fm_len metadata then Inl (FileTooLarge path)
       else
         and_then (case path of UnicodeName name \<Rightarrow> Inr name | _ \<Rightarrow> Inl (NonUnicodeFilename path))
           (\<lambda>filename.
         if upper filename \<in> set folded then Inl ChangedDuringRead
         else
           and_then (map_err (LoadIo path) (fm_modified metadata)) (\<lambda>modified.
           enumerate_entries upper rest
             (btree_insert filename
               \<lparr>fs_path = path, fs_size = fm_len metadata, fs_modified = modified\<rparr> snapshots)
             (set_insert (upper filename) folded)))))"

definition enumerate_dir ::
  "(string \<Rightarrow> string) \<Rightarrow> 'io + ('io + 'io dir_entry) list \<Rightarrow>
   ('io, 'toml, 'e) load_error + (string, file_snapshot) btree"
where
  "enumerate_dir upper scan =
     and_then (map_err DirectoryIo scan) (\<lambda>entries. enumerate_entries upper entries [] [])"

section \<open>Loading\<close>

record ('io, 'toml, 'e) loader =
  ld_upper :: "string \<Rightarrow> string"
  ld_parse_size :: "string \<Rightarrow> 'e + u64"
  ld_sha256 :: "u8 list \<Rightarrow> u8 list"
  ld_parse_toml :: "string \<Rightarrow> 'toml + raw_definition"
  ld_read :: "os_name \<Rightarrow> 'io + u8 list"

text \<open>The body of the loop over the snapshots, for one file.\<close>

definition load_file ::
  "('io, 'toml, 'e) loader \<Rightarrow> file_snapshot \<Rightarrow> workload_id \<Rightarrow>
   ('io, 'toml, 'e) load_error + workload_definition"
where
  "load_file ld snapshot wid =
     (let path = fs_path snapshot in
      and_then (map_err (LoadIo path) (ld_read ld path)) (\<lambda>bytes.
      if length bytes \<noteq> unat (fs_size snapshot) then Inl ChangedDuringRead
      else
        and_then (map_err (\<lambda>_. InvalidUtf8 path) (from_utf8 bytes)) (\<lambda>source.
        and_then (map_err (LoadToml path) (ld_parse_toml ld source)) (\<lambda>raw.
        map_err (LoadDefinition path)
          (into_definition (ld_upper ld) (ld_parse_size ld) (ld_sha256 ld) raw wid)))))"

fun load_snapshots ::
  "('io, 'toml, 'e) loader \<Rightarrow> file_snapshot list \<Rightarrow> (workload_id, workload_definition) btree \<Rightarrow>
   (string, os_name) btree \<Rightarrow> ('io, 'toml, 'e) load_error + (workload_id, workload_definition) btree"
where
  "load_snapshots ld [] definitions sources = Inr definitions"
| "load_snapshots ld (snapshot # rest) definitions sources =
     (let path = fs_path snapshot in
      and_then (ok_or (NonUnicodeFilename path) (os_stem path)) (\<lambda>stem.
      and_then (map_err (LoadInvalidWorkloadId path) (workload_id_parse stem)) (\<lambda>wid.
      let normalized = map ascii_lower (workload_id_str wid) in
      case map_of sources normalized of
        Some first \<Rightarrow> Inl (DuplicateId normalized first path)
      | None \<Rightarrow>
          and_then (load_file ld snapshot wid) (\<lambda>definition.
          load_snapshots ld rest (btree_insert wid definition definitions)
            (btree_insert normalized path sources)))))"

definition total_size :: "file_snapshot list \<Rightarrow> u64 option" where
  "total_size snapshots =
     foldl (\<lambda>total s. Option.bind total (\<lambda>t. checked_add t (fs_size s))) (Some 0) snapshots"

definition load_directory ::
  "('io, 'toml, 'e) loader \<Rightarrow> 'io + bool \<Rightarrow> 'io + ('io + 'io dir_entry) list \<Rightarrow>
   'io + ('io + 'io dir_entry) list \<Rightarrow> ('io, 'toml, 'e) load_error + candidate_config"
where
  "load_directory ld exists_result scan rescan =
     and_then (map_err DirectoryIo exists_result) (\<lambda>present.
     if \<not> present then Inl MissingDirectory
     else
       and_then (enumerate_dir (ld_upper ld) scan) (\<lambda>snapshots.
       if max_workload_files < length snapshots then Inl TooManyFiles
       else
         and_then (ok_or TooManyBytes (total_size (map snd snapshots))) (\<lambda>total_bytes.
         if max_total_bytes < total_bytes then Inl TooManyBytes
         else
           and_then (load_snapshots ld (map snd snapshots) [] []) (\<lambda>definitions.
           and_then (enumerate_dir (ld_upper ld) rescan) (\<lambda>again.
           if snapshots \<noteq> again then Inl ChangedDuringRead
           else Inr \<lparr>cc_generation = config_generation_of (ld_sha256 ld) definitions,
                     cc_definitions = definitions\<rparr>)))))"

section \<open>What a scan returns\<close>

definition snapshot_ok :: "string \<times> file_snapshot \<Rightarrow> bool" where
  "snapshot_ok = (\<lambda>(name, s). fs_path s = UnicodeName name \<and> fs_size s \<le> max_file_bytes \<and>
     (\<exists>e. path_extension name = Some e \<and> eq_ignore_ascii_case e ''toml''))"

definition scan_ok ::
  "(string \<Rightarrow> string) \<Rightarrow> (string, file_snapshot) btree \<Rightarrow> string list \<Rightarrow> bool"
where
  "scan_ok upper snapshots folded \<longleftrightarrow>
     btree_ok snapshots \<and> list_all snapshot_ok snapshots \<and> inj_on upper (fst ` set snapshots) \<and>
     set folded = upper ` fst ` set snapshots"

lemma list_all_btree_insert_entry:
  "list_all P t \<Longrightarrow> P (k, v) \<Longrightarrow> list_all P (btree_insert k v t)"
  by (induction k v t rule: btree_insert.induct) auto

lemma scan_ok_insert:
  assumes "scan_ok upper snapshots folded" and "upper name \<notin> set folded" and "snapshot_ok (name, s)"
  shows "scan_ok upper (btree_insert name s snapshots) (set_insert (upper name) folded)"
proof -
  have "name \<notin> fst ` set snapshots" using assms(1,2) by (auto simp: scan_ok_def)
  moreover from assms(1,2) have "inj_on upper (insert name (fst ` set snapshots))"
    by (auto simp: scan_ok_def)
  ultimately show ?thesis
    using assms by (simp add: scan_ok_def btree_insert_ok list_all_btree_insert_entry)
qed

lemma enumerate_entries_step:
  assumes "enumerate_entries upper (item # rest) snapshots folded =
    (Inr result :: ('io, 'toml, 'e) load_error + _)"
  obtains (skipped) "enumerate_entries upper rest snapshots folded =
      (Inr result :: ('io, 'toml, 'e) load_error + _)"
  | (taken) name s where "upper name \<notin> set folded" "snapshot_ok (name, s)"
    "enumerate_entries upper rest (btree_insert name s snapshots) (set_insert (upper name) folded) =
      (Inr result :: ('io, 'toml, 'e) load_error + _)"
proof -
  from assms obtain entry where item: "item = Inr entry" by (auto simp: rust_result)
  show thesis
  proof (cases "case os_extension (de_name entry) of
      Some extension \<Rightarrow> eq_ignore_ascii_case extension ''toml'' | None \<Rightarrow> False")
    case False
    with assms item show thesis by (intro skipped) simp
  next
    case True
    with assms item obtain metadata name modified where
      "de_metadata entry = Inr metadata" "\<not> max_file_bytes < fm_len metadata"
      and name: "de_name entry = UnicodeName name" and new: "upper name \<notin> set folded"
      and rest: "enumerate_entries upper rest (btree_insert name
          \<lparr>fs_path = UnicodeName name, fs_size = fm_len metadata, fs_modified = modified\<rparr> snapshots)
        (set_insert (upper name) folded) = (Inr result :: ('io, 'toml, 'e) load_error + _)"
      by (auto simp: rust_result Let_def split: if_splits os_name.splits)
    then have "snapshot_ok (name, \<lparr>fs_path = UnicodeName name, fs_size = fm_len metadata,
        fs_modified = modified\<rparr>)"
      using True by (auto simp: snapshot_ok_def split: option.splits)
    with new rest show thesis by (intro taken)
  qed
qed

lemma enumerate_entries_ok:
  "enumerate_entries upper entries snapshots folded = (Inr result :: ('io, 'toml, 'e) load_error + _) \<Longrightarrow>
   scan_ok upper snapshots folded \<Longrightarrow> \<exists>folded'. scan_ok upper result folded'"
proof (induction entries arbitrary: snapshots folded)
  case (Cons item rest)
  from Cons.prems(1) show ?case
  proof (cases rule: enumerate_entries_step)
    case skipped
    then show ?thesis using Cons.IH Cons.prems(2) by blast
  next
    case (taken name s)
    then show ?thesis using Cons.IH Cons.prems(2) scan_ok_insert by blast
  qed
qed auto

lemma enumerate_dir_ok:
  "enumerate_dir upper scan = (Inr result :: ('io, 'toml, 'e) load_error + _) \<Longrightarrow>
   \<exists>folded. scan_ok upper result folded"
proof -
  assume "enumerate_dir upper scan = (Inr result :: ('io, 'toml, 'e) load_error + _)"
  then obtain entries where "enumerate_entries upper entries [] [] =
      (Inr result :: ('io, 'toml, 'e) load_error + _)"
    by (auto simp: enumerate_dir_def rust_result)
  moreover have "scan_ok upper [] []" by (simp add: scan_ok_def)
  ultimately show ?thesis by (rule enumerate_entries_ok)
qed

section \<open>What loading the snapshots returns\<close>

lemma ascii_lower_id_char: "id_char c \<Longrightarrow> ascii_lower c = c"
  by (auto simp: id_char_def ascii_lower_def is_ascii_lowercase_def is_ascii_uppercase_def
      is_ascii_digit_def)

lemma normalized_id: "workload_id_parse v = Inr w \<Longrightarrow> w = WorkloadId v \<and> map ascii_lower v = v"
  by (auto simp: workload_id_parse_Inr valid_workload_id_def ascii_lower_id_char map_idI)

text \<open>The hypothesis on the deserialiser: it returns values of the types.\<close>

definition typed_toml :: "('io, 'toml, 'e) loader \<Rightarrow> bool" where
  "typed_toml ld \<longleftrightarrow> (\<forall>source raw. ld_parse_toml ld source = Inr raw \<longrightarrow>
     pred_option typed_restart (rd_restart raw))"

definition loaded_ok ::
  "('io, 'toml, 'e) loader \<Rightarrow> (workload_id, workload_definition) btree \<Rightarrow> (string, os_name) btree \<Rightarrow> bool"
where
  "loaded_ok ld definitions sources \<longleftrightarrow>
     btree_ok definitions \<and> list_all (\<lambda>(i, d). wf_definition d) definitions \<and>
     consistent_definitions (ld_sha256 ld) definitions \<and> btree_ok sources \<and>
     fst ` set sources = workload_id_str ` fst ` set definitions"

lemma load_file_ok:
  assumes "load_file ld snapshot wid = Inr d" and "typed_toml ld"
  shows "wf_definition d \<and> wd_id d = wid \<and> wd_process_hash d = process_hash (ld_sha256 ld) (wd_process d)"
proof -
  from assms(1) obtain source raw where "ld_parse_toml ld source = Inr raw"
    "into_definition (ld_upper ld) (ld_parse_size ld) (ld_sha256 ld) raw wid = Inr d"
    by (auto simp: load_file_def Let_def rust_result split: if_splits)
  then show ?thesis
    using assms(2) definition_accepted unfolding typed_toml_def by metis
qed

lemma loaded_ok_insert:
  assumes "loaded_ok ld definitions sources" and "map_of sources (workload_id_str wid) = None"
    and "load_file ld snapshot wid = Inr d" and "typed_toml ld"
  shows "loaded_ok ld (btree_insert wid d definitions) (btree_insert (workload_id_str wid) path sources)"
    and "length (btree_insert wid d definitions) = Suc (length definitions)"
proof -
  have d: "wf_definition d" "wd_id d = wid" "wd_process_hash d = process_hash (ld_sha256 ld) (wd_process d)"
    using load_file_ok [OF assms(3,4)] by simp_all
  then show "loaded_ok ld (btree_insert wid d definitions) (btree_insert (workload_id_str wid) path sources)"
    using assms(1) by (simp add: loaded_ok_def btree_insert_ok list_all_btree_insert_entry
        consistent_definitions_def)
  have "workload_id_str wid \<notin> workload_id_str ` fst ` set definitions"
    using assms(1,2) by (auto simp: loaded_ok_def map_of_eq_None_iff)
  then have "map_of definitions wid = None" by (force simp: map_of_eq_None_iff)
  then show "length (btree_insert wid d definitions) = Suc (length definitions)"
    using btree.keys_put_new [of definitions wid d] assms(1) by (simp add: loaded_ok_def)
qed

lemma load_snapshots_ok:
  assumes "typed_toml ld"
  shows "load_snapshots ld snapshots definitions sources = Inr result \<Longrightarrow>
    loaded_ok ld definitions sources \<Longrightarrow>
    (\<exists>sources'. loaded_ok ld result sources') \<and> length result = length definitions + length snapshots"
proof (induction snapshots arbitrary: definitions sources)
  case (Cons snapshot rest)
  from Cons.prems(1) obtain stem wid d where wid: "workload_id_parse stem = Inr wid"
    and new: "map_of sources (map ascii_lower (workload_id_str wid)) = None"
    and d: "load_file ld snapshot wid = Inr d"
    and rest: "load_snapshots ld rest (btree_insert wid d definitions)
        (btree_insert (map ascii_lower (workload_id_str wid)) (fs_path snapshot) sources) = Inr result"
    by (auto simp: rust_result Let_def split: option.splits)
  have same: "map ascii_lower (workload_id_str wid) = workload_id_str wid"
    using normalized_id [OF wid] by simp
  note ok = loaded_ok_insert [OF Cons.prems(2) new [unfolded same] d assms]
  show ?case using Cons.IH [OF rest [unfolded same] ok(1)] ok(2) by simp
qed auto

section \<open>Properties\<close>

lemma total_size_bound: "total_size snapshots = Some n \<Longrightarrow> sum_list (map (unat \<circ> fs_size) snapshots) = unat n"
proof (induction snapshots arbitrary: n rule: rev_induct)
  case (snoc s snapshots)
  then obtain m where m: "total_size snapshots = Some m" and "checked_add m (fs_size s) = Some n"
    by (auto simp: total_size_def bind_eq_Some_conv)
  then show ?case using snoc.IH [OF m] by (simp add: checked)
qed (simp add: total_size_def)

text \<open>
  C12. A loaded configuration has exactly one definition for every
  TOML file of the directory, none dropped and none replaced by another; each is well formed
  and carries its identifier and its own process hash; the limits on files and bytes hold; the
  directory looked the same before and after; and the generation is the hash of what was loaded.
\<close>

theorem load_is_complete_and_bounded:
  fixes ld :: "('io, 'toml, 'e) loader"
  assumes "load_directory ld exists_result scan rescan = Inr config" and "typed_toml ld"
  shows "\<exists>snapshots. enumerate_dir (ld_upper ld) scan = (Inr snapshots :: ('io, 'toml, 'e) load_error + _) \<and>
    enumerate_dir (ld_upper ld) rescan = (Inr snapshots :: ('io, 'toml, 'e) load_error + _) \<and>
    length (cc_definitions config) = length snapshots \<and> length snapshots \<le> max_workload_files \<and>
    sum_list (map (unat \<circ> fs_size \<circ> snd) snapshots) \<le> unat max_total_bytes \<and>
    btree_ok (cc_definitions config) \<and>
    list_all (\<lambda>(i, d). wf_definition d \<and> wd_id d = i \<and>
      wd_process_hash d = process_hash (ld_sha256 ld) (wd_process d)) (cc_definitions config) \<and>
    cc_generation config = config_generation_of (ld_sha256 ld) (cc_definitions config)"
proof -
  from assms(1) obtain snapshots total definitions where
    scan: "enumerate_dir (ld_upper ld) scan = (Inr snapshots :: ('io, 'toml, 'e) load_error + _)"
    and files: "length snapshots \<le> max_workload_files"
    and total: "total_size (map snd snapshots) = Some total" "total \<le> max_total_bytes"
    and load: "load_snapshots ld (map snd snapshots) [] [] = Inr definitions"
    and rescan: "enumerate_dir (ld_upper ld) rescan = (Inr snapshots :: ('io, 'toml, 'e) load_error + _)"
    and config: "config = \<lparr>cc_generation = config_generation_of (ld_sha256 ld) definitions,
      cc_definitions = definitions\<rparr>"
    by (auto simp: load_directory_def rust_result not_less split: if_splits)
  have "loaded_ok ld [] []" by (simp add: loaded_ok_def consistent_definitions_def)
  then have ok: "(\<exists>sources. loaded_ok ld definitions sources) \<and> length definitions = length snapshots"
    using load_snapshots_ok [OF assms(2) load] by simp
  then have "list_all (\<lambda>(i, d). wf_definition d \<and> wd_id d = i \<and>
      wd_process_hash d = process_hash (ld_sha256 ld) (wd_process d)) definitions" "btree_ok definitions"
    by (auto simp: loaded_ok_def consistent_definitions_def list_all_iff)
  moreover have "sum_list (map (unat \<circ> fs_size \<circ> snd) snapshots) \<le> unat max_total_bytes"
    using total_size_bound [OF total(1)] total(2) by (simp add: comp_def word_le_nat_alt)
  ultimately show ?thesis using scan rescan files ok by (auto simp: config)
qed

definition sample_loader :: "(string, string, string) loader" where
  "sample_loader = \<lparr>ld_upper = (\<lambda>s. s), ld_parse_size = (\<lambda>s. Inl s), ld_sha256 = (\<lambda>bs. bs),
     ld_parse_toml = (\<lambda>_. Inr sample_raw), ld_read = (\<lambda>_. Inr [])\<rparr>"

definition sample_scan :: "string + (string + string dir_entry) list" where
  "sample_scan = Inr [Inr \<lparr>de_name = UnicodeName ''a.toml'', de_metadata =
     Inr \<lparr>fm_is_file = True, fm_is_symlink = False, fm_len = 0, fm_modified = Inr 5\<rparr>\<rparr>]"

lemma sample_enumerate:
  "enumerate_dir (\<lambda>s. s) sample_scan = Inr [(''a.toml'',
     \<lparr>fs_path = UnicodeName ''a.toml'', fs_size = 0, fs_modified = 5\<rparr>)]"
  by (simp add: enumerate_dir_def sample_scan_def path_extension_def file_name_def is_separator_def
      is_ascii_lowercase_def is_ascii_uppercase_def eq_ignore_ascii_case_def ascii_lower_def Let_def
      max_file_bytes_def)

lemma sample_stem: "file_stem ''a.toml'' = Some ''a''"
  by (simp add: file_stem_def path_extension_def file_name_def is_separator_def
      is_ascii_lowercase_def is_ascii_uppercase_def Let_def)

lemma sample_id: "workload_id_parse ''a'' = Inr (WorkloadId ''a'')"
  by (simp add: workload_id_parse_Inr valid_workload_id_def max_workload_id_bytes_def
      id_boundary_char_def id_char_def is_ascii_lowercase_def)

lemma sample_load:
  "load_directory sample_loader (Inr True) sample_scan sample_scan =
   Inr \<lparr>cc_generation = config_generation_of (\<lambda>bs. bs) [(WorkloadId ''a'', sample_accepted)],
        cc_definitions = [(WorkloadId ''a'', sample_accepted)]\<rparr>"
  by (simp add: load_directory_def sample_loader_def sample_enumerate max_workload_files_def
      total_size_def checked_add_def max_total_bytes_def sample_stem sample_id load_file_def from_utf8_def bytes_string_def
      utf8_valid.simps [of "[]"] sample_raw_accepted Let_def)

theorem load_is_complete_and_bounded_witness:
  "\<exists>snapshots. enumerate_dir (\<lambda>s. s) sample_scan =
      (Inr snapshots :: (string, string, string) load_error + _) \<and> length snapshots = 1"
proof -
  have "typed_toml sample_loader"
    by (simp add: typed_toml_def sample_loader_def sample_raw_def typed_restart_def)
  from load_is_complete_and_bounded [OF sample_load this] show ?thesis
    by (auto simp: sample_loader_def)
qed

end
