(* ===== verification/Log_Journal.thy ===== *)
theory Log_Journal
  imports Prefix_Code
begin

text \<open>
  Workload output journals: the entries a supervisor writes and their segments
  (\<open>crates/supervisor/src/journal.rs\<close>, the first half) and the decoder the controller reads
  them with (\<open>decode_journal\<close> in \<open>crates/controller/src/rpc.rs\<close>). Compression and the file
  operations themselves are not modelled; a segment is the entries written to it, and a time
  is milliseconds since some origin.
\<close>

section \<open>Entries\<close>

datatype output_stream = Stdout | Stderr

fun stream_name :: "output_stream \<Rightarrow> string" where
  "stream_name Stdout = ''stdout''"
| "stream_name Stderr = ''stderr''"

record output_chunk =
  oc_stream :: output_stream
  oc_sequence :: u64
  oc_timestamp_unix_ms :: int
  oc_bytes :: "u8 list"

text \<open>The fields of \<open>ExecutionConfiguration\<close> that the writer reads.\<close>

record log_configuration =
  lc_workload_id :: string
  lc_execution_id :: string
  lc_attempt :: u32
  lc_capture_logs :: bool
  lc_segment_size :: u64
  lc_segment_age_ms :: u64
  lc_retention_size :: u64
  lc_retention_size_unlimited :: bool
  lc_retention_age_ms :: u64
  lc_retention_age_unlimited :: bool

definition scalar :: "u8 list \<Rightarrow> string \<Rightarrow> string \<Rightarrow> u8 list" where
  "scalar output name value = output @ string_bytes name @ [61] @ string_bytes value @ [10]"

definition encode_entry :: "log_configuration \<Rightarrow> output_chunk \<Rightarrow> u8 list" where
  "encode_entry configuration chunk =
     (let output = scalar [] ''SUSM_FORMAT'' ''1'';
          output = scalar output ''SUSM_RECORD'' ''output'';
          output = scalar output ''SUSM_TIMESTAMP_UNIX_MS'' (show_int (oc_timestamp_unix_ms chunk));
          output = scalar output ''SUSM_WORKLOAD'' (lc_workload_id configuration);
          output = scalar output ''SUSM_EXECUTION'' (lc_execution_id configuration);
          output = scalar output ''SUSM_ATTEMPT'' (show_nat (unat (lc_attempt configuration)));
          output = scalar output ''SUSM_SEQUENCE'' (show_nat (unat (oc_sequence chunk)));
          output = scalar output ''SUSM_STREAM'' (stream_name (oc_stream chunk));
          output = output @ string_bytes ''MESSAGE'' @ [10];
          output = output @ le_bytes 8 (length (oc_bytes chunk));
          output = output @ oc_bytes chunk
      in output @ [10, 10])"

section \<open>The decoder\<close>

record log_record =
  lr_execution_id :: string
  lr_attempt :: u32
  lr_stream :: string
  lr_sequence :: u64
  lr_timestamp_unix_ms :: int
  lr_message :: "u8 list"

record log_fields =
  lf_stream :: string
  lf_sequence :: u64
  lf_timestamp :: int
  lf_message :: "u8 list option"

definition log_fields_new :: log_fields where
  "log_fields_new = \<lparr>lf_stream = [], lf_sequence = 0, lf_timestamp = 0, lf_message = None\<rparr>"

text \<open>One header line; the fields of other names are skipped.\<close>

definition decode_header :: "u8 list \<Rightarrow> log_fields \<Rightarrow> log_fields" where
  "decode_header line acc =
     (if 61 \<in> set line
      then
        (let name = takeWhile (\<lambda>b. b \<noteq> 61) line;
             value = from_utf8_lossy (tl (dropWhile (\<lambda>b. b \<noteq> 61) line)) in
         if name = string_bytes ''SUSM_STREAM'' then acc\<lparr>lf_stream := value\<rparr>
         else if name = string_bytes ''SUSM_SEQUENCE''
         then acc\<lparr>lf_sequence := (case parse_u64 value of Some n \<Rightarrow> n | None \<Rightarrow> 0)\<rparr>
         else if name = string_bytes ''SUSM_TIMESTAMP_UNIX_MS''
         then acc\<lparr>lf_timestamp := (case parse_i64 value of Some n \<Rightarrow> n | None \<Rightarrow> 0)\<rparr>
         else acc)
      else acc)"

text \<open>
  The inner loop: \<open>rest\<close> is what the cursor has not passed. A line \<open>MESSAGE\<close> is followed by a
  length, that many bytes and a newline. Reaching the end inside a field leaves nothing.
\<close>

function decode_record :: "u8 list \<Rightarrow> log_fields \<Rightarrow> log_fields \<times> u8 list" where
  "decode_record rest acc =
     (case split_line rest of
        None \<Rightarrow> (acc, [])
      | Some (line, rest) \<Rightarrow>
          if line = [] then (acc, rest)
          else if line = string_bytes ''MESSAGE''
          then
            (if length rest < 8 then (acc, [])
             else
               (let size = le_value (take 8 rest); rest = drop 8 rest in
                if length rest < size + 1 then (acc, [])
                else
                  (let acc = acc\<lparr>lf_message := Some (take size rest)\<rparr>; rest = drop size rest in
                   if hd rest \<noteq> 10 then (acc, []) else decode_record (tl rest) acc)))
          else decode_record rest (decode_header line acc))"
  by pat_completeness auto

termination
  by (relation "measure (\<lambda>(rest, _). length rest)") (auto simp: split_line_Some)

declare decode_record.simps [simp del]

lemma decode_record_Nil [simp]: "decode_record [] acc = (acc, [])"
  by (simp add: decode_record.simps)

lemma decode_record_newline [simp]: "decode_record (10 # rest) acc = (acc, rest)"
  by (subst decode_record.simps) simp

lemma decode_record_le: "length (snd (decode_record rest acc)) \<le> length rest"
proof (induction rest acc rule: decode_record.induct)
  case (1 rest acc)
  show ?case
  proof (cases "split_line rest")
    case None
    then show ?thesis by (simp add: decode_record.simps)
  next
    case (Some p)
    obtain line rest' where p: "p = (line, rest')" by (cases p)
    then have shorter: "length rest' < length rest" using Some by (auto simp: split_line_Some)
    note message = 1(1) [OF Some p [symmetric] _ _ _ refl refl _ refl refl] and header = 1(2) [OF Some p [symmetric]]
    have "length (tl (drop n (drop 8 rest'))) \<le> length rest" for n
      using shorter by simp
    note message_le = order_trans [OF message this]
    have "length rest' \<le> length rest" using shorter by simp
    note header_le = order_trans [OF header this]
    show ?thesis
      using shorter by (subst decode_record.simps)
        (auto simp: Some p Let_def simp del: length_tl drop_drop intro: message_le header_le)
  qed
qed

function decode_journal :: "u8 list \<Rightarrow> string \<Rightarrow> u32 \<Rightarrow> log_record list" where
  "decode_journal bytes execution_id attempt =
     (if bytes = [] then []
      else
        (let (acc, rest) = decode_record bytes log_fields_new in
         if length rest = length bytes then []
         else
           (case lf_message acc of
              Some message \<Rightarrow>
                [\<lparr>lr_execution_id = execution_id, lr_attempt = attempt, lr_stream = lf_stream acc,
                  lr_sequence = lf_sequence acc, lr_timestamp_unix_ms = lf_timestamp acc,
                  lr_message = message\<rparr>]
            | None \<Rightarrow> []) @ decode_journal rest execution_id attempt))"
  by pat_completeness auto

termination
proof (relation "measure (\<lambda>(bytes, _, _). length bytes)")
  fix bytes p acc rest and execution_id :: string and attempt :: u32
  assume "p = decode_record bytes log_fields_new" "(acc, rest) = p" "length rest \<noteq> length bytes"
  then have "length rest < length bytes"
    using decode_record_le [of bytes log_fields_new] by (metis snd_conv le_neq_implies_less)
  then show "((rest, execution_id, attempt), bytes, execution_id, attempt)
      \<in> measure (\<lambda>(bytes, _, _). length bytes)" by simp
qed simp

declare decode_journal.simps [simp del]

lemma decode_journal_Nil [simp]: "decode_journal [] execution_id attempt = []"
  by (simp add: decode_journal.simps)

section \<open>What the decoder reads of an entry\<close>

definition record_of :: "string \<Rightarrow> u32 \<Rightarrow> output_chunk \<Rightarrow> log_record" where
  "record_of execution_id attempt chunk =
     \<lparr>lr_execution_id = execution_id, lr_attempt = attempt, lr_stream = stream_name (oc_stream chunk),
      lr_sequence = oc_sequence chunk, lr_timestamp_unix_ms = oc_timestamp_unix_ms chunk,
      lr_message = oc_bytes chunk\<rparr>"

text \<open>The entries the supervisor writes: identifiers of one line, a chunk that a \<open>usize\<close> measures.\<close>

definition entry_ok :: "log_configuration \<Rightarrow> output_chunk \<Rightarrow> bool" where
  "entry_ok configuration chunk \<longleftrightarrow>
     CHR 0x0A \<notin> set (lc_workload_id configuration) \<and>
     CHR 0x0A \<notin> set (lc_execution_id configuration) \<and>
     i64_ok (oc_timestamp_unix_ms chunk) \<and> length (oc_bytes chunk) < 2 ^ 64"

definition header_line :: "string \<Rightarrow> string \<Rightarrow> u8 list" where
  "header_line name value = string_bytes name @ [61] @ string_bytes value"

definition header_fields :: "log_configuration \<Rightarrow> output_chunk \<Rightarrow> (string \<times> string) list" where
  "header_fields configuration chunk =
     [(''SUSM_FORMAT'', ''1''), (''SUSM_RECORD'', ''output''),
      (''SUSM_TIMESTAMP_UNIX_MS'', show_int (oc_timestamp_unix_ms chunk)),
      (''SUSM_WORKLOAD'', lc_workload_id configuration),
      (''SUSM_EXECUTION'', lc_execution_id configuration),
      (''SUSM_ATTEMPT'', show_nat (unat (lc_attempt configuration))),
      (''SUSM_SEQUENCE'', show_nat (unat (oc_sequence chunk))),
      (''SUSM_STREAM'', stream_name (oc_stream chunk))]"

definition message_block :: "output_chunk \<Rightarrow> u8 list" where
  "message_block chunk =
     string_bytes ''MESSAGE'' @ 10 # le_bytes 8 (length (oc_bytes chunk)) @ oc_bytes chunk @ [10, 10]"

definition header_block :: "(string \<times> string) list \<Rightarrow> u8 list" where
  "header_block hs = concat (map (\<lambda>(name, value). header_line name value @ [10]) hs)"

lemma encode_entry_blocks:
  "encode_entry configuration chunk = header_block (header_fields configuration chunk) @ message_block chunk"
  by (simp add: encode_entry_def scalar_def header_block_def header_fields_def header_line_def message_block_def)

lemma byte_in_string:
  "(61 :: u8) \<in> set (string_bytes s) \<longleftrightarrow> CHR ''='' \<in> set s"
  "(10 :: u8) \<in> set (string_bytes s) \<longleftrightarrow> CHR 0x0A \<in> set s"
  using set_string_bytes [of "CHR ''=''" s] set_string_bytes [of "CHR 0x0A" s] by simp_all

text \<open>A field that the reader can split: its name has no equals sign, and neither part a newline.\<close>

definition field_ok :: "string \<times> string \<Rightarrow> bool" where
  "field_ok = (\<lambda>(name, value). CHR ''='' \<notin> set name \<and> CHR 0x0A \<notin> set name \<and> CHR 0x0A \<notin> set value)"

lemma header_line_ok:
  assumes "field_ok (name, value)"
  shows "10 \<notin> set (header_line name value)" "header_line name value \<noteq> []"
    "header_line name value \<noteq> string_bytes ''MESSAGE''"
proof -
  show "10 \<notin> set (header_line name value)" "header_line name value \<noteq> []"
    using assms by (simp_all add: header_line_def field_ok_def byte_in_string)
  have "61 \<in> set (header_line name value)" by (simp add: header_line_def)
  moreover have "61 \<notin> set (string_bytes ''MESSAGE'')" by (simp add: byte_in_string)
  ultimately show "header_line name value \<noteq> string_bytes ''MESSAGE''" by metis
qed

lemma split_header_line:
  assumes "CHR ''='' \<notin> set name"
  shows "takeWhile (\<lambda>b. b \<noteq> 61) (header_line name value) = string_bytes name"
    "tl (dropWhile (\<lambda>b. b \<noteq> 61) (header_line name value)) = string_bytes value"
    "61 \<in> set (header_line name value)"
proof -
  have "\<forall>b\<in>set (string_bytes name). b \<noteq> 61" using assms byte_in_string(1) by blast
  then show "takeWhile (\<lambda>b. b \<noteq> 61) (header_line name value) = string_bytes name"
    "tl (dropWhile (\<lambda>b. b \<noteq> 61) (header_line name value)) = string_bytes value"
    by (simp_all add: header_line_def takeWhile_append2 dropWhile_append2)
qed (simp add: header_line_def)

lemma decode_header_message [simp]: "lf_message (decode_header line acc) = lf_message acc"
  by (simp add: decode_header_def Let_def)

lemma split_line_take:
  "10 \<notin> set line \<Longrightarrow> split_line (take k (line @ 10 # rest)) =
     (if k \<le> length line then None else Some (line, take (k - length line - 1) rest))"
proof (cases "k \<le> length line")
  case True
  assume "10 \<notin> set line"
  then have "10 \<notin> set (take k line)" by (meson in_set_takeD)
  with True show ?thesis by (simp add: split_line_None)
next
  case False
  assume "10 \<notin> set line"
  with False show ?thesis by (cases "k - length line") (auto simp: split_line_append)
qed

lemma decode_header_block:
  assumes "list_all field_ok hs"
  shows "(k < length (header_block hs) \<longrightarrow>
      lf_message (fst (decode_record (take k (header_block hs @ rest)) acc)) = lf_message acc \<and>
      snd (decode_record (take k (header_block hs @ rest)) acc) = []) \<and>
    (length (header_block hs) \<le> k \<longrightarrow>
      decode_record (take k (header_block hs @ rest)) acc =
        decode_record (take (k - length (header_block hs)) rest)
          (foldl (\<lambda>a (name, value). decode_header (header_line name value) a) acc hs))"
  using assms
proof (induction hs arbitrary: k acc)
  case (Cons field hs)
  obtain name val where field: "field = (name, val)" by (cases field)
  let ?line = "header_line name val"
  have block: "header_block (field # hs) @ rest = ?line @ 10 # header_block hs @ rest"
    "length (header_block (field # hs)) = length ?line + 1 + length (header_block hs)"
    by (simp_all add: header_block_def field)
  have ok: "field_ok (name, val)" using Cons.prems field by simp
  show ?case
  proof (cases "k \<le> length ?line")
    case True
    then have "decode_record (take k (header_block (field # hs) @ rest)) acc = (acc, [])"
      unfolding block by (simp add: decode_record.simps split_line_take [OF header_line_ok(1) [OF ok]] del: take_append)
    then show ?thesis using True block(2) by simp
  next
    case False
    then have "decode_record (take k (header_block (field # hs) @ rest)) acc =
        decode_record (take (k - length ?line - 1) (header_block hs @ rest)) (decode_header ?line acc)"
      unfolding block
      by (subst decode_record.simps)
        (simp add: split_line_take [OF header_line_ok(1) [OF ok]] header_line_ok [OF ok] del: take_append)
    then show ?thesis
      using Cons.IH [of "k - length ?line - 1" "decode_header ?line acc"] Cons.prems False block(2) field
      by auto
  qed
qed (simp add: header_block_def)

text \<open>The values that are printed are plain ASCII, and the reader parses them back.\<close>

lemma utf8_ascii: "list_all (in_range 0 0x7F) bs \<Longrightarrow> utf8_valid bs"
  by (induction bs) (simp_all add: utf8_valid.simps)

lemma ascii_lossy:
  assumes "list_all (\<lambda>c. of_char c < (128 :: nat)) s"
  shows "from_utf8_lossy (string_bytes s) = s"
proof -
  have "list_all (in_range 0 0x7F) (string_bytes s)"
    using assms by (auto simp: list_all_iff string_bytes_def in_range_def unat_of_char)
  then show ?thesis by (simp add: from_utf8_lossy_valid utf8_ascii)
qed

lemma digit_facts:
  assumes "c \<in> set (show_nat n)"
  shows "of_char c < (128 :: nat)" "c \<noteq> CHR 0x0A"
  using show_nat_digits [OF assms] by (auto simp: char_digit_def Let_def split: if_split_asm)

lemma show_lossy [simp]:
  "from_utf8_lossy (string_bytes (show_nat n)) = show_nat n"
  "from_utf8_lossy (string_bytes (show_int i)) = show_int i"
  by (rule ascii_lossy; auto simp: list_all_iff show_int_def dest: digit_facts)+

lemma show_one_line [simp]: "CHR 0x0A \<notin> set (show_nat n)" "CHR 0x0A \<notin> set (show_int i)"
  using digit_facts(2) by (auto simp: show_int_def)

lemma stream_name_lossy [simp]: "from_utf8_lossy (string_bytes (stream_name st)) = stream_name st"
  by (rule ascii_lossy) (cases st; simp)

lemma header_fields_ok: "entry_ok configuration chunk \<Longrightarrow> list_all field_ok (header_fields configuration chunk)"
  by (cases "oc_stream chunk") (simp_all add: header_fields_def entry_ok_def field_ok_def)

lemma decode_header_line:
  "CHR ''='' \<notin> set name \<Longrightarrow> decode_header (header_line name val) acc =
     (if name = ''SUSM_STREAM'' then acc\<lparr>lf_stream := from_utf8_lossy (string_bytes val)\<rparr>
      else if name = ''SUSM_SEQUENCE''
      then acc\<lparr>lf_sequence := (case parse_u64 (from_utf8_lossy (string_bytes val)) of Some n \<Rightarrow> n | None \<Rightarrow> 0)\<rparr>
      else if name = ''SUSM_TIMESTAMP_UNIX_MS''
      then acc\<lparr>lf_timestamp := (case parse_i64 (from_utf8_lossy (string_bytes val)) of Some n \<Rightarrow> n | None \<Rightarrow> 0)\<rparr>
      else acc)"
  by (simp add: decode_header_def split_header_line Let_def)

definition entry_fields :: "output_chunk \<Rightarrow> log_fields" where
  "entry_fields chunk = \<lparr>lf_stream = stream_name (oc_stream chunk), lf_sequence = oc_sequence chunk,
     lf_timestamp = oc_timestamp_unix_ms chunk, lf_message = Some (oc_bytes chunk)\<rparr>"

lemma decode_header_fields:
  "entry_ok configuration chunk \<Longrightarrow>
   foldl (\<lambda>a (name, val). decode_header (header_line name val) a) log_fields_new
     (header_fields configuration chunk) = (entry_fields chunk)\<lparr>lf_message := None\<rparr>"
  by (simp add: header_fields_def decode_header_line log_fields_new_def entry_fields_def entry_ok_def)

lemma decode_message_line:
  assumes "split_line rest = Some (string_bytes ''MESSAGE'', le_bytes 8 n @ body)" and "n < 2 ^ 64"
  shows "decode_record rest acc =
    (if length body < n + 1 then (acc, [])
     else if hd (drop n body) \<noteq> 10 then (acc\<lparr>lf_message := Some (take n body)\<rparr>, [])
     else decode_record (tl (drop n body)) (acc\<lparr>lf_message := Some (take n body)\<rparr>))"
proof -
  have "le_value (le_bytes 8 n) = n" using assms(2) by (intro le_value_le_bytes) simp
  then show ?thesis
    by (subst decode_record.simps) (simp add: assms(1) string_bytes_def Let_def)
qed

lemma decode_message_block:
  assumes "length (oc_bytes chunk) < 2 ^ 64"
  shows "decode_record (take k (message_block chunk @ rest)) acc =
    (if Suc k < length (message_block chunk) then (acc, [])
     else (acc\<lparr>lf_message := Some (oc_bytes chunk)\<rparr>, take (k - length (message_block chunk)) rest))"
proof -
  let ?name = "string_bytes ''MESSAGE''" and ?n = "length (oc_bytes chunk)"
  let ?block = "le_bytes 8 ?n @ oc_bytes chunk @ [10, 10] @ rest"
  have block: "message_block chunk @ rest = ?name @ 10 # ?block" by (simp add: message_block_def)
  have size: "length (message_block chunk) = 18 + ?n" by (simp add: message_block_def)
  have line: "split_line (take k (?name @ 10 # ?block)) =
      (if k \<le> 7 then None else Some (?name, take (k - 8) ?block))"
  proof -
    have "length ?name = 7" by (simp add: eval_nat_numeral)
    moreover have "10 \<notin> set ?name" by (simp add: byte_in_string)
    ultimately show ?thesis using split_line_take [of ?name k ?block] by (simp del: length_string_bytes take_append)
  qed
  have nonempty: "?name \<noteq> []" by (simp add: string_bytes_def)
  consider "k \<le> 7" | "7 < k" "k < 16" | "16 \<le> k" "k < 17 + ?n" | "17 + ?n \<le> k" by linarith
  then show ?thesis
  proof cases
    case 1
    then show ?thesis unfolding block size
      by (subst decode_record.simps) (simp add: line nonempty del: take_append append.simps)
  next
    case 2
    then show ?thesis unfolding block size
      by (subst decode_record.simps) (simp add: line nonempty del: take_append append.simps)
  next
    case 3
    then have "take (k - 8) ?block = le_bytes 8 ?n @ take (k - 16) (oc_bytes chunk @ [10, 10] @ rest)"
      by simp
    with 3 line have "split_line (take k (?name @ 10 # ?block)) =
        Some (?name, le_bytes 8 ?n @ take (k - 16) (oc_bytes chunk @ [10, 10] @ rest))" by simp
    from decode_message_line [OF this assms, of acc] 3
    have "decode_record (take k (?name @ 10 # ?block)) acc = (acc, [])"
      by (simp del: take_append append.simps)
    with 3 show ?thesis unfolding block size by (simp del: take_append append.simps)
  next
    case 4
    then have "take (k - 8) ?block = le_bytes 8 ?n @ oc_bytes chunk @ 10 # take (k - (17 + ?n)) (10 # rest)"
      by (simp add: take_Cons')
    with 4 line have "split_line (take k (?name @ 10 # ?block)) =
        Some (?name, le_bytes 8 ?n @ oc_bytes chunk @ 10 # take (k - (17 + ?n)) (10 # rest))" by simp
    moreover have "decode_record (take (k - (17 + ?n)) (10 # rest)) a = (a, take (k - (18 + ?n)) rest)" for a
    proof (cases "k - (17 + ?n)")
      case (Suc j)
      then have "k - (18 + ?n) = j" by simp
      with Suc show ?thesis by simp
    qed simp
    ultimately have "decode_record (take k (?name @ 10 # ?block)) acc =
        (acc\<lparr>lf_message := Some (oc_bytes chunk)\<rparr>, take (k - (18 + ?n)) rest)"
      using decode_message_line [OF _ assms] by simp
    with 4 show ?thesis unfolding block size by (simp del: take_append append.simps)
  qed
qed

lemma length_message_block: "length (message_block chunk) = 18 + length (oc_bytes chunk)"
  by (simp add: message_block_def)

lemma decode_entry:
  assumes "entry_ok configuration chunk"
  shows "let e = encode_entry configuration chunk; (acc, left) = decode_record (take k (e @ rest)) log_fields_new in
    if Suc k < length e then lf_message acc = None \<and> left = []
    else acc = entry_fields chunk \<and> left = take (k - length e) rest"
proof -
  let ?hs = "header_fields configuration chunk"
  have small: "length (oc_bytes chunk) < 2 ^ 64" using assms by (simp add: entry_ok_def)
  note header = decode_header_block [OF header_fields_ok [OF assms], of k "message_block chunk @ rest" log_fields_new]
  show ?thesis
  proof (cases "k < length (header_block ?hs)")
    case True
    then show ?thesis using header
      by (auto simp: Let_def split_def encode_entry_blocks length_message_block log_fields_new_def
          simp del: take_append)
  next
    case False
    then have "decode_record (take k (header_block ?hs @ message_block chunk @ rest)) log_fields_new =
        decode_record (take (k - length (header_block ?hs)) (message_block chunk @ rest))
          ((entry_fields chunk)\<lparr>lf_message := None\<rparr>)"
      using header decode_header_fields [OF assms] by (simp del: take_append)
    also have "\<dots> = (if Suc (k - length (header_block ?hs)) < length (message_block chunk)
        then ((entry_fields chunk)\<lparr>lf_message := None\<rparr>, [])
        else (entry_fields chunk, take (k - length (header_block ?hs) - length (message_block chunk)) rest))"
      using decode_message_block [OF small] by (simp add: entry_fields_def del: take_append)
    finally show ?thesis using False
      by (auto simp: Let_def encode_entry_blocks simp del: take_append)
  qed
qed

lemma decode_journal_entry:
  assumes "entry_ok configuration chunk"
  shows "decode_journal (take k (encode_entry configuration chunk @ rest)) execution_id attempt =
    (if Suc k < length (encode_entry configuration chunk) then []
     else record_of execution_id attempt chunk #
       decode_journal (take (k - length (encode_entry configuration chunk)) rest) execution_id attempt)"
proof (cases "k = 0")
  case True
  then show ?thesis by (simp add: encode_entry_blocks length_message_block)
next
  case False
  let ?e = "encode_entry configuration chunk"
  obtain acc left where decode: "decode_record (take k (?e @ rest)) log_fields_new = (acc, left)"
    by (cases "decode_record (take k (?e @ rest)) log_fields_new")
  have e: "18 \<le> length ?e" by (simp add: encode_entry_blocks length_message_block)
  have got: "if Suc k < length ?e then lf_message acc = None \<and> left = []
      else acc = entry_fields chunk \<and> left = take (k - length ?e) rest"
    using decode_entry [OF assms, of k rest] decode by (simp add: Let_def del: take_append)
  have input: "take k (?e @ rest) \<noteq> []" "length (take k (?e @ rest)) = min k (length ?e + length rest)"
    using False e by (auto simp del: take_append)
  have "length left \<noteq> length (take k (?e @ rest))"
    using got e False unfolding input(2) by (cases "Suc k < length ?e") (auto simp: min_def)
  moreover have "?e \<noteq> []" using e by (metis list.size(3) not_numeral_le_zero)
  ultimately have "decode_journal (take k (?e @ rest)) execution_id attempt =
      (case lf_message acc of
         Some message \<Rightarrow> [\<lparr>lr_execution_id = execution_id, lr_attempt = attempt, lr_stream = lf_stream acc,
           lr_sequence = lf_sequence acc, lr_timestamp_unix_ms = lf_timestamp acc, lr_message = message\<rparr>]
       | None \<Rightarrow> []) @ decode_journal left execution_id attempt"
    using input decode by (subst decode_journal.simps) (simp del: take_append)
  then show ?thesis using got
    by (cases "Suc k < length ?e") (simp_all add: record_of_def entry_fields_def del: take_append)
qed

lemma decode_journal_entries:
  assumes "list_all (entry_ok configuration) chunks"
  shows "decode_journal (concat (map (encode_entry configuration) chunks) @ rest) execution_id attempt =
    map (record_of execution_id attempt) chunks @ decode_journal rest execution_id attempt"
  using assms
proof (induction chunks)
  case (Cons chunk chunks)
  let ?rest = "concat (map (encode_entry configuration) chunks) @ rest"
  have "entry_ok configuration chunk" using Cons.prems by simp
  from decode_journal_entry [OF this, of "length (encode_entry configuration chunk @ ?rest)" ?rest]
  show ?case using Cons by simp
qed simp

section \<open>Reading a segment back\<close>

text \<open>
  Whatever bytes the chunks carry, the decoder returns exactly the
  chunks of a segment, in order, with their stream, sequence and time. A segment torn in its
  last entry, by a crash or because the writer has not flushed it, loses that entry alone: it
  is dropped as long as more than the final newline is missing, and nothing else is invented.
\<close>

theorem journal_reads_back:
  assumes "list_all (entry_ok configuration) chunks" and "entry_ok configuration chunk"
  shows "decode_journal (concat (map (encode_entry configuration) chunks) @
      take k (encode_entry configuration chunk)) execution_id attempt =
    map (record_of execution_id attempt) chunks @
      (if Suc k < length (encode_entry configuration chunk) then [] else [record_of execution_id attempt chunk])"
  using decode_journal_entry [OF assms(2), of k "[]"] by (simp add: decode_journal_entries [OF assms(1)])

definition sample_logging :: log_configuration where
  "sample_logging = \<lparr>lc_workload_id = ''backup'', lc_execution_id = ''7'', lc_attempt = 1,
     lc_capture_logs = True, lc_segment_size = 1000, lc_segment_age_ms = 3600000,
     lc_retention_size = 100, lc_retention_size_unlimited = False,
     lc_retention_age_ms = 0, lc_retention_age_unlimited = True\<rparr>"

definition sample_chunk :: "u64 \<Rightarrow> u8 list \<Rightarrow> output_chunk" where
  "sample_chunk n bytes = \<lparr>oc_stream = Stderr, oc_sequence = n, oc_timestamp_unix_ms = 5, oc_bytes = bytes\<rparr>"

theorem journal_reads_back_witness:
  "decode_journal (encode_entry sample_logging (sample_chunk 1 [10, 10, 61]) @
      take 20 (encode_entry sample_logging (sample_chunk 2 []))) ''7'' 1 =
    [record_of ''7'' 1 (sample_chunk 1 [10, 10, 61])]"
proof -
  have ok: "entry_ok sample_logging (sample_chunk n bytes)" if "length bytes < 2 ^ 64" for n bytes
    using that by (simp add: entry_ok_def sample_logging_def sample_chunk_def i64_ok_def)
  have "21 < length (encode_entry sample_logging (sample_chunk 2 []))"
    by (simp add: encode_entry_blocks length_message_block header_block_def header_fields_def header_line_def)
  then show ?thesis
    using journal_reads_back [of sample_logging "[sample_chunk 1 [10, 10, 61]]" "sample_chunk 2 []" 20 "''7''" 1] ok
    by simp
qed

end
