(* ===== verification/Log_Writer.thy ===== *)
theory Log_Writer
  imports Log_Journal
begin

text \<open>
  The journal writer of an attempt (\<open>run_writer\<close> in \<open>crates/supervisor/src/journal.rs\<close>): a loop
  over received chunks, flush ticks and logging policy updates that appends entries to the
  open segment, rotates segments and applies the retention limits. File operations succeed
  here (in the code a failure ends the task); a segment is its content, and \<open>lw_finalized\<close>
  holds the segments finished so far, oldest first.
\<close>

section \<open>Segments\<close>

record segment_writer =
  sw_segment :: u32
  sw_content :: "u8 list"
  sw_bytes :: u64
  sw_opened :: nat

definition segment_open :: "u32 \<Rightarrow> nat \<Rightarrow> segment_writer" where
  "segment_open segment now = \<lparr>sw_segment = segment, sw_content = [], sw_bytes = 0, sw_opened = now\<rparr>"

definition should_rotate :: "segment_writer \<Rightarrow> u64 \<Rightarrow> log_configuration \<Rightarrow> nat \<Rightarrow> bool" where
  "should_rotate w next_bytes configuration now \<longleftrightarrow>
     sw_bytes w \<noteq> 0 \<and>
     (lc_segment_size configuration < saturating_add (sw_bytes w) next_bytes \<or>
      unat (lc_segment_age_ms configuration) \<le> now - sw_opened w)"

definition segment_write :: "segment_writer \<Rightarrow> u8 list \<Rightarrow> segment_writer" where
  "segment_write w bytes = w\<lparr>sw_content := sw_content w @ bytes,
     sw_bytes := saturating_add (sw_bytes w) (word_of_nat (length bytes))\<rparr>"

section \<open>The loop\<close>

record log_writer =
  lw_configuration :: log_configuration
  lw_writer :: "segment_writer option"
  lw_next_segment :: u32
  lw_policy_open :: bool
  lw_finalized :: "u8 list list"

text \<open>The fields of \<open>PolicyUpdate\<close> that concern logging.\<close>

record logging_update =
  lu_capture_logs :: bool
  lu_segment_size :: u64
  lu_segment_age_ms :: u64
  lu_retention_size :: u64
  lu_retention_size_unlimited :: bool
  lu_retention_age_ms :: u64
  lu_retention_age_unlimited :: bool

definition apply_logging_policy :: "log_configuration \<Rightarrow> logging_update \<Rightarrow> log_configuration" where
  "apply_logging_policy configuration update = configuration\<lparr>
     lc_capture_logs := lu_capture_logs update,
     lc_segment_size := lu_segment_size update,
     lc_segment_age_ms := lu_segment_age_ms update,
     lc_retention_size := lu_retention_size update,
     lc_retention_size_unlimited := lu_retention_size_unlimited update,
     lc_retention_age_ms := lu_retention_age_ms update,
     lc_retention_age_unlimited := lu_retention_age_unlimited update\<rparr>"

text \<open>
  What the loop waits for, with the time it happens: a chunk, a tick of the flush interval, a
  change of the policy (to no policy, or to an update), or the end of the policy channel.
\<close>

datatype writer_event =
    ChunkReceived output_chunk nat
  | FlushTick nat
  | PolicyChanged "logging_update option" nat
  | PolicyClosed

datatype writer_effect =
    CreateSegment u32
  | FlushSegment u32
  | FinishSegment u32
  | ApplyRetention log_configuration

definition open_next :: "log_writer \<Rightarrow> nat \<Rightarrow> log_writer \<times> writer_effect list" where
  "open_next s now =
     (s\<lparr>lw_writer := Some (segment_open (lw_next_segment s) now), lw_next_segment := lw_next_segment s + 1\<rparr>,
      [CreateSegment (lw_next_segment s)])"

definition finish_segment :: "log_writer \<Rightarrow> segment_writer \<Rightarrow> log_writer \<times> writer_effect list" where
  "finish_segment s w =
     (s\<lparr>lw_writer := None, lw_finalized := lw_finalized s @ [sw_content w]\<rparr>, [FinishSegment (sw_segment w)])"

text \<open>Finish the segment, apply the retention, open the next one.\<close>

definition rotate_segment :: "log_writer \<Rightarrow> segment_writer \<Rightarrow> nat \<Rightarrow> log_writer \<times> writer_effect list" where
  "rotate_segment s w now =
     (let (s, finished) = finish_segment s w; (s, opened) = open_next s now
      in (s, finished @ [ApplyRetention (lw_configuration s)] @ opened))"

definition chunk_received :: "log_writer \<Rightarrow> output_chunk \<Rightarrow> nat \<Rightarrow> log_writer \<times> writer_effect list" where
  "chunk_received s chunk now =
     (case lw_writer s of
        None \<Rightarrow> (s, [])
      | Some w \<Rightarrow>
          (let entry = encode_entry (lw_configuration s) chunk;
               (s, effs) =
                 (if should_rotate w (word_of_nat (length entry)) (lw_configuration s) now
                  then rotate_segment s w now else (s, []))
           in (s\<lparr>lw_writer := map_option (\<lambda>w. segment_write w entry) (lw_writer s)\<rparr>, effs)))"

definition flush_tick :: "log_writer \<Rightarrow> nat \<Rightarrow> log_writer \<times> writer_effect list" where
  "flush_tick s now =
     (case lw_writer s of
        None \<Rightarrow> (s, [])
      | Some w \<Rightarrow>
          (let (s, effs) =
             (if should_rotate w 0 (lw_configuration s) now then rotate_segment s w now else (s, []))
           in (s, FlushSegment (sw_segment w) # effs)))"

definition policy_changed :: "log_writer \<Rightarrow> logging_update \<Rightarrow> nat \<Rightarrow> log_writer \<times> writer_effect list" where
  "policy_changed s update now =
     (let s = s\<lparr>lw_configuration := apply_logging_policy (lw_configuration s) update\<rparr>;
          (s, effs) =
            (case (lc_capture_logs (lw_configuration s), lw_writer s) of
               (False, Some w) \<Rightarrow> finish_segment s w
             | (True, None) \<Rightarrow> open_next s now
             | (True, Some w) \<Rightarrow>
                 if should_rotate w 0 (lw_configuration s) now
                 then
                   (let (s, finished) = finish_segment s w; (s, opened) = open_next s now
                    in (s, finished @ opened))
                 else (s, [])
             | _ \<Rightarrow> (s, []))
      in (s, effs @ (if lc_capture_logs (lw_configuration s) then [ApplyRetention (lw_configuration s)] else [])))"

fun writer_step :: "log_writer \<Rightarrow> writer_event \<Rightarrow> log_writer \<times> writer_effect list" where
  "writer_step s (ChunkReceived chunk now) = chunk_received s chunk now"
| "writer_step s (FlushTick now) = flush_tick s now"
| "writer_step s (PolicyChanged update now) =
     (case update of
        Some u \<Rightarrow> if lw_policy_open s then policy_changed s u now else (s, [])
      | None \<Rightarrow> (s, []))"
| "writer_step s PolicyClosed = (s\<lparr>lw_policy_open := False\<rparr>, [])"

definition writer_start :: "log_configuration \<Rightarrow> nat \<Rightarrow> log_writer \<times> writer_effect list" where
  "writer_start configuration now =
     (let s = \<lparr>lw_configuration = configuration, lw_writer = None, lw_next_segment = 0,
        lw_policy_open = True, lw_finalized = []\<rparr>
      in if lc_capture_logs configuration then open_next s now else (s, []))"

definition writer_end :: "log_writer \<Rightarrow> log_writer \<times> writer_effect list" where
  "writer_end s =
     (case lw_writer s of
        Some w \<Rightarrow>
          (let (s, effs) = finish_segment s w in (s, effs @ [ApplyRetention (lw_configuration s)]))
      | None \<Rightarrow> (s, []))"

fun writer_loop :: "log_writer \<Rightarrow> writer_event list \<Rightarrow> log_writer \<times> writer_effect list" where
  "writer_loop s [] = (s, [])"
| "writer_loop s (ev # evs) =
     (let (s, effs) = writer_step s ev; (s, effs') = writer_loop s evs in (s, effs @ effs'))"

definition run_writer ::
  "log_configuration \<Rightarrow> nat \<Rightarrow> writer_event list \<Rightarrow> log_writer \<times> writer_effect list"
where
  "run_writer configuration now evs =
     (let (s, started) = writer_start configuration now;
          (s, looped) = writer_loop s evs;
          (s, ended) = writer_end s
      in (s, started @ looped @ ended))"

section \<open>The segments of a state\<close>

definition segments :: "log_writer \<Rightarrow> u8 list list" where
  "segments s = lw_finalized s @ (case lw_writer s of Some w \<Rightarrow> [sw_content w] | None \<Rightarrow> [])"

text \<open>The byte count of the open segment is that of its content, up to saturation.\<close>

definition counted :: "segment_writer \<Rightarrow> bool" where
  "counted w \<longleftrightarrow> unat (sw_bytes w) = min (length (sw_content w)) (2 ^ 64 - 1)"

definition wf_writer :: "log_writer \<Rightarrow> bool" where
  "wf_writer s \<longleftrightarrow> (lw_writer s \<noteq> None) = lc_capture_logs (lw_configuration s) \<and>
     pred_option counted (lw_writer s)"

text \<open>The identity that every entry carries, which policy updates do not touch.\<close>

definition log_identity :: "log_configuration \<Rightarrow> string \<times> string \<times> u32" where
  "log_identity c = (lc_workload_id c, lc_execution_id c, lc_attempt c)"

lemma encode_entry_identity: "log_identity c = log_identity d \<Longrightarrow> encode_entry c = encode_entry d"
  by (rule ext) (simp add: log_identity_def encode_entry_def)

lemma apply_logging_policy_sel [simp]:
  "log_identity (apply_logging_policy c u) = log_identity c"
  "lc_capture_logs (apply_logging_policy c u) = lu_capture_logs u"
  by (simp_all add: log_identity_def apply_logging_policy_def)

lemma counted_write: "counted w \<Longrightarrow> length bytes < 2 ^ 64 \<Longrightarrow> counted (segment_write w bytes)"
  by (simp add: counted_def segment_write_def unat_saturating_add unat_word_of_nat_small min_def)

lemma counted_open [simp]: "counted (segment_open n now)"
  by (simp add: counted_def segment_open_def)

text \<open>The chunks received while output is captured, by the events alone.\<close>

fun captured :: "bool \<Rightarrow> bool \<Rightarrow> writer_event list \<Rightarrow> output_chunk list" where
  "captured capture policy_open [] = []"
| "captured capture policy_open (ChunkReceived chunk _ # evs) =
     (if capture then [chunk] else []) @ captured capture policy_open evs"
| "captured capture policy_open (PolicyChanged (Some u) _ # evs) =
     captured (if policy_open then lu_capture_logs u else capture) policy_open evs"
| "captured capture policy_open (PolicyClosed # evs) = captured capture False evs"
| "captured capture policy_open (_ # evs) = captured capture policy_open evs"

text \<open>Whole entries, cut into segments.\<close>

definition grouped :: "('c \<Rightarrow> u8 list) \<Rightarrow> 'c list \<Rightarrow> u8 list list \<Rightarrow> bool" where
  "grouped enc chunks segs \<longleftrightarrow> (\<exists>gs. map (\<lambda>g. concat (map enc g)) gs = segs \<and> concat gs = chunks)"

lemma grouped_Nil [simp]: "grouped enc [] []"
  by (simp add: grouped_def)

lemma grouped_open: "grouped enc chunks segs \<Longrightarrow> grouped enc chunks (segs @ [[]])"
  unfolding grouped_def by (elim exE conjE, rule_tac x = "gs @ [[]]" in exI) simp

lemma grouped_open_next: "grouped enc chunks (segs @ [c]) \<Longrightarrow> grouped enc chunks (segs @ [c, []])"
  using grouped_open [of enc chunks "segs @ [c]"] by simp

lemma grouped_write:
  assumes "grouped enc chunks (segs @ [seg])"
  shows "grouped enc (chunks @ [c]) (segs @ [seg @ enc c])"
proof -
  from assms obtain gs g where gs: "map (\<lambda>g. concat (map enc g)) gs = segs"
    "concat (map enc g) = seg" "concat (gs @ [g]) = chunks"
    by (auto simp: grouped_def map_eq_append_conv)
  then have "map (\<lambda>g. concat (map enc g)) (gs @ [g @ [c]]) = segs @ [seg @ enc c] \<and>
      concat (gs @ [g @ [c]]) = chunks @ [c]" by simp
  then show ?thesis unfolding grouped_def by blast
qed

text \<open>
  What one step makes of the state: the configuration keeps its identity, the received chunk
  is in the open segment, nothing else is added to or removed from the segments.
\<close>

definition written :: "log_writer \<Rightarrow> output_chunk list \<Rightarrow> log_writer \<Rightarrow> bool" where
  "written s chunks s' \<longleftrightarrow> wf_writer s' \<and>
     log_identity (lw_configuration s') = log_identity (lw_configuration s) \<and>
     (\<forall>cs. grouped (encode_entry (lw_configuration s)) cs (segments s) \<longrightarrow>
       grouped (encode_entry (lw_configuration s)) (cs @ chunks) (segments s'))"

lemmas writer_steps = open_next_def finish_segment_def rotate_segment_def chunk_received_def
  flush_tick_def policy_changed_def

definition chunk_fits :: "log_configuration \<Rightarrow> output_chunk \<Rightarrow> bool" where
  "chunk_fits c chunk \<longleftrightarrow> length (encode_entry c chunk) < 2 ^ 64"

lemma chunk_received_written:
  assumes "wf_writer s" and "chunk_fits (lw_configuration s) chunk"
  shows "written s (if lc_capture_logs (lw_configuration s) then [chunk] else [])
    (fst (chunk_received s chunk now))"
proof (cases "lw_writer s")
  case None
  then show ?thesis using assms by (simp add: chunk_received_def written_def wf_writer_def)
next
  case (Some w)
  let ?enc = "encode_entry (lw_configuration s)"
  obtain v effs where turn: "(if should_rotate w (word_of_nat (length (?enc chunk))) (lw_configuration s) now
      then rotate_segment s w now else (s, [])) = (v, effs)" by force
  then obtain w' where v: "lw_configuration v = lw_configuration s" "lw_writer v = Some w'" "counted w'"
      "segments v = segments s \<or> segments v = segments s @ [[]]"
    using Some assms(1)
    by (auto simp: writer_steps segments_def wf_writer_def segment_open_def counted_def split: if_split_asm)
  have "fst (chunk_received s chunk now) = v\<lparr>lw_writer := Some (segment_write w' (?enc chunk))\<rparr>"
    using Some turn v(2) by (simp add: chunk_received_def Let_def)
  moreover have "grouped ?enc (cs @ [chunk]) (segments (v\<lparr>lw_writer := Some (segment_write w' (?enc chunk))\<rparr>))"
    if "grouped ?enc cs (segments s)" for cs
  proof -
    have "grouped ?enc cs (segments v)" using that v(4) by (auto intro: grouped_open)
    then show ?thesis using v(2) by (simp add: segments_def segment_write_def grouped_write)
  qed
  moreover have "lc_capture_logs (lw_configuration s)" using Some assms(1) by (simp add: wf_writer_def)
  ultimately show ?thesis using v assms(2)
    by (simp add: written_def wf_writer_def counted_write chunk_fits_def)
qed

lemma writer_step_written:
  assumes "wf_writer s" and "\<forall>chunk now. ev = ChunkReceived chunk now \<longrightarrow> chunk_fits (lw_configuration s) chunk"
  shows "written s (captured (lc_capture_logs (lw_configuration s)) (lw_policy_open s) [ev]) (fst (writer_step s ev))"
proof (cases ev)
  case (ChunkReceived chunk now)
  then show ?thesis using chunk_received_written assms by simp
next
  case (FlushTick now)
  then show ?thesis using assms(1)
    by (cases "lw_writer s")
      (auto simp: flush_tick_def rotate_segment_def open_next_def finish_segment_def written_def
        wf_writer_def segments_def segment_open_def counted_def intro: grouped_open_next)
next
  case (PolicyChanged update now)
  show ?thesis using assms(1) PolicyChanged
    by (cases update; cases "lw_writer s")
      (auto simp: policy_changed_def open_next_def finish_segment_def written_def wf_writer_def
        segments_def segment_open_def counted_def Let_def split: bool.split intro: grouped_open grouped_open_next)
qed (use assms(1) in \<open>auto simp: written_def wf_writer_def segments_def split: option.split\<close>)

lemma writer_step_policy:
  "lw_policy_open (fst (writer_step s ev)) = (ev \<noteq> PolicyClosed \<and> lw_policy_open s)"
  "lc_capture_logs (lw_configuration (fst (writer_step s ev))) =
     (case ev of
        PolicyChanged (Some u) _ \<Rightarrow>
          if lw_policy_open s then lu_capture_logs u else lc_capture_logs (lw_configuration s)
      | _ \<Rightarrow> lc_capture_logs (lw_configuration s))"
  by (cases ev; cases "lw_writer s"; auto simp: writer_steps Let_def split: option.split bool.split)+

lemma captured_step:
  "captured capture policy_open (ev # evs) =
   captured capture policy_open [ev] @
   captured (case ev of PolicyChanged (Some u) _ \<Rightarrow> if policy_open then lu_capture_logs u else capture
       | _ \<Rightarrow> capture)
     (ev \<noteq> PolicyClosed \<and> policy_open) evs"
  by (cases ev) (auto split: option.split)

fun chunks_of :: "writer_event list \<Rightarrow> output_chunk list" where
  "chunks_of [] = []"
| "chunks_of (ChunkReceived chunk _ # evs) = chunk # chunks_of evs"
| "chunks_of (_ # evs) = chunks_of evs"

lemma written_trans:
  assumes "written s a t" and "written t b u"
  shows "written s (a @ b) u"
proof -
  have "encode_entry (lw_configuration t) = encode_entry (lw_configuration s)"
    using assms(1) by (intro encode_entry_identity) (simp add: written_def)
  with assms show ?thesis by (simp add: written_def flip: append_assoc)
qed

lemma writer_loop_Cons [simp]:
  "fst (writer_loop s (ev # evs)) = fst (writer_loop (fst (writer_step s ev)) evs)"
  by (simp add: split_def Let_def)

lemma writer_loop_written:
  assumes "wf_writer s" and "list_all (chunk_fits (lw_configuration s)) (chunks_of evs)"
  shows "written s (captured (lc_capture_logs (lw_configuration s)) (lw_policy_open s) evs) (fst (writer_loop s evs))"
  using assms
proof (induction evs arbitrary: s)
  case (Cons ev evs)
  let ?t = "fst (writer_step s ev)"
  have head: "written s (captured (lc_capture_logs (lw_configuration s)) (lw_policy_open s) [ev]) ?t"
    using writer_step_written [of s ev] Cons.prems by (cases ev) auto
  then have "encode_entry (lw_configuration ?t) = encode_entry (lw_configuration s)"
    by (intro encode_entry_identity) (simp add: written_def)
  then have "chunk_fits (lw_configuration ?t) = chunk_fits (lw_configuration s)"
    by (simp add: chunk_fits_def fun_eq_iff)
  then have "list_all (chunk_fits (lw_configuration ?t)) (chunks_of evs)"
    using Cons.prems(2) by (cases ev) simp_all
  then have tail: "written ?t (captured (lc_capture_logs (lw_configuration ?t)) (lw_policy_open ?t) evs)
      (fst (writer_loop ?t evs))"
    using head by (intro Cons.IH) (simp_all add: written_def)
  from written_trans [OF head tail] show ?case
    unfolding writer_loop_Cons captured_step [of _ _ ev evs] writer_step_policy .
qed (simp add: written_def)

lemma run_writer_grouped:
  assumes "list_all (chunk_fits configuration) (chunks_of evs)"
  shows "grouped (encode_entry configuration) (captured (lc_capture_logs configuration) True evs)
      (lw_finalized (fst (run_writer configuration now evs))) \<and>
    lw_writer (fst (run_writer configuration now evs)) = None"
proof -
  let ?s = "fst (writer_start configuration now)"
  have start: "wf_writer ?s" "lw_configuration ?s = configuration" "lw_policy_open ?s"
      "grouped (encode_entry configuration) [] (segments ?s)"
    using grouped_open [of "encode_entry configuration" "[]" "[]"]
    by (auto simp: writer_start_def open_next_def wf_writer_def segments_def segment_open_def
        counted_def Let_def)
  then have "grouped (encode_entry configuration) (captured (lc_capture_logs configuration) True evs)
      (segments (fst (writer_loop ?s evs)))"
    using writer_loop_written [of ?s evs] assms by (fastforce simp: written_def)
  then show ?thesis
    by (auto simp: run_writer_def writer_end_def finish_segment_def segments_def split_def Let_def
        split: option.splits)
qed

section \<open>The size of a segment\<close>

definition segment_fits :: "log_configuration \<Rightarrow> u8 list \<Rightarrow> bool" where
  "segment_fits c seg \<longleftrightarrow> length seg \<le> unat (lc_segment_size c) \<or> (\<exists>chunk. seg = encode_entry c chunk)"

lemma segment_fits_Nil [simp]: "segment_fits c []"
  by (simp add: segment_fits_def)

lemma unrotated_fits:
  assumes "\<not> should_rotate w (word_of_nat (length (encode_entry c chunk))) c now" and "counted w"
    and "chunk_fits c chunk" and "unat (lc_segment_size c) < 2 ^ 64 - 1"
  shows "segment_fits c (sw_content w @ encode_entry c chunk)"
proof (cases "sw_bytes w = 0")
  case True
  then have "sw_content w = []" using assms(2) by (auto simp: counted_def min_def split: if_split_asm)
  then show ?thesis by (auto simp: segment_fits_def)
next
  case False
  then have "unat (saturating_add (sw_bytes w) (word_of_nat (length (encode_entry c chunk)) :: u64))
      \<le> unat (lc_segment_size c)"
    using assms(1) by (simp add: should_rotate_def not_less word_le_nat_alt)
  then have "length (sw_content w) + length (encode_entry c chunk) \<le> unat (lc_segment_size c)"
    using assms(2-4)
    by (simp add: unat_saturating_add unat_word_of_nat_small chunk_fits_def counted_def min_def split: if_split_asm)
  then show ?thesis by (simp add: segment_fits_def)
qed

definition sized :: "log_configuration \<Rightarrow> log_writer \<Rightarrow> bool" where
  "sized c s \<longleftrightarrow> wf_writer s \<and> lw_configuration s = c \<and> list_all (segment_fits c) (segments s)"

fun keeps_policy :: "writer_event \<Rightarrow> bool" where
  "keeps_policy (PolicyChanged (Some _) _) = False"
| "keeps_policy _ = True"

lemma writer_step_sized:
  assumes "sized c s" and "keeps_policy ev" and "list_all (chunk_fits c) (chunks_of [ev])"
    and "unat (lc_segment_size c) < 2 ^ 64 - 1"
  shows "sized c (fst (writer_step s ev))"
proof -
  have fits: "\<forall>chunk now. ev = ChunkReceived chunk now \<longrightarrow> chunk_fits (lw_configuration s) chunk"
    using assms(1,3) by (auto simp: sized_def)
  have wf: "wf_writer (fst (writer_step s ev))"
    using writer_step_written [of s ev] assms(1) fits by (auto simp: sized_def written_def)
  show ?thesis
  proof (cases "lw_writer s")
    case None
    then show ?thesis using wf assms(1,2)
      by (cases ev rule: keeps_policy.cases)
        (auto simp: sized_def segments_def chunk_received_def flush_tick_def)
  next
    case (Some w)
    have w: "counted w" "segment_fits c (sw_content w)" using assms(1) Some
      by (auto simp: sized_def wf_writer_def segments_def)
    have entry: "segment_fits c (encode_entry c chunk)" for chunk by (auto simp: segment_fits_def)
    show ?thesis
    proof (cases ev)
      case (ChunkReceived chunk now)
      show ?thesis
      proof (cases "should_rotate w (word_of_nat (length (encode_entry c chunk))) c now")
        case True
        then show ?thesis using wf assms(1) Some ChunkReceived w(2) entry
          by (auto simp: sized_def segments_def chunk_received_def rotate_segment_def open_next_def
              finish_segment_def segment_write_def segment_open_def Let_def)
      next
        case False
        then have "segment_fits c (sw_content w @ encode_entry c chunk)"
          using assms(3,4) ChunkReceived w(1) by (intro unrotated_fits) auto
        with False show ?thesis using wf assms(1) Some ChunkReceived
          by (auto simp: sized_def segments_def chunk_received_def segment_write_def Let_def)
      qed
    next
      case (FlushTick now)
      then show ?thesis using wf assms(1) Some w(2)
        by (auto simp: sized_def segments_def flush_tick_def rotate_segment_def open_next_def
            finish_segment_def segment_open_def Let_def)
    qed (use wf assms(1,2) Some in \<open>auto simp: sized_def segments_def split: option.splits\<close>)
  qed
qed

lemma writer_loop_sized:
  "sized c s \<Longrightarrow> list_all keeps_policy evs \<Longrightarrow> list_all (chunk_fits c) (chunks_of evs) \<Longrightarrow>
   unat (lc_segment_size c) < 2 ^ 64 - 1 \<Longrightarrow> sized c (fst (writer_loop s evs))"
proof (induction evs arbitrary: s)
  case (Cons ev evs)
  have "list_all (chunk_fits c) (chunks_of [ev])" "list_all (chunk_fits c) (chunks_of evs)"
    using Cons.prems(3) by (cases ev; simp)+
  then show ?case unfolding writer_loop_Cons
    using Cons writer_step_sized [OF Cons.prems(1) _ _ Cons.prems(4), of ev] by simp
qed simp

section \<open>Properties\<close>

lemma decode_grouped:
  assumes "grouped (encode_entry configuration) chunks segs" and "list_all (entry_ok configuration) chunks"
  shows "concat (map (\<lambda>seg. decode_journal seg execution_id attempt) segs) =
    map (record_of execution_id attempt) chunks"
proof -
  obtain gs where gs: "map (\<lambda>g. concat (map (encode_entry configuration) g)) gs = segs" "concat gs = chunks"
    using assms(1) by (auto simp: grouped_def)
  have "concat (map (\<lambda>g. decode_journal (concat (map (encode_entry configuration) g)) execution_id attempt) gs) =
      map (record_of execution_id attempt) (concat gs)" if "list_all (entry_ok configuration) (concat gs)"
    using that
  proof (induction gs)
    case (Cons g gs)
    then show ?case using decode_journal_entries [of configuration g "[]" execution_id attempt] by simp
  qed simp
  with gs assms(2) show ?thesis by (auto simp: comp_def simp flip: gs(1))
qed

text \<open>
  C11. Whatever the chunks, the rotations and the policy updates, no
  segment is left open at the end, and the finished segments, read back one by one in the
  order they were opened, give exactly the chunks received while capture was on: nothing is
  lost, repeated or reordered by a rotation, and no entry is split between two segments.
\<close>

theorem captured_output_reads_back:
  assumes "list_all (entry_ok configuration) (chunks_of evs)"
    and "list_all (chunk_fits configuration) (chunks_of evs)"
    and "run_writer configuration now evs = (s, effs)"
  shows "lw_writer s = None \<and>
    concat (map (\<lambda>seg. decode_journal seg execution_id attempt) (lw_finalized s)) =
      map (record_of execution_id attempt) (captured (lc_capture_logs configuration) True evs)"
proof -
  have "set (captured capture policy_open evs) \<subseteq> set (chunks_of evs)" for capture policy_open
    by (induction capture policy_open evs rule: captured.induct) auto
  then have "list_all (entry_ok configuration) (captured (lc_capture_logs configuration) True evs)"
    using assms(1) by (auto simp: list_all_iff)
  then show ?thesis
    using run_writer_grouped [OF assms(2), of now] assms(3) by (simp add: decode_grouped [where configuration = configuration])
qed

text \<open>Two chunks, the second one received while capture is off, and a third one after that.\<close>

definition sample_update :: "bool \<Rightarrow> logging_update" where
  "sample_update capture = \<lparr>lu_capture_logs = capture, lu_segment_size = 1, lu_segment_age_ms = 1000,
     lu_retention_size = 1, lu_retention_size_unlimited = False, lu_retention_age_ms = 1,
     lu_retention_age_unlimited = False\<rparr>"

definition sample_writer_events :: "writer_event list" where
  "sample_writer_events =
     [ChunkReceived (sample_chunk 1 [65]) 10, PolicyChanged (Some (sample_update False)) 20,
      ChunkReceived (sample_chunk 2 [66]) 30, PolicyChanged (Some (sample_update True)) 40,
      ChunkReceived (sample_chunk 3 []) 50, ChunkReceived (sample_chunk 4 [10]) 60, PolicyClosed]"

lemma sample_chunk_ok:
  "length bytes < 100 \<Longrightarrow> entry_ok sample_logging (sample_chunk n bytes)"
  by (simp add: entry_ok_def sample_logging_def sample_chunk_def i64_ok_def)

lemma length_sample_entry:
  "length (encode_entry sample_logging (sample_chunk n bytes)) =
     163 + length (show_nat (unat n)) + length bytes"
  by (simp add: encode_entry_blocks length_message_block header_block_def header_fields_def
      header_line_def sample_logging_def sample_chunk_def show_int_def show_nat.simps)

theorem captured_output_reads_back_witness:
  "concat (map (\<lambda>seg. decode_journal seg ''7'' 1)
     (lw_finalized (fst (run_writer sample_logging 0 sample_writer_events)))) =
   map (record_of ''7'' 1) [sample_chunk 1 [65], sample_chunk 3 [], sample_chunk 4 [10]]"
proof -
  have capture: "lc_capture_logs sample_logging" by (simp add: sample_logging_def)
  show ?thesis
    using captured_output_reads_back [of sample_logging sample_writer_events 0, OF _ _ prod.collapse [symmetric]]
    by (simp add: sample_writer_events_def sample_chunk_ok chunk_fits_def length_sample_entry
        show_nat.simps sample_update_def capture)
qed

text \<open>
  While the logging policy does not change, every finished segment
  stays within \<open>segment_size\<close> or holds a single entry that is larger than that by itself.
\<close>

theorem segments_respect_size:
  assumes "list_all keeps_policy evs" and "list_all (chunk_fits configuration) (chunks_of evs)"
    and "unat (lc_segment_size configuration) < 2 ^ 64 - 1"
    and "seg \<in> set (lw_finalized (fst (run_writer configuration now evs)))"
  shows "length seg \<le> unat (lc_segment_size configuration) \<or>
    (\<exists>chunk. seg = encode_entry configuration chunk)"
proof -
  let ?s = "fst (writer_start configuration now)"
  have "sized configuration ?s"
    by (auto simp: sized_def writer_start_def open_next_def wf_writer_def segments_def
        segment_open_def counted_def Let_def)
  from writer_loop_sized [OF this assms(1-3)]
  have "list_all (segment_fits configuration) (segments (fst (writer_loop ?s evs)))"
    by (simp add: sized_def)
  then have "segment_fits configuration seg" using assms(4)
    by (auto simp: run_writer_def writer_end_def finish_segment_def segments_def split_def Let_def
        list_all_iff split: option.splits)
  then show ?thesis by (simp add: segment_fits_def)
qed

definition sample_two_chunks :: "writer_event list" where
  "sample_two_chunks = [ChunkReceived (sample_chunk 1 [65]) 10, ChunkReceived (sample_chunk 2 [66]) 20]"

lemma sample_rotation:
  "lw_finalized (fst (run_writer (sample_logging\<lparr>lc_segment_size := 200\<rparr>) 0 sample_two_chunks)) =
   [encode_entry sample_logging (sample_chunk 1 [65]), encode_entry sample_logging (sample_chunk 2 [66])]"
proof -
  have same: "encode_entry (sample_logging\<lparr>lc_segment_size := 200\<rparr>) = encode_entry sample_logging"
    by (rule encode_entry_identity) (simp add: log_identity_def)
  show ?thesis
    by (simp add: sample_two_chunks_def run_writer_def writer_start_def writer_end_def chunk_received_def
        rotate_segment_def open_next_def finish_segment_def segment_open_def segment_write_def
        should_rotate_def same length_sample_entry show_nat.simps saturating_add_def Let_def)
      (simp add: sample_logging_def)
qed

theorem segments_respect_size_witness:
  "length (encode_entry sample_logging (sample_chunk 1 [65])) \<le> 200 \<or>
   (\<exists>chunk. encode_entry sample_logging (sample_chunk 1 [65]) =
      encode_entry (sample_logging\<lparr>lc_segment_size := 200\<rparr>) chunk)"
proof -
  have same: "encode_entry (sample_logging\<lparr>lc_segment_size := 200\<rparr>) = encode_entry sample_logging"
    by (rule encode_entry_identity) (simp add: log_identity_def)
  show ?thesis
    using segments_respect_size [of sample_two_chunks "sample_logging\<lparr>lc_segment_size := 200\<rparr>"
        "encode_entry sample_logging (sample_chunk 1 [65])" 0]
    by (simp add: sample_rotation) (simp add: sample_two_chunks_def chunk_fits_def same
        length_sample_entry show_nat.simps)
qed

end
