(* ===== verification/Log_Retention.thy ===== *)
theory Log_Retention
  imports Log_Journal "HOL-Library.Multiset"
begin

text \<open>
  The retention of workload journals (\<open>apply_retention\<close> and \<open>collect_finalized\<close> in
  \<open>crates/supervisor/src/journal.rs\<close>). The directory of a workload is a tree of named files
  with a modification time and a length; times are milliseconds. Reading the directory and
  removing a file succeed (in the code a failure ends the pass).
\<close>

section \<open>The files of a workload\<close>

datatype log_tree =
    LogFile string nat u64
  | LogDirectory string "log_tree list"

record finalized_file =
  ff_path :: "string list"
  ff_modified :: nat
  ff_bytes :: u64
  ff_removed :: bool

fun starts_with :: "string \<Rightarrow> string \<Rightarrow> bool" where
  "starts_with s [] = True"
| "starts_with [] (p # ps) = False"
| "starts_with (c # cs) (p # ps) = (c = p \<and> starts_with cs ps)"

fun str_contains :: "string \<Rightarrow> string \<Rightarrow> bool" where
  "str_contains [] pattern = (pattern = [])"
| "str_contains (c # cs) pattern = (starts_with (c # cs) pattern \<or> str_contains cs pattern)"

fun collect_finalized :: "string list \<Rightarrow> log_tree list \<Rightarrow> finalized_file list" where
  "collect_finalized root [] = []"
| "collect_finalized root (LogDirectory name entries # rest) =
     collect_finalized (root @ [name]) entries @ collect_finalized root rest"
| "collect_finalized root (LogFile name modified bytes # rest) =
     (if str_contains name ''.susm-journal''
      then [\<lparr>ff_path = root @ [name], ff_modified = modified, ff_bytes = bytes, ff_removed = False\<rparr>]
      else []) @ collect_finalized root rest"

section \<open>The two limits\<close>

definition remove_old :: "nat \<Rightarrow> nat \<Rightarrow> finalized_file \<Rightarrow> finalized_file" where
  "remove_old now age file = (if age < now - ff_modified file then file\<lparr>ff_removed := True\<rparr> else file)"

text \<open>The loop over the files, oldest first; it stops at the first file that need not go.\<close>

fun remove_excess :: "u64 \<Rightarrow> u64 \<Rightarrow> finalized_file list \<Rightarrow> finalized_file list" where
  "remove_excess limit bytes [] = []"
| "remove_excess limit bytes (file # files) =
     (if bytes \<le> limit then file # files
      else if \<not> ff_removed file
      then file\<lparr>ff_removed := True\<rparr> # remove_excess limit (saturating_sub bytes (ff_bytes file)) files
      else file # remove_excess limit bytes files)"

definition apply_retention :: "log_configuration \<Rightarrow> nat \<Rightarrow> log_tree list \<Rightarrow> finalized_file list" where
  "apply_retention configuration now tree =
     (let files = sort_key ff_modified (collect_finalized [] tree);
          files = (if \<not> lc_retention_age_unlimited configuration
            then map (remove_old now (unat (lc_retention_age_ms configuration))) files else files)
      in if \<not> lc_retention_size_unlimited configuration
         then remove_excess (lc_retention_size configuration)
           (sum_list (map ff_bytes (filter (\<lambda>file. \<not> ff_removed file) files))) files
         else files)"

definition kept :: "finalized_file list \<Rightarrow> finalized_file list" where
  "kept files = filter (\<lambda>file. \<not> ff_removed file) files"

definition stored_bytes :: "finalized_file list \<Rightarrow> nat" where
  "stored_bytes files = sum_list (map (\<lambda>file. unat (ff_bytes file)) files)"

lemma kept_Cons [simp]:
  "kept (file # files) = (if ff_removed file then kept files else file # kept files)"
  "kept [] = []"
  by (simp_all add: kept_def)

lemma stored_bytes_Cons [simp]:
  "stored_bytes (file # files) = unat (ff_bytes file) + stored_bytes files"
  "stored_bytes [] = 0"
  by (simp_all add: stored_bytes_def)

text \<open>
  The loop over the size limit removes the shortest prefix of the kept files that makes the
  rest fit: what it removes is a prefix, and without the last file of it the rest would not fit.
\<close>

lemma remove_excess_drops:
  "stored_bytes (kept files) = unat bytes \<Longrightarrow>
   \<exists>n. kept (remove_excess limit bytes files) = drop n (kept files) \<and> n \<le> length (kept files) \<and>
     stored_bytes (drop n (kept files)) \<le> unat limit \<and>
     (\<forall>m<n. unat limit < stored_bytes (drop m (kept files)))"
proof (induction limit bytes files rule: remove_excess.induct)
  case (1 limit bytes)
  then show ?case by simp
next
  case (2 limit bytes fl files)
  consider "bytes \<le> limit" | "\<not> bytes \<le> limit" "\<not> ff_removed fl" | "\<not> bytes \<le> limit" "ff_removed fl"
    by blast
  then show ?case
  proof cases
    case 1
    then show ?thesis using 2(3)
      by (intro exI [of _ 0]) (simp add: word_le_nat_alt)
  next
    case 2: 2
    have "stored_bytes (kept files) = unat (saturating_sub bytes (ff_bytes fl))"
      using 2 "2.prems" by (simp add: unat_saturating_sub)
    then obtain n where n:
      "kept (remove_excess limit (saturating_sub bytes (ff_bytes fl)) files) = drop n (kept files)"
      "n \<le> length (kept files)"
      "stored_bytes (drop n (kept files)) \<le> unat limit"
      "\<forall>m<n. unat limit < stored_bytes (drop m (kept files))"
      using "2.IH"(1) 2 by blast
    have "unat limit < stored_bytes (drop m (kept (fl # files)))" if "m < Suc n" for m
      using that n(4) 2 "2.prems" by (cases m) (simp_all add: word_le_nat_alt)
    with n 2 show ?thesis by (intro exI [of _ "Suc n"]) simp
  next
    case 3
    then show ?thesis using "2.IH"(2) "2.prems" by simp
  qed
qed

lemma kept_remove_old:
  "kept (map (remove_old now age) files) = filter (\<lambda>file. now - ff_modified file \<le> age) (kept files)"
  by (induction files) (auto simp: remove_old_def)

lemma kept_fresh: "list_all (\<lambda>file. \<not> ff_removed file) files \<Longrightarrow> kept files = files"
  by (simp add: kept_def list_all_iff)

lemma collect_finalized_fresh: "list_all (\<lambda>file. \<not> ff_removed file) (collect_finalized root tree)"
  by (induction root tree rule: collect_finalized.induct) simp_all

lemma stored_bytes_filter: "stored_bytes (filter P files) \<le> stored_bytes files"
  by (induction files) auto

lemma stored_bytes_sort: "stored_bytes (sort_key key files) = stored_bytes files"
proof -
  have "stored_bytes files = sum_mset (image_mset (\<lambda>file. unat (ff_bytes file)) (mset files))" for files
    by (simp add: stored_bytes_def sum_mset_sum_list flip: mset_map)
  then show ?thesis by simp
qed

lemma unat_sum_bytes: "stored_bytes files < 2 ^ 64 \<Longrightarrow> unat (sum_list (map ff_bytes files)) = stored_bytes files"
  by (induction files) (simp_all add: unat_add_no_overflow)

section \<open>Properties\<close>


definition sample_tree :: "log_tree list" where
  "sample_tree = [LogDirectory ''7'' [LogDirectory ''attempt-000001''
     [LogFile ''b.susm-journal.zst'' 20 60, LogFile ''a.susm-journal.zst'' 10 60, LogFile ''notes.txt'' 5 60,
      LogFile ''c.susm-journal.zst'' 30 30]]]"


lemma starts_with_append: "starts_with (s @ t) s"
  by (induction s) simp_all

lemma str_contains_append: "str_contains (a @ s @ t) s"
proof (induction a)
  case Nil
  then show ?case using starts_with_append [of s t] by (cases "s @ t") (auto elim: starts_with.elims)
qed simp

text \<open>
  The retention does not spare the open segment: its name
  contains \<open>.susm-journal\<close> like that of a finished one, so when it alone is larger than the
  size limit it is removed while the writer still appends to it.
\<close>

theorem retention_deletes_open_segment:
  assumes "\<not> lc_retention_size_unlimited c" and "lc_retention_size c < bytes"
  shows "\<exists>file. apply_retention c now
      [LogDirectory execution [LogDirectory attempt [LogFile (stamp @ ''.susm-journal.open'') modified bytes]]] =
        [file] \<and>
    ff_path file = [execution, attempt, stamp @ ''.susm-journal.open''] \<and> ff_removed file"
proof -
  have "str_contains (stamp @ ''.susm-journal.open'') ''.susm-journal''"
    using str_contains_append [of stamp "''.susm-journal''" "''.open''"] by simp
  moreover have "\<not> bytes \<le> lc_retention_size c" using assms(2) by (simp add: not_le)
  ultimately show ?thesis using assms(1)
    by (cases "lc_retention_age_unlimited c"; cases "unat (lc_retention_age_ms c) < now - modified")
      (simp_all add: apply_retention_def remove_old_def Let_def)
qed

theorem retention_deletes_open_segment_witness:
  "\<exists>file. apply_retention sample_logging 5 [LogDirectory ''7'' [LogDirectory ''attempt-000001''
      [LogFile ''20250101-000000.susm-journal.open'' 5 4096]]] = [file] \<and> ff_removed file"
  using retention_deletes_open_segment [of sample_logging 4096 5 "''7''" "''attempt-000001''" "''20250101-000000''" 5]
  by (auto simp: sample_logging_def)

end
