(* ===== verification/Storage.thy ===== *)
theory Storage
  imports Btree Bytes Transition
begin

text \<open>
  The durable state of the controller (\<open>crates/controller/src/storage.rs\<close>): the tables of the
  SQLite database and the statements of the code on them. A statement or transaction that
  fails leaves the database as it was. Of SQLite the model has what the code relies on: the
  primary keys, the \<open>CHECK\<close> on the kind and the foreign key of executions; rows with equal
  sort keys come in the order of their insertion (the order of the index the code creates).
  The migration and the lock around the connection are not modelled.
\<close>

section \<open>Tables\<close>

text \<open>Integer columns are \<open>INTEGER\<close>, read back through \<open>try_from\<close>.\<close>

record workload_row =
  wr_kind :: string
  wr_definition :: "u8 list option"
  wr_enabled :: bool
  wr_last_triggered_session :: string
  wr_last_outcome :: string

record execution_row =
  er_id :: string
  er_workload_id :: string
  er_state :: string
  er_supervisor_process_id :: int
  er_workload_process_id :: int
  er_attempt :: int
  er_started_unix_ms :: int
  er_ended_unix_ms :: int
  er_exit_code :: "int option"
  er_error :: string
  er_snapshot :: "u8 list"
  er_committed_sequence :: int

record database =
  db_config_generation :: "u8 list option"
  db_workloads :: "(string, workload_row) btree"
  db_executions :: "execution_row list"

definition empty_database :: database where
  "empty_database = \<lparr>db_config_generation = None, db_workloads = [], db_executions = []\<rparr>"

record stored_workload =
  sw_id :: string
  sw_kind :: string
  sw_definition :: "u8 list option"
  sw_enabled :: bool
  sw_last_outcome :: string

record stored_execution =
  se_id :: string
  se_workload_id :: string
  se_state :: string
  se_supervisor_process_id :: u32
  se_workload_process_id :: u32
  se_attempt :: u32
  se_started_unix_ms :: int
  se_ended_unix_ms :: int
  se_exit_code :: "u32 option"
  se_error :: string
  se_snapshot :: "u8 list"
  se_committed_sequence :: u64

datatype sqlite_failure =
    UniqueViolation
  | CheckViolation
  | ForeignKeyViolation
  | QueryReturnedNoRows
  | FromSqlConversionFailure nat

datatype storage_error =
    Unavailable
  | Sqlite sqlite_failure
  | InvalidInteger
  | ObservationOutOfOrder u64 u64

record terminal_observation =
  to_state :: string
  to_ended_unix_ms :: int
  to_exit_code :: "u32 option"
  to_error :: string
  to_attempt :: u32

record progress_update =
  po_state :: string
  po_workload_process_id :: u32
  po_attempt :: u32
  po_error :: "string option"

datatype observation_update =
    Acknowledge
  | Progress progress_update
  | TerminalUpdate terminal_observation

section \<open>Statements\<close>

definition execution_row_of :: "database \<Rightarrow> string \<Rightarrow> execution_row option" where
  "execution_row_of db i = find (\<lambda>r. er_id r = i) (db_executions db)"

text \<open>\<open>UPDATE ... WHERE id = ?\<close> on the two tables, with the number of changed rows.\<close>

definition update_execution :: "string \<Rightarrow> (execution_row \<Rightarrow> execution_row) \<Rightarrow> database \<Rightarrow> database" where
  "update_execution i f db =
     db\<lparr>db_executions := map (\<lambda>r. if er_id r = i then f r else r) (db_executions db)\<rparr>"

definition update_workloads :: "(string \<Rightarrow> workload_row \<Rightarrow> bool) \<Rightarrow> (workload_row \<Rightarrow> workload_row) \<Rightarrow> database \<Rightarrow> database" where
  "update_workloads P f db =
     db\<lparr>db_workloads := map (\<lambda>(k, r). if P k r then (k, f r) else (k, r)) (db_workloads db)\<rparr>"

definition changed_workloads :: "(string \<Rightarrow> workload_row \<Rightarrow> bool) \<Rightarrow> database \<Rightarrow> nat" where
  "changed_workloads P db = length (filter (\<lambda>(k, r). P k r) (db_workloads db))"

definition kind_ok :: "string \<Rightarrow> bool" where
  "kind_ok kind \<longleftrightarrow> kind = ''service'' \<or> kind = ''job''"

text \<open>\<open>INSERT ... ON CONFLICT(id) DO UPDATE SET kind, definition\<close>.\<close>

definition upsert_definition :: "database \<Rightarrow> stored_workload \<Rightarrow> storage_error + database" where
  "upsert_definition db d =
     (if \<not> kind_ok (sw_kind d) then Inl (Sqlite CheckViolation)
      else Inr (db\<lparr>db_workloads := btree_insert (sw_id d)
        (case map_of (db_workloads db) (sw_id d) of
           Some r \<Rightarrow> r\<lparr>wr_kind := sw_kind d, wr_definition := sw_definition d\<rparr>
         | None \<Rightarrow> \<lparr>wr_kind = sw_kind d, wr_definition = sw_definition d, wr_enabled = sw_enabled d,
             wr_last_triggered_session = [], wr_last_outcome = []\<rparr>)
        (db_workloads db)\<rparr>))"

fun upsert_definitions :: "database \<Rightarrow> stored_workload list \<Rightarrow> storage_error + database" where
  "upsert_definitions db [] = Inr db"
| "upsert_definitions db (d # ds) = and_then (upsert_definition db d) (\<lambda>db. upsert_definitions db ds)"

definition replace_definitions ::
  "database \<Rightarrow> u8 list \<Rightarrow> stored_workload list \<Rightarrow> storage_error + database \<times> bool"
where
  "replace_definitions db generation definitions =
     (if db_config_generation db = Some generation then Inr (db, False)
      else
        and_then (upsert_definitions (update_workloads (\<lambda>_ _. True) (\<lambda>r. r\<lparr>wr_definition := None\<rparr>) db) definitions)
          (\<lambda>db. Inr (db\<lparr>db_config_generation := Some generation\<rparr>, True)))"

definition load_workloads :: "database \<Rightarrow> stored_workload list" where
  "load_workloads db =
     map (\<lambda>(i, r). \<lparr>sw_id = i, sw_kind = wr_kind r, sw_definition = wr_definition r,
       sw_enabled = wr_enabled r, sw_last_outcome = wr_last_outcome r\<rparr>) (db_workloads db)"

definition set_enabled :: "database \<Rightarrow> string \<Rightarrow> bool \<Rightarrow> database \<times> bool" where
  "set_enabled db i enabled =
     (update_workloads (\<lambda>k _. k = i) (\<lambda>r. r\<lparr>wr_enabled := enabled\<rparr>) db,
      changed_workloads (\<lambda>k _. k = i) db \<noteq> 0)"

definition insert_execution :: "database \<Rightarrow> stored_execution \<Rightarrow> storage_error + database" where
  "insert_execution db e =
     (if execution_row_of db (se_id e) \<noteq> None then Inl (Sqlite UniqueViolation)
      else if map_of (db_workloads db) (se_workload_id e) = None then Inl (Sqlite ForeignKeyViolation)
      else Inr (db\<lparr>db_executions := db_executions db @ [\<lparr>
        er_id = se_id e, er_workload_id = se_workload_id e, er_state = se_state e,
        er_supervisor_process_id = uint (se_supervisor_process_id e),
        er_workload_process_id = uint (se_workload_process_id e), er_attempt = uint (se_attempt e),
        er_started_unix_ms = se_started_unix_ms e, er_ended_unix_ms = 0, er_exit_code = None,
        er_error = [], er_snapshot = se_snapshot e, er_committed_sequence = 0\<rparr>]\<rparr>))"

definition claims_session :: "string \<Rightarrow> string \<Rightarrow> string \<Rightarrow> workload_row \<Rightarrow> bool" where
  "claims_session workload session k r \<longleftrightarrow>
     k = workload \<and> wr_kind r = ''job'' \<and> wr_enabled r \<and> wr_last_triggered_session r \<noteq> session"

definition insert_enabled_job_execution ::
  "database \<Rightarrow> stored_execution \<Rightarrow> string \<Rightarrow> storage_error + database \<times> bool"
where
  "insert_enabled_job_execution db e session =
     (let claims = claims_session (se_workload_id e) session in
      if changed_workloads claims db = 0 then Inr (db, False)
      else
        and_then (insert_execution
            (update_workloads claims (\<lambda>r. r\<lparr>wr_last_triggered_session := session\<rparr>) db) e)
          (\<lambda>db. Inr (db, True)))"

definition set_execution_supervisor :: "database \<Rightarrow> string \<Rightarrow> u32 \<Rightarrow> database" where
  "set_execution_supervisor db i supervisor =
     update_execution i (\<lambda>r. r\<lparr>er_state := ''launching'', er_supervisor_process_id := uint supervisor\<rparr>) db"

definition finish_execution :: "database \<Rightarrow> stored_execution \<Rightarrow> database" where
  "finish_execution db e =
     update_workloads (\<lambda>k _. k = se_workload_id e) (\<lambda>r. r\<lparr>wr_last_outcome := se_state e\<rparr>)
       (update_execution (se_id e) (\<lambda>r. r\<lparr>er_state := se_state e,
          er_supervisor_process_id := uint (se_supervisor_process_id e),
          er_workload_process_id := uint (se_workload_process_id e), er_attempt := uint (se_attempt e),
          er_ended_unix_ms := se_ended_unix_ms e, er_exit_code := map_option uint (se_exit_code e),
          er_error := se_error e\<rparr>) db)"

section \<open>Observations\<close>

fun apply_update :: "string \<Rightarrow> int \<Rightarrow> observation_update \<Rightarrow> database \<Rightarrow> database" where
  "apply_update i sequence Acknowledge db =
     update_execution i (\<lambda>r. r\<lparr>er_committed_sequence := sequence\<rparr>) db"
| "apply_update i sequence (Progress p) db =
     update_execution i (\<lambda>r. r\<lparr>er_state := po_state p, er_workload_process_id := uint (po_workload_process_id p),
       er_attempt := uint (po_attempt p),
       er_error := (case po_error p of Some e \<Rightarrow> e | None \<Rightarrow> er_error r),
       er_committed_sequence := sequence\<rparr>) db"
| "apply_update i sequence (TerminalUpdate t) db =
     (let db = update_execution i (\<lambda>r. r\<lparr>er_state := to_state t, er_workload_process_id := 0,
            er_attempt := uint (to_attempt t), er_ended_unix_ms := to_ended_unix_ms t,
            er_exit_code := map_option uint (to_exit_code t), er_error := to_error t,
            er_committed_sequence := sequence\<rparr>) db
      in update_workloads (\<lambda>k _. Some k = map_option er_workload_id (execution_row_of db i))
           (\<lambda>r. r\<lparr>wr_last_outcome := to_state t\<rparr>) db)"

definition commit_observation ::
  "database \<Rightarrow> string \<Rightarrow> u64 \<Rightarrow> observation_update \<Rightarrow> storage_error + database \<times> bool"
where
  "commit_observation db i sequence update =
     and_then (ok_or InvalidInteger (i64_try_from sequence)) (\<lambda>sequence.
     and_then (ok_or (Sqlite QueryReturnedNoRows) (execution_row_of db i)) (\<lambda>row.
       let committed = er_committed_sequence row in
       if sequence \<le> committed then Inr (db, False)
       else
         and_then (ok_or InvalidInteger (i64_checked_add committed 1)) (\<lambda>expected.
           if sequence \<noteq> expected
           then
             and_then (ok_or InvalidInteger (u64_try_from expected)) (\<lambda>expected.
             and_then (ok_or InvalidInteger (u64_try_from sequence)) (\<lambda>actual.
               Inl (ObservationOutOfOrder expected actual)))
           else Inr (apply_update i sequence update db, True))))"

section \<open>Queries\<close>

fun read_exit_code :: "int option \<Rightarrow> storage_error + u32 option" where
  "read_exit_code None = Inr None"
| "read_exit_code (Some i) =
     and_then (ok_or (Sqlite (FromSqlConversionFailure 8)) (u32_try_from i)) (\<lambda>code. Inr (Some code))"

definition read_execution :: "execution_row \<Rightarrow> storage_error + stored_execution" where
  "read_execution r =
     and_then (ok_or (Sqlite (FromSqlConversionFailure 3)) (u32_try_from (er_supervisor_process_id r))) (\<lambda>supervisor.
     and_then (ok_or (Sqlite (FromSqlConversionFailure 4)) (u32_try_from (er_workload_process_id r))) (\<lambda>workload_process.
     and_then (ok_or (Sqlite (FromSqlConversionFailure 5)) (u32_try_from (er_attempt r))) (\<lambda>attempt.
     and_then (read_exit_code (er_exit_code r)) (\<lambda>exit_code.
     and_then (ok_or (Sqlite (FromSqlConversionFailure 11)) (u64_try_from (er_committed_sequence r))) (\<lambda>committed.
       Inr \<lparr>se_id = er_id r, se_workload_id = er_workload_id r, se_state = er_state r,
         se_supervisor_process_id = supervisor, se_workload_process_id = workload_process,
         se_attempt = attempt, se_started_unix_ms = er_started_unix_ms r,
         se_ended_unix_ms = er_ended_unix_ms r, se_exit_code = exit_code, se_error = er_error r,
         se_snapshot = er_snapshot r, se_committed_sequence = committed\<rparr>)))))"

definition page_rows :: "execution_row list \<Rightarrow> string \<Rightarrow> nat \<Rightarrow> int option \<Rightarrow> execution_row list" where
  "page_rows rows workload limit before =
     take limit (sort_key (\<lambda>r. - er_started_unix_ms r)
       (filter (\<lambda>r. er_workload_id r = workload \<and> (before = None \<or> er_started_unix_ms r < the before)) rows))"

definition list_executions ::
  "database \<Rightarrow> string \<Rightarrow> u32 \<Rightarrow> int option \<Rightarrow> storage_error + stored_execution list"
where
  "list_executions db workload limit before =
     try_map read_execution (page_rows (db_executions db) workload (unat limit) before)"

definition get_execution :: "database \<Rightarrow> string \<Rightarrow> storage_error + stored_execution option" where
  "get_execution db i =
     (case execution_row_of db i of
        None \<Rightarrow> Inr None
      | Some r \<Rightarrow> and_then (read_execution r) (\<lambda>e. Inr (Some e)))"

definition load_active_executions :: "database \<Rightarrow> storage_error + stored_execution list" where
  "load_active_executions db =
     try_map read_execution
       (sort_key er_started_unix_ms (filter (\<lambda>r. er_ended_unix_ms r = 0) (db_executions db)))"

section \<open>The invariant of the tables\<close>

text \<open>
  Keys are unique, kinds are checked, every execution belongs to a workload, and the integer
  columns hold what their readers expect.
\<close>

definition row_ok :: "execution_row \<Rightarrow> bool" where
  "row_ok r \<longleftrightarrow> u32_try_from (er_supervisor_process_id r) \<noteq> None \<and>
     u32_try_from (er_workload_process_id r) \<noteq> None \<and> u32_try_from (er_attempt r) \<noteq> None \<and>
     pred_option (\<lambda>i. u32_try_from i \<noteq> None) (er_exit_code r) \<and>
     0 \<le> er_committed_sequence r \<and> er_committed_sequence r < 2 ^ 63"

definition db_ok :: "database \<Rightarrow> bool" where
  "db_ok db \<longleftrightarrow> btree_ok (db_workloads db) \<and> list_all (\<lambda>(k, r). kind_ok (wr_kind r)) (db_workloads db) \<and>
     distinct (map er_id (db_executions db)) \<and>
     list_all (\<lambda>r. map_of (db_workloads db) (er_workload_id r) \<noteq> None \<and> row_ok r) (db_executions db)"

lemma uint_u32_range: "0 \<le> uint (w :: u32)" "uint (w :: u32) < 4294967296"
  using uint_bounded [of w] by (simp_all add: uint_nonnegative)

lemma u32_try_from_uint [simp]: "u32_try_from (uint w) = Some w"
  using uint_u32_range [of w] by (simp add: u32_try_from_def)

lemma read_execution_ok: "row_ok r \<Longrightarrow> \<exists>e. read_execution r = Inr e"
  by (cases "er_exit_code r")
    (auto simp: row_ok_def read_execution_def u64_try_from_def)

lemma try_map_ok: "list_all (\<lambda>x. \<exists>y. f x = Inr y) xs \<Longrightarrow> \<exists>ys. try_map f xs = Inr ys"
  by (induction xs) auto

lemma find_update:
  "(\<And>r. er_id (f r) = er_id r) \<Longrightarrow>
   find (\<lambda>r. er_id r = i) (map (\<lambda>r. if er_id r = j then f r else r) rows) =
     (if i = j then map_option f (find (\<lambda>r. er_id r = i) rows) else find (\<lambda>r. er_id r = i) rows)"
  by (induction rows) auto

lemma execution_row_of_update:
  "(\<And>r. er_id (f r) = er_id r) \<Longrightarrow> execution_row_of (update_execution j f db) i =
    (if i = j then map_option f (execution_row_of db i) else execution_row_of db i)"
  by (simp add: execution_row_of_def update_execution_def find_update)

lemma execution_row_of_id: "execution_row_of db i = Some r \<Longrightarrow> er_id r = i \<and> r \<in> set (db_executions db)"
  by (auto simp: execution_row_of_def find_Some_iff)

lemma update_execution_workloads [simp]: "db_workloads (update_execution i f db) = db_workloads db"
  by (simp add: update_execution_def)

lemma update_workloads_executions [simp]: "db_executions (update_workloads P f db) = db_executions db"
  by (simp add: update_workloads_def)

lemma execution_row_of_workloads [simp]: "execution_row_of (update_workloads P f db) = execution_row_of db"
  by (simp add: execution_row_of_def fun_eq_iff)

lemma update_workloads_keys: "map fst (db_workloads (update_workloads P f db)) = map fst (db_workloads db)"
  by (simp add: update_workloads_def split_def comp_def if_distrib cong: if_cong)

lemma map_of_update_workloads:
  "map_of (db_workloads (update_workloads P f db)) k =
   map_option (\<lambda>r. if P k r then f r else r) (map_of (db_workloads db) k)"
proof -
  have "map_of (map (\<lambda>(k, r). if P k r then (k, f r) else (k, r)) t) k =
      map_option (\<lambda>r. if P k r then f r else r) (map_of t k)" for t
    by (induction t) auto
  then show ?thesis by (simp add: update_workloads_def)
qed

lemma db_ok_update_workloads:
  assumes "db_ok db" and "\<And>r. wr_kind (f r) = wr_kind r"
  shows "db_ok (update_workloads P f db)"
proof -
  have "btree_ok (db_workloads (update_workloads P f db))"
    using assms(1) by (simp add: db_ok_def btree_ok_def update_workloads_keys)
  moreover have "list_all (\<lambda>(k, r). kind_ok (wr_kind r)) (db_workloads (update_workloads P f db))"
    using assms by (auto simp: db_ok_def update_workloads_def list_all_iff split: if_split_asm)
  ultimately show ?thesis using assms(1)
    by (auto simp: db_ok_def map_of_update_workloads list_all_iff)
qed

lemma db_ok_update_execution:
  assumes "db_ok db" and "\<And>r. er_id (f r) = er_id r" and "\<And>r. er_workload_id (f r) = er_workload_id r"
    and "\<And>r. row_ok r \<Longrightarrow> row_ok (f r)"
  shows "db_ok (update_execution i f db)"
proof -
  have "map er_id (db_executions (update_execution i f db)) = map er_id (db_executions db)"
    using assms(2) by (simp add: update_execution_def)
  then have "distinct (map er_id (db_executions (update_execution i f db)))"
    using assms(1) by (simp only: db_ok_def)
  moreover have "list_all (\<lambda>r. map_of (db_workloads db) (er_workload_id r) \<noteq> None \<and> row_ok r)
      (db_executions (update_execution i f db))"
    using assms(1,3,4) by (auto simp: db_ok_def list_all_iff update_execution_def)
  ultimately show ?thesis using assms(1) by (simp add: db_ok_def)
qed

end
