(* ===== verification/Storage_Properties.thy ===== *)
theory Storage_Properties
  imports Storage
begin

text \<open>
  What the database promises, whatever statements the controller issues: the tables stay
  consistent, observations are applied once and in order, a job is triggered once in a
  session, a reload keeps enablement and history, and how far pages of executions reach.
\<close>

section \<open>Statements in sequence\<close>

datatype statement =
    ReplaceDefinitions "u8 list" "stored_workload list"
  | SetEnabled string bool
  | InsertExecution stored_execution
  | InsertEnabledJobExecution stored_execution string
  | SetExecutionSupervisor string u32
  | FinishExecution stored_execution
  | CommitObservation string u64 observation_update

text \<open>What a statement did: an observation applied, an execution started for a session.\<close>

datatype storage_effect =
    ObservationApplied string nat
  | SessionClaimed string string

fun execute :: "database \<Rightarrow> statement \<Rightarrow> storage_error + (database, storage_effect) transition" where
  "execute db (ReplaceDefinitions generation definitions) =
     and_then (replace_definitions db generation definitions) (\<lambda>(db, _). Inr (without_effects db))"
| "execute db (SetEnabled i enabled) = Inr (without_effects (fst (set_enabled db i enabled)))"
| "execute db (InsertExecution e) = and_then (insert_execution db e) (\<lambda>db. Inr (without_effects db))"
| "execute db (InsertEnabledJobExecution e session) =
     and_then (insert_enabled_job_execution db e session) (\<lambda>(db, inserted).
       Inr (transition_new db (if inserted then [SessionClaimed (se_workload_id e) session] else [])))"
| "execute db (SetExecutionSupervisor i supervisor) =
     Inr (without_effects (set_execution_supervisor db i supervisor))"
| "execute db (FinishExecution e) = Inr (without_effects (finish_execution db e))"
| "execute db (CommitObservation i sequence update) =
     and_then (commit_observation db i sequence update) (\<lambda>(db, applied).
       Inr (transition_new db (if applied then [ObservationApplied i (unat sequence)] else [])))"

text \<open>A statement that fails changes nothing, and the controller goes on with the next one.\<close>

definition execute_total :: "database \<Rightarrow> statement \<Rightarrow> storage_error + (database, storage_effect) transition" where
  "execute_total db st = (case execute db st of Inl _ \<Rightarrow> Inr (without_effects db) | Inr t \<Rightarrow> Inr t)"

abbreviation run_storage ::
  "database \<Rightarrow> statement list \<Rightarrow> storage_error + database \<times> storage_effect list"
where
  "run_storage \<equiv> run_machine execute_total"

lemma run_storage_total: "\<exists>db' effs. run_storage db sts = Inr (db', effs)"
proof (induction sts arbitrary: db)
  case (Cons st sts)
  obtain t where "execute_total db st = Inr t"
    by (cases "execute db st") (auto simp: execute_total_def)
  moreover obtain db' effs where "run_storage (tr_state t) sts = Inr (db', effs)" using Cons.IH by blast
  ultimately show ?case by simp
qed simp

inductive storage_step :: "database \<Rightarrow> storage_effect list \<Rightarrow> database \<Rightarrow> bool" where
  failed: "storage_step db [] db"
| succeeded: "execute db st = Inr t \<Longrightarrow> storage_step db (tr_effects t) (tr_state t)"

lemma run_storage_reach: "run_storage db sts = Inr (db', effs) \<Longrightarrow> reach storage_step db effs db'"
proof (rule run_machine_reach [where ok = "\<lambda>_. True"])
  fix db st t
  assume "execute_total db st = Inr t"
  then show "storage_step db (tr_effects t) (tr_state t)"
    by (cases "execute db st") (auto simp: execute_total_def intro: storage_step.intros)
qed (simp_all add: list_all_iff)

section \<open>Each statement keeps the tables consistent\<close>

lemma exit_code_ok [simp]: "pred_option (\<lambda>i. \<exists>code. u32_try_from i = Some code) (map_option uint (c :: u32 option))"
  by (cases c) simp_all

lemma u32_try_from_0 [simp]: "u32_try_from 0 = Some 0"
  by (simp add: u32_try_from_def)

lemma upsert_definition_ok:
  assumes "upsert_definition db d = Inr db'" and "db_ok db"
  shows "db_ok db'"
proof -
  obtain r where db': "db' = db\<lparr>db_workloads := btree_insert (sw_id d) r (db_workloads db)\<rparr>" "kind_ok (wr_kind r)"
    using assms(1) by (auto simp: upsert_definition_def split: if_split_asm option.splits)
  have tree: "btree_ok (db_workloads db)" using assms(2) by (simp add: db_ok_def)
  have "kind_ok (wr_kind q)" if "(k, q) \<in> set (btree_insert (sw_id d) r (db_workloads db))" for k q
  proof -
    have "map_of (btree_insert (sw_id d) r (db_workloads db)) k = Some q"
      using that btree_ok_distinct [OF btree.put_ok [OF tree]] by simp
    then have "q = r \<or> map_of (db_workloads db) k = Some q"
      using tree by (simp add: btree.lookup_put split: if_split_asm)
    then show ?thesis using assms(2) db'(2)
      by (auto simp: db_ok_def list_all_iff dest!: map_of_SomeD)
  qed
  then show ?thesis using assms(2) tree
    by (auto simp: db_ok_def db'(1) btree.put_ok btree.lookup_put list_all_iff)
qed

lemma upsert_definitions_ok: "upsert_definitions db ds = Inr db' \<Longrightarrow> db_ok db \<Longrightarrow> db_ok db'"
  by (induction db ds rule: upsert_definitions.induct) (auto simp: rust_result intro: upsert_definition_ok)

lemma replace_definitions_ok:
  assumes "replace_definitions db generation definitions = Inr (db', changed)" and "db_ok db"
  shows "db_ok db'"
proof (cases "db_config_generation db = Some generation")
  case True
  then show ?thesis using assms by (simp add: replace_definitions_def)
next
  case False
  then obtain mid where mid: "upsert_definitions (update_workloads (\<lambda>_ _. True) (\<lambda>r. r\<lparr>wr_definition := None\<rparr>) db)
      definitions = Inr mid" "db' = mid\<lparr>db_config_generation := Some generation\<rparr>"
    using assms(1) by (auto simp: replace_definitions_def rust_result)
  have "db_ok mid"
    by (rule upsert_definitions_ok [OF mid(1)]) (rule db_ok_update_workloads [OF assms(2)], simp)
  then show ?thesis by (simp add: mid(2) db_ok_def)
qed

lemma insert_execution_ok:
  assumes "insert_execution db e = Inr db'" and "db_ok db"
  shows "db_ok db'"
proof -
  have "se_id e \<notin> set (map er_id (db_executions db))" "map_of (db_workloads db) (se_workload_id e) \<noteq> None"
    using assms(1) by (auto simp: insert_execution_def execution_row_of_def find_None_iff split: if_split_asm)
  then show ?thesis using assms
    by (auto simp: insert_execution_def db_ok_def row_ok_def split: if_split_asm)
qed

lemma finish_execution_ok: "db_ok db \<Longrightarrow> db_ok (finish_execution db e)"
  unfolding finish_execution_def
  by (intro db_ok_update_workloads db_ok_update_execution)
    (auto simp: row_ok_def)

lemma commit_observation_ok:
  assumes "commit_observation db i sequence update = Inr (db', applied)" and "db_ok db"
  shows "db_ok db'"
proof (cases applied)
  case False
  then show ?thesis using assms
    by (auto simp: commit_observation_def rust_result Let_def split: if_split_asm)
next
  case True
  then obtain n where n: "0 \<le> n" "n < 2 ^ 63" "db' = apply_update i n update db"
    using assms(1) by (auto simp: commit_observation_def rust_result Let_def i64_try_from_def split: if_split_asm)
  have "row_ok (r\<lparr>er_committed_sequence := n\<rparr>)" if "row_ok r" for r
    using that n by (simp add: row_ok_def)
  then show ?thesis using n assms(2)
    by (cases update)
      (auto simp: Let_def row_ok_def intro!: db_ok_update_workloads db_ok_update_execution
        split: option.split)
qed

lemma execute_ok: "execute db st = Inr t \<Longrightarrow> db_ok db \<Longrightarrow> db_ok (tr_state t)"
  by (cases st)
    (auto simp: rust_result set_enabled_def set_execution_supervisor_def insert_enabled_job_execution_def Let_def
      row_ok_def intro: replace_definitions_ok insert_execution_ok finish_execution_ok commit_observation_ok
      intro!: db_ok_update_workloads db_ok_update_execution split: if_split_asm)

interpretation storage: invariant_machine storage_step db_ok
  by unfold_locales (auto elim!: storage_step.cases intro: execute_ok)

lemma empty_database_ok [simp]: "db_ok empty_database"
  by (simp add: db_ok_def empty_database_def)

section \<open>Observations are applied in order\<close>

lemma map_filter_one [simp]:
  "List.map_filter f [] = []" "List.map_filter f [x] = (case f x of Some y \<Rightarrow> [y] | None \<Rightarrow> [])"
  by (simp_all add: List.map_filter_def split: option.split)

definition committed :: "database \<Rightarrow> string \<Rightarrow> int option" where
  "committed db i = map_option er_committed_sequence (execution_row_of db i)"

fun applied_number :: "string \<Rightarrow> storage_effect \<Rightarrow> nat option" where
  "applied_number i (ObservationApplied j n) = (if j = i then Some n else None)"
| "applied_number i (SessionClaimed _ _) = None"

definition committed_at :: "string \<Rightarrow> nat \<Rightarrow> database \<Rightarrow> bool" where
  "committed_at i n db \<longleftrightarrow> committed db i = Some (int n)"

lemma committed_workloads [simp]: "committed (update_workloads P f db) i = committed db i"
  by (simp add: committed_def)

lemma committed_update:
  "(\<And>r. er_id (f r) = er_id r) \<Longrightarrow> committed (update_execution j f db) i =
    (if i = j then map_option (er_committed_sequence \<circ> f) (execution_row_of db i) else committed db i)"
  by (simp add: committed_def execution_row_of_update option.map_comp)

lemma committed_update_same:
  assumes "\<And>r. er_id (f r) = er_id r" and "\<And>r. er_committed_sequence (f r) = er_committed_sequence r"
  shows "committed (update_execution j f db) i = committed db i"
  using assms by (simp add: committed_update) (simp add: committed_def comp_def)

lemma committed_executions: "db_executions db' = db_executions db \<Longrightarrow> committed db' i = committed db i"
  by (simp add: committed_def execution_row_of_def)

lemma committed_apply_update:
  "execution_row_of db j = Some row \<Longrightarrow>
   committed (apply_update j n update db) i = (if i = j then Some n else committed db i)"
  by (cases update) (simp_all add: committed_update Let_def)

lemma upsert_definitions_executions:
  "upsert_definitions db ds = Inr db' \<Longrightarrow> db_executions db' = db_executions db"
  by (induction db ds rule: upsert_definitions.induct)
    (auto simp: rust_result upsert_definition_def split: if_split_asm)

lemma replace_definitions_executions:
  "replace_definitions db generation ds = Inr (db', changed) \<Longrightarrow> db_executions db' = db_executions db"
  by (auto simp: replace_definitions_def rust_result dest: upsert_definitions_executions split: if_split_asm)

lemma find_append_one:
  "find P (xs @ [x]) = (case find P xs of Some y \<Rightarrow> Some y | None \<Rightarrow> if P x then Some x else None)"
  by (induction xs) simp_all

lemma insert_execution_committed:
  assumes "insert_execution db e = Inr db'"
  shows "committed db' i = (if i = se_id e then Some 0 else committed db i)"
proof -
  obtain row where row: "db_executions db' = db_executions db @ [row]" "er_id row = se_id e"
      "er_committed_sequence row = 0" "execution_row_of db (se_id e) = None"
    using assms by (simp add: insert_execution_def split: if_split_asm) fastforce
  show ?thesis
    by (cases "i = se_id e"; cases "execution_row_of db i")
      (use row in \<open>simp_all add: committed_def execution_row_of_def find_append_one\<close>)
qed

lemma insert_execution_fresh: "insert_execution db e = Inr db' \<Longrightarrow> committed db (se_id e) = None"
  by (simp add: insert_execution_def committed_def split: if_split_asm)

lemma commit_observation_cases:
  assumes "commit_observation db i sequence update = Inr (db', applied)"
  obtains (duplicate) "\<not> applied" "db' = db" "\<exists>c. committed db i = Some c \<and> uint sequence \<le> c"
  | (applied) row where "applied" "execution_row_of db i = Some row"
      "uint sequence = er_committed_sequence row + 1" "db' = apply_update i (uint sequence) update db"
proof -
  have n: "i64_try_from sequence = Some (uint sequence)"
    using assms by (cases "i64_try_from sequence")
      (simp_all add: commit_observation_def i64_try_from_def split: if_split_asm)
  obtain row where row: "execution_row_of db i = Some row"
    using assms by (cases "execution_row_of db i") (simp_all add: commit_observation_def n)
  show ?thesis
  proof (cases "uint sequence \<le> er_committed_sequence row")
    case True
    then show ?thesis using assms row by (intro duplicate) (auto simp: commit_observation_def n committed_def)
  next
    case False
    then have next_one: "i64_checked_add (er_committed_sequence row) 1 = Some (uint sequence) \<and>
        uint sequence = er_committed_sequence row + 1"
      using assms by (cases "i64_checked_add (er_committed_sequence row) 1")
        (auto simp: commit_observation_def n row i64_checked_add_def rust_result split: if_split_asm)
    then show ?thesis using assms False
      by (intro applied [OF _ row]) (simp_all add: commit_observation_def n row)
  qed
qed

text \<open>What the successful statements return.\<close>

lemma execute_Inr:
  "execute db (ReplaceDefinitions generation ds) = Inr t \<Longrightarrow>
     \<exists>changed. replace_definitions db generation ds = Inr (tr_state t, changed) \<and> tr_effects t = []"
  "execute db (InsertExecution e) = Inr t \<Longrightarrow> insert_execution db e = Inr (tr_state t) \<and> tr_effects t = []"
  "execute db (InsertEnabledJobExecution e session) = Inr t \<Longrightarrow>
     \<exists>inserted. insert_enabled_job_execution db e session = Inr (tr_state t, inserted) \<and>
       tr_effects t = (if inserted then [SessionClaimed (se_workload_id e) session] else [])"
  "execute db (CommitObservation i sequence update) = Inr t \<Longrightarrow>
     \<exists>applied. commit_observation db i sequence update = Inr (tr_state t, applied) \<and>
       tr_effects t = (if applied then [ObservationApplied i (unat sequence)] else [])"
  subgoal by (cases "replace_definitions db generation ds") (simp_all add: split_def, metis prod.collapse without_effects_sel)
  subgoal by (cases "insert_execution db e") auto
  subgoal by (cases "insert_enabled_job_execution db e session") (simp_all add: split_def, metis prod.collapse transition_new_sel)
  subgoal by (cases "commit_observation db i sequence update") (simp_all add: split_def, metis prod.collapse transition_new_sel)
  done

lemma execute_numbers:
  assumes "execute db st = Inr t" and "committed_at i n db"
  shows "\<exists>m. consecutive n (List.map_filter (applied_number i) (tr_effects t)) m \<and> committed_at i m (tr_state t)"
proof -
  have same: ?thesis if "List.map_filter (applied_number i) (tr_effects t) = []"
    and "committed (tr_state t) i = committed db i"
    using that assms(2) by (auto simp: committed_at_def intro!: exI [of _ n])
  show ?thesis
  proof (cases st)
    case (ReplaceDefinitions generation definitions)
    obtain changed where "replace_definitions db generation definitions = Inr (tr_state t, changed)"
      "tr_effects t = []" using execute_Inr(1) [OF assms(1) [unfolded ReplaceDefinitions]] by blast
    then show ?thesis by (intro same) (simp_all add: committed_executions [OF replace_definitions_executions])
  next
    case (SetEnabled j enabled)
    then show ?thesis using assms(1) by (intro same) (auto simp: set_enabled_def)
  next
    case (InsertExecution e)
    have "insert_execution db e = Inr (tr_state t)" "tr_effects t = []"
      using execute_Inr(2) [OF assms(1) [unfolded InsertExecution]] by blast+
    then show ?thesis
      using insert_execution_committed [of db e "tr_state t" i] insert_execution_fresh [of db e "tr_state t"] assms(2)
      by (intro same) (auto simp: committed_at_def)
  next
    case (InsertEnabledJobExecution e session)
    obtain inserted where
      run: "insert_enabled_job_execution db e session = Inr (tr_state t, inserted)"
      and effs: "tr_effects t = (if inserted then [SessionClaimed (se_workload_id e) session] else [])"
      using execute_Inr(3) [OF assms(1) [unfolded InsertEnabledJobExecution]] by blast
    have "committed (tr_state t) i = committed db i"
    proof (cases inserted)
      case True
      then have "insert_execution (update_workloads (claims_session (se_workload_id e) session)
          (\<lambda>r. r\<lparr>wr_last_triggered_session := session\<rparr>) db) e = Inr (tr_state t)"
        using run by (auto simp: insert_enabled_job_execution_def Let_def rust_result split: if_split_asm)
      from insert_execution_committed [OF this, of i] insert_execution_fresh [OF this]
      show ?thesis using assms(2) by (auto simp: committed_at_def)
    next
      case False
      then show ?thesis using run
        by (auto simp: insert_enabled_job_execution_def Let_def rust_result split: if_split_asm)
    qed
    then show ?thesis by (intro same) (simp_all add: effs)
  next
    case (SetExecutionSupervisor j supervisor)
    then show ?thesis using assms(1)
      by (intro same) (auto simp: set_execution_supervisor_def committed_update_same)
  next
    case (FinishExecution e)
    then show ?thesis using assms(1)
      by (intro same) (auto simp: finish_execution_def committed_update_same)
  next
    case (CommitObservation j sequence update)
    obtain applied where run: "commit_observation db j sequence update = Inr (tr_state t, applied)"
      and effs: "tr_effects t = (if applied then [ObservationApplied j (unat sequence)] else [])"
      using execute_Inr(4) [OF assms(1) [unfolded CommitObservation]] by blast
    from run show ?thesis
    proof (cases rule: commit_observation_cases)
      case duplicate
      then show ?thesis by (intro same) (simp_all add: effs)
    next
      case (applied row)
      have new: "committed (tr_state t) i = (if i = j then Some (uint sequence) else committed db i)"
        using applied by (simp add: committed_apply_update)
      show ?thesis
      proof (cases "i = j")
        case True
        then have "int n + 1 = uint sequence"
          using applied assms(2) by (simp add: committed_at_def committed_def)
        then have int: "int (unat sequence) = int (Suc n)" by simp
        then have "unat sequence = Suc n" by (simp only: of_nat_eq_iff)
        moreover have "committed_at i (Suc n) (tr_state t)"
          using True new int by (simp add: committed_at_def)
        ultimately show ?thesis using True applied(1)
          by (intro exI [of _ "Suc n"]) (simp add: effs)
      next
        case False
        then show ?thesis using new by (intro same) (simp_all add: effs)
      qed
    qed
  qed
qed

interpretation observations: effect_numbering storage_step "\<lambda>_. True" "applied_number i" "committed_at i" for i
proof
  fix n db effs db'
  assume "committed_at i n db" "storage_step db effs db'"
  then show "\<exists>m. consecutive n (List.map_filter (applied_number i) effs) m \<and> committed_at i m db'"
    by (cases rule: storage_step.cases [consumes 1, OF \<open>storage_step db effs db'\<close>])
      (auto intro: execute_numbers exI [of _ n])
qed simp

section \<open>A reload keeps what is not configuration\<close>

text \<open>What a row has besides its kind and definition.\<close>

definition row_history :: "workload_row \<Rightarrow> bool \<times> string \<times> string" where
  "row_history r = (wr_enabled r, wr_last_triggered_session r, wr_last_outcome r)"

definition history :: "database \<Rightarrow> string \<Rightarrow> (bool \<times> string \<times> string) option" where
  "history db i = map_option row_history (map_of (db_workloads db) i)"

definition accepted :: "database \<Rightarrow> string \<Rightarrow> (string \<times> u8 list) option" where
  "accepted db i = Option.bind (map_of (db_workloads db) i)
     (\<lambda>r. map_option (\<lambda>d. (wr_kind r, d)) (wr_definition r))"

text \<open>The definition that the last entry of a list gives a workload.\<close>

fun defined :: "stored_workload list \<Rightarrow> string \<Rightarrow> (string \<times> u8 list) option \<Rightarrow> (string \<times> u8 list) option" where
  "defined [] i before = before"
| "defined (d # ds) i before =
     defined ds i (if sw_id d = i then map_option (\<lambda>b. (sw_kind d, b)) (sw_definition d) else before)"

lemma upsert_definition_facts:
  assumes "upsert_definition db d = Inr db'" and "btree_ok (db_workloads db)"
  shows "btree_ok (db_workloads db')"
    "accepted db' i = (if sw_id d = i then map_option (\<lambda>b. (sw_kind d, b)) (sw_definition d) else accepted db i)"
    "history db i = Some h \<Longrightarrow> history db' i = Some h"
proof -
  define r where "r = (case map_of (db_workloads db) (sw_id d) of
      Some r \<Rightarrow> r\<lparr>wr_kind := sw_kind d, wr_definition := sw_definition d\<rparr>
    | None \<Rightarrow> \<lparr>wr_kind = sw_kind d, wr_definition = sw_definition d, wr_enabled = sw_enabled d,
        wr_last_triggered_session = [], wr_last_outcome = []\<rparr>)"
  have db': "db' = db\<lparr>db_workloads := btree_insert (sw_id d) r (db_workloads db)\<rparr>"
    using assms(1) by (simp add: upsert_definition_def r_def split: if_split_asm)
  have r: "wr_kind r = sw_kind d" "wr_definition r = sw_definition d"
      "\<And>q. map_of (db_workloads db) (sw_id d) = Some q \<Longrightarrow> row_history r = row_history q"
    by (simp_all add: r_def row_history_def split: option.split)
  show "btree_ok (db_workloads db')" using assms(2) by (simp add: db' btree.put_ok)
  show "accepted db' i = (if sw_id d = i then map_option (\<lambda>b. (sw_kind d, b)) (sw_definition d) else accepted db i)"
    using assms(2) by (simp add: accepted_def db' btree.lookup_put r)
  show "history db' i = Some h" if "history db i = Some h"
    using that assms(2) by (auto simp: history_def db' btree.lookup_put r(3))
qed

lemma upsert_definitions_facts:
  "upsert_definitions db ds = Inr db' \<Longrightarrow> btree_ok (db_workloads db) \<Longrightarrow>
   accepted db' i = defined ds i (accepted db i) \<and> (history db i = Some h \<longrightarrow> history db' i = Some h)"
proof (induction db ds arbitrary: db' rule: upsert_definitions.induct)
  case (2 db d ds)
  then obtain mid where mid: "upsert_definition db d = Inr mid" "upsert_definitions mid ds = Inr db'"
    by (auto simp: rust_result)
  note facts = upsert_definition_facts [OF mid(1) "2.prems"(2)]
  show ?case using 2(1) [OF mid(2) facts(1)] facts(2) [of i] facts(3) [of i h] by auto
qed simp

lemma replace_definitions_facts:
  assumes "replace_definitions db generation ds = Inr (db', True)" and "db_ok db"
  shows "accepted db' i = defined ds i None \<and> (history db i = Some h \<longrightarrow> history db' i = Some h) \<and>
    db_config_generation db' = Some generation"
proof -
  let ?clear = "update_workloads (\<lambda>_ _. True) (\<lambda>r. r\<lparr>wr_definition := None\<rparr>) db"
  obtain mid where mid: "upsert_definitions ?clear ds = Inr mid" "db' = mid\<lparr>db_config_generation := Some generation\<rparr>"
    using assms(1) by (auto simp: replace_definitions_def rust_result split: if_split_asm)
  have "db_ok ?clear" by (rule db_ok_update_workloads [OF assms(2)]) simp
  then have tree: "btree_ok (db_workloads ?clear)" by (simp add: db_ok_def)
  have "accepted ?clear i = None" "history ?clear i = history db i"
    by (cases "map_of (db_workloads db) i";
        simp add: accepted_def history_def map_of_update_workloads row_history_def)+
  moreover have "accepted db' i = accepted mid i" "history db' i = history mid i"
    "db_config_generation db' = Some generation"
    by (simp_all add: mid(2) accepted_def history_def)
  ultimately show ?thesis using upsert_definitions_facts [OF mid(1) tree, of i h] by simp
qed

section \<open>A session triggers a job once\<close>

fun only_session :: "string \<Rightarrow> statement \<Rightarrow> bool" where
  "only_session session (InsertEnabledJobExecution _ s) = (s = session)"
| "only_session session _ = True"

inductive session_step :: "string \<Rightarrow> database \<Rightarrow> storage_effect list \<Rightarrow> database \<Rightarrow> bool" for session where
  session_failed: "session_step session db [] db"
| session_succeeded:
    "execute db st = Inr t \<Longrightarrow> only_session session st \<Longrightarrow>
     session_step session db (tr_effects t) (tr_state t)"

lemma run_storage_session:
  "run_storage db sts = Inr (db', effs) \<Longrightarrow> list_all (only_session session) sts \<Longrightarrow>
   reach (session_step session) db effs db'"
proof (rule run_machine_reach [where ok = "only_session session"])
  fix db st t
  assume "only_session session st" "execute_total db st = Inr t"
  then show "session_step session db (tr_effects t) (tr_state t)"
    by (cases "execute db st") (auto simp: execute_total_def intro: session_step.intros)
qed

definition triggers_left :: "string \<Rightarrow> string \<Rightarrow> database \<Rightarrow> nat" where
  "triggers_left session i db =
     (case history db i of Some (_, triggered, _) \<Rightarrow> if triggered = session then 0 else 1 | None \<Rightarrow> 1)"

lemma history_executions [simp]:
  "history (db\<lparr>db_executions := rows\<rparr>) i = history db i"
  "history (update_execution j f db) i = history db i"
  by (simp_all add: history_def)

lemma history_update_workloads:
  "(\<And>r. fst (snd (row_history (f r))) = fst (snd (row_history r))) \<Longrightarrow>
   map_option (fst \<circ> snd) (history (update_workloads P f db) i) = map_option (fst \<circ> snd) (history db i)"
  by (cases "map_of (db_workloads db) i") (simp_all add: history_def map_of_update_workloads)

lemma triggers_left_mono:
  assumes "map_option (fst \<circ> snd) (history db' i) = map_option (fst \<circ> snd) (history db i) \<or> history db i = None"
  shows "triggers_left session i db' \<le> triggers_left session i db"
  using assms by (cases "history db' i"; cases "history db i") (auto simp: triggers_left_def split: prod.splits)

lemma insert_execution_history: "insert_execution db e = Inr db' \<Longrightarrow> history db' i = history db i"
  by (auto simp: insert_execution_def split: if_split_asm)

lemma apply_update_history:
  "map_option (fst \<circ> snd) (history (apply_update j n update db) i) = map_option (fst \<circ> snd) (history db i)"
  by (cases update) (simp_all add: Let_def history_update_workloads row_history_def)

lemma insert_enabled_cases:
  assumes "insert_enabled_job_execution db e session = Inr (db', inserted)"
  obtains (skipped) "\<not> inserted" "db' = db" "changed_workloads (claims_session (se_workload_id e) session) db = 0"
  | (claimed) "inserted" "changed_workloads (claims_session (se_workload_id e) session) db \<noteq> 0"
      "insert_execution (update_workloads (claims_session (se_workload_id e) session)
         (\<lambda>r. r\<lparr>wr_last_triggered_session := session\<rparr>) db) e = Inr db'"
  using assms by (auto simp: insert_enabled_job_execution_def Let_def rust_result split: if_split_asm)

lemma changed_workloads_some:
  assumes "btree_ok (db_workloads db)" and "changed_workloads (claims_session i session) db \<noteq> 0"
  shows "\<exists>r. map_of (db_workloads db) i = Some r \<and> claims_session i session i r"
proof -
  from assms(2) obtain k r where r: "(k, r) \<in> set (db_workloads db)" "claims_session i session k r"
    by (auto simp: changed_workloads_def filter_empty_conv)
  then have "k = i" by (simp add: claims_session_def)
  with r assms(1) show ?thesis by (auto simp: btree_ok_distinct)
qed

fun claims_of :: "string \<Rightarrow> storage_effect \<Rightarrow> bool" where
  "claims_of i (SessionClaimed j _) = (j = i)"
| "claims_of i (ObservationApplied _ _) = False"

lemma execute_pays:
  assumes "execute db st = Inr t" and "only_session session st" and "db_ok db"
  shows "length (filter (claims_of i) (tr_effects t)) + triggers_left session i (tr_state t) \<le>
    triggers_left session i db"
proof -
  have same: ?thesis if "filter (claims_of i) (tr_effects t) = []"
    and "map_option (fst \<circ> snd) (history (tr_state t) i) = map_option (fst \<circ> snd) (history db i) \<or>
      history db i = None"
    using that triggers_left_mono [OF that(2)] by simp
  show ?thesis
  proof (cases st)
    case (ReplaceDefinitions generation definitions)
    obtain changed where run: "replace_definitions db generation definitions = Inr (tr_state t, changed)"
      "tr_effects t = []" using execute_Inr(1) [OF assms(1) [unfolded ReplaceDefinitions]] by blast
    have "tr_state t = db \<or> history db i = None \<or> history (tr_state t) i = history db i"
    proof (cases changed)
      case True
      then show ?thesis using replace_definitions_facts [of db generation definitions "tr_state t" i] run(1) assms(3)
        by (cases "history db i") auto
    next
      case False
      then show ?thesis using run(1)
        by (auto simp: replace_definitions_def rust_result split: if_split_asm)
    qed
    then show ?thesis using run(2) by (intro same) auto
  next
    case (SetEnabled j enabled)
    then show ?thesis using assms(1)
      by (intro same) (auto simp: set_enabled_def history_update_workloads row_history_def)
  next
    case (InsertExecution e)
    have "insert_execution db e = Inr (tr_state t)" "tr_effects t = []"
      using execute_Inr(2) [OF assms(1) [unfolded InsertExecution]] by blast+
    then show ?thesis by (intro same) (simp_all add: insert_execution_history [of db e])
  next
    case (InsertEnabledJobExecution e s)
    have s: "s = session" using assms(2) InsertEnabledJobExecution by simp
    obtain inserted where
      run: "insert_enabled_job_execution db e session = Inr (tr_state t, inserted)"
      and effs: "tr_effects t = (if inserted then [SessionClaimed (se_workload_id e) session] else [])"
      using execute_Inr(3) [OF assms(1) [unfolded InsertEnabledJobExecution s]] by blast
    from run show ?thesis
    proof (cases rule: insert_enabled_cases)
      case skipped
      then show ?thesis by (intro same) (simp_all add: effs)
    next
      case claimed
      let ?mid = "update_workloads (claims_session (se_workload_id e) session)
         (\<lambda>r. r\<lparr>wr_last_triggered_session := session\<rparr>) db"
      have hist: "history (tr_state t) i = history ?mid i" by (rule insert_execution_history [OF claimed(3)])
      show ?thesis
      proof (cases "se_workload_id e = i")
        case True
        have "btree_ok (db_workloads db)" using assms(3) by (simp add: db_ok_def)
        from changed_workloads_some [OF this claimed(2)] True
        obtain r where r: "map_of (db_workloads db) i = Some r" "claims_session i session i r" by blast
        then have "history ?mid i = Some (wr_enabled r, session, wr_last_outcome r)"
          using True by (simp add: history_def map_of_update_workloads row_history_def)
        then have "triggers_left session i (tr_state t) = 0" using hist by (simp add: triggers_left_def)
        moreover have "triggers_left session i db = 1"
          using r by (simp add: triggers_left_def history_def row_history_def claims_session_def)
        ultimately show ?thesis using True claimed(1) by (simp add: effs)
      next
        case False
        have "history ?mid i = history db i"
          using False by (cases "map_of (db_workloads db) i")
            (auto simp: history_def map_of_update_workloads claims_session_def)
        then show ?thesis using False hist by (intro same) (simp_all add: effs)
      qed
    qed
  next
    case (SetExecutionSupervisor j supervisor)
    then show ?thesis using assms(1) by (intro same) (auto simp: set_execution_supervisor_def)
  next
    case (FinishExecution e)
    then show ?thesis using assms(1)
      by (intro same) (auto simp: finish_execution_def history_update_workloads row_history_def)
  next
    case (CommitObservation j sequence update)
    obtain applied where run: "commit_observation db j sequence update = Inr (tr_state t, applied)"
      and effs: "tr_effects t = (if applied then [ObservationApplied j (unat sequence)] else [])"
      using execute_Inr(4) [OF assms(1) [unfolded CommitObservation]] by blast
    from run show ?thesis
      by (cases rule: commit_observation_cases) (intro same; simp add: effs apply_update_history)+
  qed
qed

interpretation session_triggers: effect_budget "session_step session" db_ok "claims_of i" "triggers_left session i"
  for session i
  by unfold_locales (auto elim!: session_step.cases intro: execute_ok execute_pays)

section \<open>Properties\<close>

text \<open>
  C17. From consistent tables, every sequence of statements, failing ones
  included, leads to consistent tables: unique keys, checked kinds, no execution without its
  workload, and columns in the range of their readers, so that no query fails to convert a row.
\<close>

theorem storage_stays_consistent:
  assumes "db_ok db" and "run_storage db sts = Inr (db', effs)"
  shows "db_ok db' \<and> (\<exists>es. load_active_executions db' = Inr es) \<and>
    (\<exists>es. list_executions db' workload limit before = Inr es) \<and> (\<exists>e. get_execution db' i = Inr e)"
proof -
  have ok: "db_ok db'" using storage.reach_inv [OF run_storage_reach [OF assms(2)] assms(1)] .
  then have rows: "\<exists>e. read_execution r = Inr e" if "r \<in> set (db_executions db')" for r
    using that by (auto simp: db_ok_def list_all_iff intro: read_execution_ok)
  have "\<exists>es. load_active_executions db' = Inr es"
    unfolding load_active_executions_def by (rule try_map_ok) (auto simp: list_all_iff intro: rows)
  moreover have "\<exists>es. list_executions db' workload limit before = Inr es"
    unfolding list_executions_def by (rule try_map_ok)
      (auto simp: list_all_iff page_rows_def dest!: in_set_takeD intro: rows)
  moreover have "\<exists>e. get_execution db' i = Inr e"
  proof (cases "execution_row_of db' i")
    case (Some r)
    then show ?thesis using rows [of r] execution_row_of_id [OF Some] by (auto simp: get_execution_def)
  qed (simp add: get_execution_def)
  ultimately show ?thesis using ok by blast
qed

text \<open>
  C18. However often observations are sent, repeated or out of
  order, the ones applied to an execution are the next ones, one by one, without a gap, and
  the committed sequence is the number of the last one applied.
\<close>

theorem observations_apply_once_in_order:
  assumes "committed db i = Some (int n)" and "run_storage db sts = Inr (db', effs)"
  shows "List.map_filter (applied_number i) effs =
      [Suc n..<Suc n + length (List.map_filter (applied_number i) effs)] \<and>
    committed db' i = Some (int (n + length (List.map_filter (applied_number i) effs)))"
proof -
  have "committed_at i n db" using assms(1) by (simp add: committed_at_def)
  then obtain m where m: "consecutive n (List.map_filter (applied_number i) effs) m" "committed_at i m db'"
    using observations.reach_continues [OF run_storage_reach [OF assms(2)]] by blast
  from consecutive_length [OF m(1)] consecutive_upt [OF m(1)] m(2) show ?thesis
    by (simp add: committed_at_def)
qed

text \<open>
  C19. In a manager session, an enabled job is started by the session
  at most once, however often the controller tries, restarts or reloads in between.
\<close>

theorem session_triggers_job_once:
  assumes "db_ok db" and "run_storage db sts = Inr (db', effs)" and "list_all (only_session session) sts"
  shows "length (filter (claims_of i) effs) \<le> 1"
proof -
  have "length (filter (claims_of i) effs) \<le> triggers_left session i db"
    using session_triggers.reach_bounded [OF run_storage_session [OF assms(2,3)] assms(1)] .
  also have "\<dots> \<le> 1" by (simp add: triggers_left_def split: option.split)
  finally show ?thesis .
qed

text \<open>
  A reload with a new generation makes the accepted definitions
  exactly those it was given and keeps the enablement, the triggered session and the last
  outcome of every workload, a removed one included; the executions are untouched. With the
  same generation it changes nothing.
\<close>

theorem reload_replaces_definitions:
  assumes "db_ok db" and "replace_definitions db generation ds = Inr (db', changed)"
  shows "changed = (db_config_generation db \<noteq> Some generation) \<and>
    db_config_generation db' = Some generation \<and> db_executions db' = db_executions db \<and>
    (if changed
     then (\<forall>i. accepted db' i = defined ds i None) \<and>
       (\<forall>i h. history db i = Some h \<longrightarrow> history db' i = Some h)
     else db' = db)"
proof (cases changed)
  case True
  then show ?thesis
    using assms replace_definitions_executions [OF assms(2)] replace_definitions_facts [of db generation ds db']
    by (auto simp: replace_definitions_def split: if_split_asm)
next
  case False
  then show ?thesis using assms(2) by (auto simp: replace_definitions_def rust_result split: if_split_asm)
qed

section \<open>A sample run\<close>

definition sample_job_row :: stored_workload where
  "sample_job_row = \<lparr>sw_id = ''backup'', sw_kind = ''job'', sw_definition = Some [7], sw_enabled = False,
     sw_last_outcome = []\<rparr>"

definition sample_stored :: "string \<Rightarrow> stored_execution" where
  "sample_stored i = \<lparr>se_id = i, se_workload_id = ''backup'', se_state = ''starting'',
     se_supervisor_process_id = 0, se_workload_process_id = 0, se_attempt = 0, se_started_unix_ms = 10,
     se_ended_unix_ms = 0, se_exit_code = None, se_error = [], se_snapshot = [1], se_committed_sequence = 0\<rparr>"

definition sample_statements :: "statement list" where
  "sample_statements =
     [ReplaceDefinitions [1] [sample_job_row], SetEnabled ''backup'' True,
      InsertEnabledJobExecution (sample_stored ''a'') ''s'', InsertEnabledJobExecution (sample_stored ''b'') ''s'']"

definition sample_commits :: "statement list" where
  "sample_commits =
     [CommitObservation ''a'' 1 Acknowledge, CommitObservation ''a'' 1 Acknowledge,
      CommitObservation ''a'' 3 Acknowledge, CommitObservation ''a'' 2 Acknowledge]"

definition sample_row :: "int \<Rightarrow> execution_row" where
  "sample_row n = \<lparr>er_id = ''a'', er_workload_id = ''backup'', er_state = ''starting'',
     er_supervisor_process_id = 0, er_workload_process_id = 0, er_attempt = 0, er_started_unix_ms = 10,
     er_ended_unix_ms = 0, er_exit_code = None, er_error = [], er_snapshot = [1], er_committed_sequence = n\<rparr>"

definition sample_database :: "int \<Rightarrow> database" where
  "sample_database n = \<lparr>db_config_generation = Some [1],
     db_workloads = [(''backup'', \<lparr>wr_kind = ''job'', wr_definition = Some [7], wr_enabled = True,
       wr_last_triggered_session = ''s'', wr_last_outcome = []\<rparr>)],
     db_executions = [sample_row n]\<rparr>"

lemmas evaluate_storage = execute_total_def replace_definitions_def upsert_definition_def update_workloads_def
  update_execution_def changed_workloads_def set_enabled_def insert_enabled_job_execution_def
  insert_execution_def execution_row_of_def claims_session_def kind_ok_def commit_observation_def
  i64_try_from_def i64_checked_add_def i64_ok_def u64_try_from_def Let_def

lemma sample_storage_run:
  "run_storage empty_database sample_statements = Inr (sample_database 0, [SessionClaimed ''backup'' ''s''])"
  by (simp add: sample_statements_def sample_job_row_def sample_stored_def empty_database_def
      sample_database_def sample_row_def evaluate_storage)

lemma sample_commit_run:
  "run_storage (sample_database 0) sample_commits =
    Inr (sample_database 2, [ObservationApplied ''a'' 1, ObservationApplied ''a'' 2])"
  by (simp add: sample_commits_def sample_database_def sample_row_def evaluate_storage)

theorem storage_stays_consistent_witness:
  "db_ok (sample_database 0) \<and> (\<exists>es. load_active_executions (sample_database 0) = Inr es)"
  using storage_stays_consistent [OF empty_database_ok sample_storage_run] by blast

theorem observations_apply_once_in_order_witness:
  "committed (sample_database 2) ''a'' = Some 2"
proof -
  have "committed (sample_database 0) ''a'' = Some (int 0)"
    by (simp add: sample_database_def sample_row_def committed_def execution_row_of_def)
  from observations_apply_once_in_order [OF this sample_commit_run] show ?thesis by simp
qed

theorem session_triggers_job_once_witness:
  "length (filter (claims_of ''backup'') [SessionClaimed ''backup'' ''s'']) \<le> 1"
  by (rule session_triggers_job_once [OF empty_database_ok sample_storage_run, of "''s''"])
    (simp add: sample_statements_def)

theorem reload_replaces_definitions_witness:
  "\<exists>db'. replace_definitions (sample_database 0) [2] [] = Inr (db', True) \<and> accepted db' ''backup'' = None \<and>
     history db' ''backup'' = Some (True, ''s'', [])"
proof -
  have ok: "db_ok (sample_database 0)"
    by (simp add: db_ok_def sample_database_def sample_row_def kind_ok_def row_ok_def btree_ok_def)
  have "\<exists>db'. replace_definitions (sample_database 0) [2] [] = Inr (db', True)"
    by (simp add: replace_definitions_def sample_database_def)
  then obtain db' where db': "replace_definitions (sample_database 0) [2] [] = Inr (db', True)" ..
  have "history (sample_database 0) ''backup'' = Some (True, ''s'', [])"
    by (simp add: history_def sample_database_def row_history_def)
  with reload_replaces_definitions [OF ok db'] db' show ?thesis by simp
qed

end
