(* ===== verification/Run_Monad.thy ===== *)
theory Run_Monad
  imports Prelude
begin

text \<open>
  Computations of a process that may fail or be cut short: a function from a state to an
  outcome and a state. \<open>Pending\<close> is a computation whose input ended: it still waits, or the
  process was killed. The state is kept in every case, since what was written stays written.
  \<open>triple P m Q E\<close> is the Hoare triple of such a computation: \<open>Q\<close> holds of its result, \<open>E\<close> of
  the state in which it failed or was cut short.
\<close>

datatype ('e, 'a) outcome = Done 'a | Failed 'e | Pending

type_synonym ('s, 'e, 'a) process = "'s \<Rightarrow> ('e, 'a) outcome \<times> 's"

definition ret :: "'a \<Rightarrow> ('s, 'e, 'a) process" where
  "ret x s = (Done x, s)"

definition throw :: "'e \<Rightarrow> ('s, 'e, 'a) process" where
  "throw e s = (Failed e, s)"

definition pending :: "('s, 'e, 'a) process" where
  "pending s = (Pending, s)"

definition gets :: "('s \<Rightarrow> 'a) \<Rightarrow> ('s, 'e, 'a) process" where
  "gets f s = (Done (f s), s)"

definition modify :: "('s \<Rightarrow> 's) \<Rightarrow> ('s, 'e, unit) process" where
  "modify f s = (Done (), f s)"

definition bind :: "('s, 'e, 'a) process \<Rightarrow> ('a \<Rightarrow> ('s, 'e, 'b) process) \<Rightarrow> ('s, 'e, 'b) process" where
  "bind m f s = (case m s of
     (Done x, s') \<Rightarrow> f x s'
   | (Failed e, s') \<Rightarrow> (Failed e, s')
   | (Pending, s') \<Rightarrow> (Pending, s'))"

definition lift_result :: "'e + 'a \<Rightarrow> ('s, 'e, 'a) process" where
  "lift_result r = (case r of Inl e \<Rightarrow> throw e | Inr x \<Rightarrow> ret x)"

text \<open>\<open>m\<close>, with its failure as a value: a call whose error the caller handles.\<close>

definition attempt_of :: "('s, 'e, 'a) process \<Rightarrow> ('s, 'e, 'e + 'a) process" where
  "attempt_of m s = (case m s of
     (Done x, s') \<Rightarrow> (Done (Inr x), s')
   | (Failed e, s') \<Rightarrow> (Done (Inl e), s')
   | (Pending, s') \<Rightarrow> (Pending, s'))"

lemmas process_defs = ret_def throw_def pending_def gets_def modify_def bind_def lift_result_def attempt_of_def

section \<open>Triples\<close>

definition triple :: "('s \<Rightarrow> bool) \<Rightarrow> ('s, 'e, 'a) process \<Rightarrow> ('a \<Rightarrow> 's \<Rightarrow> bool) \<Rightarrow> ('s \<Rightarrow> bool) \<Rightarrow> bool" where
  "triple P m Q E \<longleftrightarrow> (\<forall>s. P s \<longrightarrow> (case m s of
     (Done x, s') \<Rightarrow> Q x s'
   | (Failed e, s') \<Rightarrow> E s'
   | (Pending, s') \<Rightarrow> E s'))"

named_theorems wp \<open>backward rules for triples\<close>

lemma triple_Done: "triple P m Q E \<Longrightarrow> P s \<Longrightarrow> m s = (Done x, s') \<Longrightarrow> Q x s'"
  by (auto simp: triple_def dest: spec [of _ s])

lemma triple_state:
  assumes "triple P m Q E" and "P s" and "\<And>x s'. Q x s' \<Longrightarrow> E s'"
  shows "E (snd (m s))"
proof -
  obtain r t where m: "m s = (r, t)" by fastforce
  have "case m s of (Done x, s') \<Rightarrow> Q x s' | (Failed e, s') \<Rightarrow> E s' | (Pending, s') \<Rightarrow> E s'"
    using assms(1,2) by (simp add: triple_def)
  then show ?thesis using m assms(3) by (cases r) auto
qed

lemma triple_weaken:
  assumes "triple P' m Q' E" and "\<And>s. P s \<Longrightarrow> P' s" and "\<And>x s. Q' x s \<Longrightarrow> Q x s"
  shows "triple P m Q E"
  using assms by (fastforce simp: triple_def split: prod.splits outcome.splits)

lemma triple_pre: "triple P' m Q E \<Longrightarrow> (\<And>s. P s \<Longrightarrow> P' s) \<Longrightarrow> triple P m Q E"
  by (rule triple_weaken)

lemma triple_ret [wp]: "triple (Q x) (ret x) Q E"
  by (simp add: triple_def ret_def)

lemma triple_throw [wp]: "triple E (throw e) Q E"
  by (simp add: triple_def throw_def)

lemma triple_pending [wp]: "triple E pending Q E"
  by (simp add: triple_def pending_def)

lemma triple_gets [wp]: "triple (\<lambda>s. Q (f s) s) (gets f) Q E"
  by (simp add: triple_def gets_def)

lemma triple_modify [wp]: "triple (\<lambda>s. Q () (f s)) (modify f) Q E"
  by (simp add: triple_def modify_def)

lemma triple_bind:
  assumes "triple P m R E" and "\<And>x. triple (R x) (f x) Q E"
  shows "triple P (bind m f) Q E"
  unfolding triple_def
proof (intro allI impI)
  fix s
  assume P: "P s"
  obtain r t where m: "m s = (r, t)" by fastforce
  show "case bind m f s of (Done x, s') \<Rightarrow> Q x s' | (Failed e, s') \<Rightarrow> E s' | (Pending, s') \<Rightarrow> E s'"
  proof (cases r)
    case (Done x)
    then have "R x t" using triple_Done [OF assms(1) P] m by simp
    then show ?thesis using assms(2) [of x] m Done by (simp add: bind_def triple_def)
  next
    case (Failed e)
    then have "E t" using assms(1) P m by (fastforce simp: triple_def)
    then show ?thesis using m Failed by (simp add: bind_def)
  next
    case Pending
    then have "E t" using assms(1) P m by (fastforce simp: triple_def)
    then show ?thesis using m Pending by (simp add: bind_def)
  qed
qed

lemma triple_lift_result [wp]:
  "triple (\<lambda>s. case r of Inl e \<Rightarrow> E s | Inr x \<Rightarrow> Q x s) (lift_result r) Q E"
  by (simp add: triple_def lift_result_def throw_def ret_def split: sum.split)

lemma triple_attempt_of:
  assumes "triple P m (\<lambda>x. Q (Inr x)) E" and "\<And>e s. E s \<Longrightarrow> Q (Inl e) s"
  shows "triple P (attempt_of m) Q E"
  using assms by (fastforce simp: triple_def attempt_of_def split: prod.splits outcome.splits)

lemma triple_if [wp]:
  assumes "b \<Longrightarrow> triple P m Q E" and "\<not> b \<Longrightarrow> triple R n Q E"
  shows "triple (\<lambda>s. if b then P s else R s) (if b then m else n) Q E"
  using assms by (cases b) (simp_all add: triple_def)

text \<open>The shapes in which the runs use them.\<close>

lemma triple_conseq:
  assumes "triple P' m Q' E'" and "\<And>s. P s \<Longrightarrow> P' s" and "\<And>x s. Q' x s \<Longrightarrow> Q x s"
    and "\<And>s. E' s \<Longrightarrow> E s"
  shows "triple P m Q E"
  unfolding triple_def
proof (intro allI impI)
  fix s
  assume "P s"
  then have "case m s of (Done x, s') \<Rightarrow> Q' x s' | (Failed e, s') \<Rightarrow> E' s' | (Pending, s') \<Rightarrow> E' s'"
    using assms(1,2) by (simp add: triple_def)
  then show "case m s of (Done x, s') \<Rightarrow> Q x s' | (Failed e, s') \<Rightarrow> E s' | (Pending, s') \<Rightarrow> E s'"
    using assms(3,4) by (auto split: prod.splits outcome.splits)
qed

lemma triple_bind_gets:
  assumes "\<And>x. triple (\<lambda>s. P s \<and> f s = x) (g x) Q E"
  shows "triple P (bind (gets f) g) Q E"
  using assms by (simp add: triple_def bind_def gets_def)

lemma triple_bind_unit:
  assumes "triple P m (\<lambda>_. R) E" and "triple R n Q E"
  shows "triple P (bind m (\<lambda>_. n)) Q E"
  using assms by (rule triple_bind)

lemma triple_return: "(\<And>s. P s \<Longrightarrow> Q x s) \<Longrightarrow> triple P (ret x) Q E"
  by (rule triple_pre [OF triple_ret])

lemma triple_fail: "(\<And>s. P s \<Longrightarrow> E s) \<Longrightarrow> triple P (throw e) Q E"
  by (rule triple_pre [OF triple_throw])

lemma triple_wait: "(\<And>s. P s \<Longrightarrow> E s) \<Longrightarrow> triple P pending Q E"
  by (rule triple_pre [OF triple_pending])

lemma triple_drop: "triple P m Q E \<Longrightarrow> triple (\<lambda>s. P s \<and> b s) m Q E"
  by (auto simp: triple_def)

lemma triple_bind_any:
  assumes "\<And>x. triple P (g x) Q E"
  shows "triple P (bind (gets f) g) Q E"
  by (rule triple_bind_gets, rule triple_drop, rule assms)

lemma triple_disj:
  assumes "triple P m Q E" and "triple P' m Q E"
  shows "triple (\<lambda>s. P s \<or> P' s) m Q E"
  using assms by (auto simp: triple_def)

lemma triple_prem:
  assumes "b \<Longrightarrow> triple P m Q E"
  shows "triple (\<lambda>s. P s \<and> b) m Q E"
  using assms by (auto simp: triple_def)

lemma triple_conj:
  assumes "triple P m Q E" and "triple P' m Q' E'"
  shows "triple (\<lambda>s. P s \<and> P' s) m (\<lambda>x s. Q x s \<and> Q' x s) (\<lambda>s. E s \<and> E' s)"
  using assms by (fastforce simp: triple_def split: prod.splits outcome.splits)

lemma triple_read:
  assumes "\<And>s. P s \<Longrightarrow> triple P (g s) Q E"
  shows "triple P (bind (gets (\<lambda>s. s)) g) Q E"
  using assms by (fastforce simp: triple_def bind_def gets_def)

lemma triple_observe:
  assumes "\<And>s. P s \<Longrightarrow> triple P (g (f s)) Q E"
  shows "triple P (bind (gets f) g) Q E"
  using assms by (fastforce simp: triple_def bind_def gets_def)

lemma triple_cond:
  assumes "b \<Longrightarrow> triple P m Q E" and "\<not> b \<Longrightarrow> triple P n Q E"
  shows "triple P (if b then m else n) Q E"
  using assms by simp

lemma triple_option:
  assumes "x = None \<Longrightarrow> triple P m Q E" and "\<And>y. x = Some y \<Longrightarrow> triple P (f y) Q E"
  shows "triple P (case x of None \<Rightarrow> m | Some y \<Rightarrow> f y) Q E"
  using assms by (cases x) simp_all

lemma triple_sum:
  assumes "\<And>e. x = Inl e \<Longrightarrow> triple P (g e) Q E" and "\<And>y. x = Inr y \<Longrightarrow> triple P (f y) Q E"
  shows "triple P (case x of Inl e \<Rightarrow> g e | Inr y \<Rightarrow> f y) Q E"
  using assms by (cases x) simp_all

lemma triple_prod:
  assumes "\<And>a b. y = (a, b) \<Longrightarrow> triple P (f a b) Q E"
  shows "triple P (case y of (a, b) \<Rightarrow> f a b) Q E"
  using assms by (cases y) simp

end
