(* ===== verification/Runtime_Journal.thy ===== *)
theory Runtime_Journal
  imports Prefix_Code
begin

text \<open>
  The write-ahead journal of a supervisor (\<open>RuntimeJournal\<close>, the second half of
  \<open>crates/supervisor/src/journal.rs\<close>; the messages are those of
  \<open>crates/protocol/proto/susm/runtime/v1/runtime.proto\<close>). The protobuf encoding of a frame and
  CRC-32C come from other packages: they are the parameter \<open>codec\<close>. Lock poisoning and the
  failure of a file operation are not modelled; a crash may cut the last append short.
\<close>

section \<open>Frames\<close>

record environment_value =
  ev_name :: string
  ev_value :: string

record checkpoint =
  cp_manager_session_id :: string
  cp_workload_id :: string
  cp_execution_id :: string
  cp_supervisor_id :: string
  cp_incarnation :: u32
  cp_execution_config_hash :: "u8 list"
  cp_attempt :: u32
  cp_phase :: string
  cp_last_sequence :: u64
  cp_committed_sequence :: u64
  cp_retry_at_unix_ms :: int
  cp_resolved_executable :: string
  cp_resolved_working_directory :: string
  cp_resolved_environment :: "environment_value list"

record runtime_observation =
  ro_sequence :: u64
  ro_kind :: string
  ro_attempt :: u32
  ro_exit_code :: "u32 option"
  ro_detail :: string
  ro_observed_unix_ms :: int
  ro_terminal :: bool
  ro_workload_process_id :: u32

datatype runtime_record =
    RecCheckpoint checkpoint
  | RecObservation runtime_observation
  | RecAcknowledgement u64

record runtime_frame =
  rf_format :: u32
  rf_record :: "runtime_record option"

record codec =
  encode_to_vec :: "runtime_frame \<Rightarrow> u8 list"
  decode_frame :: "u8 list \<Rightarrow> runtime_frame option"
  crc32c :: "u8 list \<Rightarrow> u32"

definition max_runtime_frame_bytes :: nat where
  "max_runtime_frame_bytes = 4 * 1024 * 1024"

datatype journal_error =
    FrameExceedsLimit
  | ChecksumMismatch
  | DecodeFailed
  | UnsupportedFrame
  | Finalized

section \<open>Reading\<close>

text \<open>
  \<open>bytes\<close> is the file from \<open>offset\<close> on. The offsets cannot overflow: a length is at most
  4 MiB.
\<close>

function read_runtime_frames :: "codec \<Rightarrow> u8 list \<Rightarrow> journal_error + runtime_frame list" where
  "read_runtime_frames c bytes =
     (if length bytes < 4 then Inr []
      else
        (let len = le_value (take 4 bytes); body = drop 4 bytes in
         if max_runtime_frame_bytes < len then Inl FrameExceedsLimit
         else if length body < len + 4 then Inr []
         else
           (let payload = take len body; expected = take 4 (drop len body) in
            if unat (crc32c c payload) \<noteq> le_value expected then Inl ChecksumMismatch
            else
              (case decode_frame c payload of
                 None \<Rightarrow> Inl DecodeFailed
               | Some f \<Rightarrow>
                   if rf_format f \<noteq> 1 \<or> rf_record f = None then Inl UnsupportedFrame
                   else
                     and_then (read_runtime_frames c (drop (len + 4) body)) (\<lambda>fs. Inr (f # fs))))))"
  by pat_completeness auto

termination by (relation "measure (\<lambda>(c, bytes). length bytes)") auto

declare read_runtime_frames.simps [simp del]

section \<open>The journal\<close>

text \<open>\<open>rj_disk\<close> is the content of the file, \<open>rj_open\<close> whether the handle is still there.\<close>

record runtime_journal =
  rj_disk :: "u8 list"
  rj_open :: bool
  rj_frames :: "runtime_frame list"

definition journal_open :: "codec \<Rightarrow> u8 list \<Rightarrow> journal_error + runtime_journal" where
  "journal_open c disk =
     and_then (read_runtime_frames c disk)
       (\<lambda>frames. Inr \<lparr>rj_disk = disk, rj_open = True, rj_frames = frames\<rparr>)"

definition frame_bytes :: "codec \<Rightarrow> runtime_frame \<Rightarrow> u8 list" where
  "frame_bytes c f =
     (let payload = encode_to_vec c f in
      le_bytes 4 (length payload) @ payload @ le_bytes 4 (unat (crc32c c payload)))"

definition journal_append :: "codec \<Rightarrow> runtime_journal \<Rightarrow> runtime_frame \<Rightarrow> journal_error + runtime_journal" where
  "journal_append c j f =
     (if max_runtime_frame_bytes < length (encode_to_vec c f) then Inl FrameExceedsLimit
      else if \<not> rj_open j then Inl Finalized
      else Inr (j\<lparr>rj_disk := rj_disk j @ frame_bytes c f, rj_frames := rj_frames j @ [f]\<rparr>))"

definition append_checkpoint :: "codec \<Rightarrow> runtime_journal \<Rightarrow> checkpoint \<Rightarrow> journal_error + runtime_journal" where
  "append_checkpoint c j cp = journal_append c j \<lparr>rf_format = 1, rf_record = Some (RecCheckpoint cp)\<rparr>"

definition append_observation ::
  "codec \<Rightarrow> runtime_journal \<Rightarrow> runtime_observation \<Rightarrow> journal_error + runtime_journal"
where
  "append_observation c j ob = journal_append c j \<lparr>rf_format = 1, rf_record = Some (RecObservation ob)\<rparr>"

definition acknowledge :: "codec \<Rightarrow> runtime_journal \<Rightarrow> u64 \<Rightarrow> journal_error + runtime_journal" where
  "acknowledge c j committed = journal_append c j \<lparr>rf_format = 1, rf_record = Some (RecAcknowledgement committed)\<rparr>"

definition finalize :: "runtime_journal \<Rightarrow> runtime_journal" where
  "finalize j = j\<lparr>rj_open := False\<rparr>"

section \<open>What a new supervisor recovers\<close>

record runtime_recovery =
  rr_checkpoint :: "checkpoint option"
  rr_last_sequence :: u64
  rr_committed_sequence :: u64

fun find_map :: "('a \<Rightarrow> 'b option) \<Rightarrow> 'a list \<Rightarrow> 'b option" where
  "find_map f [] = None"
| "find_map f (x # xs) = (case f x of Some y \<Rightarrow> Some y | None \<Rightarrow> find_map f xs)"

fun frame_checkpoint :: "runtime_record option \<Rightarrow> checkpoint option" where
  "frame_checkpoint (Some (RecCheckpoint cp)) = Some cp"
| "frame_checkpoint _ = None"

fun frame_sequence :: "runtime_record option \<Rightarrow> u64 option" where
  "frame_sequence (Some (RecObservation ob)) = Some (ro_sequence ob)"
| "frame_sequence _ = None"

fun frame_committed :: "runtime_record option \<Rightarrow> u64 option" where
  "frame_committed (Some (RecAcknowledgement committed)) = Some committed"
| "frame_committed (Some (RecCheckpoint cp)) = Some (cp_committed_sequence cp)"
| "frame_committed _ = None"

fun frame_observation :: "runtime_record option \<Rightarrow> runtime_observation option" where
  "frame_observation (Some (RecObservation ob)) = Some ob"
| "frame_observation _ = None"

text \<open>\<open>max().unwrap_or(0)\<close>: zero is the least element.\<close>

definition max_or_zero :: "u64 list \<Rightarrow> u64" where
  "max_or_zero xs = foldr max xs 0"

definition recovery :: "runtime_journal \<Rightarrow> runtime_recovery" where
  "recovery j = \<lparr>
     rr_checkpoint = find_map (frame_checkpoint \<circ> rf_record) (rev (rj_frames j)),
     rr_last_sequence = max_or_zero (List.map_filter (frame_sequence \<circ> rf_record) (rj_frames j)),
     rr_committed_sequence = max_or_zero (List.map_filter (frame_committed \<circ> rf_record) (rj_frames j))\<rparr>"

definition observations_after :: "runtime_journal \<Rightarrow> u64 \<Rightarrow> runtime_observation list" where
  "observations_after j sequence =
     filter (\<lambda>ob. sequence < ro_sequence ob) (List.map_filter (frame_observation \<circ> rf_record) (rj_frames j))"

section \<open>Reading back what was appended\<close>

text \<open>
  The frames the supervisor appends: they fit, have the format and a record, and the decoder
  reads back what the encoder wrote, which is what the code relies on.
\<close>

definition frame_ok :: "codec \<Rightarrow> runtime_frame \<Rightarrow> bool" where
  "frame_ok c f \<longleftrightarrow> decode_frame c (encode_to_vec c f) = Some f \<and>
     length (encode_to_vec c f) \<le> max_runtime_frame_bytes \<and> rf_format f = 1 \<and> rf_record f \<noteq> None"

lemma length_frame_bytes: "length (frame_bytes c f) = 8 + length (encode_to_vec c f)"
  by (simp add: frame_bytes_def Let_def)

lemma small_le_value: "n \<le> max_runtime_frame_bytes \<Longrightarrow> le_value (le_bytes 4 n) = n"
  by (rule le_value_le_bytes) (simp add: max_runtime_frame_bytes_def)

lemma crc_le_value: "le_value (le_bytes 4 (unat (crc :: u32))) = unat crc"
  by (rule le_value_le_bytes) (use unat_u32_less [of crc] in simp)

lemma read_frame:
  assumes "frame_ok c f"
  shows "read_runtime_frames c (frame_bytes c f @ rest) =
    and_then (read_runtime_frames c rest) (\<lambda>fs. Inr (f # fs))"
  using assms
  by (subst read_runtime_frames.simps)
    (auto simp: frame_bytes_def Let_def frame_ok_def small_le_value crc_le_value)

lemma read_frames:
  assumes "list_all (frame_ok c) fs"
  shows "read_runtime_frames c (concat (map (frame_bytes c) fs) @ rest) =
    and_then (read_runtime_frames c rest) (\<lambda>gs. Inr (fs @ gs))"
  using assms
proof (induction fs)
  case Nil
  then show ?case by (cases "read_runtime_frames c rest") simp_all
next
  case (Cons f fs)
  then show ?case
    by (cases "read_runtime_frames c rest") (simp_all add: read_frame)
qed

text \<open>A frame cut short is the end of the journal.\<close>

lemma read_torn:
  assumes "frame_ok c f" and "k < length (frame_bytes c f)"
  shows "read_runtime_frames c (take k (frame_bytes c f)) = Inr []"
proof (cases "k < 4")
  case True
  then show ?thesis by (subst read_runtime_frames.simps) (simp add: min_def)
next
  case False
  then show ?thesis using assms
    by (subst read_runtime_frames.simps)
      (auto simp: frame_bytes_def Let_def frame_ok_def small_le_value min_def)
qed

text \<open>
  C15. A journal opened on whole frames and then cut in its last append
  by a crash recovers every earlier frame, and only those: no frame is lost, and the torn one
  is dropped without an error.
\<close>

theorem runtime_journal_recovers:
  assumes "list_all (frame_ok c) fs" and "frame_ok c f" and "k \<le> length (frame_bytes c f)"
  shows "journal_open c (concat (map (frame_bytes c) fs) @ take k (frame_bytes c f)) =
    Inr \<lparr>rj_disk = concat (map (frame_bytes c) fs) @ take k (frame_bytes c f), rj_open = True,
      rj_frames = fs @ (if k < length (frame_bytes c f) then [] else [f])\<rparr>"
proof -
  have "read_runtime_frames c (take k (frame_bytes c f)) =
      Inr (if k < length (frame_bytes c f) then [] else [f])"
    using read_torn [OF assms(2), of k] read_frame [OF assms(2), of "[]"] assms(3)
    by (auto simp: read_runtime_frames.simps [of c "[]"])
  then show ?thesis by (simp add: journal_open_def read_frames [OF assms(1)])
qed

text \<open>
  The samples are observations that differ in their sequence alone, so a codec for them writes
  the sequence in eight bytes.
\<close>

definition sample_observation :: "u64 \<Rightarrow> runtime_observation" where
  "sample_observation n = \<lparr>ro_sequence = n, ro_kind = ''attempt-started'', ro_attempt = 1,
     ro_exit_code = None, ro_detail = [], ro_observed_unix_ms = 0, ro_terminal = False,
     ro_workload_process_id = 9\<rparr>"

definition sample_frame :: "u64 \<Rightarrow> runtime_frame" where
  "sample_frame n = \<lparr>rf_format = 1, rf_record = Some (RecObservation (sample_observation n))\<rparr>"

definition sample_codec :: codec where
  "sample_codec = \<lparr>encode_to_vec = (\<lambda>f. case frame_sequence (rf_record f) of
       Some n \<Rightarrow> le_bytes 8 (unat n) | None \<Rightarrow> []),
     decode_frame = (\<lambda>bs. Some (sample_frame (word_of_nat (le_value bs)))),
     crc32c = (\<lambda>bs. word_of_nat (sum_list (map unat bs)))\<rparr>"

lemma sample_frame_ok [simp]: "frame_ok sample_codec (sample_frame n)"
proof -
  have "le_value (le_bytes 8 (unat n)) = unat n"
    by (rule le_value_le_bytes) (use unat_u64_less [of n] in simp)
  then show ?thesis
    by (simp add: frame_ok_def sample_codec_def sample_frame_def sample_observation_def
        max_runtime_frame_bytes_def)
qed

lemma length_sample_frame [simp]: "length (frame_bytes sample_codec (sample_frame n)) = 16"
  by (simp add: length_frame_bytes sample_codec_def sample_frame_def sample_observation_def)

theorem runtime_journal_recovers_witness:
  "map_option rj_frames (case journal_open sample_codec
      (frame_bytes sample_codec (sample_frame 1) @ take 15 (frame_bytes sample_codec (sample_frame 2))) of
    Inr j \<Rightarrow> Some j | Inl _ \<Rightarrow> None) = Some [sample_frame 1]"
  using runtime_journal_recovers [of sample_codec "[sample_frame 1]" "sample_frame 2" 15] by simp

section \<open>Appending after a torn tail\<close>

text \<open>
  Recovery ignores a torn tail but leaves it in the file, and the
  next append goes behind it. The reader then takes the new frame for the rest of the torn
  one: while the torn frame is still incomplete the acknowledged append is lost without an
  error, and once it is complete the journal no longer opens, unless the checksum of the
  spliced bytes happens to match.
\<close>

theorem append_after_torn_tail:
  assumes "list_all (frame_ok c) fs" and "frame_ok c f" and "frame_ok c g"
    and "4 \<le> k" and "k < length (frame_bytes c f)"
    and "spliced = drop 4 (take k (frame_bytes c f) @ frame_bytes c g)"
    and "n = length (encode_to_vec c f)"
    and "unat (crc32c c (take n spliced)) \<noteq> le_value (take 4 (drop n spliced))"
  shows "\<exists>j j'. journal_open c (concat (map (frame_bytes c) fs) @ take k (frame_bytes c f)) = Inr j \<and>
    journal_append c j g = Inr j' \<and> rj_frames j' = fs @ [g] \<and>
    and_then (journal_open c (rj_disk j')) (\<lambda>j. Inr (rj_frames j)) =
      (if length spliced < n + 4 then Inr fs else Inl ChecksumMismatch)"
proof -
  let ?torn = "take k (frame_bytes c f)"
  have disk: "?torn @ frame_bytes c g = le_bytes 4 n @ spliced"
    using assms(4,5) by (simp add: assms(6,7) frame_bytes_def Let_def)
  have small: "n \<le> max_runtime_frame_bytes" using assms(2,7) by (simp add: frame_ok_def)
  have "read_runtime_frames c (le_bytes 4 n @ spliced) =
      (if length spliced < n + 4 then Inr [] else Inl ChecksumMismatch)"
    using assms(8) small by (subst read_runtime_frames.simps) (simp add: small_le_value Let_def)
  then have "read_runtime_frames c (concat (map (frame_bytes c) fs) @ ?torn @ frame_bytes c g) =
      (if length spliced < n + 4 then Inr fs else Inl ChecksumMismatch)"
    unfolding disk by (simp add: read_frames [OF assms(1)])
  moreover have "read_runtime_frames c (concat (map (frame_bytes c) fs) @ ?torn) = Inr fs"
    using assms(5) by (simp add: read_frames [OF assms(1)] read_torn [OF assms(2)])
  moreover have "length (encode_to_vec c g) \<le> max_runtime_frame_bytes"
    using assms(3) by (simp add: frame_ok_def)
  ultimately show ?thesis by (simp add: journal_open_def journal_append_def)
qed

lemma le_bytes_numeral:
  "le_bytes (numeral k) v = word_of_nat (v mod 256) # le_bytes (pred_numeral k) (v div 256)"
  by (subst numeral_eq_Suc) (rule le_bytes.simps(2))

lemma sample_payload:
  "encode_to_vec sample_codec (sample_frame 2) = [2, 0, 0, 0, 0, 0, 0, 0]"
  "encode_to_vec sample_codec (sample_frame 3) = [3, 0, 0, 0, 0, 0, 0, 0]"
  by (simp_all add: sample_codec_def sample_frame_def sample_observation_def le_bytes_numeral)

lemma sample_frame_bytes:
  "frame_bytes sample_codec (sample_frame 2) = [8, 0, 0, 0, 2, 0, 0, 0, 0, 0, 0, 0, 2, 0, 0, 0]"
  "frame_bytes sample_codec (sample_frame 3) = [8, 0, 0, 0, 3, 0, 0, 0, 0, 0, 0, 0, 3, 0, 0, 0]"
  by (simp_all add: frame_bytes_def sample_payload le_bytes_numeral) (simp_all add: sample_codec_def)

theorem append_after_torn_tail_witness:
  "\<exists>j j'. journal_open sample_codec (take 15 (frame_bytes sample_codec (sample_frame 2))) = Inr j \<and>
     journal_append sample_codec j (sample_frame 3) = Inr j' \<and> rj_frames j' = [sample_frame 3] \<and>
     and_then (journal_open sample_codec (rj_disk j')) (\<lambda>j. Inr (rj_frames j)) = Inl ChecksumMismatch"
proof -
  show ?thesis
    using append_after_torn_tail [of sample_codec "[]" "sample_frame 2" "sample_frame 3" 15, OF _ _ _ _ _ refl refl]
    by (simp add: sample_frame_bytes sample_payload) (simp add: sample_codec_def)
qed

end
