(* ===== verification/Supervisor_Messages.thy ===== *)
theory Supervisor_Messages
  imports Runtime_Journal
begin

text \<open>
  The messages between the controller and its supervisors
  (\<open>crates/protocol/proto/susm/supervisor/v1/supervisor.proto\<close>), and the application of a policy
  update to a configuration, which both sides share.
\<close>

record execution_configuration =
  ec_workload_id :: string
  ec_execution_id :: string
  ec_attempt :: u32
  ec_kind :: string
  ec_executable :: string
  ec_arguments :: "string list"
  ec_working_directory :: string
  ec_environment_set :: "environment_value list"
  ec_environment_unset :: "string list"
  ec_success_exit_codes :: "u32 list"
  ec_stop_method :: string
  ec_stop_timeout_ms :: u64
  ec_stop_executable :: string
  ec_stop_arguments :: "string list"
  ec_capture_logs :: bool
  ec_segment_size :: u64
  ec_segment_age_ms :: u64
  ec_retention_size :: u64
  ec_retention_size_unlimited :: bool
  ec_retention_age_ms :: u64
  ec_retention_age_unlimited :: bool
  ec_log_directory :: string
  ec_runtime_journal :: string
  ec_result_file :: string
  ec_restart_policy :: string
  ec_max_restarts :: u32
  ec_max_restarts_unlimited :: bool
  ec_restart_reset_after_ms :: u64
  ec_restart_backoff_initial_ms :: u64
  ec_restart_backoff_multiplier :: u32
  ec_restart_backoff_maximum_ms :: u64
  ec_execution_config_hash :: "u8 list"
  ec_manager_session_id :: string
  ec_process_definition_hash :: "u8 list"
  ec_supervisor_executable :: string
  ec_version_pin :: string

record policy_update =
  pu_success_exit_codes :: "u32 list"
  pu_restart_policy :: string
  pu_max_restarts :: u32
  pu_max_restarts_unlimited :: bool
  pu_restart_reset_after_ms :: u64
  pu_restart_backoff_initial_ms :: u64
  pu_restart_backoff_multiplier :: u32
  pu_restart_backoff_maximum_ms :: u64
  pu_stop_method :: string
  pu_stop_timeout_ms :: u64
  pu_stop_executable :: string
  pu_stop_arguments :: "string list"
  pu_capture_logs :: bool
  pu_segment_size :: u64
  pu_segment_age_ms :: u64
  pu_retention_size :: u64
  pu_retention_size_unlimited :: bool
  pu_retention_age_ms :: u64
  pu_retention_age_unlimited :: bool
  pu_policy_hash :: "u8 list"

record attempt_result =
  ar_launched :: bool
  ar_exit_code :: "u32 option"
  ar_error :: string
  ar_started_unix_ms :: int
  ar_ended_unix_ms :: int
  ar_stop_requested :: bool
  ar_forced :: bool
  ar_outcome :: string

end
