(* ===== verification/Preflight.thy ===== *)
theory Preflight
  imports Supervisor_Messages Btree Bytes
begin

text \<open>
  What a supervisor works out before it launches an attempt
  (\<open>preflight_configuration\<close>, \<open>recovered_preflight\<close>, \<open>expand\<close> and \<open>resolve_executable\<close> in
  \<open>crates/supervisor/src/runner.rs\<close>): the executable, the working directory and the environment.
  A path is its text. Windows' path syntax, the file system and the upper-casing of Unicode
  text are the parameter \<open>platform\<close>.
\<close>

section \<open>Errors\<close>

datatype run_error =
    RunIo string string
  | SpecTooLarge
  | SpecDecode string
  | PreflightError string
  | RunWindows string
  | RunProcess string
  | RunSessionEvent string

fun run_error_str :: "run_error \<Rightarrow> string" where
  "run_error_str (RunIo path source) = ''cannot access '' @ path @ '': '' @ source"
| "run_error_str SpecTooLarge = ''execution snapshot exceeds 4 MiB''"
| "run_error_str (SpecDecode e) = ''invalid execution snapshot: '' @ e"
| "run_error_str (PreflightError e) = ''preflight failed: '' @ e"
| "run_error_str (RunWindows e) = ''Windows process isolation failed: '' @ e"
| "run_error_str (RunProcess e) = ''process launch failed: '' @ e"
| "run_error_str (RunSessionEvent e) = ''manager-session ending event failed: '' @ e"

record platform =
  is_absolute :: "string \<Rightarrow> bool"
  is_dir :: "string \<Rightarrow> bool"
  is_file :: "string \<Rightarrow> bool"
  component_count :: "string \<Rightarrow> nat"
  has_extension :: "string \<Rightarrow> bool"
  join_path :: "string \<Rightarrow> string \<Rightarrow> string"
  parent_path :: "string \<Rightarrow> string option"
  split_paths :: "string \<Rightarrow> string list"
  to_uppercase :: "string \<Rightarrow> string"

type_synonym environment = "(string, string) btree"

definition btree_remove :: "'k \<Rightarrow> ('k, 'v) btree \<Rightarrow> ('k, 'v) btree" where
  "btree_remove k t = filter (\<lambda>(k', _). k' \<noteq> k) t"

section \<open>Interpolation\<close>

text \<open>\<open>split_once c s\<close>: the text before and after the first \<open>c\<close>, as \<open>find\<close> and slicing give it.\<close>

fun split_once :: "char \<Rightarrow> string \<Rightarrow> (string \<times> string) option" where
  "split_once c [] = None"
| "split_once c (x # xs) =
     (if x = c then Some ([], xs)
      else map_option (\<lambda>(before, after). (x # before, after)) (split_once c xs))"

lemma split_once_Some: "split_once c s = Some (before, after) \<longleftrightarrow> s = before @ c # after \<and> c \<notin> set before"
proof (induction s arbitrary: before)
  case (Cons x xs)
  then show ?case by (cases before) auto
qed simp

lemma split_once_None: "split_once c s = None \<longleftrightarrow> c \<notin> set s"
  by (induction s) auto

text \<open>
  The loop of \<open>expand\<close>: \<open>rest\<close> is the text not yet read; the result is what the loop and the
  final \<open>push_str\<close> append to \<open>output\<close>.
\<close>

function expand :: "platform \<Rightarrow> environment \<Rightarrow> string \<Rightarrow> run_error + string" where
  "expand p env rest =
     (case split_once (CHR ''$'') rest of
        None \<Rightarrow> Inr rest
      | Some (before, rest) \<Rightarrow>
          (if rest \<noteq> [] \<and> hd rest = CHR ''$''
           then and_then (expand p env (tl rest)) (\<lambda>out. Inr (before @ ''$'' @ out))
           else if rest \<noteq> [] \<and> hd rest = CHR ''{''
           then
             (case split_once (CHR ''}'') (tl rest) of
                None \<Rightarrow> Inl (PreflightError ''unterminated environment reference'')
              | Some (name, after) \<Rightarrow>
                  (case map_of env (to_uppercase p name) of
                     None \<Rightarrow> Inl (PreflightError (''environment variable is missing: '' @ name))
                   | Some replacement \<Rightarrow>
                       and_then (expand p env after) (\<lambda>out. Inr (before @ replacement @ out))))
           else Inl (PreflightError (''a single '' @ [CHR 0x27] @ ''$'' @ [CHR 0x27] @ '' is not a valid interpolation''))))"
  by pat_completeness auto

termination
  by (relation "measure (\<lambda>(p, env, rest). length rest)") (auto simp: split_once_Some neq_Nil_conv)

declare expand.simps [simp del]

section \<open>Executables\<close>

fun search_path :: "platform \<Rightarrow> string \<Rightarrow> string \<Rightarrow> string list \<Rightarrow> string option" where
  "search_path p value_text working_directory [] = None"
| "search_path p value_text working_directory (d # ds) =
     (let d = (if is_absolute p d then d else join_path p working_directory d);
          exact = join_path p d value_text;
          executable = join_path p d (value_text @ ''.exe'')
      in if is_file p exact then Some exact
         else if \<not> has_extension p value_text \<and> is_file p executable then Some executable
         else search_path p value_text working_directory ds)"

definition resolve_executable :: "platform \<Rightarrow> string \<Rightarrow> string \<Rightarrow> environment \<Rightarrow> run_error + string" where
  "resolve_executable p value_text working_directory env =
     (if 1 < component_count p value_text
      then if is_absolute p value_text \<and> is_file p value_text then Inr value_text
        else Inl (PreflightError (''executable is not an existing absolute file: '' @ value_text))
      else
        and_then (ok_or (PreflightError ''PATH is missing'') (map_of env ''PATH'')) (\<lambda>path_value.
          ok_or (PreflightError (''executable was not found on PATH: '' @ value_text))
            (search_path p value_text working_directory (split_paths p path_value))))"

section \<open>Preflight\<close>

record preflight =
  pf_executable :: string
  pf_working_directory :: string
  pf_environment :: environment

fun set_variables :: "platform \<Rightarrow> environment \<Rightarrow> environment_value list \<Rightarrow> environment \<Rightarrow> run_error + environment" where
  "set_variables p base [] env = Inr env"
| "set_variables p base (v # vs) env =
     and_then (expand p base (ev_value v)) (\<lambda>expanded.
       set_variables p base vs (btree_insert (to_uppercase p (ev_name v)) expanded env))"

definition unset_variables :: "platform \<Rightarrow> string list \<Rightarrow> environment \<Rightarrow> environment" where
  "unset_variables p names env = fold (\<lambda>name. btree_remove (to_uppercase p name)) names env"

text \<open>\<open>base\<close> is what \<open>fresh_environment\<close> returned.\<close>

definition preflight_configuration ::
  "platform \<Rightarrow> run_error + environment \<Rightarrow> execution_configuration \<Rightarrow> run_error + preflight"
where
  "preflight_configuration p base c =
     and_then base (\<lambda>base.
     and_then (expand p base (ec_working_directory c)) (\<lambda>working_directory.
       if \<not> is_absolute p working_directory \<or> \<not> is_dir p working_directory
       then Inl (PreflightError
         (''working directory is not an existing absolute directory: '' @ working_directory))
       else
         and_then (expand p base (ec_executable c)) (\<lambda>executable_value.
         and_then (resolve_executable p executable_value working_directory base) (\<lambda>executable.
         and_then (set_variables p base (ec_environment_set c) base) (\<lambda>env.
           Inr \<lparr>pf_executable = executable, pf_working_directory = working_directory,
             pf_environment = unset_variables p (ec_environment_unset c) env\<rparr>)))))"

text \<open>\<open>collect\<close> into a \<open>BTreeMap\<close>: later entries replace earlier ones.\<close>

definition collect_btree :: "('k::linorder \<times> 'v) list \<Rightarrow> ('k, 'v) btree" where
  "collect_btree kvs = fold (\<lambda>(k, v). btree_insert k v) kvs []"

definition recovered_preflight :: "platform \<Rightarrow> checkpoint \<Rightarrow> preflight option" where
  "recovered_preflight p cp =
     (let executable = cp_resolved_executable cp; working_directory = cp_resolved_working_directory cp in
      if \<not> is_absolute p executable \<or> \<not> is_absolute p working_directory then None
      else Some \<lparr>pf_executable = executable, pf_working_directory = working_directory,
        pf_environment = collect_btree (map (\<lambda>v. (ev_name v, ev_value v)) (cp_resolved_environment cp))\<rparr>)"

end
