(* ===== verification/Snapshot.thy ===== *)
theory Snapshot
  imports Supervisor_Messages Canonical
begin

text \<open>
  From an accepted definition to the configuration a supervisor runs with
  (\<open>definition_snapshot\<close>, \<open>apply_restart\<close>, \<open>apply_backoff\<close>, \<open>apply_stop\<close>, \<open>apply_logging\<close>,
  \<open>set_execution_hash\<close> and \<open>policy_update\<close> in \<open>crates/controller/src/manager.rs\<close>). The protobuf
  encodings are parameters, as is SHA-256.
\<close>

section \<open>The default message\<close>

definition configuration_default :: execution_configuration where
  "configuration_default = \<lparr>ec_workload_id = [], ec_execution_id = [], ec_attempt = 0, ec_kind = [],
     ec_executable = [], ec_arguments = [], ec_working_directory = [], ec_environment_set = [],
     ec_environment_unset = [], ec_success_exit_codes = [], ec_stop_method = [], ec_stop_timeout_ms = 0,
     ec_stop_executable = [], ec_stop_arguments = [], ec_capture_logs = False, ec_segment_size = 0,
     ec_segment_age_ms = 0, ec_retention_size = 0, ec_retention_size_unlimited = False,
     ec_retention_age_ms = 0, ec_retention_age_unlimited = False, ec_log_directory = [],
     ec_runtime_journal = [], ec_result_file = [], ec_restart_policy = [], ec_max_restarts = 0,
     ec_max_restarts_unlimited = False, ec_restart_reset_after_ms = 0, ec_restart_backoff_initial_ms = 0,
     ec_restart_backoff_multiplier = 0, ec_restart_backoff_maximum_ms = 0, ec_execution_config_hash = [],
     ec_manager_session_id = [], ec_process_definition_hash = [], ec_supervisor_executable = [],
     ec_version_pin = []\<rparr>"

section \<open>The parts of a definition\<close>

definition duration_ms :: "duration \<Rightarrow> u64" where
  "duration_ms d = (if as_millis d < 2 ^ 64 then word_of_nat (as_millis d) else - 1)"

definition apply_backoff :: "execution_configuration \<Rightarrow> backoff_policy \<Rightarrow> execution_configuration" where
  "apply_backoff c policy = c\<lparr>
     ec_restart_backoff_initial_ms := duration_ms (nzd_get (bp_initial policy)),
     ec_restart_backoff_multiplier := bp_multiplier policy,
     ec_restart_backoff_maximum_ms := duration_ms (nzd_get (bp_maximum policy))\<rparr>"

definition apply_service_retry :: "execution_configuration \<Rightarrow> service_retry_policy \<Rightarrow> execution_configuration" where
  "apply_service_retry c policy =
     (let c = (case srp_limit policy of
            Finite limit \<Rightarrow> c\<lparr>ec_max_restarts := limit\<rparr>
          | Unlimited \<Rightarrow> c\<lparr>ec_max_restarts_unlimited := True\<rparr>);
          c = c\<lparr>ec_restart_reset_after_ms := duration_ms (nzd_get (srp_reset_after policy))\<rparr>
      in apply_backoff c (srp_backoff policy))"

fun apply_restart :: "execution_configuration \<Rightarrow> execution_restart_policy \<Rightarrow> execution_configuration" where
  "apply_restart c (ServicePolicy ServiceNever) = c\<lparr>ec_restart_policy := ''never''\<rparr>"
| "apply_restart c (JobPolicy JobNever) = c\<lparr>ec_restart_policy := ''never''\<rparr>"
| "apply_restart c (ServicePolicy (ServiceOnFailure policy)) =
     apply_service_retry (c\<lparr>ec_restart_policy := ''on-failure''\<rparr>) policy"
| "apply_restart c (ServicePolicy (ServiceAlways policy)) =
     apply_service_retry (c\<lparr>ec_restart_policy := ''always''\<rparr>) policy"
| "apply_restart c (JobPolicy (JobOnFailure policy)) =
     apply_backoff (c\<lparr>ec_restart_policy := ''on-failure'', ec_max_restarts := jrp_max_restarts policy\<rparr>)
       (jrp_backoff policy)"

fun apply_stop :: "execution_configuration \<Rightarrow> stop_definition \<Rightarrow> execution_configuration" where
  "apply_stop c (DefCtrlBreak timeout) =
     c\<lparr>ec_stop_method := ''ctrl-break'', ec_stop_timeout_ms := duration_ms timeout\<rparr>"
| "apply_stop c (DefCommand timeout command) =
     c\<lparr>ec_stop_method := ''command'', ec_stop_timeout_ms := duration_ms timeout,
       ec_stop_executable := sc_executable command, ec_stop_arguments := sc_arguments command\<rparr>"
| "apply_stop c DefKill = c\<lparr>ec_stop_method := ''kill''\<rparr>"

fun apply_logging :: "execution_configuration \<Rightarrow> logging_policy \<Rightarrow> execution_configuration" where
  "apply_logging c LoggingDisabled = c\<lparr>ec_capture_logs := False\<rparr>"
| "apply_logging c (Capture segment_size segment_age retention_size retention_age) =
     (let c = c\<lparr>ec_capture_logs := True, ec_segment_size := segment_size,
            ec_segment_age_ms := duration_ms segment_age\<rparr>;
          c = (case retention_size of
            SizeLimited n \<Rightarrow> c\<lparr>ec_retention_size := n\<rparr>
          | SizeUnlimited \<Rightarrow> c\<lparr>ec_retention_size_unlimited := True\<rparr>)
      in case retention_age of
           AgeLimited age \<Rightarrow> c\<lparr>ec_retention_age_ms := duration_ms age\<rparr>
         | AgeUnlimited \<Rightarrow> c\<lparr>ec_retention_age_unlimited := True\<rparr>)"

section \<open>Snapshots and updates\<close>

text \<open>The encodings and the hash that the manager calls.\<close>

record encoder =
  encode_configuration :: "execution_configuration \<Rightarrow> u8 list"
  encode_policy :: "policy_update \<Rightarrow> u8 list"
  digest :: "u8 list \<Rightarrow> u8 list"

definition set_execution_hash :: "encoder \<Rightarrow> execution_configuration \<Rightarrow> execution_configuration" where
  "set_execution_hash enc c =
     (let c = c\<lparr>ec_execution_config_hash := []\<rparr>
      in c\<lparr>ec_execution_config_hash := digest enc (encode_configuration enc c)\<rparr>)"

definition definition_snapshot :: "encoder \<Rightarrow> workload_definition \<Rightarrow> execution_configuration" where
  "definition_snapshot enc d =
     (let process = wd_process d;
          c = configuration_default\<lparr>
            ec_workload_id := workload_id_str (wd_id d),
            ec_kind := (case wd_kind d of KindService \<Rightarrow> ''service'' | KindJob \<Rightarrow> ''job''),
            ec_executable := pd_executable process,
            ec_arguments := pd_arguments process,
            ec_working_directory := pd_working_directory process,
            ec_environment_set := map (\<lambda>(name, v). \<lparr>ev_name = env_name_str name, ev_value = v\<rparr>)
              (env_set (pd_environment process)),
            ec_environment_unset := map env_name_str (env_unset (pd_environment process)),
            ec_success_exit_codes := wd_success_exit_codes d\<rparr>;
          c = c\<lparr>ec_process_definition_hash := process_hash_bytes (wd_process_hash d)\<rparr>;
          c = apply_restart c (wd_restart d);
          c = apply_stop c (wd_stop d);
          c = apply_logging c (wd_logging d)
      in set_execution_hash enc c)"

definition policy_update_of :: "encoder \<Rightarrow> execution_configuration \<Rightarrow> policy_update" where
  "policy_update_of enc c =
     (let u = \<lparr>pu_success_exit_codes = ec_success_exit_codes c,
        pu_restart_policy = ec_restart_policy c,
        pu_max_restarts = ec_max_restarts c,
        pu_max_restarts_unlimited = ec_max_restarts_unlimited c,
        pu_restart_reset_after_ms = ec_restart_reset_after_ms c,
        pu_restart_backoff_initial_ms = ec_restart_backoff_initial_ms c,
        pu_restart_backoff_multiplier = ec_restart_backoff_multiplier c,
        pu_restart_backoff_maximum_ms = ec_restart_backoff_maximum_ms c,
        pu_stop_method = ec_stop_method c,
        pu_stop_timeout_ms = ec_stop_timeout_ms c,
        pu_stop_executable = ec_stop_executable c,
        pu_stop_arguments = ec_stop_arguments c,
        pu_capture_logs = ec_capture_logs c,
        pu_segment_size = ec_segment_size c,
        pu_segment_age_ms = ec_segment_age_ms c,
        pu_retention_size = ec_retention_size c,
        pu_retention_size_unlimited = ec_retention_size_unlimited c,
        pu_retention_age_ms = ec_retention_age_ms c,
        pu_retention_age_unlimited = ec_retention_age_unlimited c,
        pu_policy_hash = []\<rparr>
      in u\<lparr>pu_policy_hash := digest enc (encode_policy enc u)\<rparr>)"

section \<open>Applying an update\<close>

text \<open>\<open>apply_policy\<close> of \<open>crates/supervisor/src/runner.rs\<close>.\<close>

definition apply_policy :: "execution_configuration \<Rightarrow> policy_update \<Rightarrow> execution_configuration" where
  "apply_policy c u = c\<lparr>
     ec_success_exit_codes := pu_success_exit_codes u,
     ec_restart_policy := pu_restart_policy u,
     ec_max_restarts := pu_max_restarts u,
     ec_max_restarts_unlimited := pu_max_restarts_unlimited u,
     ec_restart_reset_after_ms := pu_restart_reset_after_ms u,
     ec_restart_backoff_initial_ms := pu_restart_backoff_initial_ms u,
     ec_restart_backoff_multiplier := pu_restart_backoff_multiplier u,
     ec_restart_backoff_maximum_ms := pu_restart_backoff_maximum_ms u,
     ec_stop_method := pu_stop_method u,
     ec_stop_timeout_ms := pu_stop_timeout_ms u,
     ec_stop_executable := pu_stop_executable u,
     ec_stop_arguments := pu_stop_arguments u,
     ec_capture_logs := pu_capture_logs u,
     ec_segment_size := pu_segment_size u,
     ec_segment_age_ms := pu_segment_age_ms u,
     ec_retention_size := pu_retention_size u,
     ec_retention_size_unlimited := pu_retention_size_unlimited u,
     ec_retention_age_ms := pu_retention_age_ms u,
     ec_retention_age_unlimited := pu_retention_age_unlimited u\<rparr>"

end
