(* ===== verification/Runner.thy ===== *)
theory Runner
  imports Run_Monad Preflight Snapshot
begin

text \<open>
  The supervisor of one execution (\<open>crates/supervisor/src/runner.rs\<close>): the attempts it launches,
  the policy that decides on another one, the backoff between them, and what it writes for the
  next supervisor and for the controller. A run is a \<open>process\<close> of \<open>Run_Monad\<close> over the state
  \<open>runner\<close>. What the operating system, the clock and the controller answer is input:
  \<open>world\<close> has what never changes, \<open>turn\<close> what one pass of the loop meets, and the \<open>select!\<close>
  loops read a list of events in the order in which the code takes them. A run whose input
  ends is \<open>Pending\<close>, which is also where a crash may leave it.
\<close>

section \<open>Retry decisions\<close>

definition should_retry :: "execution_configuration \<Rightarrow> bool \<Rightarrow> u32 \<Rightarrow> bool" where
  "should_retry c successful retries =
     (let policy_allows = ec_restart_policy c = ''always'' \<or>
        (ec_restart_policy c = ''on-failure'' \<and> \<not> successful)
      in policy_allows \<and> (ec_max_restarts_unlimited c \<or> retries < ec_max_restarts c))"

text \<open>The loop runs \<open>retry - 1\<close> times.\<close>

fun retry_delay_loop :: "u64 \<Rightarrow> u64 \<Rightarrow> nat \<Rightarrow> u64 \<Rightarrow> u64" where
  "retry_delay_loop multiplier maximum 0 delay = delay"
| "retry_delay_loop multiplier maximum (Suc n) delay =
     retry_delay_loop multiplier maximum n (min (saturating_mul delay multiplier) maximum)"

text \<open>The delay in milliseconds.\<close>

definition retry_delay :: "execution_configuration \<Rightarrow> u32 \<Rightarrow> u64" where
  "retry_delay c retry =
     (let multiplier = ucast (max (ec_restart_backoff_multiplier c) 1);
          maximum = max (ec_restart_backoff_maximum_ms c) 1;
          delay = retry_delay_loop multiplier maximum (unat retry - 1) (max (ec_restart_backoff_initial_ms c) 1)
      in min delay maximum)"

definition hex_digit :: "nat \<Rightarrow> char" where
  "hex_digit n = (if n < 10 then digit_char n else char_of (n + 87))"

definition hex :: "u8 list \<Rightarrow> string" where
  "hex bytes = concat (map (\<lambda>b. [hex_digit (unat b div 16), hex_digit (unat b mod 16)]) bytes)"

section \<open>State, inputs and effects\<close>

record supervisor_identity =
  si_id :: string
  si_incarnation :: u32

datatype run_effect =
    Appended runtime_record
  | Sent runtime_observation
  | Launched u32 "string list"
  | CaptureStarted execution_configuration
  | CtrlBreakSent u32
  | StopCommandStarted string "string list"
  | StopCommandTerminated
  | JobTerminated
  | ResultWritten string attempt_result

record runner =
  rn_configuration :: execution_configuration
  rn_journal :: runtime_journal
  rn_sequence :: u64
  rn_committed_sequence :: u64
  rn_clock :: nat
  rn_effects :: "run_effect list"

type_synonym 'a run = "(runner, run_error, 'a) process"

text \<open>\<open>w_clock n\<close> is the n-th reading of the clock; \<open>w_write_error\<close> the path and error of a failing write.\<close>

record world =
  w_codec :: codec
  w_platform :: platform
  w_identity :: supervisor_identity
  w_clock :: "nat \<Rightarrow> int"
  w_write_error :: "string \<Rightarrow> (string \<times> string) option"

text \<open>
  How the child answers a stop request: whether the session is ending at that moment, how long
  it still runs if it is not killed, what \<open>wait\<close> returns in either case, the files there are
  to resolve a stop command, and whether it can be started.
\<close>

record child_response =
  cr_session_ending :: bool
  cr_exit_after_ms :: "nat option"
  cr_status :: "string + u32"
  cr_killed_status :: "string + u32"
  cr_platform :: platform
  cr_command_starts :: bool

datatype process_event =
    SessionEnds child_response
  | ChildExits "string + u32"
  | ExternalStop bool child_response
  | ExternalClosed "string + u32"
  | StdinStop child_response
  | StdinClosed "string + u32"
  | PolicyChanged "policy_update option"
  | PolicyClosed

datatype backoff_event =
    BackoffSessionEnds
  | BackoffExternalStop "bool option"
  | BackoffStdinStop
  | BackoffStdinClosed
  | BackoffPolicyChanged "policy_update option"
  | BackoffPolicyClosed
  | DeadlineReached

datatype backoff_outcome = Elapsed | BackoffStopped | RetryDenied

text \<open>\<open>t_environment\<close> is what \<open>fresh_environment\<close> returns, \<open>t_platform\<close> has the files there are.\<close>

record turn =
  t_update :: "policy_update option"
  t_environment :: "run_error + environment"
  t_platform :: platform
  t_job_error :: "string option"
  t_spawned :: "string + u32"
  t_events :: "process_event list"
  t_stop_requested :: bool
  t_backoff :: "backoff_event list"

section \<open>The recorder\<close>

definition emit :: "run_effect \<Rightarrow> unit run" where
  "emit e = modify (\<lambda>s. s\<lparr>rn_effects := rn_effects s @ [e]\<rparr>)"

definition unix_ms :: "world \<Rightarrow> int run" where
  "unix_ms w = bind (gets rn_clock) (\<lambda>n.
     bind (modify (\<lambda>s. s\<lparr>rn_clock := n + 1\<rparr>)) (\<lambda>_. ret (w_clock w n)))"

fun journal_error_str :: "journal_error \<Rightarrow> string" where
  "journal_error_str FrameExceedsLimit = ''runtime journal frame exceeds 4 MiB''"
| "journal_error_str ChecksumMismatch = ''runtime journal checksum mismatch''"
| "journal_error_str DecodeFailed = ''decode error''"
| "journal_error_str UnsupportedFrame = ''unsupported runtime journal frame''"
| "journal_error_str Finalized = ''runtime journal is finalized''"

text \<open>An append by the recorder, with its error as the \<open>RunError\<close> the caller sees.\<close>

definition append_record :: "world \<Rightarrow> runtime_record \<Rightarrow> unit run" where
  "append_record w r =
     bind (gets rn_journal) (\<lambda>j.
     bind (gets (\<lambda>s. ec_runtime_journal (rn_configuration s))) (\<lambda>path.
     bind (lift_result (map_err (\<lambda>e. RunIo path (journal_error_str e))
         (case r of
            RecCheckpoint cp \<Rightarrow> append_checkpoint (w_codec w) j cp
          | RecObservation ob \<Rightarrow> append_observation (w_codec w) j ob
          | RecAcknowledgement n \<Rightarrow> acknowledge (w_codec w) j n))) (\<lambda>j.
     bind (modify (\<lambda>s. s\<lparr>rn_journal := j\<rparr>)) (\<lambda>_. emit (Appended r)))))"

definition checkpoint_of ::
  "world \<Rightarrow> runner \<Rightarrow> execution_configuration \<Rightarrow> u32 \<Rightarrow> string \<Rightarrow> int \<Rightarrow> preflight option \<Rightarrow> checkpoint"
where
  "checkpoint_of w s c attempt phase retry_at pf = \<lparr>
     cp_manager_session_id = ec_manager_session_id c,
     cp_workload_id = ec_workload_id c,
     cp_execution_id = ec_execution_id c,
     cp_supervisor_id = si_id (w_identity w),
     cp_incarnation = si_incarnation (w_identity w),
     cp_execution_config_hash = ec_execution_config_hash c,
     cp_attempt = attempt,
     cp_phase = phase,
     cp_last_sequence = rn_sequence s,
     cp_committed_sequence = rn_committed_sequence s,
     cp_retry_at_unix_ms = retry_at,
     cp_resolved_executable = (case pf of Some p \<Rightarrow> pf_executable p | None \<Rightarrow> []),
     cp_resolved_working_directory = (case pf of Some p \<Rightarrow> pf_working_directory p | None \<Rightarrow> []),
     cp_resolved_environment = (case pf of
        Some p \<Rightarrow> map (\<lambda>(name, v). \<lparr>ev_name = name, ev_value = v\<rparr>) (pf_environment p)
      | None \<Rightarrow> [])\<rparr>"

definition record_checkpoint ::
  "world \<Rightarrow> execution_configuration \<Rightarrow> u32 \<Rightarrow> string \<Rightarrow> int \<Rightarrow> preflight option \<Rightarrow> unit run"
where
  "record_checkpoint w c attempt phase retry_at pf =
     bind (gets (\<lambda>s. checkpoint_of w s c attempt phase retry_at pf)) (\<lambda>cp. append_record w (RecCheckpoint cp))"

definition observe ::
  "world \<Rightarrow> string \<Rightarrow> u32 \<Rightarrow> u32 option \<Rightarrow> string \<Rightarrow> bool \<Rightarrow> u32 \<Rightarrow> unit run"
where
  "observe w kind attempt exit_code detail terminal process_id =
     bind (modify (\<lambda>s. s\<lparr>rn_sequence := saturating_add (rn_sequence s) 1\<rparr>)) (\<lambda>_.
     bind (gets rn_sequence) (\<lambda>sequence.
     bind (unix_ms w) (\<lambda>now.
     let ob = \<lparr>ro_sequence = sequence, ro_kind = kind, ro_attempt = attempt, ro_exit_code = exit_code,
       ro_detail = detail, ro_observed_unix_ms = now, ro_terminal = terminal,
       ro_workload_process_id = process_id\<rparr>
     in bind (append_record w (RecObservation ob)) (\<lambda>_. emit (Sent ob)))))"

section \<open>Results\<close>

definition stopped_result :: "world \<Rightarrow> int \<Rightarrow> attempt_result run" where
  "stopped_result w started =
     bind (unix_ms w) (\<lambda>now. ret \<lparr>ar_launched = False, ar_exit_code = None, ar_error = [],
       ar_started_unix_ms = started, ar_ended_unix_ms = now, ar_stop_requested = True,
       ar_forced = False, ar_outcome = []\<rparr>)"

definition failed_result :: "world \<Rightarrow> int \<Rightarrow> string \<Rightarrow> attempt_result run" where
  "failed_result w started e =
     bind (unix_ms w) (\<lambda>now. ret \<lparr>ar_launched = False, ar_exit_code = None, ar_error = e,
       ar_started_unix_ms = started, ar_ended_unix_ms = now, ar_stop_requested = False,
       ar_forced = False, ar_outcome = []\<rparr>)"

definition write_result :: "world \<Rightarrow> string \<Rightarrow> attempt_result \<Rightarrow> unit run" where
  "write_result w path result =
     (case parent_path (w_platform w) path of
        None \<Rightarrow> throw (PreflightError ''result path has no parent'')
      | Some _ \<Rightarrow>
          (case w_write_error w path of
             Some (failing, e) \<Rightarrow> throw (RunIo failing e)
           | None \<Rightarrow> emit (ResultWritten path result)))"

text \<open>\<open>format!("attempt-{attempt:06}")\<close>.\<close>

definition attempt_directory :: "u32 \<Rightarrow> string" where
  "attempt_directory attempt =
     (let digits = show_nat (unat attempt)
      in ''attempt-'' @ replicate (6 - length digits) (CHR ''0'') @ digits)"

definition attempt_configuration :: "world \<Rightarrow> execution_configuration \<Rightarrow> u32 \<Rightarrow> execution_configuration" where
  "attempt_configuration w c attempt = c\<lparr>ec_attempt := attempt,
     ec_log_directory := join_path (w_platform w) (ec_log_directory c) (attempt_directory attempt)\<rparr>"

definition write_attempt_result :: "world \<Rightarrow> u32 \<Rightarrow> attempt_result \<Rightarrow> unit run" where
  "write_attempt_result w attempt result =
     bind (gets (\<lambda>s. ec_runtime_journal (rn_configuration s))) (\<lambda>journal.
       case parent_path (w_platform w) journal of
         None \<Rightarrow> throw (PreflightError ''runtime journal has no parent'')
       | Some root \<Rightarrow> write_result w
           (join_path (w_platform w) (join_path (w_platform w) root (attempt_directory attempt)) ''result.pb'')
           result)"

definition exit_successful :: "execution_configuration \<Rightarrow> attempt_result \<Rightarrow> bool" where
  "exit_successful c result =
     (case ar_exit_code result of None \<Rightarrow> False | Some code \<Rightarrow> code \<in> set (ec_success_exit_codes c))"

definition finish_execution_kind :: "world \<Rightarrow> u32 \<Rightarrow> attempt_result \<Rightarrow> string \<Rightarrow> unit run" where
  "finish_execution_kind w attempt result kind =
     bind (observe w kind attempt (ar_exit_code result) (ar_error result) True 0) (\<lambda>_.
     bind (gets (\<lambda>s. ec_result_file (rn_configuration s))) (\<lambda>path.
       write_result w path (result\<lparr>ar_outcome := kind\<rparr>)))"

definition finish_kind :: "execution_configuration \<Rightarrow> attempt_result \<Rightarrow> string" where
  "finish_kind c result =
     (if ar_stop_requested result then (if ec_kind c = ''job'' then ''cancelled'' else ''stopped'')
      else if exit_successful c result then ''completed'' else ''failed'')"

definition finish_execution_run :: "world \<Rightarrow> u32 \<Rightarrow> attempt_result \<Rightarrow> unit run" where
  "finish_execution_run w attempt result =
     bind (gets (\<lambda>s. finish_kind (rn_configuration s) result)) (\<lambda>kind.
       finish_execution_kind w attempt result kind)"

end
