(* ===== verification/Supervisor_Run.thy ===== *)
theory Supervisor_Run
  imports Runner
begin

text \<open>
  The run of a supervisor, continued from \<open>Runner\<close>: the child process of an attempt, the wait
  between attempts and the loop over them (\<open>run_process\<close>, \<open>stop_process\<close>, \<open>wait_backoff\<close> and
  \<open>run\<close> in \<open>crates/supervisor/src/runner.rs\<close>).
\<close>

section \<open>Stopping the child\<close>

definition start_stop_command :: "preflight \<Rightarrow> child_response \<Rightarrow> bool run" where
  "start_stop_command pf r =
     bind (gets rn_configuration) (\<lambda>c.
       case resolve_executable (cr_platform r) (ec_stop_executable c) (pf_working_directory pf)
              (pf_environment pf) of
         Inl _ \<Rightarrow> ret False
       | Inr executable \<Rightarrow>
           if cr_command_starts r
           then bind (emit (StopCommandStarted executable (ec_stop_arguments c))) (\<lambda>_. ret True)
           else ret False)"

text \<open>Whether a stop command was started.\<close>

definition signal_child :: "preflight \<Rightarrow> u32 \<Rightarrow> child_response \<Rightarrow> bool run" where
  "signal_child pf pid r =
     bind (gets (\<lambda>s. ec_stop_method (rn_configuration s))) (\<lambda>stop_method.
       if stop_method = ''command'' then start_stop_command pf r
       else bind (emit (CtrlBreakSent pid)) (\<lambda>_. ret False))"

definition await_child :: "child_response \<Rightarrow> u64 \<Rightarrow> ((string + u32) \<times> bool \<times> bool) run" where
  "await_child r wait =
     (if (case cr_exit_after_ms r of Some t \<Rightarrow> t \<le> unat wait | None \<Rightarrow> False)
      then ret (cr_status r, True, False)
      else bind (emit JobTerminated) (\<lambda>_. ret (cr_killed_status r, True, True)))"

text \<open>\<open>maximum\<close> is the limit in milliseconds that a session end sets.\<close>

definition stop_process ::
  "preflight \<Rightarrow> u32 \<Rightarrow> u64 option \<Rightarrow> child_response \<Rightarrow> ((string + u32) \<times> bool \<times> bool) run"
where
  "stop_process pf pid maximum r =
     bind (gets rn_configuration) (\<lambda>c.
       if ec_stop_method c = ''kill''
       then bind (emit JobTerminated) (\<lambda>_. ret (cr_killed_status r, True, True))
       else
         bind (signal_child pf pid r) (\<lambda>stop_command.
         let configured = ec_stop_timeout_ms c;
             wait = (case maximum of None \<Rightarrow> configured | Some m \<Rightarrow> min configured m)
         in bind (await_child r wait) (\<lambda>outcome.
            bind (if stop_command then emit StopCommandTerminated else ret ()) (\<lambda>_. ret outcome))))"

definition session_deadline :: "bool \<Rightarrow> child_response \<Rightarrow> u64 option" where
  "session_deadline has_session r = (if has_session \<and> cr_session_ending r then Some 25000 else None)"

section \<open>The child process\<close>

definition update_running :: "world \<Rightarrow> u32 \<Rightarrow> preflight \<Rightarrow> u32 \<Rightarrow> policy_update \<Rightarrow> unit run" where
  "update_running w attempt pf pid update =
     bind (gets (\<lambda>s. apply_policy (rn_configuration s) update)) (\<lambda>candidate.
     bind (attempt_of (record_checkpoint w candidate attempt ''running'' 0 (Some pf))) (\<lambda>written.
       if is_ok written
       then
         bind (modify (\<lambda>s. s\<lparr>rn_configuration := candidate\<rparr>)) (\<lambda>_.
         bind (attempt_of (observe w ''policy-applied'' attempt None (hex (pu_policy_hash update)) False pid))
           (\<lambda>_. ret ()))
       else ret ()))"

text \<open>
  The \<open>select!\<close> loop of \<open>run_process\<close>. An arm that is not armed (no session, a closed policy
  channel) is not taken.
\<close>

fun process_loop ::
  "world \<Rightarrow> bool \<Rightarrow> u32 \<Rightarrow> preflight \<Rightarrow> u32 \<Rightarrow> bool \<Rightarrow> process_event list \<Rightarrow> ((string + u32) \<times> bool \<times> bool) run"
where
  "process_loop w has_session attempt pf pid policy_open [] = pending"
| "process_loop w has_session attempt pf pid policy_open (ev # evs) =
     (case ev of
        SessionEnds r \<Rightarrow>
          if has_session then stop_process pf pid (Some 25000) r
          else process_loop w has_session attempt pf pid policy_open evs
      | ChildExits status \<Rightarrow> ret (status, False, False)
      | ExternalStop requested r \<Rightarrow>
          if requested then stop_process pf pid (session_deadline has_session r) r
          else process_loop w has_session attempt pf pid policy_open evs
      | ExternalClosed status \<Rightarrow> ret (status, False, False)
      | StdinStop r \<Rightarrow> stop_process pf pid (session_deadline has_session r) r
      | StdinClosed status \<Rightarrow> ret (status, False, False)
      | PolicyChanged update \<Rightarrow>
          bind (case update of
                  Some u \<Rightarrow> if policy_open then update_running w attempt pf pid u else ret ()
                | None \<Rightarrow> ret ()) (\<lambda>_.
            process_loop w has_session attempt pf pid policy_open evs)
      | PolicyClosed \<Rightarrow> process_loop w has_session attempt pf pid False evs)"

definition child_result :: "world \<Rightarrow> int \<Rightarrow> (string + u32) \<times> bool \<times> bool \<Rightarrow> attempt_result run" where
  "child_result w started ended =
     (case fst ended of
        Inr code \<Rightarrow>
          bind (unix_ms w) (\<lambda>now. ret \<lparr>ar_launched = True, ar_exit_code = Some code,
            ar_error = [], ar_started_unix_ms = started, ar_ended_unix_ms = now,
            ar_stop_requested = fst (snd ended), ar_forced = snd (snd ended), ar_outcome = []\<rparr>)
      | Inl e \<Rightarrow> failed_result w started (''process wait failed: '' @ e))"

text \<open>From the start of the child on; \<open>c\<close> is the configuration of the attempt, for the writer.\<close>

definition run_child ::
  "world \<Rightarrow> bool \<Rightarrow> u32 \<Rightarrow> preflight \<Rightarrow> int \<Rightarrow> execution_configuration \<Rightarrow> u32 \<Rightarrow> process_event list \<Rightarrow>
   attempt_result run"
where
  "run_child w has_session attempt pf started c pid evs =
     bind (emit (Launched attempt (ec_arguments c))) (\<lambda>_.
     bind (gets rn_configuration) (\<lambda>configuration.
     bind (attempt_of (record_checkpoint w configuration attempt ''running'' 0 (Some pf))) (\<lambda>written.
       case written of
         Inl e \<Rightarrow> bind (emit JobTerminated) (\<lambda>_.
           failed_result w started (''failed to persist running state: '' @ run_error_str e))
       | Inr _ \<Rightarrow>
       bind (attempt_of (observe w ''attempt-started'' attempt None [] False pid)) (\<lambda>written.
         case written of
           Inl e \<Rightarrow> bind (emit JobTerminated) (\<lambda>_.
             failed_result w started (''failed to persist attempt start: '' @ run_error_str e))
         | Inr _ \<Rightarrow>
         bind (emit (CaptureStarted c)) (\<lambda>_.
         bind (process_loop w has_session attempt pf pid True evs) (child_result w started))))))"

definition run_process ::
  "world \<Rightarrow> bool \<Rightarrow> turn \<Rightarrow> u32 \<Rightarrow> preflight \<Rightarrow> int \<Rightarrow> attempt_result run"
where
  "run_process w has_session t attempt pf started =
     bind (gets (\<lambda>s. attempt_configuration w (rn_configuration s) attempt)) (\<lambda>c.
       case t_job_error t of
         Some e \<Rightarrow> failed_result w started (''Job Object setup failed: '' @ e)
       | None \<Rightarrow>
           (case t_spawned t of
              Inl e \<Rightarrow> failed_result w started e
            | Inr pid \<Rightarrow> run_child w has_session attempt pf started c pid (t_events t)))"

section \<open>Waiting between attempts\<close>

fun wait_backoff ::
  "world \<Rightarrow> bool \<Rightarrow> u32 \<Rightarrow> int \<Rightarrow> preflight option \<Rightarrow> bool \<Rightarrow> u32 \<Rightarrow> bool \<Rightarrow> bool \<Rightarrow> backoff_event list \<Rightarrow>
   backoff_outcome run"
where
  "wait_backoff w has_session attempt retry_at pf successful decision_retries stdin_open policy_open [] = pending"
| "wait_backoff w has_session attempt retry_at pf successful decision_retries stdin_open policy_open (ev # evs) =
     (let continue = (\<lambda>stdin_open policy_open.
            wait_backoff w has_session attempt retry_at pf successful decision_retries stdin_open policy_open evs)
      in case ev of
        BackoffSessionEnds \<Rightarrow> if has_session then ret BackoffStopped else continue stdin_open policy_open
      | BackoffExternalStop changed \<Rightarrow>
          if changed = Some True then ret BackoffStopped else continue stdin_open policy_open
      | BackoffStdinStop \<Rightarrow> if stdin_open then ret BackoffStopped else continue stdin_open policy_open
      | BackoffStdinClosed \<Rightarrow> continue False policy_open
      | BackoffPolicyClosed \<Rightarrow> continue stdin_open False
      | BackoffPolicyChanged None \<Rightarrow> continue stdin_open policy_open
      | BackoffPolicyChanged (Some update) \<Rightarrow>
          if policy_open
          then
            bind (gets (\<lambda>s. apply_policy (rn_configuration s) update)) (\<lambda>candidate.
            bind (record_checkpoint w candidate attempt ''restart_backoff'' retry_at pf) (\<lambda>_.
            bind (modify (\<lambda>s. s\<lparr>rn_configuration := candidate\<rparr>)) (\<lambda>_.
            bind (observe w ''policy-applied'' attempt None (hex (pu_policy_hash update)) False 0) (\<lambda>_.
              if should_retry candidate successful decision_retries then continue stdin_open policy_open
              else ret RetryDenied))))
          else continue stdin_open policy_open
      | DeadlineReached \<Rightarrow> ret Elapsed)"

section \<open>The loop over the attempts\<close>

definition launch_attempt ::
  "world \<Rightarrow> bool \<Rightarrow> turn \<Rightarrow> u32 \<Rightarrow> preflight option \<Rightarrow> (attempt_result \<times> preflight option) run"
where
  "launch_attempt w has_session t attempt pf =
     bind (modify (\<lambda>s. s\<lparr>rn_configuration := (rn_configuration s)\<lparr>ec_attempt := attempt\<rparr>\<rparr>)) (\<lambda>_.
     bind (gets rn_configuration) (\<lambda>c.
     bind (record_checkpoint w c attempt ''launching'' 0 pf) (\<lambda>_.
     bind (unix_ms w) (\<lambda>started.
     bind (case t_update t of
             None \<Rightarrow> ret ()
           | Some update \<Rightarrow>
               bind (modify (\<lambda>s. s\<lparr>rn_configuration := apply_policy (rn_configuration s) update\<rparr>)) (\<lambda>_.
               bind (gets rn_configuration) (\<lambda>c.
               bind (record_checkpoint w c attempt ''launching'' 0 pf) (\<lambda>_.
                 observe w ''policy-applied'' attempt None (hex (pu_policy_hash update)) False 0)))) (\<lambda>_.
     bind (gets rn_configuration) (\<lambda>c.
       case pf of
         Some p \<Rightarrow> bind (run_process w has_session t attempt p started) (\<lambda>result. ret (result, pf))
       | None \<Rightarrow>
           (case preflight_configuration (t_platform t) (t_environment t) c of
              Inr resolved \<Rightarrow>
                bind (record_checkpoint w c attempt ''launching'' 0 (Some resolved)) (\<lambda>_.
                bind (run_process w has_session t attempt resolved started) (\<lambda>result.
                  ret (result, Some resolved)))
            | Inl e \<Rightarrow>
                bind (unix_ms w) (\<lambda>now. ret (\<lparr>ar_launched = False, ar_exit_code = None,
                  ar_error = run_error_str e, ar_started_unix_ms = started, ar_ended_unix_ms = now,
                  ar_stop_requested = t_stop_requested t, ar_forced = False, ar_outcome = []\<rparr>, None)))))))))"

definition retries_after :: "execution_configuration \<Rightarrow> attempt_result \<Rightarrow> u32 \<Rightarrow> u32" where
  "retries_after c result retries =
     (if ar_launched result \<and> ec_restart_reset_after_ms c \<noteq> 0 \<and>
        (case i64_try_from (ec_restart_reset_after_ms c) of Some ms \<Rightarrow> ms | None \<Rightarrow> 2 ^ 63 - 1)
          \<le> i64_saturating_sub (ar_ended_unix_ms result) (ar_started_unix_ms result)
      then 0 else retries)"

text \<open>The checkpoint and the observation before the wait; the result is \<open>retry_at\<close>.\<close>

definition begin_backoff :: "world \<Rightarrow> u32 \<Rightarrow> u32 \<Rightarrow> preflight option \<Rightarrow> u32 option \<Rightarrow> string \<Rightarrow> int run" where
  "begin_backoff w attempt retries pf exit_code detail =
     bind (gets rn_configuration) (\<lambda>c.
     let delay = retry_delay c retries in
     bind (unix_ms w) (\<lambda>now.
     let retry_at = i64_saturating_add now (case i64_try_from delay of Some ms \<Rightarrow> ms | None \<Rightarrow> 2 ^ 63 - 1) in
     bind (record_checkpoint w c attempt ''restart_backoff'' retry_at pf) (\<lambda>_.
     bind (observe w ''restart-backoff'' attempt exit_code detail False 0) (\<lambda>_. ret retry_at))))"

definition finish_stopped :: "world \<Rightarrow> u32 \<Rightarrow> attempt_result run" where
  "finish_stopped w attempt =
     bind (unix_ms w) (\<lambda>now.
     bind (stopped_result w now) (\<lambda>stopped.
     bind (finish_execution_run w attempt stopped) (\<lambda>_. ret stopped)))"

definition finish_with :: "world \<Rightarrow> u32 \<Rightarrow> attempt_result \<Rightarrow> attempt_result run" where
  "finish_with w attempt result = bind (finish_execution_run w attempt result) (\<lambda>_. ret result)"

text \<open>
  The backoff before another attempt; \<open>k\<close> goes on with the new attempt and the new retries,
  \<open>result\<close> is the result if the retry is denied after all.
\<close>

definition back_off ::
  "world \<Rightarrow> bool \<Rightarrow> backoff_event list \<Rightarrow> u32 \<Rightarrow> u32 \<Rightarrow> preflight option \<Rightarrow> bool \<Rightarrow> string \<Rightarrow> attempt_result \<Rightarrow>
   (u32 \<Rightarrow> u32 \<Rightarrow> attempt_result run) \<Rightarrow> attempt_result run"
where
  "back_off w has_session evs attempt retries pf successful detail result k =
     (let retries = saturating_add retries 1; attempt = saturating_add attempt 1 in
      bind (begin_backoff w attempt retries pf (ar_exit_code result) detail) (\<lambda>retry_at.
      bind (wait_backoff w has_session attempt retry_at pf successful (saturating_sub retries 1) True True evs) (\<lambda>out.
        case out of
          Elapsed \<Rightarrow> k attempt retries
        | BackoffStopped \<Rightarrow> finish_stopped w attempt
        | RetryDenied \<Rightarrow> finish_with w attempt result)))"

definition after_attempt ::
  "world \<Rightarrow> bool \<Rightarrow> turn \<Rightarrow> u32 \<Rightarrow> u32 \<Rightarrow> preflight option \<Rightarrow> attempt_result \<Rightarrow>
   (u32 \<Rightarrow> u32 \<Rightarrow> attempt_result run) \<Rightarrow> attempt_result run"
where
  "after_attempt w has_session t attempt retries pf result k =
     bind (write_attempt_result w attempt result) (\<lambda>_.
     bind (observe w (if ar_launched result then ''attempt-exited'' else ''launch-failed'') attempt
             (ar_exit_code result) (ar_error result) False 0) (\<lambda>_.
       if ar_stop_requested result then finish_with w attempt result
       else
         bind (gets rn_configuration) (\<lambda>c.
         let successful = exit_successful c result; retries = retries_after c result retries in
         if should_retry c successful retries
         then back_off w has_session (t_backoff t) attempt retries pf successful (ar_error result) result k
         else finish_with w attempt result)))"

fun run_loop ::
  "world \<Rightarrow> bool \<Rightarrow> turn list \<Rightarrow> preflight option \<Rightarrow> u32 \<Rightarrow> u32 \<Rightarrow> attempt_result run"
where
  "run_loop w has_session [] pf attempt retries = pending"
| "run_loop w has_session (t # ts) pf attempt retries =
     bind (launch_attempt w has_session t attempt pf) (\<lambda>(result, pf).
       after_attempt w has_session t attempt retries pf result (run_loop w has_session ts pf))"

section \<open>The whole run\<close>

record run_input =
  ri_session_error :: "string option"
  ri_console_error :: "string option"
  ri_stop_requested :: bool
  ri_backoff :: "backoff_event list"
  ri_turns :: "turn list"

text \<open>The last supervisor disappeared while it launched or ran an attempt.\<close>

definition recover_lost ::
  "world \<Rightarrow> bool \<Rightarrow> run_input \<Rightarrow> checkpoint \<Rightarrow> preflight option \<Rightarrow> u32 \<Rightarrow> u32 \<Rightarrow>
   (u32 \<Rightarrow> u32 \<Rightarrow> attempt_result run) \<Rightarrow> attempt_result run"
where
  "recover_lost w has_session i cp pf attempt retries k =
     (if ri_stop_requested i then finish_stopped w attempt
      else
        bind (unix_ms w) (\<lambda>now.
        let result = \<lparr>ar_launched = cp_phase cp = ''running'', ar_exit_code = None,
              ar_error = ''previous supervisor disappeared before persisting the process outcome'',
              ar_started_unix_ms = 0, ar_ended_unix_ms = now, ar_stop_requested = False,
              ar_forced = True, ar_outcome = []\<rparr>
        in
        bind (write_attempt_result w attempt result) (\<lambda>_.
        bind (observe w ''supervisor-lost'' attempt None (ar_error result) False 0) (\<lambda>_.
        bind (gets rn_configuration) (\<lambda>c.
          if ec_kind c = ''job''
          then
            (let result = result\<lparr>ar_outcome := ''outcome-unknown''\<rparr> in
             bind (finish_execution_kind w attempt result ''outcome-unknown'') (\<lambda>_. ret result))
          else if should_retry c False retries
          then back_off w has_session (ri_backoff i) attempt retries pf False
            ''recovering from supervisor loss'' result k
          else finish_with w attempt result)))))"

text \<open>The last supervisor disappeared while it waited; the wait goes on to its deadline.\<close>

definition recover_backoff ::
  "world \<Rightarrow> bool \<Rightarrow> run_input \<Rightarrow> checkpoint \<Rightarrow> preflight option \<Rightarrow> u32 \<Rightarrow> u32 \<Rightarrow>
   (u32 \<Rightarrow> u32 \<Rightarrow> attempt_result run) \<Rightarrow> attempt_result run"
where
  "recover_backoff w has_session i cp pf attempt retries k =
     bind (unix_ms w) (\<lambda>now.
       if cp_retry_at_unix_ms cp \<le> now then k attempt retries
       else
         bind (unix_ms w) (\<lambda>_.
         bind (wait_backoff w has_session attempt (cp_retry_at_unix_ms cp) pf False
                 (saturating_sub attempt 2) True True (ri_backoff i)) (\<lambda>out.
           case out of
             Elapsed \<Rightarrow> k attempt retries
           | BackoffStopped \<Rightarrow> finish_stopped w attempt
           | RetryDenied \<Rightarrow>
               bind (unix_ms w) (\<lambda>now.
               bind (failed_result w now ''pending retry was denied by a policy update'')
                 (finish_with w attempt)))))"

text \<open>The state a supervisor starts with: \<open>RuntimeRecorder\<close> over what its journal recovers.\<close>

definition start_runner :: "execution_configuration \<Rightarrow> runtime_journal \<Rightarrow> runner" where
  "start_runner c j = \<lparr>rn_configuration = c, rn_journal = j,
     rn_sequence = rr_last_sequence (recovery j),
     rn_committed_sequence = rr_committed_sequence (recovery j), rn_clock = 0, rn_effects = []\<rparr>"

definition open_session :: "run_input \<Rightarrow> bool \<Rightarrow> unit run" where
  "open_session i has_session =
     (case ri_session_error i of
        Some e \<Rightarrow> if has_session then throw (RunSessionEvent e) else ret ()
      | None \<Rightarrow> ret ())"

definition ensure_private_console :: "run_input \<Rightarrow> unit run" where
  "ensure_private_console i = (case ri_console_error i of Some e \<Rightarrow> throw (RunWindows e) | None \<Rightarrow> ret ())"

text \<open>\<open>cp\<close> is the checkpoint that the journal recovered at the start.\<close>

definition run_from :: "world \<Rightarrow> run_input \<Rightarrow> checkpoint option \<Rightarrow> execution_configuration \<Rightarrow> attempt_result run" where
  "run_from w i cp c =
     (let has_session = ec_manager_session_id c \<noteq> [];
          pf = Option.bind cp (recovered_preflight (w_platform w));
          attempt = (case cp of None \<Rightarrow> max (ec_attempt c) 1 | Some cp \<Rightarrow> max (cp_attempt cp) 1);
          retries = saturating_sub attempt 1;
          go_on = run_loop w has_session (ri_turns i) pf
      in
      bind (open_session i has_session) (\<lambda>_.
      bind (ensure_private_console i) (\<lambda>_.
        case cp of
          None \<Rightarrow> go_on attempt retries
        | Some cp \<Rightarrow>
            if cp_phase cp = ''launching'' \<or> cp_phase cp = ''running''
            then recover_lost w has_session i cp pf attempt retries go_on
            else if cp_phase cp = ''restart_backoff''
            then recover_backoff w has_session i cp pf attempt retries go_on
            else go_on attempt retries)))"

definition run_supervisor :: "world \<Rightarrow> run_input \<Rightarrow> attempt_result run" where
  "run_supervisor w i =
     bind (gets (\<lambda>s. rr_checkpoint (recovery (rn_journal s)))) (\<lambda>cp.
     bind (gets rn_configuration) (\<lambda>c. run_from w i cp c))"

end
