(* ===== verification/Run_Protocol.thy ===== *)
theory Run_Protocol
  imports Supervisor_Run Transition
begin

text \<open>
  The protocol of launches that a supervisor follows in what it writes: an attempt is launched
  once, after a checkpoint that announces it; the next one has the next number and is announced
  by a checkpoint of its own; a terminal observation ends it all. The protocol is an automaton
  over the effects of a run (\<open>Runner\<close>), and every run of \<open>run_supervisor\<close> follows it, whatever
  its input is and wherever it is cut.
\<close>

section \<open>The automaton\<close>

text \<open>
  \<open>Armed a\<close>: attempt \<open>a\<close> is announced; \<open>Busy a\<close>: it may be running; \<open>Waiting a\<close>: it is to be
  launched after the backoff. \<open>allowed\<close> are the attempts that the policy admits.
\<close>

datatype stage = Fresh | Armed u32 | Busy u32 | Waiting u32

fun launching_step :: "(u32 \<Rightarrow> bool) \<Rightarrow> stage \<Rightarrow> u32 \<Rightarrow> stage option" where
  "launching_step allowed Fresh a = (if allowed a then Some (Armed a) else None)"
| "launching_step allowed (Armed b) a = (if a = b then Some (Armed a) else None)"
| "launching_step allowed (Waiting b) a = (if a = b then Some (Armed a) else None)"
| "launching_step allowed (Busy b) a = None"

fun backoff_step :: "(u32 \<Rightarrow> bool) \<Rightarrow> stage \<Rightarrow> u32 \<Rightarrow> stage option" where
  "backoff_step allowed Fresh a = None"
| "backoff_step allowed (Waiting b) a = (if a = b then Some (Waiting a) else None)"
| "backoff_step allowed (Armed b) a = (if a = saturating_add b 1 \<and> allowed a then Some (Waiting a) else None)"
| "backoff_step allowed (Busy b) a = (if a = saturating_add b 1 \<and> allowed a then Some (Waiting a) else None)"

definition checkpoint_step :: "(u32 \<Rightarrow> bool) \<Rightarrow> stage \<Rightarrow> string \<Rightarrow> u32 \<Rightarrow> stage option" where
  "checkpoint_step allowed st phase a =
     (if phase = ''launching'' then launching_step allowed st a
      else if phase = ''running'' then (if st = Busy a then Some st else None)
      else if phase = ''restart_backoff'' then backoff_step allowed st a
      else None)"

text \<open>The kinds of observations that the controller accepts (\<open>attach\<close> in \<open>supervisor_rpc.rs\<close>).\<close>

definition observation_kinds :: "string list" where
  "observation_kinds = [''attempt-exited'', ''attempt-started'', ''launch-failed'', ''supervisor-lost'',
     ''restart-backoff'', ''completed'', ''failed'', ''stopped'', ''cancelled'', ''outcome-unknown'',
     ''policy-applied'']"

lemma observation_kinds_known [simp]:
  "''attempt-started'' \<in> set observation_kinds" "''policy-applied'' \<in> set observation_kinds"
  "''restart-backoff'' \<in> set observation_kinds" "''attempt-exited'' \<in> set observation_kinds"
  "''launch-failed'' \<in> set observation_kinds" "''supervisor-lost'' \<in> set observation_kinds"
  "''outcome-unknown'' \<in> set observation_kinds"
  by (simp_all add: observation_kinds_def)

text \<open>The state of the automaton: the stage, and whether a terminal observation was written.\<close>

type_synonym protocol_state = "stage \<times> bool"

fun protocol_step :: "(u32 \<Rightarrow> bool) \<Rightarrow> protocol_state \<Rightarrow> run_effect \<Rightarrow> protocol_state option" where
  "protocol_step allowed (st, over) (Appended (RecCheckpoint cp)) =
     (if over then None
      else map_option (\<lambda>st. (st, False)) (checkpoint_step allowed st (cp_phase cp) (cp_attempt cp)))"
| "protocol_step allowed (st, over) (Appended (RecObservation ob)) =
     (if over \<or> ro_kind ob \<notin> set observation_kinds then None else Some (st, ro_terminal ob))"
| "protocol_step allowed p (Appended (RecAcknowledgement k)) = None"
| "protocol_step allowed (st, over) (Launched a args) =
     (if st = Armed a \<and> \<not> over then Some (Busy a, False) else None)"
| "protocol_step allowed p e = Some p"

fun protocol_run :: "(u32 \<Rightarrow> bool) \<Rightarrow> protocol_state \<Rightarrow> run_effect list \<Rightarrow> protocol_state option" where
  "protocol_run allowed p [] = Some p"
| "protocol_run allowed p (e # es) = Option.bind (protocol_step allowed p e) (\<lambda>p. protocol_run allowed p es)"

lemma protocol_run_append [simp]:
  "protocol_run allowed p (es @ es') =
     Option.bind (protocol_run allowed p es) (\<lambda>p. protocol_run allowed p es')"
  by (induction es arbitrary: p) (auto simp: bind_eq_None_conv split: option.splits Option.bind_split)

text \<open>The frames that the effects have added to the journal.\<close>

fun frame_of :: "run_effect \<Rightarrow> runtime_frame option" where
  "frame_of (Appended r) = Some \<lparr>rf_format = 1, rf_record = Some r\<rparr>"
| "frame_of _ = None"

definition frames_of :: "run_effect list \<Rightarrow> runtime_frame list" where
  "frames_of es = List.map_filter frame_of es"

section \<open>Interface: a discipline of policies\<close>

text \<open>
  \<open>C\<close> is what the configuration always satisfies, \<open>U\<close> what a policy update does, \<open>R\<close> relates the
  attempt and the retries counted for it: what a run needs to stay within \<open>allowed\<close>.
\<close>

locale policy_discipline =
  fixes allowed :: "u32 \<Rightarrow> bool"
    and C :: "execution_configuration \<Rightarrow> bool"
    and U :: "policy_update \<Rightarrow> bool"
    and R :: "u32 \<Rightarrow> u32 \<Rightarrow> bool"
  assumes C_attempt: "C c \<Longrightarrow> C (c\<lparr>ec_attempt := a\<rparr>)"
    and C_update: "C c \<Longrightarrow> U u \<Longrightarrow> C (apply_policy c u)"
    and R_start: "1 \<le> a \<Longrightarrow> R a (saturating_sub a 1)"
    and R_reset: "C c \<Longrightarrow> R a r \<Longrightarrow> R a (retries_after c result r)"
    and R_retry: "C c \<Longrightarrow> R a r \<Longrightarrow> should_retry c b r \<Longrightarrow>
      allowed (saturating_add a 1) \<and> R (saturating_add a 1) (saturating_add r 1)"

text \<open>
  Where a run stands: the automaton has read the effects, the journal holds the frames, and the
  configuration satisfies \<open>C\<close>.
\<close>

definition stands ::
  "(u32 \<Rightarrow> bool) \<Rightarrow> (execution_configuration \<Rightarrow> bool) \<Rightarrow> protocol_state \<times> runtime_frame list \<Rightarrow>
   protocol_state \<Rightarrow> runner \<Rightarrow> bool"
where
  "stands allowed C start p s \<longleftrightarrow>
     protocol_run allowed (fst start) (rn_effects s) = Some p \<and>
     rj_frames (rn_journal s) = snd start @ frames_of (rn_effects s) \<and> C (rn_configuration s)"

definition safe ::
  "(u32 \<Rightarrow> bool) \<Rightarrow> (execution_configuration \<Rightarrow> bool) \<Rightarrow> protocol_state \<times> runtime_frame list \<Rightarrow> runner \<Rightarrow> bool"
where
  "safe allowed C start s \<longleftrightarrow> (\<exists>p. stands allowed C start p s)"

lemma stands_safe: "stands allowed C start p s \<Longrightarrow> safe allowed C start s"
  unfolding safe_def by blast

fun updates_of_process :: "process_event \<Rightarrow> policy_update list" where
  "updates_of_process (PolicyChanged (Some u)) = [u]"
| "updates_of_process _ = []"

fun updates_of_backoff :: "backoff_event \<Rightarrow> policy_update list" where
  "updates_of_backoff (BackoffPolicyChanged (Some u)) = [u]"
| "updates_of_backoff _ = []"

definition updates_of_turn :: "turn \<Rightarrow> policy_update list" where
  "updates_of_turn t = (case t_update t of Some u \<Rightarrow> [u] | None \<Rightarrow> []) @
     concat (map updates_of_process (t_events t)) @ concat (map updates_of_backoff (t_backoff t))"

definition updates_of_input :: "run_input \<Rightarrow> policy_update list" where
  "updates_of_input i = concat (map updates_of_backoff (ri_backoff i)) @ concat (map updates_of_turn (ri_turns i))"

section \<open>Every run follows the protocol\<close>

text \<open>An effect the automaton does not look at.\<close>

fun neutral :: "run_effect \<Rightarrow> bool" where
  "neutral (Appended r) = False"
| "neutral (Launched a args) = False"
| "neutral e = True"

lemma protocol_step_neutral: "neutral e \<Longrightarrow> protocol_step allowed p e = Some p"
  by (cases "(allowed, p, e)" rule: protocol_step.cases) auto

lemma frames_of_snoc: "frames_of (es @ [e]) = frames_of es @ (case frame_of e of Some f \<Rightarrow> [f] | None \<Rightarrow> [])"
  by (simp add: frames_of_def split: option.split)

lemma emit_neutral:
  "neutral e \<Longrightarrow> triple (stands allowed C start p) (emit e) (\<lambda>_. stands allowed C start p) E"
  unfolding emit_def
  by (rule triple_pre [OF triple_modify], cases e)
    (auto simp: stands_def protocol_step_neutral frames_of_snoc)

lemma emit_launched:
  "triple (stands allowed C start (Armed a, False)) (emit (Launched a args))
     (\<lambda>_. stands allowed C start (Busy a, False)) E"
  unfolding emit_def by (rule triple_pre [OF triple_modify]) (auto simp: stands_def frames_of_snoc)

lemma unix_ms_stands:
  "triple (stands allowed C start p) (unix_ms w) (\<lambda>_. stands allowed C start p) E"
  by (simp add: triple_def unix_ms_def process_defs stands_def)

text \<open>An append that fails leaves everything as it was.\<close>

lemma journal_append_frames:
  "journal_append c j f = Inr j' \<Longrightarrow> rj_frames j' = rj_frames j @ [f]"
  by (auto simp: journal_append_def split: if_splits)

lemma append_record_stands:
  assumes "protocol_step allowed p (Appended r) = Some p'"
  shows "triple (stands allowed C start p) (append_record w r) (\<lambda>_. stands allowed C start p')
    (stands allowed C start p)"
proof -
  have frames: "rj_frames j' = rj_frames j @ [\<lparr>rf_format = 1, rf_record = Some r\<rparr>]"
    if "(case r of RecCheckpoint cp \<Rightarrow> append_checkpoint (w_codec w) j cp
        | RecObservation ob \<Rightarrow> append_observation (w_codec w) j ob
        | RecAcknowledgement n \<Rightarrow> acknowledge (w_codec w) j n) = Inr j'" for j j'
    using that by (cases r) (auto simp: append_checkpoint_def append_observation_def acknowledge_def
        dest: journal_append_frames)
  show ?thesis
    using assms
    by (auto simp: triple_def append_record_def process_defs emit_def stands_def frames_of_snoc map_err_Inr
        dest: frames split: sum.splits prod.splits)
qed

lemma record_checkpoint_stands:
  assumes "checkpoint_step allowed st phase attempt = Some st'"
  shows "triple (stands allowed C start (st, False)) (record_checkpoint w c attempt phase retry_at pf)
    (\<lambda>_. stands allowed C start (st', False)) (stands allowed C start (st, False))"
  unfolding record_checkpoint_def
proof (rule triple_bind_gets)
  fix cp
  show "triple (\<lambda>s. stands allowed C start (st, False) s \<and> checkpoint_of w s c attempt phase retry_at pf = cp)
      (append_record w (RecCheckpoint cp)) (\<lambda>_. stands allowed C start (st', False))
      (stands allowed C start (st, False))"
  proof (cases "cp_phase cp = phase \<and> cp_attempt cp = attempt")
    case True
    then show ?thesis using assms by (auto intro!: triple_pre [OF append_record_stands])
  next
    case False
    then show ?thesis by (auto simp: triple_def checkpoint_of_def)
  qed
qed

lemma observe_stands:
  assumes "kind \<in> set observation_kinds"
  shows "triple (stands allowed C start (st, False)) (observe w kind attempt exit_code detail terminal pid)
     (\<lambda>_. stands allowed C start (st, terminal)) (stands allowed C start (st, False))"
  unfolding observe_def Let_def
proof (rule triple_bind_unit)
  show "triple (stands allowed C start (st, False))
      (modify (\<lambda>s. s\<lparr>rn_sequence := saturating_add (rn_sequence s) 1\<rparr>))
      (\<lambda>_. stands allowed C start (st, False)) (stands allowed C start (st, False))"
    by (rule triple_pre [OF triple_modify]) (simp add: stands_def)
next
  show "triple (stands allowed C start (st, False))
      (bind (gets rn_sequence) (\<lambda>sequence. bind (unix_ms w) (\<lambda>now.
        bind (append_record w (RecObservation \<lparr>ro_sequence = sequence, ro_kind = kind, ro_attempt = attempt,
          ro_exit_code = exit_code, ro_detail = detail, ro_observed_unix_ms = now, ro_terminal = terminal,
          ro_workload_process_id = pid\<rparr>)) (\<lambda>_. emit (Sent \<lparr>ro_sequence = sequence, ro_kind = kind,
          ro_attempt = attempt, ro_exit_code = exit_code, ro_detail = detail, ro_observed_unix_ms = now,
          ro_terminal = terminal, ro_workload_process_id = pid\<rparr>)))))
      (\<lambda>_. stands allowed C start (st, terminal)) (stands allowed C start (st, False))"
    by (rule triple_bind_gets, rule triple_pre, rule triple_bind [OF unix_ms_stands],
        rule triple_bind [OF append_record_stands], simp add: assms, rule emit_neutral) simp_all
qed

lemma write_result_stands:
  "triple (stands allowed C start p) (write_result w path result) (\<lambda>_. stands allowed C start p)
     (stands allowed C start p)"
  unfolding write_result_def
  by (auto split: option.split intro: triple_fail emit_neutral)

lemma write_attempt_result_stands:
  "triple (stands allowed C start p) (write_attempt_result w attempt result) (\<lambda>_. stands allowed C start p)
     (stands allowed C start p)"
  unfolding write_attempt_result_def
  by (rule triple_bind_gets)
    (auto split: option.split intro: triple_fail triple_pre [OF write_result_stands])

lemmas stands_E = triple_conseq [where E = "safe allowed C start" for allowed C start]

lemma finish_kind_known: "finish_kind c result \<in> set observation_kinds"
  by (simp add: finish_kind_def observation_kinds_def)

lemma finish_execution_kind_stands:
  assumes "kind \<in> set observation_kinds"
  shows "triple (stands allowed C start (st, False)) (finish_execution_kind w attempt result kind)
     (\<lambda>_. stands allowed C start (st, True)) (safe allowed C start)"
  unfolding finish_execution_kind_def
proof (rule triple_bind_unit)
  show "triple (stands allowed C start (st, False))
      (observe w kind attempt (ar_exit_code result) (ar_error result) True 0)
      (\<lambda>_. stands allowed C start (st, True)) (safe allowed C start)"
    by (rule triple_conseq [OF observe_stands [OF assms]]) (auto intro: stands_safe)
  show "triple (stands allowed C start (st, True))
      (bind (gets (\<lambda>s. ec_result_file (rn_configuration s)))
        (\<lambda>path. write_result w path (result\<lparr>ar_outcome := kind\<rparr>)))
      (\<lambda>_. stands allowed C start (st, True)) (safe allowed C start)"
    by (rule triple_bind_gets, rule triple_conseq [OF write_result_stands]) (auto intro: stands_safe)
qed

lemma finish_execution_run_stands:
  "triple (stands allowed C start (st, False)) (finish_execution_run w attempt result)
     (\<lambda>_. stands allowed C start (st, True)) (safe allowed C start)"
  unfolding finish_execution_run_def
  by (rule triple_observe, rule finish_execution_kind_stands, rule finish_kind_known)

lemma finish_with_stands:
  "triple (stands allowed C start (st, False)) (finish_with w attempt result)
     (\<lambda>_. stands allowed C start (st, True)) (safe allowed C start)"
  unfolding finish_with_def by (rule triple_bind [OF finish_execution_run_stands], rule triple_return)

lemma finish_stopped_stands:
  "triple (stands allowed C start (st, False)) (finish_stopped w attempt)
     (\<lambda>_. stands allowed C start (st, True)) (safe allowed C start)"
  unfolding finish_stopped_def stopped_result_def
  by (rule triple_bind [OF unix_ms_stands], rule triple_bind, rule triple_bind [OF unix_ms_stands],
      rule triple_return, assumption, rule triple_bind [OF finish_execution_run_stands], rule triple_return)

lemma attempt_checkpoint_stands:
  "triple (stands allowed C start (Busy a, False)) (attempt_of (record_checkpoint w c a ''running'' 0 pf))
     (\<lambda>_. stands allowed C start (Busy a, False)) (safe allowed C start)"
  by (rule triple_conseq [OF triple_attempt_of [OF record_checkpoint_stands [where st' = "Busy a"]]])
    (auto simp: checkpoint_step_def intro: stands_safe)

lemma attempt_observe_stands:
  assumes "kind \<in> set observation_kinds"
  shows "triple (stands allowed C start (st, False))
     (attempt_of (observe w kind attempt exit_code detail False pid))
     (\<lambda>_. stands allowed C start (st, False)) (safe allowed C start)"
  by (rule triple_conseq [OF triple_attempt_of [OF observe_stands [OF assms]]]) (auto intro: stands_safe)

lemma failed_result_stands:
  "triple (stands allowed C start p) (failed_result w started e) (\<lambda>_. stands allowed C start p) E"
  unfolding failed_result_def by (rule triple_bind [OF unix_ms_stands], rule triple_return)

lemma start_stop_command_stands:
  "triple (stands allowed C start p) (start_stop_command pf r) (\<lambda>_. stands allowed C start p) E"
  unfolding start_stop_command_def
  by (rule triple_bind_any)
    (auto split: sum.split intro!: triple_return triple_bind_unit [OF emit_neutral])

lemma signal_child_stands:
  "triple (stands allowed C start p) (signal_child pf pid r) (\<lambda>_. stands allowed C start p) E"
  unfolding signal_child_def
  by (rule triple_bind_any)
    (auto intro: start_stop_command_stands triple_bind_unit [OF emit_neutral] triple_return)

lemma await_child_stands:
  "triple (stands allowed C start p) (await_child r wait) (\<lambda>_. stands allowed C start p) E"
  by (auto simp: await_child_def intro: triple_return triple_bind_unit [OF emit_neutral] split: option.split)

lemma stop_process_stands:
  "triple (stands allowed C start p) (stop_process pf pid maximum r) (\<lambda>_. stands allowed C start p) E"
  unfolding stop_process_def Let_def
proof (rule triple_bind_any)
  fix c :: execution_configuration
  have "triple (stands allowed C start p)
      (bind (signal_child pf pid r) (\<lambda>stop_command. bind (await_child r wait) (\<lambda>outcome.
        bind (if stop_command then emit StopCommandTerminated else ret ()) (\<lambda>_. ret outcome))))
      (\<lambda>_. stands allowed C start p) E" for wait
    by (rule triple_bind [OF signal_child_stands], rule triple_bind [OF await_child_stands])
      (auto intro!: triple_bind_unit [where R = "stands allowed C start p"] emit_neutral triple_return)
  moreover have "triple (stands allowed C start p) (bind (emit JobTerminated) (\<lambda>_. ret x))
      (\<lambda>_. stands allowed C start p) E" for x :: "(string + u32) \<times> bool \<times> bool"
    by (auto intro: triple_bind_unit [OF emit_neutral] triple_return)
  ultimately show "triple (stands allowed C start p)
      (if ec_stop_method c = ''kill''
       then bind (emit JobTerminated) (\<lambda>_. ret (cr_killed_status r, True, True))
       else bind (signal_child pf pid r) (\<lambda>stop_command.
         bind (await_child r (case maximum of None \<Rightarrow> ec_stop_timeout_ms c
            | Some m \<Rightarrow> min (ec_stop_timeout_ms c) m)) (\<lambda>outcome.
         bind (if stop_command then emit StopCommandTerminated else ret ()) (\<lambda>_. ret outcome))))
      (\<lambda>_. stands allowed C start p) E"
    by simp
qed

text \<open>What reads the configuration may use that it satisfies \<open>C\<close>. A run that returns has written its terminal observation.\<close>

lemma bind_configuration_stands:
  assumes "\<And>c. C c \<Longrightarrow> triple (stands allowed C start p) (g c) Q E"
  shows "triple (stands allowed C start p) (bind (gets rn_configuration) g) Q E"
proof (rule triple_bind_gets)
  fix c :: execution_configuration
  show "triple (\<lambda>s. stands allowed C start p s \<and> rn_configuration s = c) (g c) Q E"
    using assms [of c] by (cases "C c") (auto simp: stands_def triple_def)
qed

lemma finish_with_over:
  "triple (stands allowed C start (st, False)) (finish_with w a result)
    (\<lambda>_ s. \<exists>st. stands allowed C start (st, True) s) (safe allowed C start)"
  by (rule triple_conseq [OF finish_with_stands]) auto

lemma finish_stopped_over:
  "triple (stands allowed C start (st, False)) (finish_stopped w a)
    (\<lambda>_ s. \<exists>st. stands allowed C start (st, True) s) (safe allowed C start)"
  by (rule triple_conseq [OF finish_stopped_stands]) auto

lemma write_attempt_result_safe:
  "triple (stands allowed C start p) (write_attempt_result w a result) (\<lambda>_. stands allowed C start p)
    (safe allowed C start)"
  by (rule triple_conseq [OF write_attempt_result_stands]) (auto intro: stands_safe)

lemma observe_safe:
  assumes "kind \<in> set observation_kinds"
  shows "triple (stands allowed C start (st, False)) (observe w kind a exit_code detail False pid)
    (\<lambda>_. stands allowed C start (st, False)) (safe allowed C start)"
  by (rule triple_conseq [OF observe_stands [OF assms]]) (auto intro: stands_safe)

lemma open_session_stands:
  "triple (stands allowed C start p) (open_session i has_session) (\<lambda>_. stands allowed C start p) (safe allowed C start)"
  by (auto simp: open_session_def split: option.split intro: triple_return triple_fail stands_safe)

lemma ensure_private_console_stands:
  "triple (stands allowed C start p) (ensure_private_console i) (\<lambda>_. stands allowed C start p) (safe allowed C start)"
  by (auto simp: ensure_private_console_def split: option.split intro: triple_return triple_fail stands_safe)

lemma child_result_stands:
  "triple (stands allowed C start p) (child_result w started ended) (\<lambda>_. stands allowed C start p) E"
  unfolding child_result_def
  by (auto split: sum.split intro: failed_result_stands triple_bind [OF unix_ms_stands] triple_return)

context policy_discipline
begin

lemma configure_stands:
  assumes "\<And>c. C c \<Longrightarrow> C (f c)"
  shows "triple (stands allowed C start p) (modify (\<lambda>s. s\<lparr>rn_configuration := f (rn_configuration s)\<rparr>))
    (\<lambda>_. stands allowed C start p) E"
  by (rule triple_pre [OF triple_modify]) (use assms in \<open>simp add: stands_def\<close>)

lemma update_running_stands:
  assumes "U u"
  shows "triple (stands allowed C start (Busy a, False)) (update_running w a pf pid u)
    (\<lambda>_. stands allowed C start (Busy a, False)) (safe allowed C start)"
  unfolding update_running_def
proof (rule triple_bind_gets, goal_cases)
  case (1 candidate)
  show ?case
  proof (cases "C candidate")
    case False
    then show ?thesis using C_update [OF _ assms] by (auto simp: triple_def stands_def)
  next
    case True
    then have set: "triple (stands allowed C start (Busy a, False)) (modify (\<lambda>s. s\<lparr>rn_configuration := candidate\<rparr>))
        (\<lambda>_. stands allowed C start (Busy a, False)) (safe allowed C start)"
      using configure_stands [of "\<lambda>_. candidate"] by simp
    show ?thesis
      by (rule triple_pre, rule triple_bind [OF attempt_checkpoint_stands])
        (auto intro!: triple_return triple_bind_unit [OF set] triple_bind_unit [OF attempt_observe_stands])
  qed
qed

lemma process_loop_stands:
  assumes "list_all U (concat (map updates_of_process evs))"
  shows "triple (stands allowed C start (Busy a, False)) (process_loop w has_session a pf pid policy_open evs)
    (\<lambda>_. stands allowed C start (Busy a, False)) (safe allowed C start)"
  using assms
proof (induction evs arbitrary: policy_open has_session)
  case Nil
  then show ?case by (auto intro: triple_wait stands_safe)
next
  case (Cons ev evs)
  then have rest: "triple (stands allowed C start (Busy a, False)) (process_loop w h a pf pid b evs)
      (\<lambda>_. stands allowed C start (Busy a, False)) (safe allowed C start)" for h b
    by simp
  show ?case
  proof (cases ev)
    case (PolicyChanged update)
    have "triple (stands allowed C start (Busy a, False))
        (case update of Some u \<Rightarrow> if policy_open then update_running w a pf pid u else ret () | None \<Rightarrow> ret ())
        (\<lambda>_. stands allowed C start (Busy a, False)) (safe allowed C start)"
      using Cons.prems PolicyChanged by (auto split: option.split intro: triple_return update_running_stands)
    then show ?thesis using PolicyChanged rest by (auto intro: triple_bind_unit)
  qed (auto simp: rest intro: triple_return stop_process_stands)
qed

lemma run_child_stands:
  assumes "list_all U (concat (map updates_of_process evs))"
  shows "triple (stands allowed C start (Armed a, False)) (run_child w has_session a pf started c pid evs)
    (\<lambda>_. stands allowed C start (Busy a, False)) (safe allowed C start)"
proof -
  let ?B = "stands allowed C start (Busy a, False)"
  have fails: "triple ?B (bind (emit JobTerminated) (\<lambda>_. failed_result w started e)) (\<lambda>_. ?B)
      (safe allowed C start)" for e
    by (rule triple_bind_unit [OF emit_neutral]) (simp_all add: failed_result_stands)
  have runs: "triple ?B (bind (emit (CaptureStarted c)) (\<lambda>_.
      bind (process_loop w has_session a pf pid True evs) (child_result w started))) (\<lambda>_. ?B)
      (safe allowed C start)"
    by (rule triple_bind_unit [OF emit_neutral], simp, rule triple_bind [OF process_loop_stands [OF assms]],
        rule child_result_stands)
  show ?thesis
    unfolding run_child_def
    by (rule triple_bind_unit [OF emit_launched], rule triple_bind_any, rule triple_bind [OF attempt_checkpoint_stands])
      (auto split: sum.split intro!: fails runs triple_bind [OF attempt_observe_stands])
qed

text \<open>The launch may fail before there is a child.\<close>

lemma run_process_stands:
  assumes "list_all U (updates_of_turn t)"
  shows "triple (stands allowed C start (Armed a, False)) (run_process w has_session t a pf started)
    (\<lambda>_ s. stands allowed C start (Armed a, False) s \<or> stands allowed C start (Busy a, False) s) (safe allowed C start)"
proof -
  have early: "triple (stands allowed C start (Armed a, False)) (failed_result w started e)
      (\<lambda>_ s. stands allowed C start (Armed a, False) s \<or> stands allowed C start (Busy a, False) s) (safe allowed C start)" for e
    by (rule triple_conseq [OF failed_result_stands]) auto
  have runs: "triple (stands allowed C start (Armed a, False)) (run_child w has_session a pf started c pid (t_events t))
      (\<lambda>_ s. stands allowed C start (Armed a, False) s \<or> stands allowed C start (Busy a, False) s) (safe allowed C start)" for c pid
    by (rule triple_conseq [OF run_child_stands]) (use assms in \<open>auto simp: updates_of_turn_def\<close>)
  show ?thesis
    unfolding run_process_def
    by (rule triple_bind_any) (simp split: option.split sum.split add: early runs)
qed

lemma configure_to_stands:
  "C c \<Longrightarrow> triple (stands allowed C start p) (modify (\<lambda>s. s\<lparr>rn_configuration := c\<rparr>))
    (\<lambda>_. stands allowed C start p) E"
  using configure_stands [of "\<lambda>_. c"] by simp

lemma bind_candidate_stands:
  assumes "U u" and "\<And>c. C c \<Longrightarrow> triple (stands allowed C start p) (g c) Q E"
  shows "triple (stands allowed C start p) (bind (gets (\<lambda>s. apply_policy (rn_configuration s) u)) g) Q E"
proof (rule triple_bind_gets)
  fix c
  show "triple (\<lambda>s. stands allowed C start p s \<and> apply_policy (rn_configuration s) u = c) (g c) Q E"
    using assms(2) [of c] C_update [OF _ assms(1)] by (cases "C c") (auto simp: stands_def triple_def)
qed

lemma wait_backoff_stands:
  assumes "list_all U (concat (map updates_of_backoff evs))"
  shows "triple (stands allowed C start (Waiting a, False))
    (wait_backoff w has_session a retry_at pf successful decision_retries stdin_open policy_open evs)
    (\<lambda>_. stands allowed C start (Waiting a, False)) (safe allowed C start)"
  using assms
proof (induction evs arbitrary: stdin_open policy_open has_session)
  case Nil
  then show ?case by (auto intro: triple_wait stands_safe)
next
  case (Cons ev evs)
  let ?W = "stands allowed C start (Waiting a, False)"
  have rest: "triple ?W (wait_backoff w h a retry_at pf successful decision_retries i j evs)
      (\<lambda>_. ?W) (safe allowed C start)" for h i j
    using Cons by simp
  have announce: "triple ?W (record_checkpoint w c a ''restart_backoff'' retry_at pf) (\<lambda>_. ?W) (safe allowed C start)" for c
    by (rule triple_conseq [OF record_checkpoint_stands [where st' = "Waiting a"]])
      (auto simp: checkpoint_step_def intro: stands_safe)
  have tell: "triple ?W (observe w ''policy-applied'' a None detail False 0) (\<lambda>_. ?W)
      (safe allowed C start)" for detail
    by (rule triple_conseq [OF observe_stands]) (auto intro: stands_safe)
  have update: "triple ?W (bind (gets (\<lambda>s. apply_policy (rn_configuration s) u)) (\<lambda>candidate.
      bind (record_checkpoint w candidate a ''restart_backoff'' retry_at pf) (\<lambda>_.
      bind (modify (\<lambda>s. s\<lparr>rn_configuration := candidate\<rparr>)) (\<lambda>_.
      bind (observe w ''policy-applied'' a None (hex (pu_policy_hash u)) False 0) (\<lambda>_.
        if should_retry candidate successful decision_retries
        then wait_backoff w h a retry_at pf successful decision_retries i j evs
        else ret RetryDenied))))) (\<lambda>_. ?W) (safe allowed C start)" if "U u" for u h i j
    by (rule bind_candidate_stands [OF that], rule triple_bind_unit [OF announce],
        rule triple_bind_unit [OF configure_to_stands], assumption, rule triple_bind_unit [OF tell])
      (simp add: rest triple_return)
  show ?case
  proof (cases ev)
    case (BackoffPolicyChanged u)
    then show ?thesis using Cons.prems by (cases u) (auto simp: rest update)
  qed (simp_all add: rest triple_return)
qed

lemma begin_backoff_stands:
  assumes "st = Armed b \<or> st = Busy b" and "a = saturating_add b 1" and "allowed a"
  shows "triple (stands allowed C start (st, False)) (begin_backoff w a retries pf exit_code detail)
    (\<lambda>_. stands allowed C start (Waiting a, False)) (safe allowed C start)"
proof -
  have announce: "triple (stands allowed C start (st, False)) (record_checkpoint w c a ''restart_backoff'' retry_at pf)
      (\<lambda>_. stands allowed C start (Waiting a, False)) (safe allowed C start)" for c retry_at
    by (rule triple_conseq [OF record_checkpoint_stands [where st' = "Waiting a"]])
      (use assms in \<open>auto simp: checkpoint_step_def intro: stands_safe\<close>)
  have tell: "triple (stands allowed C start (Waiting a, False)) (observe w ''restart-backoff'' a exit_code detail False 0)
      (\<lambda>_. stands allowed C start (Waiting a, False)) (safe allowed C start)"
    by (rule triple_conseq [OF observe_stands]) (auto intro: stands_safe)
  show ?thesis
    unfolding begin_backoff_def Let_def
    by (rule triple_bind_any, rule triple_bind [OF unix_ms_stands], rule triple_bind_unit [OF announce],
        rule triple_bind_unit [OF tell], rule triple_return)
qed

lemma launch_attempt_stands:
  assumes "launching_step allowed st a = Some (Armed a)" and "list_all U (updates_of_turn t)"
  shows "triple (stands allowed C start (st, False)) (launch_attempt w has_session t a pf)
    (\<lambda>_ s. stands allowed C start (Armed a, False) s \<or> stands allowed C start (Busy a, False) s)
    (safe allowed C start)"
proof -
  let ?A = "stands allowed C start (Armed a, False)" and ?E = "safe allowed C start"
  let ?Q = "\<lambda>_ s. ?A s \<or> stands allowed C start (Busy a, False) s"
  have announce: "triple (stands allowed C start (st', False)) (record_checkpoint w c a ''launching'' 0 p) (\<lambda>_. ?A) ?E"
    if "launching_step allowed st' a = Some (Armed a)" for st' c p
    by (rule triple_conseq [OF record_checkpoint_stands [where st' = "Armed a"]])
      (use that in \<open>auto simp: checkpoint_step_def intro: stands_safe\<close>)
  have again: "triple ?A (record_checkpoint w c a ''launching'' 0 p) (\<lambda>_. ?A) ?E" for c p
    by (rule announce) simp
  have number: "triple (stands allowed C start (st, False))
      (modify (\<lambda>s. s\<lparr>rn_configuration := (rn_configuration s)\<lparr>ec_attempt := a\<rparr>\<rparr>))
      (\<lambda>_. stands allowed C start (st, False)) ?E"
    by (rule configure_stands [of "\<lambda>c. c\<lparr>ec_attempt := a\<rparr>"]) (rule C_attempt)
  have tell: "triple ?A (observe w ''policy-applied'' a None detail False 0) (\<lambda>_. ?A) ?E" for detail
    by (rule triple_conseq [OF observe_stands]) (auto intro: stands_safe)
  have updated: "triple ?A (case t_update t of
        None \<Rightarrow> ret ()
      | Some u \<Rightarrow> bind (modify (\<lambda>s. s\<lparr>rn_configuration := apply_policy (rn_configuration s) u\<rparr>)) (\<lambda>_.
          bind (gets rn_configuration) (\<lambda>c.
          bind (record_checkpoint w c a ''launching'' 0 pf) (\<lambda>_.
            observe w ''policy-applied'' a None (hex (pu_policy_hash u)) False 0)))) (\<lambda>_. ?A) ?E"
  proof (cases "t_update t")
    case (Some u)
    then have "U u" using assms(2) by (simp add: updates_of_turn_def)
    then have "triple ?A (modify (\<lambda>s. s\<lparr>rn_configuration := apply_policy (rn_configuration s) u\<rparr>)) (\<lambda>_. ?A) ?E"
      by (intro configure_stands [of "\<lambda>c. apply_policy c u"] C_update)
    then show ?thesis unfolding Some option.case
      by (rule triple_bind_unit) (rule triple_bind_any, rule triple_bind_unit [OF again], rule tell)
  qed (simp add: triple_return)
  have runs: "triple ?A (bind (run_process w has_session t a p started) (\<lambda>result. ret (result, q))) ?Q ?E"
    for p started q
    by (rule triple_bind [OF run_process_stands [OF assms(2)]], rule triple_return)
  have fails: "triple ?A (bind (unix_ms w) (\<lambda>now. ret (f now, None))) ?Q ?E"
    for f :: "int \<Rightarrow> attempt_result"
    by (rule triple_bind [OF unix_ms_stands], rule triple_return) simp
  have choose: "triple ?A (case pf of
        Some p \<Rightarrow> bind (run_process w has_session t a p started) (\<lambda>result. ret (result, pf))
      | None \<Rightarrow> (case preflight_configuration (t_platform t) (t_environment t) c of
          Inr resolved \<Rightarrow> bind (record_checkpoint w c a ''launching'' 0 (Some resolved)) (\<lambda>_.
            bind (run_process w has_session t a resolved started) (\<lambda>result. ret (result, Some resolved)))
        | Inl e \<Rightarrow> bind (unix_ms w) (\<lambda>now. ret (\<lparr>ar_launched = False, ar_exit_code = None,
            ar_error = run_error_str e, ar_started_unix_ms = started, ar_ended_unix_ms = now,
            ar_stop_requested = t_stop_requested t, ar_forced = False, ar_outcome = []\<rparr>, None)))) ?Q ?E"
    for started c
    by (auto split: option.split sum.split intro: runs fails triple_bind_unit [OF again])
  show ?thesis
    unfolding launch_attempt_def
    by (rule triple_bind_unit [OF number], rule triple_bind_any, rule triple_bind_unit [OF announce [OF assms(1)]],
        rule triple_bind [OF unix_ms_stands], rule triple_bind_unit [OF updated], rule triple_bind_any, rule choose)
qed

text \<open>\<open>k\<close> goes on as it should from a waiting attempt.\<close>

lemma back_off_stands:
  assumes "st = Armed a \<or> st = Busy a" and "allowed (saturating_add a 1)"
    and "list_all U (concat (map updates_of_backoff evs))"
    and "triple (stands allowed C start (Waiting (saturating_add a 1), False))
      (k (saturating_add a 1) (saturating_add r 1)) (\<lambda>_ s. \<exists>st. stands allowed C start (st, True) s)
      (safe allowed C start)"
  shows "triple (stands allowed C start (st, False)) (back_off w has_session evs a r pf successful detail result k)
    (\<lambda>_ s. \<exists>st. stands allowed C start (st, True) s) (safe allowed C start)"
  unfolding back_off_def Let_def
  by (rule triple_bind [OF begin_backoff_stands [OF assms(1) refl assms(2)]],
      rule triple_bind [OF wait_backoff_stands [OF assms(3)]])
    (auto split: backoff_outcome.split intro: assms(4) finish_stopped_over finish_with_over)

lemma after_attempt_stands:
  assumes "st = Armed a \<or> st = Busy a" and "R a r" and "list_all U (updates_of_turn t)"
    and k: "\<And>r'. R (saturating_add a 1) r' \<Longrightarrow>
      triple (stands allowed C start (Waiting (saturating_add a 1), False)) (k (saturating_add a 1) r')
        (\<lambda>_ s. \<exists>st. stands allowed C start (st, True) s) (safe allowed C start)"
  shows "triple (stands allowed C start (st, False)) (after_attempt w has_session t a r pf result k)
    (\<lambda>_ s. \<exists>st. stands allowed C start (st, True) s) (safe allowed C start)"
proof -
  have events: "list_all U (concat (map updates_of_backoff (t_backoff t)))"
    using assms(3) by (simp add: updates_of_turn_def)
  have decide: "triple (stands allowed C start (st, False))
      (let successful = exit_successful c result; retries = retries_after c result r in
       if should_retry c successful retries
       then back_off w has_session (t_backoff t) a retries pf successful (ar_error result) result k
       else finish_with w a result)
      (\<lambda>_ s. \<exists>st. stands allowed C start (st, True) s) (safe allowed C start)" if "C c" for c
  proof -
    have "R a (retries_after c result r)" using that assms(2) by (rule R_reset)
    then show ?thesis
      using that by (auto simp: Let_def finish_with_over intro!: back_off_stands [OF assms(1) _ events] k dest: R_retry)
  qed
  show ?thesis
    unfolding after_attempt_def
    by (rule triple_bind_unit [OF write_attempt_result_safe], rule triple_bind_unit [OF observe_safe])
      (simp_all add: finish_with_over bind_configuration_stands [OF decide])
qed

lemma run_loop_stands:
  assumes "launching_step allowed st a = Some (Armed a)" and "R a r"
    and "list_all U (concat (map updates_of_turn ts))"
  shows "triple (stands allowed C start (st, False)) (run_loop w has_session ts pf a r)
    (\<lambda>_ s. \<exists>st. stands allowed C start (st, True) s) (safe allowed C start)"
  using assms
proof (induction ts arbitrary: st a r pf)
  case Nil
  then show ?case by (auto intro: triple_wait stands_safe)
next
  case (Cons t ts)
  then have turn: "list_all U (updates_of_turn t)" by simp
  have "triple (stands allowed C start (st', False))
      (after_attempt w has_session t a r pf' result (run_loop w has_session ts pf'))
      (\<lambda>_ s. \<exists>st. stands allowed C start (st, True) s) (safe allowed C start)"
    if "st' = Armed a \<or> st' = Busy a" for st' pf' result
    by (rule after_attempt_stands [OF that Cons.prems(2) turn]) (use Cons in \<open>auto intro: Cons.IH\<close>)
  then show ?case
    unfolding run_loop.simps
    by (intro triple_bind [OF launch_attempt_stands [OF Cons.prems(1) turn]], clarify)
      (rule triple_disj; simp)
qed

text \<open>Where the automaton starts, by the checkpoint that the journal recovers.\<close>

end

fun recovered_stage :: "checkpoint option \<Rightarrow> stage" where
  "recovered_stage None = Fresh"
| "recovered_stage (Some cp) =
     (if cp_phase cp = ''launching'' \<or> cp_phase cp = ''running'' then Busy (cp_attempt cp)
      else Waiting (cp_attempt cp))"

definition checkpoint_ok :: "(u32 \<Rightarrow> bool) \<Rightarrow> checkpoint \<Rightarrow> bool" where
  "checkpoint_ok allowed cp \<longleftrightarrow>
     cp_phase cp \<in> {''launching'', ''running'', ''restart_backoff''} \<and> 1 \<le> cp_attempt cp \<and> allowed (cp_attempt cp)"

context policy_discipline
begin

lemma recover_lost_stands:
  assumes "1 \<le> a" and "list_all U (updates_of_input i)"
  shows "triple (stands allowed C start (Busy a, False))
    (recover_lost w has_session i cp pf a (saturating_sub a 1) (run_loop w has_session (ri_turns i) pf))
    (\<lambda>_ s. \<exists>st. stands allowed C start (st, True) s) (safe allowed C start)"
proof -
  let ?over = "\<lambda>_ s. \<exists>st. stands allowed C start (st, True) s" and ?E = "safe allowed C start"
  have updates: "list_all U (concat (map updates_of_backoff (ri_backoff i)))"
      "list_all U (concat (map updates_of_turn (ri_turns i)))"
    using assms(2) by (simp_all add: updates_of_input_def)
  have unknown: "triple (stands allowed C start (Busy a, False))
      (bind (finish_execution_kind w a result kind) (\<lambda>_. ret result)) ?over ?E" if "kind \<in> set observation_kinds" for result kind
    by (rule triple_bind_unit [OF finish_execution_kind_stands [OF that]], rule triple_return) blast
  have retry: "triple (stands allowed C start (Busy a, False))
      (back_off w has_session (ri_backoff i) a (saturating_sub a 1) pf False detail result
        (run_loop w has_session (ri_turns i) pf)) ?over ?E"
    if "C c" and "should_retry c False (saturating_sub a 1)" for c detail result
    using R_retry [OF that(1) R_start [OF assms(1)] that(2)]
    by (auto intro!: back_off_stands updates run_loop_stands)
  show ?thesis
    unfolding recover_lost_def Let_def
    by (auto intro!: finish_stopped_over finish_with_over triple_bind [OF unix_ms_stands] unknown
        triple_bind_unit [OF write_attempt_result_safe] triple_bind_unit [OF observe_safe]
        bind_configuration_stands retry)
qed

lemma recover_backoff_stands:
  assumes "1 \<le> a" and "list_all U (updates_of_input i)"
  shows "triple (stands allowed C start (Waiting a, False))
    (recover_backoff w has_session i cp pf a (saturating_sub a 1) (run_loop w has_session (ri_turns i) pf))
    (\<lambda>_ s. \<exists>st. stands allowed C start (st, True) s) (safe allowed C start)"
proof -
  let ?over = "\<lambda>_ s. \<exists>st. stands allowed C start (st, True) s" and ?E = "safe allowed C start"
  let ?W = "stands allowed C start (Waiting a, False)"
  have updates: "list_all U (concat (map updates_of_backoff (ri_backoff i)))"
      "list_all U (concat (map updates_of_turn (ri_turns i)))"
    using assms(2) by (simp_all add: updates_of_input_def)
  have go_on: "triple ?W (run_loop w has_session (ri_turns i) pf a (saturating_sub a 1)) ?over ?E"
    by (rule run_loop_stands [OF _ R_start [OF assms(1)] updates(2)]) simp
  have deny: "triple ?W (bind (unix_ms w) (\<lambda>now. bind (failed_result w now e) (finish_with w a))) ?over ?E" for e
    by (rule triple_bind [OF unix_ms_stands], rule triple_bind [OF failed_result_stands], rule finish_with_over)
  show ?thesis
    unfolding recover_backoff_def
    by (rule triple_bind [OF unix_ms_stands])
      (auto split: backoff_outcome.split intro!: go_on deny finish_stopped_over
        triple_bind [OF unix_ms_stands] triple_bind [OF wait_backoff_stands [OF updates(1)]])
qed

lemma run_from_stands:
  assumes "pred_option (checkpoint_ok allowed) cp" and "cp = None \<Longrightarrow> allowed (max (ec_attempt c) 1)"
    and "list_all U (updates_of_input i)"
  shows "triple (stands allowed C start (recovered_stage cp, False)) (run_from w i cp c)
    (\<lambda>_ s. \<exists>st. stands allowed C start (st, True) s) (safe allowed C start)"
proof -
  let ?over = "\<lambda>_ s. \<exists>st. stands allowed C start (st, True) s"
  have turns: "list_all U (concat (map updates_of_turn (ri_turns i)))"
    using assms(3) by (simp add: updates_of_input_def)
  show ?thesis
  proof (cases cp)
    case None
    then have "triple (stands allowed C start (Fresh, False)) (run_loop w has_session (ri_turns i) None
        (max (ec_attempt c) 1) (saturating_sub (max (ec_attempt c) 1) 1)) ?over (safe allowed C start)" for has_session
      by (intro run_loop_stands [OF _ R_start turns]) (simp_all add: assms(2))
    then show ?thesis unfolding run_from_def Let_def None
      by (simp add: triple_bind_unit [OF open_session_stands triple_bind_unit [OF ensure_private_console_stands]])
  next
    case (Some chk)
    then have chk: "1 \<le> cp_attempt chk" "cp_phase chk = ''launching'' \<or> cp_phase chk = ''running'' \<or>
        cp_phase chk = ''restart_backoff''" "max (cp_attempt chk) 1 = cp_attempt chk"
      using assms(1) by (auto simp: checkpoint_ok_def max_absorb1)
    have "triple (stands allowed C start (recovered_stage (Some chk), False))
        (if cp_phase chk = ''launching'' \<or> cp_phase chk = ''running''
         then recover_lost w has_session i chk pf (cp_attempt chk) (saturating_sub (cp_attempt chk) 1)
           (run_loop w has_session (ri_turns i) pf)
         else if cp_phase chk = ''restart_backoff''
         then recover_backoff w has_session i chk pf (cp_attempt chk) (saturating_sub (cp_attempt chk) 1)
           (run_loop w has_session (ri_turns i) pf)
         else run_loop w has_session (ri_turns i) pf (cp_attempt chk) (saturating_sub (cp_attempt chk) 1))
        ?over (safe allowed C start)" for has_session pf
      using chk(2) recover_lost_stands [OF chk(1) assms(3)] recover_backoff_stands [OF chk(1) assms(3)]
      by auto
    then show ?thesis unfolding run_from_def Let_def Some option.case chk(3)
      by (intro triple_bind_unit [OF open_session_stands triple_bind_unit [OF ensure_private_console_stands]])
  qed
qed

lemma run_supervisor_stands:
  assumes "pred_option (checkpoint_ok allowed) (rr_checkpoint (recovery j))"
    and "rr_checkpoint (recovery j) = None \<Longrightarrow> allowed (max (ec_attempt c) 1)"
    and "C c" and "list_all U (updates_of_input i)"
    and "start = ((recovered_stage (rr_checkpoint (recovery j)), False), rj_frames j)"
  shows "triple (\<lambda>s. s = start_runner c j) (run_supervisor w i)
    (\<lambda>_ s. \<exists>st. stands allowed C start (st, True) s) (safe allowed C start)"
proof -
  let ?cp = "rr_checkpoint (recovery j)"
  have stands: "stands allowed C start (recovered_stage ?cp, False) (start_runner c j)"
    using assms(3,5) by (simp add: stands_def start_runner_def frames_of_def)
  have "run_supervisor w i (start_runner c j) = run_from w i ?cp c (start_runner c j)"
    by (simp add: run_supervisor_def bind_def gets_def start_runner_def)
  moreover have "triple (stands allowed C start (recovered_stage ?cp, False)) (run_from w i ?cp c)
      (\<lambda>_ s. \<exists>st. stands allowed C start (st, True) s) (safe allowed C start)"
    by (rule run_from_stands [OF assms(1,2,4)])
  ultimately show ?thesis using stands by (simp add: triple_def)
qed

end

section \<open>The disciplines of the code\<close>

text \<open>Whatever the policies are, the protocol is followed.\<close>

interpretation any_policy: policy_discipline "\<lambda>a. 1 \<le> a" "\<lambda>_. True" "\<lambda>_. True" "\<lambda>_ _. True"
proof unfold_locales
  show "1 \<le> saturating_add a 1 \<and> True" for a :: u32
    using unat_saturating_add [of a 1] by (simp add: word_le_nat_alt)
qed simp_all

text \<open>Policies that admit at most \<open>n\<close> restarts and never reset the count, as those of jobs are.\<close>

definition limits :: "nat \<Rightarrow> u32 \<Rightarrow> bool \<Rightarrow> u64 \<Rightarrow> bool" where
  "limits n max_restarts unlimited reset_after_ms \<longleftrightarrow> unat max_restarts \<le> n \<and> \<not> unlimited \<and> reset_after_ms = 0"

definition configuration_limits :: "nat \<Rightarrow> execution_configuration \<Rightarrow> bool" where
  "configuration_limits n c \<longleftrightarrow> n < 2 ^ 32 - 2 \<and>
     limits n (ec_max_restarts c) (ec_max_restarts_unlimited c) (ec_restart_reset_after_ms c)"

definition update_limits :: "nat \<Rightarrow> policy_update \<Rightarrow> bool" where
  "update_limits n u \<longleftrightarrow>
     limits n (pu_max_restarts u) (pu_max_restarts_unlimited u) (pu_restart_reset_after_ms u)"

definition within_restarts :: "nat \<Rightarrow> u32 \<Rightarrow> bool" where
  "within_restarts n a \<longleftrightarrow> 1 \<le> unat a \<and> unat a \<le> Suc n \<and> unat a < 2 ^ 32 - 1"

interpretation limited: policy_discipline "within_restarts n" "configuration_limits n" "update_limits n"
    "\<lambda>a r. unat a = unat r + 1" for n
proof unfold_locales
  show "configuration_limits n (apply_policy c u)" if "configuration_limits n c" and "update_limits n u" for c u
    using that by (simp add: configuration_limits_def update_limits_def apply_policy_def)
  show "unat a = unat (saturating_sub a 1) + 1" if "1 \<le> a" for a :: u32
    using that by (simp add: unat_saturating_sub word_le_nat_alt)
  show "unat a = unat (retries_after c result r) + 1" if "configuration_limits n c" and "unat a = unat r + 1" for c a r result
    using that by (simp add: configuration_limits_def limits_def retries_after_def)
  show "within_restarts n (saturating_add a 1) \<and> unat (saturating_add a 1) = unat (saturating_add r 1) + 1"
    if "configuration_limits n c" and "unat a = unat r + 1" and "should_retry c b r" for c a b r
  proof -
    have "unat r < n" "n < 2 ^ 32 - 2" using that by (auto simp: configuration_limits_def limits_def should_retry_def word_less_nat_alt Let_def)
    then show ?thesis using that(2)
      by (simp add: within_restarts_def unat_saturating_add min_def)
  qed
qed (simp add: configuration_limits_def)

text \<open>A job that may have been launched is over, and the result says so.\<close>

lemma triple_results:
  assumes "triple P m Q E" and "triple (\<lambda>_. True) m (\<lambda>x _. G x) (\<lambda>_. True)"
  shows "triple P m (\<lambda>x s. Q x s \<and> G x) E"
  using triple_conj [OF assms] by (rule triple_conseq) auto

lemma finish_stopped_result:
  "triple (\<lambda>_. True) (finish_stopped w a) (\<lambda>result _. ar_stop_requested result) (\<lambda>_. True)"
  by (auto simp: triple_def finish_stopped_def stopped_result_def bind_def ret_def split: prod.splits outcome.splits)

lemma bind_ret_result:
  "triple (\<lambda>_. True) (bind m (\<lambda>_. ret x)) (\<lambda>y _. y = x) (\<lambda>_. True)"
  by (auto simp: triple_def bind_def ret_def split: prod.splits outcome.splits)

lemma recover_lost_job_stands:
  assumes "\<And>c. C c \<Longrightarrow> ec_kind c = ''job''"
  shows "triple (stands allowed C start (Busy a, False)) (recover_lost w has_session i cp pf b r k)
    (\<lambda>result s. (\<exists>st. stands allowed C start (st, True) s) \<and>
      (ar_stop_requested result \<or> ar_outcome result = ''outcome-unknown'')) (safe allowed C start)"
proof -
  let ?Q = "\<lambda>result s. (\<exists>st. stands allowed C start (st, True) s) \<and>
    (ar_stop_requested result \<or> ar_outcome result = ''outcome-unknown'')"
  have stopped: "triple (stands allowed C start (Busy a, False)) (finish_stopped w b) ?Q (safe allowed C start)"
    by (rule triple_conseq [OF triple_results [OF finish_stopped_over finish_stopped_result]]) auto
  have over: "triple (stands allowed C start (Busy a, False))
      (bind (finish_execution_kind w b result kind) (\<lambda>_. ret result))
      (\<lambda>_ s. \<exists>st. stands allowed C start (st, True) s) (safe allowed C start)"
    if "kind \<in> set observation_kinds" for result kind
    by (rule triple_bind_unit [OF finish_execution_kind_stands [OF that]], rule triple_return) blast
  have unknown: "triple (stands allowed C start (Busy a, False))
      (bind (finish_execution_kind w b result kind) (\<lambda>_. ret result)) ?Q (safe allowed C start)"
    if "ar_outcome result = ''outcome-unknown''" "kind \<in> set observation_kinds" for result kind
    by (rule triple_conseq [OF triple_results [OF over [OF that(2)] bind_ret_result]]) (use that(1) in auto)
  show ?thesis
    unfolding recover_lost_def Let_def
    by (auto simp: assms intro!: stopped unknown triple_bind [OF unix_ms_stands] bind_configuration_stands
        triple_bind_unit [OF write_attempt_result_safe] triple_bind_unit [OF observe_safe])
qed

end
