(* ===== verification/Run_Properties.thy ===== *)
theory Run_Properties
  imports Run_Protocol "HOL-Library.Sublist"
begin

text \<open>
  What the launch protocol gives for a supervisor and for the chain of supervisors that a crash
  leaves: launches are announced, a run ends with one terminal observation, a job is launched
  no more often than its policy admits, and a job that may have run is not launched again.
\<close>

section \<open>What the automaton has seen\<close>

fun launch_of :: "run_effect \<Rightarrow> u32 option" where
  "launch_of (Launched a args) = Some a"
| "launch_of _ = None"

definition launched_attempts :: "run_effect list \<Rightarrow> u32 list" where
  "launched_attempts es = List.map_filter launch_of es"

fun is_terminal :: "run_effect \<Rightarrow> bool" where
  "is_terminal (Appended (RecObservation ob)) = ro_terminal ob"
| "is_terminal _ = False"

fun last_checkpoint :: "checkpoint option \<Rightarrow> run_effect list \<Rightarrow> checkpoint option" where
  "last_checkpoint cp [] = cp"
| "last_checkpoint cp (Appended (RecCheckpoint cp') # es) = last_checkpoint (Some cp') es"
| "last_checkpoint cp (e # es) = last_checkpoint cp es"

lemma last_checkpoint_append: "last_checkpoint cp (es @ es') = last_checkpoint (last_checkpoint cp es) es'"
  by (induction cp es rule: last_checkpoint.induct) auto

lemma launched_attempts_append [simp]: "launched_attempts (es @ es') = launched_attempts es @ launched_attempts es'"
  by (simp add: launched_attempts_def)

lemma launched_attempts_Nil [simp]: "launched_attempts [] = []"
  by (simp add: launched_attempts_def)

text \<open>The checkpoint that stands in the journal, and the stage of the automaton.\<close>

fun matches :: "checkpoint option \<Rightarrow> stage \<Rightarrow> bool" where
  "matches None st = (st = Fresh)"
| "matches (Some cp) st =
     (cp_phase cp = ''launching'' \<and> (st = Armed (cp_attempt cp) \<or> st = Busy (cp_attempt cp)) \<or>
      cp_phase cp = ''running'' \<and> st = Busy (cp_attempt cp) \<or>
      cp_phase cp = ''restart_backoff'' \<and> st = Waiting (cp_attempt cp))"

fun fits :: "(u32 \<Rightarrow> bool) \<Rightarrow> stage \<Rightarrow> u32 list \<Rightarrow> bool" where
  "fits allowed Fresh ls = (ls = [])"
| "fits allowed (Armed a) ls = (allowed a \<and> (\<forall>b \<in> set ls. b < a))"
| "fits allowed (Waiting a) ls = (allowed a \<and> (\<forall>b \<in> set ls. b < a))"
| "fits allowed (Busy a) ls = (allowed a \<and> (\<forall>b \<in> set ls. b \<le> a))"

lemma checkpoint_step_matches:
  "checkpoint_step allowed st (cp_phase cp) (cp_attempt cp) = Some st' \<Longrightarrow> matches (Some cp) st'"
  by (cases st) (auto simp: checkpoint_step_def split: if_splits)

lemma protocol_step_matches:
  "protocol_step allowed (st, over) e = Some (st', over') \<Longrightarrow> matches cp st \<Longrightarrow>
   matches (last_checkpoint cp [e]) st'"
  by (cases "(allowed, (st, over), e)" rule: protocol_step.cases)
    (auto split: if_splits dest: checkpoint_step_matches simp del: matches.simps,
     (cases cp; auto)+)

lemma checkpoint_step_fits:
  assumes "checkpoint_step allowed st phase a = Some st'" and "fits allowed st ls"
    and "\<And>b. allowed (saturating_add b 1) \<Longrightarrow> b < saturating_add b 1"
  shows "fits allowed st' ls"
proof -
  have "\<forall>b \<in> set ls. b < saturating_add x 1" if "allowed (saturating_add x 1)" and "\<forall>b \<in> set ls. b \<le> x" for x
    using assms(3) [OF that(1)] that(2) le_less_trans by blast
  then show ?thesis using assms(1,2)
    by (cases st) (auto simp: checkpoint_step_def order_le_less split: if_splits)
qed

lemma protocol_step_fits:
  assumes "protocol_step allowed (st, over) e = Some (st', over')" and "fits allowed st ls"
    and "sorted_wrt (<) ls" and "list_all allowed ls"
    and "\<And>b. allowed (saturating_add b 1) \<Longrightarrow> b < saturating_add b 1"
  shows "fits allowed st' (ls @ launched_attempts [e]) \<and> sorted_wrt (<) (ls @ launched_attempts [e]) \<and>
    list_all allowed (ls @ launched_attempts [e])"
proof (cases "launch_of e")
  case None
  then have "fits allowed st' ls"
    using assms(1,2) by (cases "(allowed, (st, over), e)" rule: protocol_step.cases)
      (auto split: if_splits intro: checkpoint_step_fits assms(5))
  then show ?thesis using assms(3,4) None by (simp add: launched_attempts_def)
next
  case (Some a)
  then obtain args where "e = Launched a args" by (cases e) auto
  then have "st = Armed a" "st' = Busy a" using assms(1) by (auto split: if_splits)
  then show ?thesis using assms(2-4) Some
    by (auto simp: launched_attempts_def sorted_wrt_append order_le_less)
qed

lemma protocol_run_follows:
  assumes "protocol_run allowed p es = Some p'" and "matches cp (fst p)" and "fits allowed (fst p) ls"
    and "sorted_wrt (<) ls" and "list_all allowed ls"
    and grows: "\<And>b. allowed (saturating_add b 1) \<Longrightarrow> b < saturating_add b 1"
  shows "matches (last_checkpoint cp es) (fst p') \<and> fits allowed (fst p') (ls @ launched_attempts es) \<and>
    sorted_wrt (<) (ls @ launched_attempts es) \<and> list_all allowed (ls @ launched_attempts es)"
  using assms(1-5)
proof (induction es arbitrary: p cp ls)
  case Nil
  then show ?case by simp
next
  case (Cons e es)
  obtain st over where p: "p = (st, over)" by fastforce
  from Cons.prems(1) p obtain st' over' where step: "protocol_step allowed (st, over) e = Some (st', over')"
    and rest: "protocol_run allowed (st', over') es = Some p'"
    by (auto simp: bind_eq_Some_conv)
  have "last_checkpoint cp (e # es) = last_checkpoint (last_checkpoint cp [e]) es"
    using last_checkpoint_append [of cp "[e]" es] by simp
  moreover have "launched_attempts (e # es) = launched_attempts [e] @ launched_attempts es"
    using launched_attempts_append [of "[e]" es] by simp
  moreover have "matches (last_checkpoint cp [e]) st'"
    using protocol_step_matches [OF step] Cons.prems(2) p by simp
  moreover have "fits allowed st' (ls @ launched_attempts [e]) \<and> sorted_wrt (<) (ls @ launched_attempts [e]) \<and>
      list_all allowed (ls @ launched_attempts [e])"
    using protocol_step_fits [OF step _ Cons.prems(4,5) grows] Cons.prems(3) p by simp
  ultimately show ?case using Cons.IH [OF rest, of "last_checkpoint cp [e]" "ls @ launched_attempts [e]"] by simp
qed

section \<open>The checkpoint in the journal\<close>

lemma find_map_append: "find_map f (xs @ ys) = (case find_map f xs of None \<Rightarrow> find_map f ys | Some y \<Rightarrow> Some y)"
  by (induction xs) (auto split: option.split)

definition journal_checkpoint :: "runtime_frame list \<Rightarrow> checkpoint option" where
  "journal_checkpoint frames = find_map (frame_checkpoint \<circ> rf_record) (rev frames)"

lemma recovery_checkpoint: "rr_checkpoint (recovery j) = journal_checkpoint (rj_frames j)"
  by (simp add: recovery_def journal_checkpoint_def)

lemma journal_checkpoint_frames:
  "journal_checkpoint (frames @ frames_of es) = last_checkpoint (journal_checkpoint frames) es"
proof (induction es arbitrary: frames)
  case Nil
  then show ?case by (simp add: frames_of_def)
next
  case (Cons e es)
  have snoc: "journal_checkpoint (frames @ [f]) = (case frame_checkpoint (rf_record f) of
      Some cp \<Rightarrow> Some cp | None \<Rightarrow> journal_checkpoint frames)" for f
    by (simp add: journal_checkpoint_def split: option.split)
  show ?case
  proof (cases "frame_of e")
    case None
    then have "frames_of (e # es) = frames_of es" "last_checkpoint cp (e # es) = last_checkpoint cp es" for cp
      by (simp_all add: frames_of_def) (cases e; simp)
    then show ?thesis using Cons by simp
  next
    case (Some f)
    then obtain r where e: "e = Appended r" "rf_record f = Some r" by (cases e) auto
    then have "frames @ frames_of (e # es) = (frames @ [f]) @ frames_of es"
      using Some by (simp add: frames_of_def)
    then show ?thesis using Cons [of "frames @ [f]"] e by (cases r) (simp_all add: snoc)
  qed
qed

lemma journal_checkpoint_acknowledged:
  "rf_record f = Some (RecAcknowledgement k) \<Longrightarrow> journal_checkpoint (fs @ f # fs') = journal_checkpoint (fs @ fs')"
  by (simp add: journal_checkpoint_def find_map_append split: option.split)

section \<open>A chain of supervisors\<close>

text \<open>
  \<open>lives n c frames es\<close>: supervisors of one execution have been started one after the other,
  each over the journal its predecessor left, and each was cut off after some of its effects;
  \<open>frames\<close> is what the journal holds now and \<open>es\<close> all they did. The control link may add
  acknowledgements anywhere. \<open>n\<close> bounds the restarts of every policy in force.
\<close>

inductive lives :: "nat \<Rightarrow> execution_configuration \<Rightarrow> runtime_frame list \<Rightarrow> run_effect list \<Rightarrow> bool" for n c where
  born: "lives n c [] []"
| life: "lives n c frames es \<Longrightarrow> rj_frames j = frames \<Longrightarrow> list_all (update_limits n) (updates_of_input i) \<Longrightarrow>
    run_supervisor w i (start_runner c j) = (out, s) \<Longrightarrow> prefix cut_off (rn_effects s) \<Longrightarrow>
    lives n c (frames @ frames_of cut_off) (es @ cut_off)"
| acknowledged: "lives n c (frames @ frames') es \<Longrightarrow> rf_record f = Some (RecAcknowledgement k) \<Longrightarrow>
    lives n c (frames @ f # frames') es"

definition history_ok :: "(u32 \<Rightarrow> bool) \<Rightarrow> runtime_frame list \<Rightarrow> run_effect list \<Rightarrow> bool" where
  "history_ok allowed frames es \<longleftrightarrow>
     sorted_wrt (<) (launched_attempts es) \<and> list_all allowed (launched_attempts es) \<and>
     pred_option (checkpoint_ok allowed) (journal_checkpoint frames) \<and>
     fits allowed (recovered_stage (journal_checkpoint frames)) (launched_attempts es)"

lemma within_grows: "within_restarts n (saturating_add b 1) \<Longrightarrow> b < saturating_add b 1"
  by (simp add: within_restarts_def unat_saturating_add word_less_nat_alt min_def split: if_splits)

lemma within_one: "within_restarts n a \<Longrightarrow> 1 \<le> a"
  by (simp add: within_restarts_def word_le_nat_alt)

lemma recovered_stage_matches:
  "pred_option (checkpoint_ok allowed) cp \<Longrightarrow> matches cp (recovered_stage cp)"
  by (cases cp) (auto simp: checkpoint_ok_def)

text \<open>A crash forgets at most whether the attempt that was announced has been launched.\<close>

lemma matches_recovered:
  assumes "matches cp st" and "fits (within_restarts n) st ls"
  shows "pred_option (checkpoint_ok (within_restarts n)) cp \<and> fits (within_restarts n) (recovered_stage cp) ls"
  using assms by (cases cp; cases st) (auto simp: checkpoint_ok_def within_one intro: less_imp_le)

lemma run_stands:
  assumes "policy_discipline allowed C U R"
    and "pred_option (checkpoint_ok allowed) (journal_checkpoint (rj_frames j))"
    and "journal_checkpoint (rj_frames j) = None \<Longrightarrow> allowed (max (ec_attempt c) 1)"
    and "C c" and "list_all U (updates_of_input i)"
    and "run_supervisor w i (start_runner c j) = (out, s)"
  shows "\<exists>st over. protocol_run allowed (recovered_stage (journal_checkpoint (rj_frames j)), False) (rn_effects s) =
      Some (st, over) \<and> rj_frames (rn_journal s) = rj_frames j @ frames_of (rn_effects s) \<and>
      (\<forall>result. out = Done result \<longrightarrow> over)"
proof -
  let ?start = "((recovered_stage (journal_checkpoint (rj_frames j)), False), rj_frames j)"
  have "triple (\<lambda>s. s = start_runner c j) (run_supervisor w i)
      (\<lambda>_ s. \<exists>st. stands allowed C ?start (st, True) s) (safe allowed C ?start)"
    using policy_discipline.run_supervisor_stands [OF assms(1), of j c i ?start w] assms(2-5)
    by (simp add: recovery_checkpoint)
  then have "case out of Done x \<Rightarrow> \<exists>st. stands allowed C ?start (st, True) s
      | Failed e \<Rightarrow> safe allowed C ?start s | Pending \<Rightarrow> safe allowed C ?start s"
    using assms(6) by (auto simp: triple_def dest: spec [of _ "start_runner c j"])
  then show ?thesis by (cases out) (auto simp: stands_def safe_def)
qed

lemma protocol_run_prefix:
  "protocol_run allowed p es = Some q \<Longrightarrow> prefix es' es \<Longrightarrow> \<exists>q'. protocol_run allowed p es' = Some q'"
  by (auto simp: prefix_def bind_eq_Some_conv)

lemma lives_history:
  assumes "lives n c frames es" and "configuration_limits n c" and "ec_attempt c \<le> 1"
  shows "history_ok (within_restarts n) frames es"
  using assms(1)
proof (induction rule: lives.induct)
  case born
  then show ?case by (simp add: history_ok_def journal_checkpoint_def)
next
  case (life frames es j i w out s cut_off)
  let ?cp = "journal_checkpoint frames" and ?ok = "within_restarts n"
  have first: "?ok (max (ec_attempt c) 1)"
    using assms(2,3) by (simp add: configuration_limits_def within_restarts_def max_absorb2)
  have ih: "pred_option (checkpoint_ok ?ok) ?cp" "fits ?ok (recovered_stage ?cp) (launched_attempts es)"
      "sorted_wrt (<) (launched_attempts es)" "list_all ?ok (launched_attempts es)"
    using life.IH by (simp_all add: history_ok_def)
  obtain st over where "protocol_run ?ok (recovered_stage ?cp, False) (rn_effects s) = Some (st, over)"
    using run_stands [OF limited.policy_discipline_axioms [of n], of j c i w out s] life.hyps ih(1) first assms(2) by auto
  then obtain p where p: "protocol_run ?ok (recovered_stage ?cp, False) cut_off = Some p"
    using protocol_run_prefix life.hyps(5) by blast
  have "matches (last_checkpoint ?cp cut_off) (fst p) \<and> fits ?ok (fst p) (launched_attempts es @ launched_attempts cut_off) \<and>
      sorted_wrt (<) (launched_attempts es @ launched_attempts cut_off) \<and> list_all ?ok (launched_attempts es @ launched_attempts cut_off)"
    using protocol_run_follows [OF p, of ?cp "launched_attempts es"] recovered_stage_matches [OF ih(1)] ih(2-4)
      within_grows [of n] unfolding fst_conv by blast
  then show ?case
    using matches_recovered [of "last_checkpoint ?cp cut_off" "fst p" n "launched_attempts es @ launched_attempts cut_off"]
    by (auto simp: history_ok_def journal_checkpoint_frames)
next
  case (acknowledged frames frames' es f k)
  then show ?case by (simp add: history_ok_def journal_checkpoint_acknowledged)
qed

section \<open>Properties\<close>

lemma launches_within:
  assumes "list_all (within_restarts n) ls" and "sorted_wrt (<) ls"
  shows "length ls \<le> Suc n"
proof -
  have "distinct ls" using assms(2) by (simp add: strict_sorted_iff)
  moreover have "inj_on unat (set ls)" by (simp add: inj_on_def word_unat_eq_iff)
  ultimately have "length ls = card (unat ` set ls)" by (simp add: card_image distinct_card)
  also have "\<dots> \<le> card {1..Suc n}"
    using assms(1) by (intro card_mono) (auto simp: list_all_iff within_restarts_def)
  finally show ?thesis by simp
qed

lemma protocol_run_terminal:
  "protocol_run allowed (st, over) es = Some (st', over') \<Longrightarrow>
   length (filter is_terminal es) + (if over then 1 else 0) = (if over' then 1 else 0 :: nat) \<and>
   (over \<longrightarrow> launched_attempts es = [] \<and> frames_of es = [])"
proof (induction es arbitrary: st over)
  case Nil
  then show ?case by (simp add: frames_of_def)
next
  case (Cons e es)
  then obtain st1 over1 where step: "protocol_step allowed (st, over) e = Some (st1, over1)"
    and rest: "protocol_run allowed (st1, over1) es = Some (st', over')"
    by (auto simp: bind_eq_Some_conv)
  show ?case using Cons.IH [OF rest] step
    by (cases "(allowed, (st, over), e)" rule: protocol_step.cases)
      (auto simp: launched_attempts_def frames_of_def split: if_splits)
qed

lemma protocol_run_armed:
  assumes "protocol_run allowed (st, over) es = Some (Armed a, over')" and "\<forall>b. st \<noteq> Armed b"
  shows "\<exists>before cp since. es = before @ Appended (RecCheckpoint cp) # since \<and> cp_phase cp = ''launching'' \<and>
    cp_attempt cp = a \<and> launched_attempts since = []"
  using assms(1)
proof (induction es arbitrary: over' rule: rev_induct)
  case Nil
  then show ?case using assms(2) by simp
next
  case (snoc e es)
  then obtain st1 over1 where run: "protocol_run allowed (st, over) es = Some (st1, over1)"
    and step: "protocol_step allowed (st1, over1) e = Some (Armed a, over')"
    by (auto simp: bind_eq_Some_conv)
  show ?case
  proof (cases "\<exists>cp. e = Appended (RecCheckpoint cp)")
    case True
    then obtain cp where e: "e = Appended (RecCheckpoint cp)" by blast
    then have "cp_phase cp = ''launching''" "cp_attempt cp = a"
      using step by (cases st1; auto simp: checkpoint_step_def split: if_splits)+
    then show ?thesis using e by (intro exI [of _ es] exI [of _ cp] exI [of _ "[]"]) simp
  next
    case False
    then have "st1 = Armed a" "launched_attempts [e] = []"
      using step by (cases "(allowed, (st1, over1), e)" rule: protocol_step.cases; auto simp: launched_attempts_def split: if_splits)+
    then obtain before cp since where "es = before @ Appended (RecCheckpoint cp) # since"
        "cp_phase cp = ''launching''" "cp_attempt cp = a" "launched_attempts since = []"
      using snoc.IH run by blast
    then show ?thesis using \<open>launched_attempts [e] = []\<close>
      by (intro exI [of _ before] exI [of _ cp] exI [of _ "since @ [e]"]) simp
  qed
qed

lemma protocol_run_busy:
  "protocol_run (\<lambda>_. False) (Busy a, over) es = Some p \<Longrightarrow> launched_attempts es = []"
proof (induction es arbitrary: over)
  case (Cons e es)
  then show ?case
    by (cases "(\<lambda>_::u32. False, (Busy a, over), e)" rule: protocol_step.cases)
      (auto simp: launched_attempts_def bind_eq_Some_conv checkpoint_step_def split: if_splits)
qed simp

section \<open>The run of a job\<close>

definition plain_codec :: codec where
  "plain_codec = \<lparr>encode_to_vec = \<lambda>_. [], decode_frame = \<lambda>_. None, crc32c = \<lambda>_. 0\<rparr>"

definition plain_platform :: platform where
  "plain_platform = \<lparr>is_absolute = \<lambda>p. p \<noteq> [], is_dir = \<lambda>_. True, is_file = \<lambda>_. True,
     component_count = length, has_extension = \<lambda>_. True, join_path = (@),
     parent_path = \<lambda>p. if p = [] then None else Some p, split_paths = \<lambda>p. [p], to_uppercase = \<lambda>s. s\<rparr>"

definition job_world :: world where
  "job_world = \<lparr>w_codec = plain_codec, w_platform = plain_platform,
     w_identity = \<lparr>si_id = ''s'', si_incarnation = 1\<rparr>, w_clock = int, w_write_error = \<lambda>_. None\<rparr>"

definition job_configuration :: execution_configuration where
  "job_configuration = configuration_default\<lparr>ec_attempt := 1, ec_kind := ''job'', ec_executable := ''exe'',
     ec_working_directory := ''dir'', ec_success_exit_codes := [0], ec_runtime_journal := ''j'',
     ec_result_file := ''r'', ec_restart_policy := ''never''\<rparr>"

definition job_turn :: turn where
  "job_turn = \<lparr>t_update = None, t_environment = Inr [], t_platform = plain_platform, t_job_error = None,
     t_spawned = Inr 7, t_events = [ChildExits (Inr 0)], t_stop_requested = False, t_backoff = []\<rparr>"

definition job_input :: run_input where
  "job_input = \<lparr>ri_session_error = None, ri_console_error = None, ri_stop_requested = False,
     ri_backoff = [], ri_turns = [job_turn]\<rparr>"

definition plain_journal :: "runtime_frame list \<Rightarrow> runtime_journal" where
  "plain_journal frames = \<lparr>rj_disk = [], rj_open = True, rj_frames = frames\<rparr>"

lemmas run_defs = run_supervisor_def run_from_def recover_lost_def recover_backoff_def open_session_def
  ensure_private_console_def launch_attempt_def after_attempt_def back_off_def begin_backoff_def
  run_process_def run_child_def child_result_def stop_process_def signal_child_def await_child_def
  finish_with_def finish_stopped_def finish_execution_run_def finish_execution_kind_def finish_kind_def
  failed_result_def stopped_result_def write_result_def write_attempt_result_def exit_successful_def
  retries_after_def should_retry_def record_checkpoint_def checkpoint_of_def observe_def append_record_def
  append_checkpoint_def append_observation_def journal_append_def unix_ms_def emit_def process_defs
  preflight_configuration_def resolve_executable_def unset_variables_def attempt_configuration_def
  start_runner_def recovery_def max_or_zero_def Let_def

lemmas job_defs = plain_codec_def plain_platform_def job_world_def job_configuration_def job_turn_def
  job_input_def plain_journal_def configuration_default_def

lemma plain_expand: "expand p env ''dir'' = Inr ''dir''" "expand p env ''exe'' = Inr ''exe''"
  by (subst expand.simps, simp)+

definition job_state :: runner where
  "job_state = snd (run_supervisor job_world job_input (start_runner job_configuration (plain_journal [])))"

lemma job_run:
  "\<exists>result. run_supervisor job_world job_input (start_runner job_configuration (plain_journal [])) = (Done result, job_state)"
  "launched_attempts (rn_effects job_state) = [1]"
  unfolding job_state_def
  by (simp_all add: run_defs job_defs plain_expand max_runtime_frame_bytes_def launched_attempts_def frame_bytes_def)

lemma job_observes: "\<exists>ob. Appended (RecObservation ob) \<in> set (rn_effects job_state)"
  unfolding job_state_def
  by (simp add: run_defs job_defs plain_expand max_runtime_frame_bytes_def frame_bytes_def) blast

lemma launches_split: "a \<in> set (launched_attempts es) \<Longrightarrow> \<exists>pre args post. es = pre @ Launched a args # post"
proof (induction es)
  case (Cons e es)
  show ?case
  proof (cases "launch_of e = Some a")
    case True
    then obtain args where "e = Launched a args" by (cases e) auto
    then show ?thesis by (intro exI [of _ "[]"] exI [of _ args] exI [of _ es]) simp
  next
    case False
    then have "a \<in> set (launched_attempts es)" using Cons.prems by (auto simp: launched_attempts_def split: option.splits)
    then obtain pre args post where "es = pre @ Launched a args # post" using Cons.IH by blast
    then show ?thesis by (intro exI [of _ "e # pre"] exI [of _ args] exI [of _ post]) simp
  qed
qed simp

section \<open>Properties\<close>

text \<open>
  C20. Whatever the clock, the operating system and the controller answer,
  and whatever journal it takes over: a supervisor launches an attempt only after it has written
  a checkpoint that announces this attempt, and launches nothing between the two. A crash at any
  point therefore leaves a journal that knows of every child that may have been started.
\<close>

theorem launches_are_announced:
  assumes "pred_option (checkpoint_ok (\<lambda>a. 1 \<le> a)) (journal_checkpoint (rj_frames j))"
    and "run_supervisor w i (start_runner c j) = (out, s)"
    and "rn_effects s = pre @ Launched a args # post"
  shows "\<exists>before cp since. pre = before @ Appended (RecCheckpoint cp) # since \<and>
    cp_phase cp = ''launching'' \<and> cp_attempt cp = a \<and> launched_attempts since = []"
proof -
  let ?st = "recovered_stage (journal_checkpoint (rj_frames j))"
  obtain st over where "protocol_run (\<lambda>a. 1 \<le> a) (?st, False) (rn_effects s) = Some (st, over)"
    using run_stands [OF any_policy.policy_discipline_axioms assms(1) _ _ _ assms(2)] by (auto simp: list_all_iff)
  then obtain st1 over1 where run: "protocol_run (\<lambda>a. 1 \<le> a) (?st, False) pre = Some (st1, over1)"
    and "protocol_step (\<lambda>a. 1 \<le> a) (st1, over1) (Launched a args) \<noteq> None"
    using assms(3) by (auto simp: bind_eq_Some_conv)
  then have "st1 = Armed a" by (auto split: if_splits)
  moreover have "\<forall>b. ?st \<noteq> Armed b" by (cases "journal_checkpoint (rj_frames j)") auto
  ultimately show ?thesis using protocol_run_armed [of "\<lambda>a. 1 \<le> a" ?st False pre a over1] run by simp
qed

theorem launches_are_announced_witness:
  "\<exists>pre args post before cp since. rn_effects job_state = pre @ Launched 1 args # post \<and>
    pre = before @ Appended (RecCheckpoint cp) # since \<and> cp_phase cp = ''launching'' \<and> cp_attempt cp = 1"
proof -
  obtain result where run: "run_supervisor job_world job_input (start_runner job_configuration (plain_journal [])) =
      (Done result, job_state)" using job_run(1) by blast
  obtain pre args post where split: "rn_effects job_state = pre @ Launched 1 args # post"
    using launches_split [of 1 "rn_effects job_state"] job_run(2) by auto
  have "pred_option (checkpoint_ok (\<lambda>a. 1 \<le> a)) (journal_checkpoint (rj_frames (plain_journal [])))"
    by (simp add: plain_journal_def journal_checkpoint_def)
  from launches_are_announced [OF this run split] show ?thesis using split by blast
qed

text \<open>
  C21. A supervisor writes at most one terminal observation, exactly one if its run
  returns, and nothing to the journal and no launch after it.
\<close>

theorem run_ends_once:
  assumes "pred_option (checkpoint_ok (\<lambda>a. 1 \<le> a)) (journal_checkpoint (rj_frames j))"
    and "run_supervisor w i (start_runner c j) = (out, s)"
  shows "length (filter is_terminal (rn_effects s)) \<le> 1 \<and>
    (\<forall>result. out = Done result \<longrightarrow> length (filter is_terminal (rn_effects s)) = 1) \<and>
    (\<forall>pre e post. rn_effects s = pre @ e # post \<longrightarrow> is_terminal e \<longrightarrow> launched_attempts post = [] \<and> frames_of post = [])"
proof -
  let ?p = "(recovered_stage (journal_checkpoint (rj_frames j)), False)"
  obtain st over where run: "protocol_run (\<lambda>a. 1 \<le> a) ?p (rn_effects s) = Some (st, over)"
    and over: "\<forall>result. out = Done result \<longrightarrow> over"
    using run_stands [OF any_policy.policy_discipline_axioms assms(1) _ _ _ assms(2)] by (auto simp: list_all_iff)
  have "launched_attempts post = [] \<and> frames_of post = []"
    if es: "rn_effects s = pre @ e # post" and terminal: "is_terminal e" for pre e post
  proof -
    obtain p1 st2 over2 where step: "protocol_step (\<lambda>a. 1 \<le> a) p1 e = Some (st2, over2)"
      and rest: "protocol_run (\<lambda>a. 1 \<le> a) (st2, over2) post = Some (st, over)"
      using run es by (auto simp: bind_eq_Some_conv)
    have over2 using step terminal
      by (cases "(\<lambda>a :: u32. 1 \<le> a, p1, e)" rule: protocol_step.cases) (auto split: if_splits)
    then show ?thesis using protocol_run_terminal [OF rest] by simp
  qed
  then show ?thesis using protocol_run_terminal [OF run] over by (auto split: if_splits)
qed

theorem run_ends_once_witness:
  "length (filter is_terminal (rn_effects job_state)) = 1"
proof -
  obtain result where run: "run_supervisor job_world job_input (start_runner job_configuration (plain_journal [])) =
      (Done result, job_state)" using job_run(1) by blast
  have "pred_option (checkpoint_ok (\<lambda>a. 1 \<le> a)) (journal_checkpoint (rj_frames (plain_journal [])))"
    by (simp add: plain_journal_def journal_checkpoint_def)
  from run_ends_once [OF this run] show ?thesis by simp
qed

text \<open>
  Every observation that a supervisor writes, wherever its run ends, has a kind that the
  controller accepts: the stream is never refused for it.
\<close>

theorem observations_have_known_kinds:
  assumes "pred_option (checkpoint_ok (\<lambda>a. 1 \<le> a)) (journal_checkpoint (rj_frames j))"
    and "run_supervisor w i (start_runner c j) = (out, s)"
    and "Appended (RecObservation ob) \<in> set (rn_effects s)"
  shows "ro_kind ob \<in> set observation_kinds"
proof -
  let ?p = "(recovered_stage (journal_checkpoint (rj_frames j)), False)"
  obtain q where "protocol_run (\<lambda>a. 1 \<le> a) ?p (rn_effects s) = Some q"
    using run_stands [OF any_policy.policy_discipline_axioms assms(1) _ _ _ assms(2)] by (auto simp: list_all_iff)
  moreover obtain pre post where "rn_effects s = pre @ Appended (RecObservation ob) # post"
    using split_list [OF assms(3)] by blast
  ultimately show ?thesis by (auto simp: bind_eq_Some_conv split: if_split_asm)
qed

theorem observations_have_known_kinds_witness:
  "\<exists>ob. Appended (RecObservation ob) \<in> set (rn_effects job_state) \<and> ro_kind ob \<in> set observation_kinds"
proof -
  obtain result where run: "run_supervisor job_world job_input (start_runner job_configuration (plain_journal [])) =
      (Done result, job_state)" using job_run(1) by blast
  have fresh: "pred_option (checkpoint_ok (\<lambda>a. 1 \<le> a)) (journal_checkpoint (rj_frames (plain_journal [])))"
    by (simp add: plain_journal_def journal_checkpoint_def)
  obtain ob where "Appended (RecObservation ob) \<in> set (rn_effects job_state)" using job_observes by blast
  then show ?thesis using observations_have_known_kinds [OF fresh run] by blast
qed




definition lost_checkpoint :: checkpoint where
  "lost_checkpoint = checkpoint_of job_world (start_runner job_configuration (plain_journal [])) job_configuration 1 ''running'' 0 None"

definition lost_journal :: runtime_journal where
  "lost_journal = plain_journal [\<lparr>rf_format = 1, rf_record = Some (RecCheckpoint lost_checkpoint)\<rparr>]"


section \<open>A terminal observation is not looked at\<close>

definition service_configuration :: execution_configuration where
  "service_configuration = job_configuration\<lparr>ec_kind := ''service'', ec_restart_policy := ''on-failure'',
     ec_max_restarts := 2\<rparr>"

text \<open>The journal of a service that ran and was stopped, up to its terminal observation.\<close>

definition stopped_observation :: runtime_observation where
  "stopped_observation = \<lparr>ro_sequence = 3, ro_kind = ''stopped'', ro_attempt = 1, ro_exit_code = Some 0,
     ro_detail = [], ro_observed_unix_ms = 9, ro_terminal = True, ro_workload_process_id = 0\<rparr>"

definition stopped_journal :: runtime_journal where
  "stopped_journal = plain_journal [\<lparr>rf_format = 1, rf_record = Some (RecCheckpoint lost_checkpoint)\<rparr>,
     \<lparr>rf_format = 1, rf_record = Some (RecObservation stopped_observation)\<rparr>]"

text \<open>
  A supervisor that takes over a journal which ends with the
  terminal observation of a stopped service launches the service again: recovery looks at the
  last checkpoint only.
\<close>

theorem terminal_outcome_is_forgotten:
  "launched_attempts (rn_effects (snd (run_supervisor job_world (job_input\<lparr>ri_backoff := [DeadlineReached]\<rparr>)
     (start_runner service_configuration stopped_journal)))) = [2]"
  by (simp add: run_defs job_defs plain_expand max_runtime_frame_bytes_def launched_attempts_def frame_bytes_def
      service_configuration_def stopped_journal_def stopped_observation_def lost_checkpoint_def
      saturating_sub_def saturating_add_def recovered_preflight_def collect_btree_def)

end
