(* ===== verification/Retry_Equivalence.thy ===== *)
theory Retry_Equivalence
  imports Runner Execution
begin

text \<open>
  The supervisor decides on retries with the fields of a message (\<open>should_retry\<close> and
  \<open>retry_delay\<close> in \<open>runner.rs\<close>); the domain crate decides with policies (\<open>execution.rs\<close>,
  \<open>restart.rs\<close>). On the snapshot of a policy both decide alike, and both delays are the capped
  exponential.
\<close>

section \<open>The delay\<close>

lemma retry_delay_loop_capped:
  assumes "0 < unat m"
  shows "min (unat mx) (unat (retry_delay_loop m mx n d)) = min (unat mx) (unat d * unat m ^ n)"
proof (induction n arbitrary: d)
  case 0
  then show ?case by simp
next
  case (Suc n)
  let ?d = "min (saturating_mul d m) mx"
  have "unat mx \<le> 2 ^ 64 - 1" using unat_u64_less [of mx] by simp
  then have d: "unat ?d = min (unat mx) (unat d * unat m)"
    by (simp add: unat_saturating_mul min_def word_le_nat_alt)
  have "min (unat mx) (unat ?d * unat m ^ n) = min (unat mx) (unat d * unat m * unat m ^ n)"
  proof (cases "unat d * unat m \<le> unat mx")
    case False
    have grows: "unat mx \<le> unat mx * unat m ^ n" using assms by simp
    also have "\<dots> \<le> unat d * unat m * unat m ^ n"
      using False by (intro mult_le_mono) simp_all
    finally have "unat mx \<le> unat d * unat m * unat m ^ n" .
    moreover have "unat ?d = unat mx" using d False by linarith
    ultimately show ?thesis using grows by (simp only: min_absorb1)
  qed (simp add: d min_absorb2)
  then show ?case using Suc.IH [of ?d] by (simp add: mult.assoc)
qed

lemma unat_max: "unat (max a b) = max (unat a) (unat b)"
  by (simp add: max_def word_le_nat_alt)

lemma unat_min: "unat (min a b) = min (unat a) (unat b)"
  by (simp add: min_def word_le_nat_alt)

lemma retry_delay_capped:
  "unat (retry_delay c retry) =
     capped_exponential (max (unat (ec_restart_backoff_initial_ms c)) 1)
       (max (unat (ec_restart_backoff_multiplier c)) 1)
       (max (unat (ec_restart_backoff_maximum_ms c)) 1) (unat retry)"
proof -
  let ?m = "ucast (max (ec_restart_backoff_multiplier c) 1) :: u64"
  have m: "unat ?m = max (unat (ec_restart_backoff_multiplier c)) 1"
    by (simp add: unat_ucast_up unat_max)
  then have "0 < unat ?m" by simp
  from retry_delay_loop_capped [OF this, of "max (ec_restart_backoff_maximum_ms c) 1" "unat retry - 1"
      "max (ec_restart_backoff_initial_ms c) 1"]
  show ?thesis unfolding m
    by (simp add: retry_delay_def capped_exponential_def Let_def unat_min unat_max min.commute)
qed

text \<open>The delay of the \<open>n\<close>-th retry, for a count that fits the \<open>u32\<close>.\<close>

definition retry_delay_at :: "execution_configuration \<Rightarrow> nat \<Rightarrow> nat" where
  "retry_delay_at c n = unat (retry_delay c (word_of_nat (min n (2 ^ 32 - 1))))"

lemma retry_delay_at_capped:
  "retry_delay_at c n =
     capped_exponential (max (unat (ec_restart_backoff_initial_ms c)) 1)
       (max (unat (ec_restart_backoff_multiplier c)) 1)
       (max (unat (ec_restart_backoff_maximum_ms c)) 1) (min n (2 ^ 32 - 1))"
proof -
  have "unat (word_of_nat (min n (2 ^ 32 - 1)) :: u32) = min n (2 ^ 32 - 1)"
    by (rule unat_word_of_nat_small) (simp add: min_def)
  then show ?thesis by (simp only: retry_delay_at_def retry_delay_capped)
qed

interpretation supervisor_backoff: backoff_schedule retry_delay_at
  "\<lambda>c. ec_restart_backoff_initial_ms c \<le> ec_restart_backoff_maximum_ms c"
  "\<lambda>c. max (unat (ec_restart_backoff_initial_ms c)) 1"
  "\<lambda>c. max (unat (ec_restart_backoff_maximum_ms c)) 1"
proof
  fix c :: execution_configuration and n :: nat
  assume "ec_restart_backoff_initial_ms c \<le> ec_restart_backoff_maximum_ms c"
  then show "max (unat (ec_restart_backoff_initial_ms c)) 1 \<le> retry_delay_at c n"
    unfolding retry_delay_at_capped
    by (intro capped_exponential_ge) (auto simp: word_le_nat_alt le_max_iff_disj)
  show "retry_delay_at c n \<le> max (unat (ec_restart_backoff_maximum_ms c)) 1"
    unfolding retry_delay_at_capped by (simp add: capped_exponential_def)
next
  fix c :: execution_configuration and m n :: nat
  assume "m \<le> n"
  then show "retry_delay_at c m \<le> retry_delay_at c n"
    unfolding retry_delay_at_capped by (intro capped_exponential_mono) auto
qed

section \<open>The decision\<close>

definition successful_end :: "execution_state \<Rightarrow> attempt_end \<Rightarrow> bool" where
  "successful_end s end = (case end of EndExited code _ \<Rightarrow> code \<in> es_success_exit_codes s | _ \<Rightarrow> False)"

definition whole_milliseconds :: "duration \<Rightarrow> bool" where
  "whole_milliseconds d \<longleftrightarrow> d mod 1000000 = 0 \<and> as_millis d < 2 ^ 64"

lemma unat_duration_ms: "unat (duration_ms d) = min (as_millis d) (2 ^ 64 - 1)"
  by (auto simp: duration_ms_def unat_word_of_nat_small unat_minus_one_max min_def)

lemma whole_milliseconds_ms: "whole_milliseconds d \<Longrightarrow> unat (duration_ms d) * 1000000 = d"
  by (auto simp: unat_duration_ms whole_milliseconds_def as_millis_def min_def)

lemma capped_exponential_scale:
  "capped_exponential i m c n * k = capped_exponential (i * k) m (c * k) n"
  unfolding capped_exponential_def nat_mult_min_left by (simp add: ac_simps)

lemma apply_restart_backoff:
  assumes "exec_backoff s = Inr b"
  shows "ec_restart_backoff_initial_ms (apply_restart c (es_restart_policy s)) = duration_ms (nzd_get (bp_initial b))"
    "ec_restart_backoff_multiplier (apply_restart c (es_restart_policy s)) = bp_multiplier b"
    "ec_restart_backoff_maximum_ms (apply_restart c (es_restart_policy s)) = duration_ms (nzd_get (bp_maximum b))"
  using assms
  by (auto simp: exec_backoff_def apply_service_retry_def apply_backoff_def Let_def
      split: execution_origin.splits execution_restart_policy.splits service_restart_policy.splits
        job_restart_policy.splits service_retry_limit.splits)

lemma exec_backoff_wf: "exec_backoff s = Inr b \<Longrightarrow> wf_restart_policy (es_restart_policy s) \<Longrightarrow> wf_backoff b"
  by (auto simp: exec_backoff_def wf_service_retry_def wf_job_retry_def
      split: execution_origin.splits execution_restart_policy.splits service_restart_policy.splits
        job_restart_policy.splits)

lemma retry_delay_of_policy:
  assumes "exec_backoff s = Inr b" and "wf_backoff b" and "wf_ordinal retry"
    and "whole_milliseconds (nzd_get (bp_initial b))" and "whole_milliseconds (nzd_get (bp_maximum b))"
  shows "unat (retry_delay (apply_restart c (es_restart_policy s)) (ordinal_get retry)) * 1000000 = delay_for b retry"
proof -
  have "0 < nzd_get (bp_initial b)" "0 < nzd_get (bp_maximum b)" "0 < unat (bp_multiplier b)"
    using assms(2) by (simp_all add: wf_backoff_def wf_nzd_def unat_gt_0)
  moreover have i: "unat (duration_ms (nzd_get (bp_initial b))) * 1000000 = nzd_get (bp_initial b)"
    and m: "unat (duration_ms (nzd_get (bp_maximum b))) * 1000000 = nzd_get (bp_maximum b)"
    using assms(4,5) by (simp_all only: whole_milliseconds_ms)
  ultimately have "max (unat (duration_ms (nzd_get (bp_initial b)))) 1 = unat (duration_ms (nzd_get (bp_initial b)))"
    "max (unat (duration_ms (nzd_get (bp_maximum b)))) 1 = unat (duration_ms (nzd_get (bp_maximum b)))"
    "max (unat (bp_multiplier b)) 1 = unat (bp_multiplier b)"
    by (simp_all add: max_def)
  then show ?thesis
    by (simp only: retry_delay_capped apply_restart_backoff [OF assms(1)] capped_exponential_scale i m
        delay_for_capped [OF assms(2,3)])
qed

lemma should_retry_of_policy:
  assumes "policy_permits s end retry = Inr permitted"
    and "ec_max_restarts c = 0" and "\<not> ec_max_restarts_unlimited c"
    and "unat (ordinal_get retry) = unat r + 1"
  shows "should_retry (apply_restart c (es_restart_policy s)) (successful_end s end) r = permitted"
proof -
  have "ordinal_get retry \<le> n \<longleftrightarrow> r < n" for n
    using assms(4) by (simp add: word_le_nat_alt word_less_nat_alt Suc_le_eq)
  note limit = this
  have failed: "(case end of EndExited code _ \<Rightarrow> code \<notin> es_success_exit_codes s | _ \<Rightarrow> True) =
      (\<not> successful_end s end)"
    by (cases "end") (simp_all add: successful_end_def)
  show ?thesis
  proof (cases "es_restart_policy s")
    case (ServicePolicy policy)
    then obtain i where "es_origin s = ServiceIntent i"
      using assms(1) by (cases "es_origin s") (simp_all add: policy_permits_def)
    then show ?thesis using assms ServicePolicy unfolding policy_permits_def Let_def failed
      by (cases policy) (auto simp: should_retry_def apply_service_retry_def apply_backoff_def limit
          split: service_retry_limit.splits if_splits)
  next
    case (JobPolicy policy)
    then obtain i where "es_origin s = JobOrigin i"
      using assms(1) by (cases "es_origin s") (simp_all add: policy_permits_def)
    then show ?thesis using assms JobPolicy unfolding policy_permits_def Let_def failed
      by (cases policy) (auto simp: should_retry_def apply_backoff_def limit)
  qed
qed

text \<open>
  C24. On the snapshot of a restart policy the supervisor retries
  exactly when the execution machine does, and, for a policy in whole milliseconds, after exactly
  its delay.
\<close>

theorem supervisor_decides_as_the_domain:
  assumes "wf_restart_policy (es_restart_policy s)" and "policy_permits s end retry = Inr permitted"
    and "ec_max_restarts c = 0" and "\<not> ec_max_restarts_unlimited c"
    and "unat (ordinal_get retry) = unat r + 1"
  shows "should_retry (apply_restart c (es_restart_policy s)) (successful_end s end) r = permitted \<and>
    (\<forall>b. exec_backoff s = Inr b \<longrightarrow> whole_milliseconds (nzd_get (bp_initial b)) \<longrightarrow>
      whole_milliseconds (nzd_get (bp_maximum b)) \<longrightarrow>
      unat (retry_delay (apply_restart c (es_restart_policy s)) (ordinal_get retry)) * 1000000 = delay_for b retry)"
  using should_retry_of_policy [OF assms(2-5)] retry_delay_of_policy exec_backoff_wf [OF _ assms(1)] assms(5)
  by (simp add: wf_ordinal_pos)

definition retrying_job :: execution_state where
  "retrying_job = \<lparr>es_id = ExecutionId 7, es_workload_id = WorkloadId ''backup'',
     es_origin = JobOrigin Manual, es_source_definition = ProcessDefinitionHash [],
     es_execution_config = ExecutionConfigHash [], es_success_exit_codes = {ExitCode 0},
     es_restart_policy = JobPolicy (JobOnFailure \<lparr>jrp_max_restarts = 2,
       jrp_backoff = \<lparr>bp_initial = NonZeroDuration 250000000, bp_multiplier = 2,
         bp_maximum = NonZeroDuration 30000000000\<rparr>\<rparr>),
     es_last_retry = None, es_phase = Launching (AttemptNumber 1)\<rparr>"

theorem supervisor_decides_as_the_domain_witness:
  "should_retry (apply_restart configuration_default (es_restart_policy retrying_job)) False 1 \<and>
    unat (retry_delay (apply_restart configuration_default (es_restart_policy retrying_job)) 2) * 1000000 = 500000000"
proof -
  have wf: "wf_restart_policy (es_restart_policy retrying_job)"
    by (simp add: retrying_job_def wf_job_retry_def wf_backoff_def wf_nzd_def duration_ok_def duration_max_def
        nanos_per_sec_def less_eq_non_zero_duration_def)
  have permits: "policy_permits retrying_job (EndExited (ExitCode 1) 0) (RetryOrdinal 2) = Inr True"
    by (simp add: retrying_job_def policy_permits_def)
  have "successful_end retrying_job (EndExited (ExitCode 1) 0) = False"
    by (simp add: successful_end_def retrying_job_def)
  moreover have "exec_backoff retrying_job = Inr \<lparr>bp_initial = NonZeroDuration 250000000, bp_multiplier = 2,
      bp_maximum = NonZeroDuration 30000000000\<rparr>"
    by (simp add: exec_backoff_def retrying_job_def)
  moreover have "delay_for \<lparr>bp_initial = NonZeroDuration 250000000, bp_multiplier = 2,
      bp_maximum = NonZeroDuration 30000000000\<rparr> (RetryOrdinal 2) = 500000000"
    by (simp add: delay_for_def duration_checked_mul_def duration_ok_def duration_max_def nanos_per_sec_def)
  ultimately show ?thesis
    using supervisor_decides_as_the_domain [OF wf permits, of configuration_default 1]
    by (simp add: configuration_default_def whole_milliseconds_def as_millis_def)
qed

end
