(* ===== verification/Manager.thy ===== *)
theory Manager
  imports Storage Runner Config_Loader
begin

text \<open>
  The manager of the controller (\<open>crates/controller/src/manager.rs\<close>): which workloads there are,
  which execution of each is active, and the durable tables behind them. An operation is a
  \<open>process\<close> of \<open>Run_Monad\<close> over the state and the database; what it changed before it failed stays
  changed, as in the code. Operations do not interleave: the code holds a lock over the state
  for most of each. Identifiers, the clock, version pins and the protobuf decoder are inputs.
\<close>

section \<open>State\<close>

datatype manager_error =
    ConfigError string
  | StorageFailed storage_error
  | NotFound string
  | DefinitionMissing string
  | WrongKind string string string
  | AlreadyActive string
  | SupervisorIdentityMismatch
  | SessionEnding
  | KindChangeActive string
  | DecodeError string
  | ManagerIo string string
  | InvalidSystemTime

record workload_record =
  mr_kind :: string
  mr_definition :: "execution_configuration option"
  mr_enabled :: bool
  mr_last_outcome :: string

text \<open>\<open>ae_cancelled\<close> is the cancellation token that the execution's task shares.\<close>

record active_execution =
  ae_execution_id :: string
  ae_supervisor_process_id :: u32
  ae_workload_process_id :: u32
  ae_attempt :: u32
  ae_error :: string
  ae_state :: string
  ae_cancelled :: bool
  ae_locally_owned :: bool
  ae_restart_after :: bool
  ae_process_definition_hash :: "u8 list"
  ae_policy_hash :: "u8 list"
  ae_restart_required :: bool
  ae_policy_sync_pending :: bool
  ae_attachment_id :: "string option"

text \<open>
  What an operation does outside the state: a task for an execution, a command on its channel, the
  removal of a version pin; and what the task of an execution does.
\<close>

datatype manager_effect =
    ExecutionSpawned string string
  | CommandSent string string "u8 list"
  | PinRemoved string
  | SpecWritten string execution_configuration
  | SupervisorLaunched string u32
  | StopWritten string
  | SupervisorBackoff u64

record manager =
  mg_workloads :: "(string, workload_record) btree"
  mg_active :: "(string, active_execution) btree"
  mg_revision :: u64
  mg_session_ending :: bool
  mg_database :: database
  mg_effects :: "manager_effect list"

type_synonym 'a mg = "(manager, manager_error, 'a) process"

record manager_world =
  mw_encoder :: encoder
  mw_decode :: "u8 list \<Rightarrow> string + execution_configuration"
  mw_session :: "string option"
  mw_supervisor_executable :: string
  mw_data_directory :: string

text \<open>What one operation reads: a fresh identifier, the clock, and the pin of a new execution.\<close>

record manager_input =
  mi_uuid :: string
  mi_time :: "int option"
  mi_pin :: "manager_error + string option"

definition send_effect :: "manager_effect \<Rightarrow> unit mg" where
  "send_effect e = modify (\<lambda>m. m\<lparr>mg_effects := mg_effects m @ [e]\<rparr>)"

definition bump :: "unit mg" where
  "bump = modify (\<lambda>m. m\<lparr>mg_revision := saturating_add (mg_revision m) 1\<rparr>)"

text \<open>A statement on the database, and a query.\<close>

definition db_update :: "(database \<Rightarrow> storage_error + database \<times> 'a) \<Rightarrow> 'a mg" where
  "db_update f = bind (gets (\<lambda>m. f (mg_database m))) (\<lambda>r.
     case r of
       Inl e \<Rightarrow> throw (StorageFailed e)
     | Inr (db, x) \<Rightarrow> bind (modify (\<lambda>m. m\<lparr>mg_database := db\<rparr>)) (\<lambda>_. ret x))"

definition db_query :: "(database \<Rightarrow> storage_error + 'a) \<Rightarrow> 'a mg" where
  "db_query f = bind (gets (\<lambda>m. f (mg_database m))) (\<lambda>r. lift_result (map_err StorageFailed r))"

definition decode_snapshot :: "manager_world \<Rightarrow> u8 list \<Rightarrow> execution_configuration mg" where
  "decode_snapshot w bytes = lift_result (map_err DecodeError (mw_decode w bytes))"

definition stored_of :: "string \<Rightarrow> stored_execution mg" where
  "stored_of i = bind (db_query (\<lambda>db. get_execution db i)) (\<lambda>e. lift_result (ok_or (NotFound i) e))"

definition system_time :: "manager_input \<Rightarrow> int mg" where
  "system_time i = lift_result (ok_or InvalidSystemTime (mi_time i))"

definition remove_version_pin :: "execution_configuration \<Rightarrow> unit mg" where
  "remove_version_pin c = (if ec_version_pin c = [] then ret () else send_effect (PinRemoved (ec_version_pin c)))"

definition set_active :: "string \<Rightarrow> active_execution \<Rightarrow> unit mg" where
  "set_active i a = modify (\<lambda>m. m\<lparr>mg_active := btree_insert i a (mg_active m)\<rparr>)"

definition remove_active :: "string \<Rightarrow> unit mg" where
  "remove_active i = modify (\<lambda>m. m\<lparr>mg_active := btree_remove i (mg_active m)\<rparr>)"

definition set_last_outcome :: "string \<Rightarrow> string \<Rightarrow> unit mg" where
  "set_last_outcome i outcome = modify (\<lambda>m.
     case map_of (mg_workloads m) i of
       None \<Rightarrow> m
     | Some r \<Rightarrow> m\<lparr>mg_workloads := btree_insert i (r\<lparr>mr_last_outcome := outcome\<rparr>) (mg_workloads m)\<rparr>)"

section \<open>Views\<close>

record workload =
  wv_workload_id :: string
  wv_kind :: string
  wv_enabled :: bool
  wv_state :: string
  wv_execution_id :: string
  wv_supervisor_process_id :: u32
  wv_workload_process_id :: u32
  wv_attempt :: u32
  wv_error :: string
  wv_last_outcome :: string
  wv_definition_missing :: bool
  wv_restart_required :: bool
  wv_policy_sync_pending :: bool

definition workload_view :: "string \<Rightarrow> workload_record \<Rightarrow> active_execution option \<Rightarrow> workload" where
  "workload_view i r active = \<lparr>
     wv_workload_id = i,
     wv_kind = mr_kind r,
     wv_enabled = mr_enabled r,
     wv_state = (case active of
        None \<Rightarrow> if mr_definition r \<noteq> None then ''inactive'' else ''definition-missing''
      | Some a \<Rightarrow> ae_state a),
     wv_execution_id = (case active of None \<Rightarrow> [] | Some a \<Rightarrow> ae_execution_id a),
     wv_supervisor_process_id = (case active of None \<Rightarrow> 0 | Some a \<Rightarrow> ae_supervisor_process_id a),
     wv_workload_process_id = (case active of None \<Rightarrow> 0 | Some a \<Rightarrow> ae_workload_process_id a),
     wv_attempt = (case active of None \<Rightarrow> 0 | Some a \<Rightarrow> ae_attempt a),
     wv_error = (case active of None \<Rightarrow> [] | Some a \<Rightarrow> ae_error a),
     wv_last_outcome = mr_last_outcome r,
     wv_definition_missing = (mr_definition r = None),
     wv_restart_required = (case active of None \<Rightarrow> False | Some a \<Rightarrow> ae_restart_required a),
     wv_policy_sync_pending = (case active of None \<Rightarrow> False | Some a \<Rightarrow> ae_policy_sync_pending a)\<rparr>"

definition list_workloads :: "manager \<Rightarrow> workload list" where
  "list_workloads m = map (\<lambda>(i, r). workload_view i r (map_of (mg_active m) i)) (mg_workloads m)"

definition workload_of :: "string \<Rightarrow> workload mg" where
  "workload_of i = bind (gets (\<lambda>m. m)) (\<lambda>m.
     case map_of (mg_workloads m) i of
       None \<Rightarrow> throw (NotFound i)
     | Some r \<Rightarrow> ret (workload_view i r (map_of (mg_active m) i)))"

fun ensure_kind :: "string \<Rightarrow> workload_record \<Rightarrow> string \<Rightarrow> manager_error + unit" where
  "ensure_kind i r expected = (if mr_kind r = expected then Inr () else Inl (WrongKind i expected (mr_kind r)))"

section \<open>Starting and stopping\<close>

definition prepare_execution_build ::
  "manager_world \<Rightarrow> manager_input \<Rightarrow> execution_configuration \<Rightarrow> execution_configuration mg"
where
  "prepare_execution_build w i c =
     (let c = c\<lparr>ec_supervisor_executable := mw_supervisor_executable w\<rparr> in
      bind (lift_result (mi_pin i)) (\<lambda>pin.
        ret (set_execution_hash (mw_encoder w)
          (case pin of None \<Rightarrow> c | Some p \<Rightarrow> c\<lparr>ec_version_pin := p\<rparr>))))"

definition new_active :: "manager_world \<Rightarrow> string \<Rightarrow> execution_configuration \<Rightarrow> active_execution" where
  "new_active w execution_id c = \<lparr>ae_execution_id = execution_id, ae_supervisor_process_id = 0,
     ae_workload_process_id = 0, ae_attempt = 0, ae_error = [], ae_state = ''starting'',
     ae_cancelled = False, ae_locally_owned = True, ae_restart_after = False,
     ae_process_definition_hash = ec_process_definition_hash c,
     ae_policy_hash = pu_policy_hash (policy_update_of (mw_encoder w) c),
     ae_restart_required = False, ae_policy_sync_pending = False, ae_attachment_id = None\<rparr>"

definition new_execution :: "manager_world \<Rightarrow> string \<Rightarrow> string \<Rightarrow> int \<Rightarrow> execution_configuration \<Rightarrow> stored_execution" where
  "new_execution w execution_id workload_id started c = \<lparr>se_id = execution_id, se_workload_id = workload_id,
     se_state = ''starting'', se_supervisor_process_id = 0, se_workload_process_id = 0, se_attempt = 0,
     se_started_unix_ms = started, se_ended_unix_ms = 0, se_exit_code = None, se_error = [],
     se_snapshot = encode_configuration (mw_encoder w) c, se_committed_sequence = 0\<rparr>"

text \<open>The row, inserted with the claim of the session or without one.\<close>

definition insert_row :: "stored_execution \<Rightarrow> string option \<Rightarrow> bool mg" where
  "insert_row execution enabled_session =
     db_update (\<lambda>db.
       case enabled_session of
         Some session \<Rightarrow> insert_enabled_job_execution db execution session
       | None \<Rightarrow> and_then (insert_execution db execution) (\<lambda>db. Inr (db, True)))"

text \<open>What \<open>start\<close> does with the result of the insertion.\<close>

fun conclude_start ::
  "string \<Rightarrow> workload_record \<Rightarrow> execution_configuration \<Rightarrow> string \<Rightarrow> manager_error + bool \<Rightarrow> (bool \<times> workload) mg"
where
  "conclude_start wid r c execution_id (Inl e) =
     bind (remove_active wid) (\<lambda>_. bind (remove_version_pin c) (\<lambda>_. throw e))"
| "conclude_start wid r c execution_id (Inr False) =
     bind (remove_active wid) (\<lambda>_. bind (remove_version_pin c) (\<lambda>_. ret (False, workload_view wid r None)))"
| "conclude_start wid r c execution_id (Inr True) =
     bind bump (\<lambda>_.
     bind (gets (\<lambda>m. workload_view wid r (map_of (mg_active m) wid))) (\<lambda>view.
     bind (send_effect (ExecutionSpawned wid execution_id)) (\<lambda>_. ret (True, view))))"

text \<open>The part of \<open>start\<close> behind its guards: \<open>r\<close> and \<open>c\<close> are the record and definition found.\<close>

definition allocate_with ::
  "manager_world \<Rightarrow> string \<Rightarrow> string \<Rightarrow> workload_record \<Rightarrow> string option \<Rightarrow> execution_configuration \<Rightarrow> int \<Rightarrow>
   (bool \<times> workload) mg"
where
  "allocate_with w execution_id wid r enabled_session c started =
     bind (set_active wid (new_active w execution_id c)) (\<lambda>_.
     bind (attempt_of (insert_row (new_execution w execution_id wid started c) enabled_session))
       (conclude_start wid r c execution_id))"

definition allocate ::
  "manager_world \<Rightarrow> manager_input \<Rightarrow> string \<Rightarrow> workload_record \<Rightarrow> execution_configuration \<Rightarrow> string option \<Rightarrow>
   (bool \<times> workload) mg"
where
  "allocate w i wid r c enabled_session =
     (let c = c\<lparr>ec_execution_id := mi_uuid i,
            ec_manager_session_id := (case mw_session w of None \<Rightarrow> [] | Some s \<Rightarrow> s)\<rparr> in
      bind (prepare_execution_build w i c) (\<lambda>c.
      bind (system_time i) (allocate_with w (mi_uuid i) wid r enabled_session c)))"

definition start ::
  "manager_world \<Rightarrow> manager_input \<Rightarrow> string \<Rightarrow> string \<Rightarrow> bool \<Rightarrow> string option \<Rightarrow> (bool \<times> workload) mg"
where
  "start w i wid expected_kind exclusive enabled_session =
     bind (gets (\<lambda>m. m)) (\<lambda>m.
       if mg_session_ending m then throw SessionEnding
       else
         (case map_of (mg_workloads m) wid of
            None \<Rightarrow> throw (NotFound wid)
          | Some r \<Rightarrow>
              bind (lift_result (ensure_kind wid r expected_kind)) (\<lambda>_.
                case mr_definition r of
                  None \<Rightarrow> throw (DefinitionMissing wid)
                | Some c \<Rightarrow>
                    (case map_of (mg_active m) wid of
                       Some a \<Rightarrow>
                         if exclusive then throw (AlreadyActive wid)
                         else ret (False, workload_view wid r (Some a))
                     | None \<Rightarrow> allocate w i wid r c enabled_session))))"

definition cancel :: "string \<Rightarrow> string \<Rightarrow> bool \<Rightarrow> (bool \<times> workload) mg" where
  "cancel wid expected_kind restart_after =
     bind (gets (\<lambda>m. m)) (\<lambda>m.
       case map_of (mg_workloads m) wid of
         None \<Rightarrow> throw (NotFound wid)
       | Some r \<Rightarrow>
           bind (lift_result (ensure_kind wid r expected_kind)) (\<lambda>_.
             case map_of (mg_active m) wid of
               None \<Rightarrow> ret (False, workload_view wid r None)
             | Some a \<Rightarrow>
                 let a = a\<lparr>ae_restart_after := ae_restart_after a \<or> restart_after, ae_state := ''stopping'',
                       ae_cancelled := True\<rparr> in
                 bind (set_active wid a) (\<lambda>_.
                 bind (send_effect (CommandSent (ae_execution_id a) ''stop'' [])) (\<lambda>_.
                 bind bump (\<lambda>_. ret (True, workload_view wid r (Some a)))))))"

definition start_service :: "manager_world \<Rightarrow> manager_input \<Rightarrow> string \<Rightarrow> (bool \<times> workload) mg" where
  "start_service w i wid = start w i wid ''service'' False None"

definition run_job :: "manager_world \<Rightarrow> manager_input \<Rightarrow> string \<Rightarrow> (bool \<times> workload) mg" where
  "run_job w i wid = start w i wid ''job'' True None"

definition stop_service :: "string \<Rightarrow> (bool \<times> workload) mg" where
  "stop_service wid = cancel wid ''service'' False"

definition cancel_job :: "string \<Rightarrow> (bool \<times> workload) mg" where
  "cancel_job wid = cancel wid ''job'' False"

definition restart_service :: "string \<Rightarrow> (bool \<times> workload) mg" where
  "restart_service wid = cancel wid ''service'' True"

definition rerun_job :: "manager_world \<Rightarrow> manager_input \<Rightarrow> string \<Rightarrow> (bool \<times> workload) mg" where
  "rerun_job w i wid =
     bind (gets (\<lambda>m. map_of (mg_active m) wid \<noteq> None)) (\<lambda>active.
       if active then cancel wid ''job'' True else start w i wid ''job'' True None)"

text \<open>The error of a replacement is only logged.\<close>

definition start_replacement :: "manager_world \<Rightarrow> manager_input \<Rightarrow> string \<Rightarrow> unit mg" where
  "start_replacement w i wid =
     bind (gets (\<lambda>m. map_option mr_kind (map_of (mg_workloads m) wid))) (\<lambda>kind.
       if kind = Some ''service'' then bind (attempt_of (start_service w i wid)) (\<lambda>_. ret ())
       else if kind = Some ''job'' then bind (attempt_of (run_job w i wid)) (\<lambda>_. ret ())
       else ret ())"

end
