(* ===== verification/Manager_Supervision.thy ===== *)
theory Manager_Supervision
  imports Manager
begin

text \<open>
  The manager, continued from \<open>Manager\<close>: what supervisors tell it, the end of an execution, the
  session, reloads of the configuration and the state it opens with.
\<close>

section \<open>Enablement and the session\<close>

definition set_enabled_workload :: "string \<Rightarrow> bool \<Rightarrow> (bool \<times> workload) mg" where
  "set_enabled_workload wid enabled =
     bind (db_update (\<lambda>db. Inr (set_enabled db wid enabled))) (\<lambda>changed.
     bind (gets (\<lambda>m. m)) (\<lambda>m.
       case map_of (mg_workloads m) wid of
         None \<Rightarrow> throw (NotFound wid)
       | Some r \<Rightarrow>
           if changed
           then
             (let r = r\<lparr>mr_enabled := enabled\<rparr> in
              bind (modify (\<lambda>m. m\<lparr>mg_workloads := btree_insert wid r (mg_workloads m)\<rparr>)) (\<lambda>_.
              bind bump (\<lambda>_. ret (True, workload_view wid r (map_of (mg_active m) wid)))))
           else ret (False, workload_view wid r (map_of (mg_active m) wid))))"

text \<open>The loops of \<open>start_enabled\<close>: an error is ignored or logged, and the next one is started.\<close>

fun start_all :: "(string \<Rightarrow> 'a mg) \<Rightarrow> string list \<Rightarrow> unit mg" where
  "start_all f [] = ret ()"
| "start_all f (wid # wids) = bind (attempt_of (f wid)) (\<lambda>_. start_all f wids)"

definition enabled_of_kind :: "string \<Rightarrow> manager \<Rightarrow> string list" where
  "enabled_of_kind kind m = map fst (filter (\<lambda>(_, r). mr_enabled r \<and> mr_kind r = kind) (mg_workloads m))"

text \<open>\<open>i\<close> gives the input of each start.\<close>

definition start_enabled :: "manager_world \<Rightarrow> (string \<Rightarrow> manager_input) \<Rightarrow> unit mg" where
  "start_enabled w i =
     bind (gets (enabled_of_kind ''service'')) (\<lambda>services.
     bind (gets (enabled_of_kind ''job'')) (\<lambda>jobs.
     bind (start_all (\<lambda>wid. start_service w (i wid) wid) services) (\<lambda>_.
       case mw_session w of
         None \<Rightarrow> ret ()
       | Some session \<Rightarrow>
           if session = [] then ret ()
           else start_all (\<lambda>wid. start w (i wid) wid ''job'' True (Some session)) jobs)))"

definition ending_active :: "active_execution \<Rightarrow> active_execution" where
  "ending_active a = a\<lparr>ae_restart_after := False, ae_state := ''stopping'', ae_cancelled := True\<rparr>"

definition end_session :: "unit mg" where
  "end_session =
     bind (gets (\<lambda>m. m)) (\<lambda>m.
       if mg_session_ending m then ret ()
       else
         bind (modify (\<lambda>m. m\<lparr>mg_session_ending := True,
           mg_active := map (\<lambda>(wid, a). (wid, ending_active a)) (mg_active m),
           mg_effects := mg_effects m @
             map (\<lambda>(_, a). CommandSent (ae_execution_id a) ''session-ending'' []) (mg_active m)\<rparr>)) (\<lambda>_. bump))"

definition is_quiescent :: "manager \<Rightarrow> bool" where
  "is_quiescent m \<longleftrightarrow> mg_active m = []"

section \<open>The end of an execution\<close>

record execution_finish =
  ef_state :: string
  ef_exit_code :: "u32 option"
  ef_error :: string
  ef_supervisor_process_id :: u32

definition terminal_kinds :: "string list" where
  "terminal_kinds = [''completed'', ''failed'', ''stopped'', ''cancelled'', ''outcome-unknown'']"

text \<open>The row of the execution, and its version pin; errors are ignored.\<close>

definition finish_row :: "string \<Rightarrow> int \<Rightarrow> execution_finish \<Rightarrow> unit mg" where
  "finish_row execution_id ended finish =
     bind (attempt_of (db_query (\<lambda>db. get_execution db execution_id))) (\<lambda>found.
       case found of
         Inr (Some e) \<Rightarrow> db_update (\<lambda>db. Inr (finish_execution db (e\<lparr>se_state := ef_state finish,
           se_supervisor_process_id := ef_supervisor_process_id finish, se_workload_process_id := 0,
           se_ended_unix_ms := ended, se_exit_code := ef_exit_code finish, se_error := ef_error finish\<rparr>), ()))
       | _ \<Rightarrow> ret ())"

definition drop_pin :: "manager_world \<Rightarrow> string \<Rightarrow> unit mg" where
  "drop_pin w execution_id =
     bind (attempt_of (db_query (\<lambda>db. get_execution db execution_id))) (\<lambda>found.
       case found of
         Inr (Some e) \<Rightarrow> (case mw_decode w (se_snapshot e) of Inr c \<Rightarrow> remove_version_pin c | Inl _ \<Rightarrow> ret ())
       | _ \<Rightarrow> ret ())"

text \<open>The entry of the execution, the outcome of the workload and the pending replacement.\<close>

definition owns :: "manager \<Rightarrow> string \<Rightarrow> string \<Rightarrow> bool" where
  "owns m wid execution_id =
     (case map_of (mg_active m) wid of Some a \<Rightarrow> ae_execution_id a = execution_id | None \<Rightarrow> False)"

definition restarts_after :: "manager \<Rightarrow> string \<Rightarrow> bool" where
  "restarts_after m wid =
     (\<not> mg_session_ending m \<and> (case map_of (mg_active m) wid of Some a \<Rightarrow> ae_restart_after a | None \<Rightarrow> False))"

definition release_execution :: "manager_world \<Rightarrow> manager_input \<Rightarrow> string \<Rightarrow> string \<Rightarrow> string \<Rightarrow> unit mg" where
  "release_execution w i wid execution_id outcome =
     bind (gets (\<lambda>m. m)) (\<lambda>m.
     bind (if owns m wid execution_id then remove_active wid else ret ()) (\<lambda>_.
     bind (set_last_outcome wid outcome) (\<lambda>_.
     bind bump (\<lambda>_.
       if owns m wid execution_id \<and> restarts_after m wid then start_replacement w i wid else ret ()))))"

definition complete_execution ::
  "manager_world \<Rightarrow> manager_input \<Rightarrow> string \<Rightarrow> string \<Rightarrow> int \<Rightarrow> execution_finish \<Rightarrow> unit mg"
where
  "complete_execution w i wid execution_id started finish =
     (let ended = (case mi_time i of Some t \<Rightarrow> t | None \<Rightarrow> started) in
      bind (finish_row execution_id ended finish) (\<lambda>_.
      bind (drop_pin w execution_id) (\<lambda>_.
        release_execution w i wid execution_id (ef_state finish))))"

definition terminal_state_name :: "bool \<Rightarrow> execution_configuration \<Rightarrow> string \<Rightarrow> u32 option \<Rightarrow> string" where
  "terminal_state_name stopping c outcome exit_code =
     (if stopping then (if ec_kind c = ''job'' then ''cancelled'' else ''stopped'')
      else if outcome \<in> set terminal_kinds then outcome
      else if (case exit_code of Some code \<Rightarrow> code \<in> set (ec_success_exit_codes c) | None \<Rightarrow> False)
      then ''completed'' else ''failed'')"

text \<open>What \<open>supervisor_terminal\<close> does behind its guards with the active execution \<open>a\<close>.\<close>

definition terminate_active ::
  "manager_world \<Rightarrow> manager_input \<Rightarrow> stored_execution \<Rightarrow> execution_configuration \<Rightarrow> active_execution \<Rightarrow>
   bool \<Rightarrow> string \<Rightarrow> u32 option \<Rightarrow> string \<Rightarrow> unit mg"
where
  "terminate_active w i stored c a restart outcome exit_code error =
     (let state_name = terminal_state_name (ae_state a = ''stopping'') c outcome exit_code in
      bind (remove_active (se_workload_id stored)) (\<lambda>_.
      bind (set_last_outcome (se_workload_id stored) state_name) (\<lambda>_.
      bind bump (\<lambda>_.
      bind (system_time i) (\<lambda>ended.
      bind (db_update (\<lambda>db. Inr (finish_execution db (stored\<lparr>se_state := state_name,
        se_workload_process_id := 0, se_ended_unix_ms := ended, se_exit_code := exit_code,
        se_error := error\<rparr>), ()))) (\<lambda>_.
      bind (remove_version_pin c) (\<lambda>_.
        if restart then start_replacement w i (se_workload_id stored) else ret ())))))))"

definition supervisor_terminal ::
  "manager_world \<Rightarrow> manager_input \<Rightarrow> string \<Rightarrow> string \<Rightarrow> u32 option \<Rightarrow> string \<Rightarrow> unit mg"
where
  "supervisor_terminal w i execution_id outcome exit_code error =
     bind (stored_of execution_id) (\<lambda>stored.
     bind (decode_snapshot w (se_snapshot stored)) (\<lambda>c.
     bind (gets (\<lambda>m. m)) (\<lambda>m.
       case map_of (mg_active m) (se_workload_id stored) of
         None \<Rightarrow> ret ()
       | Some a \<Rightarrow>
           if ae_execution_id a \<noteq> execution_id \<or> ae_locally_owned a then ret ()
           else terminate_active w i stored c a (restarts_after m (se_workload_id stored)) outcome exit_code error)))"

section \<open>Supervisors\<close>

definition active_by_execution :: "string \<Rightarrow> manager \<Rightarrow> (string \<times> active_execution) option" where
  "active_by_execution execution_id m = find (\<lambda>(_, a). ae_execution_id a = execution_id) (mg_active m)"

definition supervisor_disconnected :: "string \<Rightarrow> string \<Rightarrow> unit mg" where
  "supervisor_disconnected execution_id attachment_id =
     bind (gets (active_by_execution execution_id)) (\<lambda>found.
       case found of
         None \<Rightarrow> ret ()
       | Some (wid, a) \<Rightarrow>
           if ae_locally_owned a \<or> ae_state a = ''stopping'' \<or> ae_attachment_id a \<noteq> Some attachment_id then ret ()
           else bind (set_active wid (a\<lparr>ae_attachment_id := None, ae_state := ''recovering''\<rparr>)) (\<lambda>_. bump))"

definition active_state :: "string \<Rightarrow> string" where
  "active_state state =
     (if state \<in> {''starting'', ''launching'', ''running'', ''launch-failed'', ''attempt-exited'',
        ''supervisor-lost'', ''restart-backoff'', ''stopping''} then state else ''recovering'')"

record supervisor_attachment =
  sa_configuration :: execution_configuration
  sa_committed_sequence :: u64
  sa_attachment_id :: string

text \<open>The commands are sent on the channel that the attachment subscribed to just before.\<close>

definition attach_supervisor ::
  "manager_world \<Rightarrow> manager_input \<Rightarrow> string \<Rightarrow> string \<Rightarrow> string \<Rightarrow> u8 list \<Rightarrow> u32 \<Rightarrow> supervisor_attachment mg"
where
  "attach_supervisor w i execution_id workload_id session config_hash process_id =
     bind (stored_of execution_id) (\<lambda>stored.
     bind (decode_snapshot w (se_snapshot stored)) (\<lambda>c.
       if ec_workload_id c \<noteq> workload_id \<or> ec_manager_session_id c \<noteq> session \<or>
          ec_execution_config_hash c \<noteq> config_hash
       then throw SupervisorIdentityMismatch
       else
         bind (gets (\<lambda>m. m)) (\<lambda>m.
         let wid = se_workload_id stored;
             current_definition = Option.bind (map_of (mg_workloads m) wid) mr_definition
         in
         case map_of (mg_active m) wid of
           None \<Rightarrow> throw (NotFound execution_id)
         | Some a \<Rightarrow>
             if ae_execution_id a \<noteq> execution_id then throw (NotFound execution_id)
             else if ae_supervisor_process_id a \<noteq> 0 \<and> ae_supervisor_process_id a \<noteq> process_id
             then throw SupervisorIdentityMismatch
             else if ae_locally_owned a \<and> ae_supervisor_process_id a = 0
             then throw SupervisorIdentityMismatch
             else
               (let a = a\<lparr>ae_supervisor_process_id := process_id\<rparr>;
                    a = (if ae_locally_owned a then a\<lparr>ae_state := ''launching''\<rparr>
                      else a\<lparr>ae_state := active_state (se_state stored),
                        ae_workload_process_id := se_workload_process_id stored,
                        ae_attempt := se_attempt stored, ae_error := se_error stored\<rparr>);
                    a = a\<lparr>ae_attachment_id := Some (mi_uuid i)\<rparr>
                in
                bind (set_active wid a) (\<lambda>_.
                bind (case current_definition of
                        Some d \<Rightarrow>
                          if ae_policy_sync_pending a
                          then send_effect (CommandSent execution_id ''update-policy''
                            (encode_policy (mw_encoder w) (policy_update_of (mw_encoder w) d)))
                          else ret ()
                      | None \<Rightarrow> ret ()) (\<lambda>_.
                bind (if ae_locally_owned a
                      then db_update (\<lambda>db. Inr (set_execution_supervisor db execution_id process_id, ()))
                      else ret ()) (\<lambda>_.
                bind bump (\<lambda>_. ret \<lparr>sa_configuration = c,
                  sa_committed_sequence = se_committed_sequence stored,
                  sa_attachment_id = mi_uuid i\<rparr>))))))))"

definition progress_observation :: "string \<Rightarrow> u32 \<Rightarrow> u32 \<Rightarrow> string \<Rightarrow> progress_update option" where
  "progress_observation kind attempt process_id detail =
     (let progress = (\<lambda>state process_id error. Some \<lparr>po_state = state, po_workload_process_id = process_id,
            po_attempt = attempt, po_error = error\<rparr>);
          nonempty = (if detail = [] then None else Some detail)
      in if kind = ''attempt-started'' then progress ''running'' process_id (Some [])
         else if kind = ''launch-failed'' then progress ''launch-failed'' 0 (Some detail)
         else if kind = ''attempt-exited'' then progress ''attempt-exited'' 0 nonempty
         else if kind = ''supervisor-lost'' then progress ''supervisor-lost'' 0 (Some detail)
         else if kind = ''restart-backoff'' then progress ''restart-backoff'' 0 nonempty
         else None)"

record supervisor_observation =
  so_sequence :: u64
  so_kind :: string
  so_exit_code :: "u32 option"
  so_detail :: string
  so_attempt :: u32
  so_workload_process_id :: u32

definition observation_update_of ::
  "manager_input \<Rightarrow> stored_execution \<Rightarrow> bool \<Rightarrow> supervisor_observation \<Rightarrow> observation_update"
where
  "observation_update_of i stored terminalized ob =
     (if terminalized
      then TerminalUpdate \<lparr>to_state = so_kind ob,
        to_ended_unix_ms = (case mi_time i of Some t \<Rightarrow> t | None \<Rightarrow> se_started_unix_ms stored),
        to_exit_code = so_exit_code ob, to_error = so_detail ob, to_attempt = so_attempt ob\<rparr>
      else
        (case progress_observation (so_kind ob) (so_attempt ob) (so_workload_process_id ob) (so_detail ob) of
           Some p \<Rightarrow> Progress p
         | None \<Rightarrow> Acknowledge))"

text \<open>The effect of a committed observation on the active execution, and whether it changed it.\<close>

definition observed_active :: "supervisor_observation \<Rightarrow> active_execution \<Rightarrow> active_execution \<times> bool" where
  "observed_active ob a =
     (let synced = so_kind ob = ''policy-applied'' \<and> so_detail ob = hex (ae_policy_hash a) \<and> ae_policy_sync_pending a;
          a = (if synced then a\<lparr>ae_policy_sync_pending := False\<rparr> else a)
      in case progress_observation (so_kind ob) (so_attempt ob) (so_workload_process_id ob) (so_detail ob) of
           None \<Rightarrow> (a, synced)
         | Some p \<Rightarrow> (a\<lparr>ae_state := po_state p, ae_workload_process_id := po_workload_process_id p,
             ae_attempt := po_attempt p,
             ae_error := (case po_error p of Some e \<Rightarrow> e | None \<Rightarrow> ae_error a)\<rparr>, True))"

text \<open>A terminal observation of an adopted execution, once its row is closed.\<close>

definition observed_terminal ::
  "manager_world \<Rightarrow> manager_input \<Rightarrow> stored_execution \<Rightarrow> string \<Rightarrow> string \<Rightarrow> unit mg"
where
  "observed_terminal w i stored execution_id kind =
     (let wid = se_workload_id stored in
      bind (decode_snapshot w (se_snapshot stored)) (\<lambda>c.
      bind (remove_version_pin c) (\<lambda>_.
      bind (gets (\<lambda>m. m)) (\<lambda>m.
        if owns m wid execution_id
        then
          bind (remove_active wid) (\<lambda>_.
          bind (set_last_outcome wid kind) (\<lambda>_.
          bind bump (\<lambda>_. if restarts_after m wid then start_replacement w i wid else ret ())))
        else ret ()))))"

definition observed_progress :: "string \<Rightarrow> string \<Rightarrow> supervisor_observation \<Rightarrow> unit mg" where
  "observed_progress wid execution_id ob =
     bind (gets (\<lambda>m. m)) (\<lambda>m.
       case map_of (mg_active m) wid of
         None \<Rightarrow> ret ()
       | Some a \<Rightarrow>
           if ae_execution_id a \<noteq> execution_id then ret ()
           else
             bind (set_active wid (fst (observed_active ob a)))
               (\<lambda>_. if snd (observed_active ob a) then bump else ret ()))"

definition terminalizes :: "manager \<Rightarrow> string \<Rightarrow> string \<Rightarrow> supervisor_observation \<Rightarrow> bool" where
  "terminalizes m wid execution_id ob \<longleftrightarrow> so_kind ob \<in> set terminal_kinds \<and>
     (case map_of (mg_active m) wid of
        Some a \<Rightarrow> ae_execution_id a = execution_id \<and> \<not> ae_locally_owned a
      | None \<Rightarrow> False)"

definition record_supervisor_observation ::
  "manager_world \<Rightarrow> manager_input \<Rightarrow> string \<Rightarrow> supervisor_observation \<Rightarrow> unit mg"
where
  "record_supervisor_observation w i execution_id ob =
     bind (stored_of execution_id) (\<lambda>stored.
     let wid = se_workload_id stored in
     bind (gets (\<lambda>m. terminalizes m wid execution_id ob)) (\<lambda>terminalized.
     bind (db_update (\<lambda>db. commit_observation db execution_id (so_sequence ob)
         (observation_update_of i stored terminalized ob))) (\<lambda>committed.
       if committed \<and> terminalized then observed_terminal w i stored execution_id (so_kind ob)
       else if committed then observed_progress wid execution_id ob
       else ret ())))"

section \<open>Reloading the configuration\<close>

text \<open>One active execution against the definition its workload has now; the flag says whether it changed.\<close>

definition reconcile_active ::
  "encoder \<Rightarrow> execution_configuration option \<Rightarrow> active_execution \<Rightarrow> active_execution \<times> bool \<times> manager_effect list"
where
  "reconcile_active enc definition_now a =
     (case definition_now of
        None \<Rightarrow> (a\<lparr>ae_restart_required := False\<rparr>, ae_restart_required a, [])
      | Some d \<Rightarrow>
          (let restart_required = ae_process_definition_hash a \<noteq> ec_process_definition_hash d;
               update = policy_update_of enc d;
               moved = ae_policy_hash a \<noteq> pu_policy_hash update;
               a' = a\<lparr>ae_restart_required := restart_required, ae_policy_hash := pu_policy_hash update,
                 ae_policy_sync_pending := ae_policy_sync_pending a \<or> moved\<rparr>
           in (a', ae_restart_required a \<noteq> restart_required \<or> moved,
               if ae_policy_sync_pending a'
               then [CommandSent (ae_execution_id a) ''update-policy'' (encode_policy enc update)] else [])))"

definition reconcile_reload :: "manager_world \<Rightarrow> bool mg" where
  "reconcile_reload w =
     bind (gets (\<lambda>m. map (\<lambda>(wid, a). (wid, reconcile_active (mw_encoder w)
         (Option.bind (map_of (mg_workloads m) wid) mr_definition) a)) (mg_active m))) (\<lambda>results.
     bind (modify (\<lambda>m. m\<lparr>mg_active := map (\<lambda>(wid, r). (wid, fst r)) results,
       mg_effects := mg_effects m @ concat (map (\<lambda>(_, r). snd (snd r)) results)\<rparr>)) (\<lambda>_.
       ret (list_ex (\<lambda>(_, r). fst (snd r)) results)))"

fun insert_decoded :: "manager_world \<Rightarrow> stored_workload list \<Rightarrow> unit mg" where
  "insert_decoded w [] = ret ()"
| "insert_decoded w (s # ss) =
     bind (case sw_definition s of
             None \<Rightarrow> ret None
           | Some bytes \<Rightarrow> bind (decode_snapshot w bytes) (\<lambda>c. ret (Some c))) (\<lambda>c.
     bind (modify (\<lambda>m. m\<lparr>mg_workloads := btree_insert (sw_id s) \<lparr>mr_kind = sw_kind s, mr_definition = c,
         mr_enabled = sw_enabled s, mr_last_outcome = sw_last_outcome s\<rparr> (mg_workloads m)\<rparr>)) (\<lambda>_.
       insert_decoded w ss))"

definition stored_definition :: "encoder \<Rightarrow> execution_configuration \<Rightarrow> stored_workload" where
  "stored_definition enc d = \<lparr>sw_id = ec_workload_id d, sw_kind = ec_kind d,
     sw_definition = Some (encode_configuration enc d), sw_enabled = False, sw_last_outcome = []\<rparr>"

definition kind_changes :: "manager \<Rightarrow> execution_configuration \<Rightarrow> bool" where
  "kind_changes m d \<longleftrightarrow> map_of (mg_active m) (ec_workload_id d) \<noteq> None \<and>
     (case map_of (mg_workloads m) (ec_workload_id d) of
        Some r \<Rightarrow> mr_kind r \<noteq> ec_kind d
      | None \<Rightarrow> False)"

text \<open>
  \<open>candidate\<close> is what \<open>load_directory\<close> returned (\<open>Config_Loader\<close>), its error rendered.
\<close>

definition reload :: "manager_world \<Rightarrow> string + candidate_config \<Rightarrow> (bool \<times> string) mg" where
  "reload w candidate =
     bind (lift_result (map_err ConfigError candidate)) (\<lambda>candidate.
     let generation = generation_bytes (cc_generation candidate);
         definitions = map (definition_snapshot (mw_encoder w) \<circ> snd) (cc_definitions candidate);
         stored = map (stored_definition (mw_encoder w)) definitions
     in
     bind (gets (\<lambda>m. find (kind_changes m) definitions)) (\<lambda>conflict.
       case conflict of
         Some d \<Rightarrow> throw (KindChangeActive (ec_workload_id d))
       | None \<Rightarrow>
           bind (db_update (\<lambda>db. replace_definitions db generation stored)) (\<lambda>changed.
             if changed
             then
               bind (gets (\<lambda>m. load_workloads (mg_database m))) (\<lambda>persisted.
               bind (insert_decoded w persisted) (\<lambda>_.
               bind (reconcile_reload w) (\<lambda>_.
               bind bump (\<lambda>_. ret (True, hex generation)))))
             else
               bind (reconcile_reload w) (\<lambda>reconciled.
               bind (if reconciled then bump else ret ()) (\<lambda>_. ret (False, hex generation))))))"

end
