(* ===== verification/Manager_Lifecycle.thy ===== *)
theory Manager_Lifecycle
  imports Manager_Supervision
begin

text \<open>
  The manager, continued: the state it opens with, the task that runs the supervisors of an
  execution, and the monitor of an execution adopted from an earlier controller process. The
  operating system and the supervisors are inputs, one record per turn of a loop.
\<close>

section \<open>Opening\<close>

definition unopened :: "database \<Rightarrow> manager" where
  "unopened db = \<lparr>mg_workloads = [], mg_active = [], mg_revision = 0, mg_session_ending = False,
     mg_database = db, mg_effects = []\<rparr>"

definition current_session :: "manager_world \<Rightarrow> string" where
  "current_session w = (case mw_session w of None \<Rightarrow> [] | Some s \<Rightarrow> s)"

definition adopted_execution :: "encoder \<Rightarrow> stored_execution \<Rightarrow> execution_configuration \<Rightarrow> active_execution" where
  "adopted_execution enc e c = \<lparr>ae_execution_id = se_id e,
     ae_supervisor_process_id = se_supervisor_process_id e,
     ae_workload_process_id = se_workload_process_id e, ae_attempt = se_attempt e, ae_error = se_error e,
     ae_state = (if se_state e = ''stopping'' then ''stopping'' else ''recovering''),
     ae_cancelled = False, ae_locally_owned = False, ae_restart_after = False,
     ae_process_definition_hash = ec_process_definition_hash c,
     ae_policy_hash = pu_policy_hash (policy_update_of enc c),
     ae_restart_required = False, ae_policy_sync_pending = False, ae_attachment_id = None\<rparr>"

text \<open>An execution of a session that ended. \<open>time\<close> is the clock when it is closed.\<close>

definition stale_outcome :: "execution_configuration \<Rightarrow> string" where
  "stale_outcome c = (if ec_kind c = ''job'' then ''outcome-unknown'' else ''stopped'')"

definition close_stale :: "int option \<Rightarrow> stored_execution \<Rightarrow> execution_configuration \<Rightarrow> unit mg" where
  "close_stale time e c =
     bind (lift_result (ok_or InvalidSystemTime time)) (\<lambda>ended.
     bind (db_update (\<lambda>db. Inr (finish_execution db (e\<lparr>se_state := stale_outcome c,
       se_supervisor_process_id := 0, se_workload_process_id := 0, se_ended_unix_ms := ended,
       se_exit_code := None, se_error := ''execution belonged to an ended manager session''\<rparr>), ()))) (\<lambda>_.
     bind (set_last_outcome (se_workload_id e) (stale_outcome c)) (\<lambda>_.
       remove_version_pin c)))"

fun adopt_executions :: "manager_world \<Rightarrow> (string \<Rightarrow> int option) \<Rightarrow> stored_execution list \<Rightarrow> unit mg" where
  "adopt_executions w time [] = ret ()"
| "adopt_executions w time (e # es) =
     bind (decode_snapshot w (se_snapshot e)) (\<lambda>c.
     bind (if ec_manager_session_id c \<noteq> current_session w then close_stale (time (se_id e)) e c
           else set_active (se_workload_id e) (adopted_execution (mw_encoder w) e c)) (\<lambda>_.
       adopt_executions w time es))"

text \<open>It runs on \<open>unopened db\<close> for the database found.\<close>

definition manager_open :: "manager_world \<Rightarrow> (string \<Rightarrow> int option) \<Rightarrow> unit mg" where
  "manager_open w time =
     bind (gets (\<lambda>m. load_workloads (mg_database m))) (\<lambda>stored.
     bind (insert_decoded w stored) (\<lambda>_.
     bind (db_query load_active_executions) (\<lambda>executions.
       adopt_executions w time executions)))"

section \<open>The supervisors of an execution\<close>

text \<open>\<open>PathBuf::join\<close> of a relative name.\<close>

definition path_join :: "string \<Rightarrow> string \<Rightarrow> string" where
  "path_join base name =
     (if base = [] then name
      else if last base \<in> {CHR 0x5C, CHR ''/''} then base @ name
      else base @ CHR 0x5C # name)"

definition execution_runtime_root :: "manager_world \<Rightarrow> string \<Rightarrow> string \<Rightarrow> string" where
  "execution_runtime_root w session execution_id =
     foldl path_join (mw_data_directory w)
       [''runtime'', ''sessions'', if session = [] then ''standalone'' else session, ''executions'', execution_id]"

definition execution_spec ::
  "manager_world \<Rightarrow> string \<Rightarrow> string \<Rightarrow> execution_configuration \<Rightarrow> execution_configuration"
where
  "execution_spec w workload_id execution_id c =
     (let root = execution_runtime_root w (ec_manager_session_id c) execution_id
      in c\<lparr>ec_execution_id := execution_id, ec_attempt := 1,
        ec_result_file := path_join root ''result.pb'',
        ec_runtime_journal := path_join root ''runtime.susm-runtime.open'',
        ec_log_directory := foldl path_join (mw_data_directory w) [''logs'', workload_id, execution_id]\<rparr>)"

definition stopped_attempt_result :: attempt_result where
  "stopped_attempt_result = \<lparr>ar_launched = False, ar_exit_code = None, ar_error = [], ar_started_unix_ms = 0,
     ar_ended_unix_ms = 0, ar_stop_requested = True, ar_forced = False, ar_outcome = []\<rparr>"

text \<open>The delay in milliseconds.\<close>

definition supervisor_retry_delay :: "u32 \<Rightarrow> u64" where
  "supervisor_retry_delay failures =
     (let exponent = min (saturating_sub failures 1) 31
      in min (saturating_mul 100 (push_bit (unat exponent) 1)) 5000)"

definition io_finish :: "string \<Rightarrow> u32 \<Rightarrow> string \<Rightarrow> string \<Rightarrow> execution_finish" where
  "io_finish state supervisor path error = \<lparr>ef_state = state, ef_exit_code = None,
     ef_error = path @ '': '' @ error, ef_supervisor_process_id = supervisor\<rparr>"

definition finish_of :: "execution_configuration \<Rightarrow> attempt_result \<Rightarrow> bool \<Rightarrow> u32 \<Rightarrow> execution_finish" where
  "finish_of c result cancelled supervisor =
     (let successful = (case ar_exit_code result of
            Some code \<Rightarrow> code \<in> set (ec_success_exit_codes c) | None \<Rightarrow> False)
      in \<lparr>ef_state =
            (if ar_outcome result \<in> set terminal_kinds then ar_outcome result
             else if cancelled \<or> ar_stop_requested result
             then (if ec_kind c = ''job'' then ''cancelled'' else ''stopped'')
             else if successful then ''completed'' else ''failed''),
          ef_exit_code = ar_exit_code result, ef_error = ar_error result,
          ef_supervisor_process_id = supervisor\<rparr>)"

text \<open>
  One turn of the loop: the token was cancelled before it; the supervisor process that was spawned
  or the error; the token was cancelled while it ran; the result found after it; the token was
  cancelled during the delay.
\<close>

record supervisor_turn =
  su_cancelled :: bool
  su_spawned :: "string + u32"
  su_stopped :: bool
  su_result :: "attempt_result option"
  su_cancelled_waiting :: bool

text \<open>The block under the lock after a spawn.\<close>

definition supervisor_spawned :: "string \<Rightarrow> string \<Rightarrow> u32 \<Rightarrow> unit mg" where
  "supervisor_spawned workload_id execution_id process_id =
     bind (attempt_of (db_update (\<lambda>db. Inr (set_execution_supervisor db execution_id process_id, ())))) (\<lambda>_.
     bind (gets (\<lambda>m. map_of (mg_active m) workload_id)) (\<lambda>active.
       case active of
         None \<Rightarrow> ret ()
       | Some a \<Rightarrow>
           if ae_execution_id a = execution_id
           then bind (set_active workload_id (a\<lparr>ae_supervisor_process_id := process_id, ae_state := ''launching''\<rparr>))
             (\<lambda>_. bump)
           else ret ()))"

definition supervisor_budget :: u32 where
  "supervisor_budget = 8"

text \<open>After a turn without a result: another one after the delay, unless the token is cancelled.\<close>

definition wait_for_supervisor ::
  "execution_configuration \<Rightarrow> u32 \<Rightarrow> u32 \<Rightarrow> bool \<Rightarrow> execution_finish mg \<Rightarrow> execution_finish mg"
where
  "wait_for_supervisor c supervisor failures cancelled again =
     (if cancelled then ret (finish_of c stopped_attempt_result True supervisor)
      else bind (send_effect (SupervisorBackoff (supervisor_retry_delay failures))) (\<lambda>_. again))"

fun run_supervisors ::
  "string \<Rightarrow> string \<Rightarrow> execution_configuration \<Rightarrow> u32 \<Rightarrow> u32 \<Rightarrow> supervisor_turn list \<Rightarrow> execution_finish mg"
where
  "run_supervisors wid eid c failures supervisor [] = pending"
| "run_supervisors wid eid c failures supervisor (t # ts) =
     (if su_cancelled t then ret (finish_of c stopped_attempt_result True supervisor)
      else
        case su_spawned t of
          Inl error \<Rightarrow>
            (let failures = saturating_add failures 1 in
             if supervisor_budget \<le> failures
             then ret (io_finish ''supervisor-unavailable'' 0 (ec_supervisor_executable c) error)
             else wait_for_supervisor c supervisor failures (su_cancelled_waiting t)
               (run_supervisors wid eid c failures supervisor ts))
        | Inr supervisor \<Rightarrow>
            bind (send_effect (SupervisorLaunched eid supervisor)) (\<lambda>_.
            bind (supervisor_spawned wid eid supervisor) (\<lambda>_.
            bind (if su_stopped t then send_effect (StopWritten eid) else ret ()) (\<lambda>_.
              case su_result t of
                Some result \<Rightarrow> ret (finish_of c result (su_stopped t) supervisor)
              | None \<Rightarrow>
                  if su_stopped t then ret (finish_of c stopped_attempt_result True supervisor)
                  else
                    (let failures = saturating_add failures 1 in
                     if supervisor_budget \<le> failures
                     then ret \<lparr>ef_state = ''supervisor-unavailable'', ef_exit_code = None,
                       ef_error = ''supervisor launch budget exhausted without a terminal result'',
                       ef_supervisor_process_id = supervisor\<rparr>
                     else wait_for_supervisor c supervisor failures (su_cancelled_waiting t)
                       (run_supervisors wid eid c failures supervisor ts))))))"

text \<open>\<open>directory\<close> and \<open>written\<close> are the errors of creating the directory and writing the file.\<close>

definition run_execution ::
  "manager_world \<Rightarrow> string \<Rightarrow> string \<Rightarrow> execution_configuration \<Rightarrow> string option \<Rightarrow> string option \<Rightarrow>
   supervisor_turn list \<Rightarrow> execution_finish mg"
where
  "run_execution w wid eid c directory written turns =
     (let root = execution_runtime_root w (ec_manager_session_id c) eid;
          spec_path = path_join root ''execution.pb'';
          c = execution_spec w wid eid c
      in
      case directory of
        Some error \<Rightarrow> ret (io_finish ''failed'' 0 root error)
      | None \<Rightarrow>
          (case written of
             Some error \<Rightarrow> ret (io_finish ''failed'' 0 spec_path error)
           | None \<Rightarrow>
               bind (send_effect (SpecWritten spec_path c)) (\<lambda>_. run_supervisors wid eid c 0 0 turns)))"

text \<open>The task: the supervisors, then the completion, without other operations between them.\<close>

definition execution_task ::
  "manager_world \<Rightarrow> manager_input \<Rightarrow> string \<Rightarrow> string \<Rightarrow> execution_configuration \<Rightarrow> int \<Rightarrow> string option \<Rightarrow>
   string option \<Rightarrow> supervisor_turn list \<Rightarrow> unit mg"
where
  "execution_task w i wid eid c started directory written turns =
     bind (run_execution w wid eid c directory written turns) (\<lambda>finish.
       complete_execution w i wid eid started finish)"

section \<open>Executions adopted from an earlier process\<close>

record recovery_monitor =
  rm_replacement_at :: nat
  rm_was_recovering :: bool

definition recovery_grace :: nat where
  "recovery_grace = 3000"

definition monitored :: "manager \<Rightarrow> string list" where
  "monitored m = map (ae_execution_id \<circ> snd) (filter (\<lambda>(_, a). \<not> ae_locally_owned a) (mg_active m))"

definition monitor_start :: "nat \<Rightarrow> recovery_monitor" where
  "monitor_start now = \<lparr>rm_replacement_at = now + recovery_grace, rm_was_recovering = True\<rparr>"

text \<open>
  One turn of the loop, at \<open>now\<close> milliseconds, with the result file if there is one; the monitor
  goes on with what it returns, and ends on \<open>None\<close>.
\<close>

definition monitor_turn ::
  "manager_world \<Rightarrow> manager_input \<Rightarrow> string \<Rightarrow> nat \<Rightarrow> attempt_result option \<Rightarrow> recovery_monitor \<Rightarrow>
   recovery_monitor option mg"
where
  "monitor_turn w i eid now result monitor =
     (case result of
        Some result \<Rightarrow>
          bind (attempt_of (supervisor_terminal w i eid (ar_outcome result) (ar_exit_code result) (ar_error result)))
            (\<lambda>_. ret None)
      | None \<Rightarrow>
          bind (gets (active_by_execution eid)) (\<lambda>found.
            case found of
              None \<Rightarrow> ret None
            | Some (wid, a) \<Rightarrow>
                (let recovering = ae_state a = ''recovering'';
                     replacement_at =
                       (if recovering \<and> \<not> rm_was_recovering monitor then now + recovery_grace
                        else rm_replacement_at monitor)
                 in
                 if recovering \<and> replacement_at \<le> now
                 then
                   bind (set_active wid (a\<lparr>ae_locally_owned := True, ae_state := ''starting''\<rparr>)) (\<lambda>_.
                   bind (send_effect (ExecutionSpawned wid eid)) (\<lambda>_. ret None))
                 else ret (Some \<lparr>rm_replacement_at = replacement_at, rm_was_recovering = recovering\<rparr>))))"

end
