(* ===== verification/Manager_Books.thy ===== *)
theory Manager_Books
  imports Manager_Lifecycle Storage_Properties
begin

text \<open>
  The books of the manager: the executions it holds as active are exactly the rows of its
  database that have not ended, whatever operation is called and wherever it fails. So a workload
  never has two open executions, and a controller that opens the database again adopts them.
\<close>

section \<open>Ordered maps\<close>

lemma keys_btree_remove [simp]: "fst ` set (btree_remove k t) = fst ` set t - {k}"
  by (force simp: btree_remove_def)

lemma btree_remove_ok: "btree_ok t \<Longrightarrow> btree_ok (btree_remove k t)"
proof (induction t)
  case (Cons e t)
  then show ?case
    by (cases e) (auto simp: btree_ok_Cons btree_remove_def)
qed (simp add: btree_remove_def)

lemma map_of_btree_remove [simp]:
  "map_of (btree_remove k t) k' = (if k' = k then None else map_of t k')"
  by (induction t) (auto simp: btree_remove_def)

lemma btree_remove_insert: "btree_ok t \<Longrightarrow> map_of t k = None \<Longrightarrow> btree_remove k (btree_insert k v t) = t"
  by (rule btree_ext) (auto simp: btree_remove_ok btree.put_ok btree.lookup_put)

lemma map_of_map_values: "map_of (map (\<lambda>(k, v). (k, f k v)) t) k = map_option (f k) (map_of t k)"
  by (induction t) auto

lemma btree_ok_map_values: "btree_ok (map (\<lambda>(k, v). (k, f k v)) t) = btree_ok t"
  by (simp add: btree_ok_def comp_def split_def)

section \<open>Open rows and active executions\<close>

definition row_key :: "execution_row \<Rightarrow> string \<times> string" where
  "row_key r = (er_workload_id r, er_id r)"

definition row_keys :: "database \<Rightarrow> (string \<times> string) set" where
  "row_keys db = row_key ` set (db_executions db)"

definition open_rows :: "database \<Rightarrow> (string \<times> string) set" where
  "open_rows db = row_key ` {r \<in> set (db_executions db). er_ended_unix_ms r = 0}"

definition active_entries :: "(string, active_execution) btree \<Rightarrow> (string \<times> string) set" where
  "active_entries t = {(wid, ae_execution_id a) | wid a. map_of t wid = Some a}"

lemma active_entries_insert:
  "btree_ok t \<Longrightarrow> active_entries (btree_insert wid a t) =
     insert (wid, ae_execution_id a) {e \<in> active_entries t. fst e \<noteq> wid}"
  by (auto simp: active_entries_def btree.lookup_put split: if_split_asm)

lemma active_entries_remove: "active_entries (btree_remove wid t) = {e \<in> active_entries t. fst e \<noteq> wid}"
  by (auto simp: active_entries_def split: if_split_asm)

lemma active_entries_map:
  "(\<And>wid a. ae_execution_id (f wid a) = ae_execution_id a) \<Longrightarrow>
   active_entries (map (\<lambda>(wid, a). (wid, f wid a)) t) = active_entries t"
  by (auto simp: active_entries_def map_of_map_values)

lemma active_entries_one: "(wid, i) \<in> active_entries t \<Longrightarrow> (wid, j) \<in> active_entries t \<Longrightarrow> i = j"
  by (auto simp: active_entries_def)

lemma active_entries_lookup: "map_of t wid = Some a \<Longrightarrow> (wid, ae_execution_id a) \<in> active_entries t"
  by (auto simp: active_entries_def)

lemma active_entries_absent: "map_of t wid = None \<Longrightarrow> (wid, i) \<notin> active_entries t"
  by (auto simp: active_entries_def)

lemma open_rows_executions: "db_executions db' = db_executions db \<Longrightarrow> open_rows db' = open_rows db"
  by (simp add: open_rows_def)

lemma row_keys_update [simp]:
  assumes "\<And>r. row_key (f r) = row_key r"
  shows "row_keys (update_execution i f db) = row_keys db"
proof -
  have "row_key (if er_id r = i then f r else r) = row_key r" for r using assms by simp
  then show ?thesis by (simp add: row_keys_def update_execution_def image_image del: if_image_distrib)
qed

lemma row_keys_workloads [simp]: "row_keys (update_workloads P f db) = row_keys db"
  by (simp add: row_keys_def)

lemma open_rows_workloads [simp]: "open_rows (update_workloads P f db) = open_rows db"
  by (simp add: open_rows_def)

lemma in_open_rows: "e \<in> open_rows db \<longleftrightarrow> (\<exists>r \<in> set (db_executions db). row_key r = e \<and> er_ended_unix_ms r = 0)"
  by (auto simp: open_rows_def image_def)

lemma in_open_rows_update:
  "e \<in> open_rows (update_execution i f db) \<longleftrightarrow>
   (\<exists>r \<in> set (db_executions db). if er_id r = i then row_key (f r) = e \<and> er_ended_unix_ms (f r) = 0
      else row_key r = e \<and> er_ended_unix_ms r = 0)"
proof -
  have "e \<in> open_rows (update_execution i f db) \<longleftrightarrow>
      (\<exists>r \<in> set (db_executions db). row_key (if er_id r = i then f r else r) = e \<and>
        er_ended_unix_ms (if er_id r = i then f r else r) = 0)"
    by (simp add: in_open_rows update_execution_def del: if_image_distrib)
  also have "\<dots> = (\<exists>r \<in> set (db_executions db). if er_id r = i then row_key (f r) = e \<and> er_ended_unix_ms (f r) = 0
      else row_key r = e \<and> er_ended_unix_ms r = 0)"
    by (rule bex_cong) simp_all
  finally show ?thesis .
qed

lemma open_rows_update_same:
  assumes "\<And>r. row_key (f r) = row_key r" and "\<And>r. er_ended_unix_ms (f r) = er_ended_unix_ms r"
  shows "open_rows (update_execution i f db) = open_rows db"
  by (rule set_eqI, unfold in_open_rows_update, unfold in_open_rows) (simp add: assms)

lemma open_rows_update_ended:
  assumes "\<And>r. row_key (f r) = row_key r" and "\<And>r. er_ended_unix_ms (f r) \<noteq> 0"
  shows "open_rows (update_execution i f db) = {e \<in> open_rows db. snd e \<noteq> i}"
proof (rule set_eqI)
  fix e
  have "snd e = er_id r" if "row_key r = e" for r using that by (auto simp: row_key_def)
  then show "e \<in> open_rows (update_execution i f db) \<longleftrightarrow> e \<in> {e \<in> open_rows db. snd e \<noteq> i}"
    by (unfold in_open_rows_update mem_Collect_eq, unfold in_open_rows) (use assms in metis)
qed

section \<open>The ledger\<close>

definition snapshots_ok :: "manager_world \<Rightarrow> database \<Rightarrow> bool" where
  "snapshots_ok w db \<longleftrightarrow> (\<forall>r \<in> set (db_executions db). \<exists>c. mw_decode w (er_snapshot r) = Inr c)"

definition spawned_ok :: "manager \<Rightarrow> bool" where
  "spawned_ok m \<longleftrightarrow> (\<forall>wid i. ExecutionSpawned wid i \<in> set (mg_effects m) \<longrightarrow> (wid, i) \<in> row_keys (mg_database m))"

definition ledger :: "manager_world \<Rightarrow> manager \<Rightarrow> bool" where
  "ledger w m \<longleftrightarrow> btree_ok (mg_workloads m) \<and> btree_ok (mg_active m) \<and> db_ok (mg_database m) \<and>
     snapshots_ok w (mg_database m) \<and> spawned_ok m"

definition account ::
  "manager_world \<Rightarrow> (string \<times> string) set \<Rightarrow> (string \<times> string) set \<Rightarrow> manager \<Rightarrow> bool"
where
  "account w X Y m \<longleftrightarrow> ledger w m \<and> open_rows (mg_database m) = X \<and> active_entries (mg_active m) = Y"

definition books :: "manager_world \<Rightarrow> manager \<Rightarrow> bool" where
  "books w m \<longleftrightarrow> ledger w m \<and> open_rows (mg_database m) = active_entries (mg_active m)"

text \<open>What the development relies on in the protobuf decoder.\<close>

definition decodes :: "manager_world \<Rightarrow> bool" where
  "decodes w \<longleftrightarrow> (\<forall>c. \<exists>d. mw_decode w (encode_configuration (mw_encoder w) c) = Inr d)"

lemma snapshots_ok_update:
  assumes "\<And>r. er_snapshot (f r) = er_snapshot r" and "snapshots_ok w db"
  shows "snapshots_ok w (update_execution i f db)"
  using assms by (auto simp: snapshots_ok_def update_execution_def)

lemma snapshots_ok_workloads [simp]: "snapshots_ok w (update_workloads P f db) = snapshots_ok w db"
  by (simp add: snapshots_ok_def)

lemma spawned_ok_grow:
  assumes "spawned_ok m" and "row_keys (mg_database m) \<subseteq> row_keys db"
  shows "spawned_ok (m\<lparr>mg_database := db\<rparr>)"
  using assms by (auto simp: spawned_ok_def)

lemma spawned_ok_fields [simp]:
  "spawned_ok (m\<lparr>mg_active := t\<rparr>) = spawned_ok m" "spawned_ok (m\<lparr>mg_workloads := ws\<rparr>) = spawned_ok m"
  "spawned_ok (m\<lparr>mg_revision := r\<rparr>) = spawned_ok m" "spawned_ok (m\<lparr>mg_session_ending := e\<rparr>) = spawned_ok m"
  by (simp_all add: spawned_ok_def)

section \<open>Triples of the small steps\<close>

named_theorems accounts \<open>triples of the steps over the books\<close>

abbreviation without :: "string \<Rightarrow> (string \<times> string) set \<Rightarrow> (string \<times> string) set" where
  "without wid Y \<equiv> {e \<in> Y. fst e \<noteq> wid}"

lemma set_active_account [accounts]:
  "triple (account w X Y) (set_active wid a) (\<lambda>_. account w X (insert (wid, ae_execution_id a) (without wid Y))) E"
  by (auto simp: triple_def set_active_def modify_def account_def ledger_def active_entries_insert btree.put_ok)

lemma remove_active_account [accounts]:
  "triple (account w X Y) (remove_active wid) (\<lambda>_. account w X (without wid Y)) E"
  by (auto simp: triple_def remove_active_def modify_def account_def ledger_def active_entries_remove btree_remove_ok)

lemma bump_account [accounts]: "triple (account w X Y) bump (\<lambda>_. account w X Y) E"
  by (simp add: triple_def bump_def modify_def account_def ledger_def)

lemma set_last_outcome_account [accounts]:
  "triple (account w X Y) (set_last_outcome wid outcome) (\<lambda>_. account w X Y) E"
  by (auto simp: triple_def set_last_outcome_def modify_def account_def ledger_def btree.put_ok split: option.split)

lemma open_rows_keys: "open_rows db \<subseteq> row_keys db"
  by (auto simp: open_rows_def row_keys_def)

lemma send_effect_account:
  assumes "\<And>wid i. e = ExecutionSpawned wid i \<Longrightarrow> (wid, i) \<in> X"
  shows "triple (account w X Y) (send_effect e) (\<lambda>_. account w X Y) E"
  using assms open_rows_keys
  by (fastforce simp: triple_def send_effect_def modify_def account_def ledger_def spawned_ok_def)

lemma remove_version_pin_account [accounts]:
  "triple (account w X Y) (remove_version_pin c) (\<lambda>_. account w X Y) E"
  using send_effect_account [of "PinRemoved (ec_version_pin c)"]
  by (simp add: remove_version_pin_def triple_return)

section \<open>Triples of the statements\<close>

lemma triple_db_update:
  assumes "\<And>s e. P s \<Longrightarrow> f (mg_database s) = Inl e \<Longrightarrow> E s"
    and "\<And>s db x. P s \<Longrightarrow> f (mg_database s) = Inr (db, x) \<Longrightarrow> Q x (s\<lparr>mg_database := db\<rparr>)"
  shows "triple P (db_update f) Q E"
  using assms
  by (auto simp: triple_def db_update_def process_defs split: sum.split prod.split)

lemma triple_attempt_db_update:
  assumes "\<And>s e. P s \<Longrightarrow> f (mg_database s) = Inl e \<Longrightarrow> Q (Inl (StorageFailed e)) s"
    and "\<And>s db x. P s \<Longrightarrow> f (mg_database s) = Inr (db, x) \<Longrightarrow> Q (Inr x) (s\<lparr>mg_database := db\<rparr>)"
  shows "triple P (attempt_of (db_update f)) Q E"
  using assms
  by (auto simp: triple_def db_update_def process_defs split: sum.split prod.split)

lemma triple_db_query:
  assumes "\<And>s e. P s \<Longrightarrow> f (mg_database s) = Inl e \<Longrightarrow> E s"
    and "\<And>s x. P s \<Longrightarrow> f (mg_database s) = Inr x \<Longrightarrow> Q x s"
  shows "triple P (db_query f) Q E"
  unfolding triple_def
proof (intro allI impI)
  fix s
  assume "P s"
  then show "case db_query f s of (Done x, s') \<Rightarrow> Q x s' | (Failed e, s') \<Rightarrow> E s' | (Pending, s') \<Rightarrow> E s'"
    using assms by (cases "f (mg_database s)") (auto simp: db_query_def process_defs)
qed

lemma account_database:
  assumes "account w X Y m" and "db_ok db" and "snapshots_ok w db"
    and "row_keys (mg_database m) \<subseteq> row_keys db"
  shows "account w (open_rows db) Y (m\<lparr>mg_database := db\<rparr>)"
  using assms by (simp add: account_def ledger_def spawned_ok_grow)

lemma account_db: "account w X Y m \<Longrightarrow> db_ok (mg_database m) \<and> snapshots_ok w (mg_database m)"
  by (simp add: account_def ledger_def)

lemma finish_execution_account [accounts]:
  assumes "se_ended_unix_ms e \<noteq> 0"
  shows "triple (account w X Y) (db_update (\<lambda>db. Inr (finish_execution db e, ())))
    (\<lambda>_. account w {k \<in> X. snd k \<noteq> se_id e} Y) E"
proof (rule triple_db_update)
  fix s db and x :: unit
  assume s: "account w X Y s" and "Inr (finish_execution (mg_database s) e, ()) = (Inr (db, x) :: storage_error + database \<times> unit)"
  then have db: "db = finish_execution (mg_database s) e" by simp
  have "open_rows db = {k \<in> X. snd k \<noteq> se_id e}"
    using s assms by (simp add: db finish_execution_def open_rows_update_ended row_key_def account_def)
  moreover have "account w (open_rows db) Y (s\<lparr>mg_database := db\<rparr>)"
    using account_db [OF s] unfolding db
    by (intro account_database [OF s] finish_execution_ok)
      (auto simp: finish_execution_def row_key_def snapshots_ok_update)
  ultimately show "account w {k \<in> X. snd k \<noteq> se_id e} Y (s\<lparr>mg_database := db\<rparr>)" by simp
qed simp

lemma set_execution_supervisor_account [accounts]:
  "triple (account w X Y) (db_update (\<lambda>db. Inr (set_execution_supervisor db i supervisor, ())))
    (\<lambda>_. account w X Y) E"
proof (rule triple_db_update)
  fix s db and x :: unit
  assume s: "account w X Y s"
    and "Inr (set_execution_supervisor (mg_database s) i supervisor, ()) = (Inr (db, x) :: storage_error + database \<times> unit)"
  then have db: "db = set_execution_supervisor (mg_database s) i supervisor" by simp
  have "open_rows db = X"
    using s by (simp add: db set_execution_supervisor_def open_rows_update_same row_key_def account_def)
  moreover have "account w (open_rows db) Y (s\<lparr>mg_database := db\<rparr>)"
    using account_db [OF s] unfolding db set_execution_supervisor_def
    by (intro account_database [OF s] db_ok_update_execution)
      (auto simp: row_key_def snapshots_ok_update row_ok_def)
  ultimately show "account w X Y (s\<lparr>mg_database := db\<rparr>)" by simp
qed simp

lemma insert_execution_books:
  assumes "insert_execution db e = Inr db'"
  shows "open_rows db' = insert (se_workload_id e, se_id e) (open_rows db)" and "row_keys db \<subseteq> row_keys db'"
    and "snapshots_ok w db \<Longrightarrow> mw_decode w (se_snapshot e) = Inr c \<Longrightarrow> snapshots_ok w db'"
proof -
  obtain row where row: "db_executions db' = db_executions db @ [row]" "er_ended_unix_ms row = 0"
      "row_key row = (se_workload_id e, se_id e)" "er_snapshot row = se_snapshot e"
    using assms by (simp add: insert_execution_def row_key_def split: if_split_asm) fastforce
  have "{r \<in> set (db_executions db'). er_ended_unix_ms r = 0} = insert row {r \<in> set (db_executions db). er_ended_unix_ms r = 0}"
    using row by auto
  then show "open_rows db' = insert (se_workload_id e, se_id e) (open_rows db)"
    using row by (simp add: open_rows_def)
  show "row_keys db \<subseteq> row_keys db'" using row by (auto simp: row_keys_def)
  show "snapshots_ok w db'" if "snapshots_ok w db" and "mw_decode w (se_snapshot e) = Inr c"
    using that row by (auto simp: snapshots_ok_def)
qed

text \<open>The rows of one execution, and the result of reading it.\<close>

lemma read_execution_sel:
  "read_execution r = Inr e \<Longrightarrow>
   se_id e = er_id r \<and> se_workload_id e = er_workload_id r \<and> se_snapshot e = er_snapshot r \<and>
   se_started_unix_ms e = er_started_unix_ms r"
  by (auto simp: read_execution_def rust_result)

definition stored_in :: "manager_world \<Rightarrow> database \<Rightarrow> string \<Rightarrow> stored_execution \<Rightarrow> bool" where
  "stored_in w db i e \<longleftrightarrow> se_id e = i \<and> (se_workload_id e, i) \<in> row_keys db \<and> (\<exists>c. mw_decode w (se_snapshot e) = Inr c)"

lemma get_execution_stored:
  assumes "get_execution db i = Inr (Some e)" and "snapshots_ok w db"
  shows "stored_in w db i e"
proof -
  obtain r where r: "execution_row_of db i = Some r" "read_execution r = Inr e"
    using assms(1) by (cases "execution_row_of db i") (auto simp: get_execution_def rust_result)
  then show ?thesis
    using read_execution_sel [OF r(2)] execution_row_of_id [OF r(1)] assms(2)
    by (fastforce simp: stored_in_def row_keys_def row_key_def snapshots_ok_def)
qed

lemma get_execution_present:
  assumes "(wid, i) \<in> row_keys db" and "db_ok db"
  shows "\<exists>e. get_execution db i = Inr (Some e)"
proof -
  obtain q where "q \<in> set (db_executions db)" "er_id q = i"
    using assms(1) by (auto simp: row_keys_def row_key_def)
  then obtain r where r: "execution_row_of db i = Some r"
    by (cases "execution_row_of db i") (auto simp: execution_row_of_def find_None_iff)
  then have "row_ok r" using assms(2) execution_row_of_id [OF r] by (auto simp: db_ok_def list_all_iff)
  then show ?thesis using read_execution_ok r by (fastforce simp: get_execution_def)
qed

lemma row_keys_one: "(wid, i) \<in> row_keys db \<Longrightarrow> (wid', i) \<in> row_keys db \<Longrightarrow> db_ok db \<Longrightarrow> wid = wid'"
proof -
  assume "(wid, i) \<in> row_keys db" "(wid', i) \<in> row_keys db" and ok: "db_ok db"
  then obtain r r' where "r \<in> set (db_executions db)" "r' \<in> set (db_executions db)" "er_id r = i" "er_id r' = i"
      "er_workload_id r = wid" "er_workload_id r' = wid'"
    by (auto simp: row_keys_def row_key_def)
  moreover have "inj_on er_id (set (db_executions db))" using ok by (simp add: db_ok_def distinct_map)
  ultimately show "wid = wid'" by (metis inj_onD)
qed

lemma stored_of_account [accounts]:
  "triple (account w X Y) (stored_of i) (\<lambda>e s. account w X Y s \<and> stored_in w (mg_database s) i e) (account w X Y)"
  unfolding stored_of_def
proof (rule triple_bind)
  show "triple (account w X Y) (db_query (\<lambda>db. get_execution db i))
      (\<lambda>found s. account w X Y s \<and> (case found of None \<Rightarrow> True | Some e \<Rightarrow> stored_in w (mg_database s) i e))
      (account w X Y)"
    by (rule triple_db_query) (auto dest: account_db get_execution_stored split: option.split)
next
  fix found
  show "triple (\<lambda>s. account w X Y s \<and> (case found of None \<Rightarrow> True | Some e \<Rightarrow> stored_in w (mg_database s) i e))
      (lift_result (ok_or (NotFound i) found)) (\<lambda>e s. account w X Y s \<and> stored_in w (mg_database s) i e)
      (account w X Y)"
    by (cases found) (auto simp: triple_def process_defs)
qed

lemma lift_result_account [accounts]: "triple P (lift_result r) (\<lambda>x s. P s \<and> r = Inr x) P"
  by (cases r) (simp_all add: triple_def process_defs)

lemma decode_snapshot_account [accounts]:
  "triple P (decode_snapshot w bytes) (\<lambda>c s. P s \<and> mw_decode w bytes = Inr c) P"
  by (cases "mw_decode w bytes") (simp_all add: decode_snapshot_def triple_def process_defs)

section \<open>Ending the entry of an execution\<close>

lemma account_books: "account w X X m \<Longrightarrow> books w m"
  by (simp add: account_def books_def)

lemma triple_books:
  assumes "\<And>X. triple (account w X X) m Q E"
  shows "triple (books w) m Q E"
  using assms by (fastforce simp: triple_def books_def account_def)

lemma account_active:
  "account w X Y m \<Longrightarrow> (wid, i) \<in> Y \<longleftrightarrow> (\<exists>a. map_of (mg_active m) wid = Some a \<and> ae_execution_id a = i)"
  by (auto simp: account_def active_entries_def)

lemma account_entry:
  assumes "account w X X m" and "(wid, i) \<in> X"
  shows "without wid X = {k \<in> X. snd k \<noteq> i}"
proof -
  have rows: "k \<in> row_keys (mg_database m)" if "k \<in> X" for k
    using that assms(1) open_rows_keys by (auto simp: account_def)
  have "fst k = wid \<longleftrightarrow> snd k = i" if k: "k \<in> X" for k
  proof
    assume "fst k = wid"
    then show "snd k = i"
      using assms k active_entries_one [of wid "snd k" "mg_active m" i] by (cases k) (auto simp: account_def)
  next
    assume "snd k = i"
    then show "fst k = wid"
      using row_keys_one [of "fst k" i "mg_database m" wid] rows [OF k] rows [OF assms(2)] account_db [OF assms(1)]
      by (cases k) auto
  qed
  then show ?thesis by auto
qed

lemma account_no_entry:
  assumes "account w X X m" and "(wid, i) \<in> row_keys (mg_database m)" and "(wid, i) \<notin> X"
  shows "{k \<in> X. snd k \<noteq> i} = X"
proof -
  have "snd k \<noteq> i" if k: "k \<in> X" for k
  proof
    assume i: "snd k = i"
    have "k \<in> row_keys (mg_database m)" using assms(1) k open_rows_keys by (auto simp: account_def)
    then have "fst k = wid"
      using row_keys_one [of "fst k" i "mg_database m" wid] assms(2) account_db [OF assms(1)] i by (cases k) auto
    then show False using assms(3) k i by (cases k) auto
  qed
  then show ?thesis by auto
qed

end
