(* ===== verification/Manager_Invariant.thy ===== *)
theory Manager_Invariant
  imports Manager_Books
begin

text \<open>
  Every operation of the manager keeps its books, those that fail included.
\<close>

section \<open>Starting an execution\<close>

lemma prepare_account: "triple P (prepare_execution_build w i c) (\<lambda>_. P) P"
  by (auto simp: triple_def prepare_execution_build_def process_defs Let_def split: sum.split)

lemma system_time_account: "triple P (system_time i) (\<lambda>_. P) P"
  by (cases "mi_time i") (simp_all add: system_time_def triple_def process_defs)

lemma insert_account:
  assumes "decodes w" and "(wid, eid) \<notin> X" and "se_workload_id e = wid" and "se_id e = eid"
    and "se_snapshot e = encode_configuration (mw_encoder w) c"
  shows "triple (account w X (insert (wid, eid) X))
    (attempt_of (insert_row e session))
    (\<lambda>inserted s. account w (case inserted of Inr True \<Rightarrow> insert (wid, eid) X | _ \<Rightarrow> X) (insert (wid, eid) X) s) E"
  unfolding insert_row_def
proof (rule triple_attempt_db_update)
  fix s db inserted
  assume s: "account w X (insert (wid, eid) X) s"
    and f: "(case session of
       Some s' \<Rightarrow> insert_enabled_job_execution (mg_database s) e s'
     | None \<Rightarrow> and_then (insert_execution (mg_database s) e) (\<lambda>db. Inr (db, True))) = Inr (db, inserted)"
  obtain d where d: "mw_decode w (se_snapshot e) = Inr d" using assms(1,5) by (auto simp: decodes_def)
  show "account w (case Inr inserted of Inr True \<Rightarrow> insert (wid, eid) X | _ \<Rightarrow> X) (insert (wid, eid) X)
      (s\<lparr>mg_database := db\<rparr>)"
  proof (cases inserted)
    case False
    then have "db = mg_database s"
      using f by (auto simp: insert_enabled_job_execution_def rust_result Let_def split: option.splits if_split_asm)
    then show ?thesis using s False by simp
  next
    case True
    obtain db0 where db0: "insert_execution db0 e = Inr db" "open_rows db0 = X"
        "row_keys db0 = row_keys (mg_database s)" "snapshots_ok w db0" "db_ok db0"
    proof (cases session)
      case None
      then show ?thesis using that [of "mg_database s"] f s account_db [OF s]
        by (auto simp: rust_result account_def)
    next
      case (Some s')
      then show ?thesis
        using that [of "update_workloads (claims_session (se_workload_id e) s')
            (\<lambda>r. r\<lparr>wr_last_triggered_session := s'\<rparr>) (mg_database s)"] f s account_db [OF s] True
        by (auto simp: insert_enabled_job_execution_def rust_result Let_def account_def
            dest!: db_ok_update_workloads [of "mg_database s" "\<lambda>r. r\<lparr>wr_last_triggered_session := s'\<rparr>"
              "claims_session (se_workload_id e) s'"] split: if_split_asm)
    qed
    have "account w (open_rows db) (insert (wid, eid) X) (s\<lparr>mg_database := db\<rparr>)"
      using insert_execution_books [OF db0(1)] db0 d
      by (intro account_database [OF s]) (auto intro: insert_execution_ok)
    then show ?thesis using insert_execution_books(1) [OF db0(1)] db0(2) assms(3,4) True by simp
  qed
qed simp_all

lemma conclude_start_account:
  assumes "\<And>i. (wid, i) \<notin> X"
  shows "triple (account w (case inserted of Inr True \<Rightarrow> insert (wid, eid) X | _ \<Rightarrow> X) (insert (wid, eid) X))
    (conclude_start wid r c eid inserted) (\<lambda>_. books w) (books w)"
proof -
  have without: "without wid (insert (wid, eid) X) = X" using assms by auto
  have undo: "triple (account w X (insert (wid, eid) X))
      (bind (remove_active wid) (\<lambda>_. bind (remove_version_pin c) (\<lambda>_. m))) (\<lambda>_. books w) (books w)"
    if "triple (account w X X) m (\<lambda>_. books w) (books w)" for m :: "(bool \<times> workload) mg"
    by (rule triple_bind_unit [OF remove_active_account], unfold without)
      (rule triple_bind_unit [OF remove_version_pin_account that])
  show ?thesis
  proof (cases inserted)
    case (Inl e)
    then show ?thesis by (simp add: undo triple_fail account_books)
  next
    case (Inr b)
    show ?thesis
    proof (cases b)
      case True
      have "triple (account w (insert (wid, eid) X) (insert (wid, eid) X)) (conclude_start wid r c eid (Inr True))
          (\<lambda>_. books w) (books w)"
        unfolding conclude_start.simps
        by (rule triple_bind_unit [OF bump_account], rule triple_bind_any,
            rule triple_bind_unit [OF send_effect_account]) (auto intro: triple_return account_books)
      then show ?thesis by (simp add: Inr True)
    next
      case False
      then show ?thesis using Inr by (simp add: undo triple_return account_books)
    qed
  qed
qed

lemma allocate_account:
  assumes "decodes w" and fresh: "\<And>i. (wid, i) \<notin> X"
  shows "triple (account w X X) (allocate w i wid r c session) (\<lambda>_. books w) (books w)"
  unfolding allocate_def Let_def
proof (intro triple_bind [where R = "\<lambda>_. account w X X"])
  show "triple (account w X X) (prepare_execution_build w i c) (\<lambda>_. account w X X) (books w)" for c
    by (rule triple_conseq [OF prepare_account [of "account w X X"]]) (auto intro: account_books)
  show "triple (account w X X) (system_time i) (\<lambda>_. account w X X) (books w)"
    by (rule triple_conseq [OF system_time_account [of "account w X X"]]) (auto intro: account_books)
next
  fix c started
  let ?Y = "insert (wid, mi_uuid i) X"
  have X: "without wid X = X" using fresh by auto
  have set: "triple (account w X X) (set_active wid (new_active w (mi_uuid i) c)) (\<lambda>_. account w X ?Y) (books w)"
    using set_active_account [of w X X wid "new_active w (mi_uuid i) c" "books w"]
    by (simp add: X) (simp add: new_active_def)
  have insert: "triple (account w X ?Y)
      (attempt_of (insert_row (new_execution w (mi_uuid i) wid started c) session))
      (\<lambda>inserted. account w (case inserted of Inr True \<Rightarrow> ?Y | _ \<Rightarrow> X) ?Y) (books w)"
    by (rule insert_account [OF assms(1) fresh]) (simp_all add: new_execution_def)
  show "triple (account w X X) (allocate_with w (mi_uuid i) wid r session c started) (\<lambda>_. books w) (books w)"
    unfolding allocate_with_def
    by (rule triple_bind_unit [OF set], rule triple_bind [OF insert]) (rule conclude_start_account [OF fresh])
qed

section \<open>Operations that keep the books\<close>

text \<open>An operation keeps the books, whether it returns or fails.\<close>

abbreviation keeps_books :: "manager_world \<Rightarrow> 'a mg \<Rightarrow> bool" where
  "keeps_books w m \<equiv> triple (books w) m (\<lambda>_. books w) (books w)"

lemma keeps_ret: "keeps_books w (ret x)" and keeps_throw: "keeps_books w (throw e)"
  by (simp_all add: triple_return triple_fail)

lemma keeps_attempt: "keeps_books w m \<Longrightarrow> keeps_books w (attempt_of m)"
  by (rule triple_attempt_of)

lemma keeps_bind: "keeps_books w m \<Longrightarrow> (\<And>x. keeps_books w (f x)) \<Longrightarrow> keeps_books w (bind m f)"
  by (rule triple_bind)

text \<open>An operation that leaves the entries \<open>X\<close> what they are.\<close>

abbreviation holds :: "manager_world \<Rightarrow> (string \<times> string) set \<Rightarrow> 'a mg \<Rightarrow> bool" where
  "holds w X m \<equiv> triple (account w X X) m (\<lambda>_. account w X X) (account w X X)"

lemma keeps_holds:
  assumes "\<And>X. holds w X m"
  shows "keeps_books w m"
  by (rule triple_books, rule triple_conseq [OF assms]) (auto intro: account_books)

lemma holds_ret: "holds w X (ret x)" and holds_throw: "holds w X (throw e)" and holds_pending: "holds w X pending"
  by (simp_all add: triple_return triple_fail triple_wait)

lemma holds_bind: "holds w X m \<Longrightarrow> (\<And>x. holds w X (f x)) \<Longrightarrow> holds w X (bind m f)"
  by (rule triple_bind)

lemma holds_gets: "holds w X (gets f)"
  by (simp add: triple_def gets_def)

lemma holds_attempt: "holds w X m \<Longrightarrow> holds w X (attempt_of m)"
  by (rule triple_attempt_of)

lemma holds_lift_result: "holds w X (lift_result r)"
  by (cases r) (simp_all add: lift_result_def holds_ret holds_throw)

lemma holds_set_active:
  assumes "(wid, ae_execution_id a) \<in> X"
  shows "holds w X (set_active wid a)"
proof (cases "\<exists>m. account w X X m")
  case True
  then have "insert (wid, ae_execution_id a) (without wid X) = X"
    using assms account_active [of w X X _ wid] by auto
  then show ?thesis using set_active_account [of w X X wid a "account w X X"] by simp
qed (simp add: triple_def)

lemma holds_command: "holds w X (send_effect (CommandSent i kind payload))"
  and holds_spec: "holds w X (send_effect (SpecWritten path c))"
  and holds_launched: "holds w X (send_effect (SupervisorLaunched i process))"
  and holds_stop_written: "holds w X (send_effect (StopWritten i))"
  and holds_backoff: "holds w X (send_effect (SupervisorBackoff d))"
  by (rule send_effect_account; simp)+

lemma holds_stored_of: "holds w X (stored_of i)"
  by (rule triple_conseq [OF stored_of_account [of w X X i]]) auto

lemma holds_decode: "holds w X (decode_snapshot w bytes)"
  by (rule triple_conseq [OF decode_snapshot_account [of "account w X X"]]) auto

text \<open>The rules that decompose an operation, and those that end there.\<close>

lemmas decompose = triple_read triple_cond triple_option triple_sum holds_bind holds_ret holds_throw holds_pending
  holds_gets holds_attempt holds_lift_result holds_command holds_spec holds_launched holds_stop_written
  holds_backoff holds_stored_of holds_decode system_time_account bump_account set_last_outcome_account
  remove_version_pin_account set_execution_supervisor_account

lemma start_books:
  assumes "decodes w"
  shows "keeps_books w (start w i wid kind exclusive session)"
proof (rule triple_books)
  fix X
  have failed: "triple (account w X X) (throw e) (\<lambda>_. books w) (books w)" for e
    by (rule triple_fail) (rule account_books)
  have kind: "triple (account w X X) (lift_result (ensure_kind wid r kind)) (\<lambda>_. account w X X) (books w)" for r
    by (rule triple_conseq [OF holds_lift_result]) (auto intro: account_books)
  show "triple (account w X X) (start w i wid kind exclusive session) (\<lambda>_. books w) (books w)"
    unfolding start_def
  proof (intro triple_read triple_cond triple_option triple_bind_unit [OF kind] failed)
    show "triple (account w X X) (ret x) (\<lambda>_. books w) (books w)" for x :: "bool \<times> workload"
      by (rule triple_return) (rule account_books)
    show "triple (account w X X) (allocate w i wid r c session) (\<lambda>_. books w) (books w)"
      if "account w X X m" and "map_of (mg_active m) wid = None" for m r c
      by (rule allocate_account [OF assms]) (use account_active [OF that(1)] that(2) in simp)
  qed
qed

lemma start_replacement_books: "decodes w \<Longrightarrow> keeps_books w (start_replacement w i wid)"
  unfolding start_replacement_def
  by (rule triple_bind_any)
    (simp add: keeps_ret keeps_bind keeps_attempt start_service_def run_job_def start_books)

lemma start_all_books: "(\<And>wid. keeps_books w (f wid)) \<Longrightarrow> keeps_books w (start_all f wids)"
  by (induction wids) (simp_all add: keeps_ret keeps_bind keeps_attempt)

lemma start_enabled_books: "decodes w \<Longrightarrow> keeps_books w (start_enabled w i)"
  unfolding start_enabled_def
  by (intro triple_bind_any keeps_bind start_all_books triple_option triple_cond keeps_ret)
    (auto simp: start_service_def start_books)

section \<open>Updates that keep the entries\<close>

lemma cancel_holds: "holds w X (cancel wid kind again)"
  unfolding cancel_def Let_def
  by (intro decompose holds_set_active) (simp add: account_active)

lemma account_found:
  assumes "account w X Y m" and "active_by_execution i m = Some (wid, a)"
  shows "map_of (mg_active m) wid = Some a \<and> ae_execution_id a = i"
proof -
  have "(wid, a) \<in> set (mg_active m)" "ae_execution_id a = i"
    using assms(2) nth_mem by (fastforce simp: active_by_execution_def find_Some_iff)+
  moreover have "distinct (map fst (mg_active m))"
    using assms(1) by (simp add: account_def ledger_def btree_ok_distinct)
  ultimately show ?thesis by simp
qed

lemma account_found_entry:
  "account w X X m \<Longrightarrow> active_by_execution i m = Some (wid, a) \<Longrightarrow> (wid, ae_execution_id a) \<in> X"
  using account_found by (simp add: account_active)

lemma disconnected_holds: "holds w X (supervisor_disconnected eid attachment)"
  unfolding supervisor_disconnected_def
  by (rule triple_observe, intro triple_option triple_cond holds_ret)
    (auto intro!: decompose holds_set_active dest: account_found_entry split: prod.split)

lemma attach_holds: "holds w X (attach_supervisor w i eid wid session config_hash process)"
  unfolding attach_supervisor_def Let_def
  by (intro decompose holds_set_active) (auto simp: account_active)

lemma holds_statement:
  assumes "\<And>db db' x. db_ok db \<Longrightarrow> f db = Inr (db', x) \<Longrightarrow>
      db_ok db' \<and> row_keys db' = row_keys db \<and> open_rows db' = open_rows db \<and>
      (snapshots_ok w db \<longrightarrow> snapshots_ok w db')"
  shows "holds w X (db_update f)"
proof (rule triple_db_update)
  fix s db x
  assume s: "account w X X s" and f: "f (mg_database s) = Inr (db, x)"
  then show "account w X X (s\<lparr>mg_database := db\<rparr>)"
    using account_database [OF s, of db] assms [OF _ f] account_db [OF s] by (simp add: account_def)
qed

lemma holds_modify:
  assumes "\<And>m. account w X X m \<Longrightarrow> account w X X (f m)"
  shows "holds w X (modify f)"
  using assms by (simp add: triple_def modify_def)

lemma set_enabled_statement:
  "db_ok db \<Longrightarrow> db_ok (fst (set_enabled db wid enabled)) \<and>
   row_keys (fst (set_enabled db wid enabled)) = row_keys db \<and>
   open_rows (fst (set_enabled db wid enabled)) = open_rows db \<and>
   snapshots_ok w (fst (set_enabled db wid enabled)) = snapshots_ok w db"
  by (simp add: set_enabled_def db_ok_update_workloads)

lemma set_enabled_holds: "holds w X (set_enabled_workload wid enabled)"
  unfolding set_enabled_workload_def Let_def
proof (intro decompose holds_statement holds_modify)
  fix db db' x
  assume "db_ok db" and "Inr (set_enabled db wid enabled) = (Inr (db', x) :: storage_error + database \<times> bool)"
  then show "db_ok db' \<and> row_keys db' = row_keys db \<and> open_rows db' = open_rows db \<and>
      (snapshots_ok w db \<longrightarrow> snapshots_ok w db')"
    using set_enabled_statement [of db wid enabled w] by simp
qed (auto simp: account_def ledger_def btree.put_ok)

lemma end_session_holds: "holds w X end_session"
  unfolding end_session_def
proof (intro triple_read triple_cond holds_bind holds_ret bump_account holds_modify)
  fix m
  assume m: "account w X X m"
  have "active_entries (map (\<lambda>(wid, a). (wid, ending_active a)) (mg_active m)) = active_entries (mg_active m)"
    by (rule active_entries_map) (simp add: ending_active_def)
  moreover have "btree_ok (map (\<lambda>(wid, a). (wid, ending_active a)) (mg_active m)) = btree_ok (mg_active m)"
    by (rule btree_ok_map_values)
  ultimately show "account w X X (m\<lparr>mg_session_ending := True,
           mg_active := map (\<lambda>(wid, a). (wid, ending_active a)) (mg_active m),
           mg_effects := mg_effects m @
             map (\<lambda>(_, a). CommandSent (ae_execution_id a) ''session-ending'' []) (mg_active m)\<rparr>)"
    using m by (auto simp: account_def ledger_def spawned_ok_def)
qed

lemma spawned_holds: "holds w X (supervisor_spawned wid eid process)"
  unfolding supervisor_spawned_def
  by (intro holds_bind holds_attempt set_execution_supervisor_account triple_observe triple_option triple_cond holds_ret
      holds_set_active bump_account) (auto simp: account_active)

lemma run_supervisors_holds: "holds w X (run_supervisors wid eid c failures supervisor turns)"
proof (induction turns arbitrary: failures supervisor)
  case (Cons t turns)
  show ?case
    unfolding run_supervisors.simps wait_for_supervisor_def Let_def
    by (intro decompose spawned_holds Cons.IH)
qed (simp add: holds_pending)

lemma run_execution_holds: "holds w X (run_execution w wid eid c directory written turns)"
  unfolding run_execution_def Let_def by (intro decompose run_supervisors_holds)

section \<open>The end of an execution\<close>

definition timely :: "manager_input \<Rightarrow> bool" where
  "timely i \<longleftrightarrow> (\<exists>t. 0 < t \<and> mi_time i = Some t)"

abbreviation ending :: "(string \<times> string) set \<Rightarrow> string \<Rightarrow> (string \<times> string) set" where
  "ending X eid \<equiv> {k \<in> X. snd k \<noteq> eid}"

text \<open>Facts about the rows that no later step of the end changes.\<close>

definition has_row :: "string \<Rightarrow> string \<Rightarrow> manager \<Rightarrow> bool" where
  "has_row wid eid m \<longleftrightarrow> (wid, eid) \<in> row_keys (mg_database m)"

lemma finish_row_account:
  assumes "ended \<noteq> 0"
  shows "triple (\<lambda>m. account w X Y m \<and> has_row wid eid m) (finish_row eid ended finish)
    (\<lambda>_. account w (ending X eid) Y) E"
  unfolding finish_row_def
proof (rule triple_bind)
  show "triple (\<lambda>m. account w X Y m \<and> has_row wid eid m)
      (attempt_of (db_query (\<lambda>db. get_execution db eid)))
      (\<lambda>found m. account w X Y m \<and> (\<exists>e. found = Inr (Some e) \<and> se_id e = eid)) E"
    unfolding triple_def
  proof (intro allI impI)
    fix m
    assume m: "account w X Y m \<and> has_row wid eid m"
    then obtain e where e: "get_execution (mg_database m) eid = Inr (Some e)"
      using get_execution_present [of wid eid "mg_database m"] account_db [of w X Y m] by (auto simp: has_row_def)
    moreover have "se_id e = eid"
      using get_execution_stored [OF e, of w] account_db [of w X Y m] m by (simp add: stored_in_def)
    ultimately show "case attempt_of (db_query (\<lambda>db. get_execution db eid)) m of
        (Done x, s') \<Rightarrow> account w X Y s' \<and> (\<exists>e. x = Inr (Some e) \<and> se_id e = eid)
      | (Failed e, s') \<Rightarrow> E s' | (Pending, s') \<Rightarrow> E s'"
      using m by (simp add: db_query_def process_defs)
  qed
next
  fix found :: "manager_error + stored_execution option"
  show "triple (\<lambda>m. account w X Y m \<and> (\<exists>e. found = Inr (Some e) \<and> se_id e = eid))
      (case found of
         Inr (Some e) \<Rightarrow> db_update (\<lambda>db. Inr (finish_execution db (e\<lparr>se_state := ef_state finish,
           se_supervisor_process_id := ef_supervisor_process_id finish, se_workload_process_id := 0,
           se_ended_unix_ms := ended, se_exit_code := ef_exit_code finish, se_error := ef_error finish\<rparr>), ()))
       | _ \<Rightarrow> ret ()) (\<lambda>_. account w (ending X eid) Y) E"
  proof (rule triple_prem)
    assume "\<exists>e. found = Inr (Some e) \<and> se_id e = eid"
    then obtain e where e: "found = Inr (Some e)" "se_id e = eid" by blast
    show "triple (account w X Y)
      (case found of
         Inr (Some e) \<Rightarrow> db_update (\<lambda>db. Inr (finish_execution db (e\<lparr>se_state := ef_state finish,
           se_supervisor_process_id := ef_supervisor_process_id finish, se_workload_process_id := 0,
           se_ended_unix_ms := ended, se_exit_code := ef_exit_code finish, se_error := ef_error finish\<rparr>), ()))
       | _ \<Rightarrow> ret ()) (\<lambda>_. account w (ending X eid) Y) E"
      using finish_execution_account [of "e\<lparr>se_state := ef_state finish,
           se_supervisor_process_id := ef_supervisor_process_id finish, se_workload_process_id := 0,
           se_ended_unix_ms := ended, se_exit_code := ef_exit_code finish, se_error := ef_error finish\<rparr>" w X Y E] assms
      by (simp add: e)
  qed
qed

lemma drop_pin_account: "triple (account w X Y) (drop_pin w eid) (\<lambda>_. account w X Y) E"
proof -
  have "triple (account w X Y) (attempt_of (db_query (\<lambda>db. get_execution db eid))) (\<lambda>_. account w X Y) E"
    by (auto simp: triple_def db_query_def process_defs split: prod.split outcome.split sum.split)
  moreover have "triple (account w X Y) (case found of
         Inr (Some e) \<Rightarrow> (case mw_decode w (se_snapshot e) of Inr c \<Rightarrow> remove_version_pin c | Inl _ \<Rightarrow> ret ())
       | _ \<Rightarrow> ret ()) (\<lambda>_. account w X Y) E" for found :: "manager_error + stored_execution option"
    by (intro triple_sum triple_option remove_version_pin_account triple_return)
  ultimately show ?thesis unfolding drop_pin_def by (rule triple_bind)
qed

text \<open>
  The rows without \<open>(wid, eid)\<close>, the entries with it where it was one: what \<open>complete_execution\<close>
  finds when it takes the lock again.
\<close>

lemma release_account:
  assumes "decodes w" and "(wid, eid) \<in> X \<Longrightarrow> without wid X = ending X eid"
    and "(wid, eid) \<notin> X \<Longrightarrow> ending X eid = X"
  shows "triple (account w (ending X eid) X) (release_execution w i wid eid outcome) (\<lambda>_. books w) (books w)"
  unfolding release_execution_def
proof (rule triple_read, rule triple_bind_unit)
  fix m
  assume m: "account w (ending X eid) X m"
  have owns: "owns m wid eid \<longleftrightarrow> (wid, eid) \<in> X"
    using account_active [OF m, of wid eid] by (auto simp: owns_def split: option.split)
  show "triple (account w (ending X eid) X) (if owns m wid eid then remove_active wid else ret ())
      (\<lambda>_. account w (ending X eid) (ending X eid)) (books w)"
    using remove_active_account [of w "ending X eid" X wid] assms(2,3)
    by (cases "owns m wid eid") (simp_all add: owns triple_return)
next
  fix m
  have "triple (account w (ending X eid) (ending X eid))
      (if owns m wid eid \<and> restarts_after m wid then start_replacement w i wid else ret ()) (\<lambda>_. books w) (books w)"
    by (intro triple_cond triple_pre [OF start_replacement_books [OF assms(1)]] triple_return account_books)
  then show "triple (account w (ending X eid) (ending X eid)) (bind (set_last_outcome wid outcome) (\<lambda>_.
     bind bump (\<lambda>_. if owns m wid eid \<and> restarts_after m wid then start_replacement w i wid else ret ())))
     (\<lambda>_. books w) (books w)"
    by (rule triple_bind_unit [OF set_last_outcome_account triple_bind_unit [OF bump_account]])
qed

lemma complete_books:
  assumes "decodes w" and "timely i"
  shows "triple (\<lambda>m. books w m \<and> has_row wid eid m) (complete_execution w i wid eid started finish)
    (\<lambda>_. books w) (books w)"
proof -
  obtain t where t: "mi_time i = Some t" "t \<noteq> 0" using assms(2) by (auto simp: timely_def)
  have "triple (\<lambda>m. account w X X m \<and> has_row wid eid m) (complete_execution w i wid eid started finish)
      (\<lambda>_. books w) (books w)" for X
  proof (cases "\<exists>m. account w X X m \<and> has_row wid eid m")
    case True
    then obtain m where m: "account w X X m" "(wid, eid) \<in> row_keys (mg_database m)"
      by (auto simp: has_row_def)
    note X = account_entry [OF m(1)] account_no_entry [OF m]
    show ?thesis
      unfolding complete_execution_def Let_def t(1) option.case
      by (rule triple_bind_unit [OF finish_row_account [OF t(2)] triple_bind_unit [OF drop_pin_account]])
        (rule release_account [OF assms(1) X])
  next
    case False
    then show ?thesis unfolding triple_def by blast
  qed
  then show ?thesis by (fastforce simp: triple_def books_def account_def)
qed

text \<open>An adopted execution that ended.\<close>

lemma terminate_books:
  assumes "decodes w" and "timely i" and "without (se_workload_id stored) X = ending X (se_id stored)"
  shows "triple (account w X X) (terminate_active w i stored c a restart outcome code error) (\<lambda>_. books w) (books w)"
proof -
  obtain t where t: "mi_time i = Some t" "t \<noteq> 0" using assms(2) by (auto simp: timely_def)
  let ?Y = "without (se_workload_id stored) X"
  have time: "triple (account w X ?Y) (system_time i) (\<lambda>x m. account w X ?Y m \<and> x = t) E" for E
    using t by (simp add: system_time_def triple_def process_defs)
  have finish: "triple (account w X ?Y) (db_update (\<lambda>db. Inr (finish_execution db (stored\<lparr>se_state := name,
        se_workload_process_id := 0, se_ended_unix_ms := t, se_exit_code := code, se_error := error\<rparr>), ())))
      (\<lambda>_. account w ?Y ?Y) E" for name E
    using finish_execution_account [of "stored\<lparr>se_state := name, se_workload_process_id := 0,
      se_ended_unix_ms := t, se_exit_code := code, se_error := error\<rparr>" w X ?Y E] t(2) assms(3) by simp
  have last: "triple (account w ?Y ?Y)
      (if restart then start_replacement w i (se_workload_id stored) else ret ()) (\<lambda>_. books w) (books w)"
    by (intro triple_cond triple_pre [OF start_replacement_books [OF assms(1)]] triple_return account_books)
  show ?thesis
    unfolding terminate_active_def Let_def
    by (rule triple_bind_unit [OF remove_active_account triple_bind_unit [OF set_last_outcome_account
        triple_bind_unit [OF bump_account triple_bind [OF time triple_prem]]]], simp only:,
        rule triple_bind_unit [OF finish triple_bind_unit [OF remove_version_pin_account last]])
qed

lemma terminal_books:
  assumes "decodes w" and "timely i"
  shows "keeps_books w (supervisor_terminal w i eid outcome code error)"
proof (rule triple_books)
  fix X
  have kept: "triple (account w X X) (ret x) (\<lambda>_. books w) (books w)" for x :: unit
    by (rule triple_return) (rule account_books)
  show "triple (account w X X) (supervisor_terminal w i eid outcome code error) (\<lambda>_. books w) (books w)"
    unfolding supervisor_terminal_def
  proof (rule triple_bind [where R = "\<lambda>e m. account w X X m \<and> se_id e = eid"])
    show "triple (account w X X) (stored_of eid) (\<lambda>e m. account w X X m \<and> se_id e = eid) (books w)"
      by (rule triple_conseq [OF stored_of_account [of w X X]]) (auto simp: stored_in_def account_books)
  next
    fix stored
    show "triple (\<lambda>m. account w X X m \<and> se_id stored = eid) (bind (decode_snapshot w (se_snapshot stored)) (\<lambda>c.
     bind (gets (\<lambda>m. m)) (\<lambda>m.
       case map_of (mg_active m) (se_workload_id stored) of
         None \<Rightarrow> ret ()
       | Some a \<Rightarrow>
           if ae_execution_id a \<noteq> eid \<or> ae_locally_owned a then ret ()
           else terminate_active w i stored c a (restarts_after m (se_workload_id stored)) outcome code error)))
      (\<lambda>_. books w) (books w)"
    proof (rule triple_prem, rule triple_bind [where R = "\<lambda>_. account w X X"])
      show "triple (account w X X) (decode_snapshot w (se_snapshot stored)) (\<lambda>_. account w X X) (books w)"
        by (rule triple_conseq [OF holds_decode]) (auto intro: account_books)
    next
      fix c
      assume "se_id stored = eid"
      then show "triple (account w X X) (bind (gets (\<lambda>m. m)) (\<lambda>m.
       case map_of (mg_active m) (se_workload_id stored) of
         None \<Rightarrow> ret ()
       | Some a \<Rightarrow>
           if ae_execution_id a \<noteq> eid \<or> ae_locally_owned a then ret ()
           else terminate_active w i stored c a (restarts_after m (se_workload_id stored)) outcome code error))
        (\<lambda>_. books w) (books w)"
        by (intro triple_read triple_option triple_cond kept terminate_books assms account_entry)
          (auto simp: account_active)
    qed
  qed
qed

section \<open>Observations\<close>

lemma commit_statement:
  assumes "commit_observation db eid sequence update = Inr (db', done_now)" and "db_ok db" and "snapshots_ok w db"
  shows "db_ok db' \<and> snapshots_ok w db' \<and> row_keys db' = row_keys db \<and>
    open_rows db' = (case update of
      TerminalUpdate t \<Rightarrow> if done_now \<and> to_ended_unix_ms t \<noteq> 0 then ending (open_rows db) eid else open_rows db'
    | _ \<Rightarrow> open_rows db)"
  using assms(1)
proof (cases rule: commit_observation_cases)
  case duplicate
  then show ?thesis using assms(2,3) by (simp split: observation_update.split)
next
  case (applied row)
  have "snapshots_ok w db'" "row_keys db' = row_keys db"
    using applied assms(3)
    by (cases update; auto simp: Let_def row_key_def intro!: snapshots_ok_update split: option.split)+
  moreover have "open_rows db' = (case update of
      TerminalUpdate t \<Rightarrow> if done_now \<and> to_ended_unix_ms t \<noteq> 0 then ending (open_rows db) eid else open_rows db'
    | _ \<Rightarrow> open_rows db)"
    using applied
    by (cases update) (simp_all add: Let_def open_rows_update_same open_rows_update_ended row_key_def)
  ultimately show ?thesis using commit_observation_ok [OF assms(1,2)] by blast
qed

lemma commit_account:
  assumes "timely i"
  shows "triple (account w X X)
    (db_update (\<lambda>db. commit_observation db eid sequence (observation_update_of i stored terminalized ob)))
    (\<lambda>committed. account w (if committed \<and> terminalized then ending X eid else X) X) (account w X X)"
proof (rule triple_db_update)
  fix m db committed
  let ?u = "observation_update_of i stored terminalized ob"
  assume m: "account w X X m" and f: "commit_observation (mg_database m) eid sequence ?u = Inr (db, committed)"
  note facts = commit_statement [OF f, of w] account_db [OF m]
  have "open_rows db = (if committed \<and> terminalized then ending X eid else X)"
  proof (cases committed)
    case True
    show ?thesis using True facts assms m
      by (auto simp: observation_update_of_def timely_def account_def split: option.splits if_split_asm)
  next
    case False
    then have "db = mg_database m" using commit_observation_cases [OF f] by blast
    then show ?thesis using False m by (simp add: account_def)
  qed
  moreover have "account w (open_rows db) X (m\<lparr>mg_database := db\<rparr>)"
    using facts by (intro account_database [OF m]) simp_all
  ultimately show "account w (if committed \<and> terminalized then ending X eid else X) X (m\<lparr>mg_database := db\<rparr>)"
    by simp
qed

lemma observed_terminal_books:
  assumes "decodes w" and "\<exists>c. mw_decode w (se_snapshot stored) = Inr c"
    and "(se_workload_id stored, eid) \<in> X" and "without (se_workload_id stored) X = ending X eid"
  shows "triple (account w (ending X eid) X) (observed_terminal w i stored eid kind) (\<lambda>_. books w) (books w)"
proof -
  obtain c where c: "mw_decode w (se_snapshot stored) = Inr c" using assms(2) by blast
  have decode: "triple P (decode_snapshot w (se_snapshot stored)) (\<lambda>_. P) E" for P E
    by (simp add: decode_snapshot_def c triple_def process_defs)
  have last: "triple (account w (ending X eid) (ending X eid))
      (if b then start_replacement w i (se_workload_id stored) else ret ()) (\<lambda>_. books w) (books w)" for b
    by (intro triple_cond triple_pre [OF start_replacement_books [OF assms(1)]] triple_return account_books)
  show ?thesis
    unfolding observed_terminal_def Let_def
  proof (rule triple_bind [OF decode triple_bind_unit [OF remove_version_pin_account]], rule triple_read,
      rule triple_cond)
    fix m
    show "triple (account w (ending X eid) X) (bind (remove_active (se_workload_id stored)) (\<lambda>_.
          bind (set_last_outcome (se_workload_id stored) kind) (\<lambda>_.
          bind bump (\<lambda>_. if restarts_after m (se_workload_id stored)
            then start_replacement w i (se_workload_id stored) else ret ())))) (\<lambda>_. books w) (books w)"
      by (rule triple_bind_unit, rule remove_active_account, unfold assms(4))
        (rule triple_bind_unit [OF set_last_outcome_account triple_bind_unit [OF bump_account last]])
  next
    fix m
    assume "account w (ending X eid) X m" and "\<not> owns m (se_workload_id stored) eid"
    then have False using assms(3) account_active [of w "ending X eid" X m "se_workload_id stored" eid]
      by (auto simp: owns_def)
    then show "triple (account w (ending X eid) X) (ret ()) (\<lambda>_. books w) (books w)" ..
  qed
qed

lemma observed_progress_holds: "holds w X (observed_progress wid eid ob)"
proof -
  have "ae_execution_id (fst (observed_active ob a)) = ae_execution_id a" for a
    by (simp add: observed_active_def Let_def split: option.split)
  then show ?thesis
    unfolding observed_progress_def
    by (intro decompose holds_set_active) (simp add: account_active)
qed

lemma observation_books:
  assumes "decodes w" and "timely i"
  shows "keeps_books w (record_supervisor_observation w i eid ob)"
proof (rule triple_books)
  fix X
  show "triple (account w X X) (record_supervisor_observation w i eid ob) (\<lambda>_. books w) (books w)"
    unfolding record_supervisor_observation_def Let_def
  proof (rule triple_bind [where R = "\<lambda>e m. account w X X m \<and> (se_id e = eid \<and> (\<exists>c. mw_decode w (se_snapshot e) = Inr c))"])
    show "triple (account w X X) (stored_of eid)
        (\<lambda>e m. account w X X m \<and> (se_id e = eid \<and> (\<exists>c. mw_decode w (se_snapshot e) = Inr c))) (books w)"
      by (rule triple_conseq [OF stored_of_account [of w X X]]) (auto simp: stored_in_def account_books)
  next
    fix stored :: stored_execution
    let ?wid = "se_workload_id stored"
    have commit: "triple (account w X X)
        (db_update (\<lambda>db. commit_observation db eid (so_sequence ob) (observation_update_of i stored b ob)))
        (\<lambda>committed. account w (if committed \<and> b then ending X eid else X) X) (books w)" for b
      by (rule triple_conseq [OF commit_account [OF assms(2)]]) (auto intro: account_books)
    show "triple (\<lambda>m. account w X X m \<and> (se_id stored = eid \<and> (\<exists>c. mw_decode w (se_snapshot stored) = Inr c)))
      (bind (gets (\<lambda>m. terminalizes m ?wid eid ob)) (\<lambda>terminalized.
       bind (db_update (\<lambda>db. commit_observation db eid (so_sequence ob)
         (observation_update_of i stored terminalized ob))) (\<lambda>committed.
       if committed \<and> terminalized then observed_terminal w i stored eid (so_kind ob)
       else if committed then observed_progress ?wid eid ob
       else ret ()))) (\<lambda>_. books w) (books w)"
    proof (rule triple_prem, rule triple_observe, rule triple_bind [OF commit])
      fix m committed
      assume stored: "se_id stored = eid \<and> (\<exists>c. mw_decode w (se_snapshot stored) = Inr c)"
        and m: "account w X X m"
      let ?b = "terminalizes m ?wid eid ob"
      have kept: "triple (account w X X) f (\<lambda>_. books w) (books w)" if "holds w X f" for f :: "unit mg"
        by (rule triple_conseq [OF that]) (auto intro: account_books)
      show "triple (account w (if committed \<and> ?b then ending X eid else X) X)
          (if committed \<and> ?b then observed_terminal w i stored eid (so_kind ob)
           else if committed then observed_progress ?wid eid ob else ret ()) (\<lambda>_. books w) (books w)"
      proof (cases "committed \<and> ?b")
        case True
        then have "(?wid, eid) \<in> X"
          using account_active [OF m, of ?wid eid] by (auto simp: terminalizes_def split: option.splits)
        with True stored account_entry [OF m] show ?thesis
          by (simp add: observed_terminal_books [OF assms(1)])
      next
        case False
        then show ?thesis using kept [OF observed_progress_holds] kept [OF holds_ret] by auto
      qed
    qed
  qed
qed

section \<open>Reloading\<close>

lemma insert_decoded_holds: "holds w X (insert_decoded w stored)"
proof (induction stored)
  case (Cons s stored)
  show ?case
    unfolding insert_decoded.simps
    by (intro decompose holds_modify Cons.IH) (simp add: account_def ledger_def btree.put_ok)
qed (simp add: holds_ret)

lemma reconcile_execution_id: "ae_execution_id (fst (reconcile_active enc d a)) = ae_execution_id a"
  by (simp add: reconcile_active_def Let_def split: option.split)

lemma reconcile_no_spawn: "ExecutionSpawned wid i \<notin> set (snd (snd (reconcile_active enc d a)))"
  by (auto simp: reconcile_active_def Let_def split: option.splits if_split_asm)

lemma account_replaced:
  assumes "account w X Y m" and "btree_ok t" and "\<And>wid i. ExecutionSpawned wid i \<notin> set effs"
  shows "account w X (active_entries t) (m\<lparr>mg_active := t, mg_effects := mg_effects m @ effs\<rparr>)"
  using assms by (simp add: account_def ledger_def spawned_ok_def)

lemma reconcile_holds: "holds w X (reconcile_reload w)"
  unfolding reconcile_reload_def
proof (intro triple_observe holds_bind holds_ret holds_modify)
  fix m n
  assume m: "account w X X m" and n: "account w X X n"
  let ?f = "\<lambda>wid a. reconcile_active (mw_encoder w) (Option.bind (map_of (mg_workloads m) wid) mr_definition) a"
  let ?t = "map (\<lambda>(wid, a). (wid, fst (?f wid a))) (mg_active m)"
  let ?effs = "concat (map (\<lambda>(_, r). snd (snd r)) (map (\<lambda>(wid, a). (wid, ?f wid a)) (mg_active m)))"
  have entries: "active_entries ?t = X"
    using m by (simp add: account_def active_entries_map reconcile_execution_id)
  have t: "map (\<lambda>(wid, r). (wid, fst r)) (map (\<lambda>(wid, a). (wid, ?f wid a)) (mg_active m)) = ?t"
    by (simp add: comp_def split_def)
  have ok: "btree_ok ?t" using m by (simp only: btree_ok_map_values) (simp add: account_def ledger_def)
  have "ExecutionSpawned wid i \<notin> set ?effs" for wid i
    by (simp add: split_def comp_def reconcile_no_spawn)
  from account_replaced [OF n ok this]
  show "account w X X (n\<lparr>mg_active := map (\<lambda>(wid, r). (wid, fst r)) (map (\<lambda>(wid, a). (wid, ?f wid a)) (mg_active m)),
       mg_effects := mg_effects n @ ?effs\<rparr>)"
    unfolding t entries .
qed

lemma reload_holds: "holds w X (reload w candidate)"
  unfolding reload_def Let_def
proof (intro decompose triple_observe holds_statement insert_decoded_holds reconcile_holds)
  fix db generation ds db' changed
  assume "db_ok db" and "replace_definitions db generation ds = Inr (db', changed)"
  then show "db_ok db' \<and> row_keys db' = row_keys db \<and> open_rows db' = open_rows db \<and>
      (snapshots_ok w db \<longrightarrow> snapshots_ok w db')"
    using replace_definitions_ok replace_definitions_executions
    by (auto simp: row_keys_def open_rows_def snapshots_ok_def)
qed

section \<open>Recovery\<close>

lemma monitor_books:
  assumes "decodes w" and "timely i"
  shows "keeps_books w (monitor_turn w i eid now result monitor)"
proof (cases result)
  case (Some r)
  then show ?thesis
    using terminal_books [OF assms]
    by (simp add: monitor_turn_def keeps_bind keeps_attempt keeps_ret)
next
  case None
  have spawn: "holds w X (send_effect (ExecutionSpawned wid eid))" if "(wid, eid) \<in> X" for X wid
    using that by (intro send_effect_account) simp
  have "holds w X (monitor_turn w i eid now None monitor)" for X
    unfolding monitor_turn_def Let_def option.case
    by (rule triple_observe, intro triple_option holds_ret)
      (auto intro!: triple_cond holds_bind holds_ret holds_set_active spawn
        dest: account_found account_found_entry split: prod.split)
  then show ?thesis using None keeps_holds by blast
qed

section \<open>Opening\<close>

text \<open>The books while the executions found are adopted one by one.\<close>

definition adopting :: "manager_world \<Rightarrow> stored_execution list \<Rightarrow> manager \<Rightarrow> bool" where
  "adopting w es m \<longleftrightarrow> ledger w m \<and>
     open_rows (mg_database m) = active_entries (mg_active m) \<union> (\<lambda>e. (se_workload_id e, se_id e)) ` set es \<and>
     distinct (map se_workload_id es) \<and> fst ` active_entries (mg_active m) \<inter> se_workload_id ` set es = {}"

lemma adopting_account:
  "adopting w es m \<longleftrightarrow> (\<exists>Y. account w (Y \<union> (\<lambda>e. (se_workload_id e, se_id e)) ` set es) Y m \<and>
     distinct (map se_workload_id es) \<and> fst ` Y \<inter> se_workload_id ` set es = {})"
  by (auto simp: adopting_def account_def)

lemma triple_exists:
  assumes "\<And>y. triple (P y) m Q E"
  shows "triple (\<lambda>s. \<exists>y. P y s) m Q E"
  unfolding triple_def by (intro allI impI, elim exE) (use assms in \<open>simp add: triple_def\<close>)

text \<open>The rows of the executions still to be adopted have no other entry.\<close>

lemma adopting_rows:
  assumes "account w (insert (wid, eid) X) Y m" and "wid \<notin> fst ` X"
  shows "ending (insert (wid, eid) X) eid = X"
proof -
  have "snd k \<noteq> eid" if k: "k \<in> X" for k
  proof
    assume i: "snd k = eid"
    have "k \<in> row_keys (mg_database m)" "(wid, eid) \<in> row_keys (mg_database m)"
      using assms(1) k open_rows_keys by (auto simp: account_def)
    then have "fst k = wid"
      using row_keys_one [of "fst k" eid "mg_database m" wid] account_db [OF assms(1)] i by (cases k) auto
    then show False using assms(2) k by force
  qed
  then show ?thesis by auto
qed

lemma adopt_one:
  assumes "\<And>t. time = Some t \<Longrightarrow> 0 < t"
  shows "triple (adopting w (e # es))
    (if stale then close_stale time e c else set_active (se_workload_id e) (adopted_execution enc e c))
    (\<lambda>_. adopting w es) (\<lambda>_. True)"
  unfolding adopting_account
proof (rule triple_exists, rule triple_cond)
  fix Y
  let ?K = "(\<lambda>e. (se_workload_id e, se_id e)) ` set es"
  let ?X = "Y \<union> (\<lambda>e. (se_workload_id e, se_id e)) ` set (e # es)"
  let ?pre = "\<lambda>m. account w ?X Y m \<and> (distinct (map se_workload_id (e # es)) \<and>
      fst ` Y \<inter> se_workload_id ` set (e # es) = {})"
  have X: "?X = insert (se_workload_id e, se_id e) (Y \<union> ?K)" by auto
  show "triple ?pre (close_stale time e c) (\<lambda>_ m. \<exists>Y. account w (Y \<union> ?K) Y m \<and>
      distinct (map se_workload_id es) \<and> fst ` Y \<inter> se_workload_id ` set es = {}) (\<lambda>_. True)"
  proof (rule triple_prem, cases "time = None \<or> \<not> (\<exists>m. account w ?X Y m)")
    case True
    then show "triple (account w ?X Y) (close_stale time e c) (\<lambda>_ m. \<exists>Y. account w (Y \<union> ?K) Y m \<and>
      distinct (map se_workload_id es) \<and> fst ` Y \<inter> se_workload_id ` set es = {}) (\<lambda>_. True)"
      by (auto simp: triple_def close_stale_def process_defs)
  next
    case False
    assume facts: "distinct (map se_workload_id (e # es)) \<and> fst ` Y \<inter> se_workload_id ` set (e # es) = {}"
    obtain t where t: "time = Some t" "t \<noteq> 0" using False assms by fastforce
    obtain m where m: "account w ?X Y m" using False by blast
    have "se_workload_id e \<notin> fst ` (Y \<union> ?K)" using facts by (auto simp: image_iff)
    then have ending: "ending ?X (se_id e) = Y \<union> ?K"
      using adopting_rows [OF m [unfolded X]] unfolding X by blast
    have finish: "triple (account w ?X Y) (db_update (\<lambda>db. Inr (finish_execution db (e\<lparr>se_state := stale_outcome c,
       se_supervisor_process_id := 0, se_workload_process_id := 0, se_ended_unix_ms := t,
       se_exit_code := None, se_error := ''execution belonged to an ended manager session''\<rparr>), ())))
       (\<lambda>_. account w (Y \<union> ?K) Y) (\<lambda>_. True)"
      using finish_execution_account [of "e\<lparr>se_state := stale_outcome c,
       se_supervisor_process_id := 0, se_workload_process_id := 0, se_ended_unix_ms := t,
       se_exit_code := None, se_error := ''execution belonged to an ended manager session''\<rparr>" w ?X Y "\<lambda>_. True"] t(2) ending
      by simp
    have "triple (account w ?X Y) (close_stale time e c) (\<lambda>_. account w (Y \<union> ?K) Y) (\<lambda>_. True)"
      unfolding close_stale_def t(1)
      by (rule triple_bind [where R = "\<lambda>ended m. account w ?X Y m \<and> ended = t"], simp add: triple_def process_defs,
          rule triple_prem, simp only:,
          rule triple_bind_unit [OF finish triple_bind_unit [OF set_last_outcome_account remove_version_pin_account]])
    then show "triple (account w ?X Y) (close_stale time e c) (\<lambda>_ m. \<exists>Y. account w (Y \<union> ?K) Y m \<and>
      distinct (map se_workload_id es) \<and> fst ` Y \<inter> se_workload_id ` set es = {}) (\<lambda>_. True)"
      using facts by (fastforce elim!: triple_weaken)
  qed
  show "triple ?pre (set_active (se_workload_id e) (adopted_execution enc e c)) (\<lambda>_ m. \<exists>Y. account w (Y \<union> ?K) Y m \<and>
      distinct (map se_workload_id es) \<and> fst ` Y \<inter> se_workload_id ` set es = {}) (\<lambda>_. True)"
  proof (rule triple_prem)
    assume facts: "distinct (map se_workload_id (e # es)) \<and> fst ` Y \<inter> se_workload_id ` set (e # es) = {}"
    let ?Y = "insert (se_workload_id e, se_id e) Y"
    have "without (se_workload_id e) Y = Y" using facts by (auto simp: image_iff)
    then have set: "triple (account w ?X Y) (set_active (se_workload_id e) (adopted_execution enc e c))
        (\<lambda>_. account w ?X ?Y) (\<lambda>_. True)"
      using set_active_account [of w ?X Y "se_workload_id e" "adopted_execution enc e c" "\<lambda>_. True"]
      by (simp add: adopted_execution_def)
    have XY: "?X = ?Y \<union> ?K" by auto
    have "distinct (map se_workload_id es)" "fst ` ?Y \<inter> se_workload_id ` set es = {}" using facts by auto
    then show "triple (account w ?X Y) (set_active (se_workload_id e) (adopted_execution enc e c))
      (\<lambda>_ m. \<exists>Y. account w (Y \<union> ?K) Y m \<and>
      distinct (map se_workload_id es) \<and> fst ` Y \<inter> se_workload_id ` set es = {}) (\<lambda>_. True)"
      by (intro triple_weaken [OF set [unfolded XY]]) (auto simp only: XY intro!: exI [of _ ?Y])
  qed
qed

lemma adopt_executions_books:
  assumes "\<And>i t. time i = Some t \<Longrightarrow> 0 < t"
  shows "triple (adopting w es) (adopt_executions w time es) (\<lambda>_. books w) (\<lambda>_. True)"
proof (induction es)
  case Nil
  show ?case by (auto simp: triple_def process_defs adopting_def books_def)
next
  case (Cons e es)
  have "triple (adopting w (e # es)) (decode_snapshot w (se_snapshot e)) (\<lambda>_. adopting w (e # es)) (\<lambda>_. True)"
    by (rule triple_conseq [OF decode_snapshot_account [of "adopting w (e # es)"]]) auto
  then show ?case
    unfolding adopt_executions.simps
    by (rule triple_bind) (rule triple_bind_unit [OF adopt_one [OF assms] Cons.IH])
qed

text \<open>The tables that a manager leaves behind, whenever its process ends.\<close>

definition tables_ok :: "manager_world \<Rightarrow> database \<Rightarrow> bool" where
  "tables_ok w db \<longleftrightarrow> db_ok db \<and> snapshots_ok w db \<and>
     (\<forall>wid i j. (wid, i) \<in> open_rows db \<longrightarrow> (wid, j) \<in> open_rows db \<longrightarrow> i = j)"

lemma books_tables: "books w m \<Longrightarrow> tables_ok w (mg_database m)"
  by (auto simp: books_def ledger_def tables_ok_def dest: active_entries_one)

lemma try_map_read: "try_map read_execution rows = Inr es \<Longrightarrow> map (\<lambda>e. (se_workload_id e, se_id e)) es = map row_key rows"
  by (induction rows arbitrary: es) (auto simp: rust_result row_key_def dest: read_execution_sel)

lemma load_active_rows:
  assumes "load_active_executions db = Inr es" and "tables_ok w db"
  shows "(\<lambda>e. (se_workload_id e, se_id e)) ` set es = open_rows db" and "distinct (map se_workload_id es)"
proof -
  let ?rows = "filter (\<lambda>r. er_ended_unix_ms r = 0) (db_executions db)"
  have keys: "map (\<lambda>e. (se_workload_id e, se_id e)) es = map row_key (sort_key er_started_unix_ms ?rows)"
    using assms(1) try_map_read by (simp add: load_active_executions_def)
  from arg_cong [OF this, of set] show "(\<lambda>e. (se_workload_id e, se_id e)) ` set es = open_rows db"
    by (simp add: open_rows_def)
  have ids: "inj_on er_id (set (db_executions db))" and distinct: "distinct (db_executions db)"
    using assms(2) by (simp_all add: tables_ok_def db_ok_def distinct_map)
  have "inj_on er_workload_id (set ?rows)"
  proof (rule inj_onI)
    fix r q
    assume r: "r \<in> set ?rows" and q: "q \<in> set ?rows" and "er_workload_id r = er_workload_id q"
    moreover from r q have "row_key r \<in> open_rows db" "row_key q \<in> open_rows db" by (auto simp: open_rows_def)
    ultimately have "er_id r = er_id q" using assms(2) by (fastforce simp: tables_ok_def row_key_def)
    then show "r = q" using ids r q by (auto dest: inj_onD)
  qed
  then have "distinct (map er_workload_id (sort_key er_started_unix_ms ?rows))"
    using distinct by (simp add: distinct_map)
  moreover have "map se_workload_id es = map er_workload_id (sort_key er_started_unix_ms ?rows)"
    using arg_cong [OF keys, of "map fst"] by (simp add: comp_def row_key_def)
  ultimately show "distinct (map se_workload_id es)" by simp
qed

lemma open_books:
  assumes "tables_ok w db" and "\<And>i t. time i = Some t \<Longrightarrow> 0 < t"
  shows "triple (\<lambda>m. m = unopened db) (manager_open w time) (\<lambda>_. books w) (\<lambda>_. True)"
proof -
  have start: "account w (open_rows db) {} (unopened db)"
    using assms(1) by (auto simp: account_def ledger_def unopened_def tables_ok_def active_entries_def spawned_ok_def)
  define P where "P m \<longleftrightarrow> account w (open_rows db) {} m \<and> mg_database m = db" for m
  have decoded: "triple P (insert_decoded w stored) (\<lambda>_. P) (\<lambda>_. True)" for stored
  proof (induction stored)
    case Nil
    show ?case by (simp add: triple_return)
  next
    case (Cons s stored)
    have one: "triple P (case sw_definition s of None \<Rightarrow> ret None
        | Some bytes \<Rightarrow> bind (decode_snapshot w bytes) (\<lambda>c. ret (Some c))) (\<lambda>_. P) (\<lambda>_. True)"
      by (cases "sw_definition s")
        (auto simp: triple_def process_defs decode_snapshot_def split: sum.split prod.split outcome.split)
    have two: "triple P (modify (\<lambda>m. m\<lparr>mg_workloads := btree_insert k r (mg_workloads m)\<rparr>)) (\<lambda>_. P) (\<lambda>_. True)" for k r
      by (auto simp: triple_def modify_def P_def account_def ledger_def btree.put_ok)
    show ?case
      unfolding insert_decoded.simps by (rule triple_bind [OF one triple_bind_unit [OF two Cons.IH]])
  qed
  have load: "triple P (db_query load_active_executions) (\<lambda>es. adopting w es) (\<lambda>_. True)"
  proof (rule triple_db_query)
    fix m es
    assume m: "P m" and es: "load_active_executions (mg_database m) = Inr es"
    then have "load_active_executions db = Inr es" by (simp add: P_def)
    from load_active_rows [OF this assms(1)] m show "adopting w es m"
      by (auto simp: adopting_account P_def intro!: exI [of _ "{}"])
  qed simp
  show ?thesis
    unfolding manager_open_def
    by (rule triple_pre [where P' = P], rule triple_bind_any,
        rule triple_bind_unit [OF decoded triple_bind [OF load adopt_executions_books [OF assms(2)]]])
      (use start in \<open>simp_all add: P_def unopened_def\<close>)
qed

section \<open>Runs of the controller\<close>

text \<open>What may be asked of a manager, each operation with the inputs it reads.\<close>

datatype manager_op =
    StartService manager_input string
  | RunJob manager_input string
  | StopService string
  | CancelJob string
  | RestartService string
  | RerunJob manager_input string
  | SetWorkloadEnabled string bool
  | StartEnabled "string \<Rightarrow> manager_input"
  | EndSession
  | SupervisorAttached manager_input string string string "u8 list" u32
  | SupervisorDisconnected string string
  | SupervisorObserved manager_input string supervisor_observation
  | SupervisorTerminated manager_input string string "u32 option" string
  | ReloadConfiguration "string + candidate_config"
  | MonitorTurn manager_input string nat "attempt_result option" recovery_monitor
  | RunSupervisors string string execution_configuration "string option" "string option" "supervisor_turn list"
  | CompleteExecution manager_input string string int execution_finish

abbreviation ignoring :: "'a mg \<Rightarrow> unit mg" where
  "ignoring m \<equiv> bind (attempt_of m) (\<lambda>_. ret ())"

primrec perform :: "manager_world \<Rightarrow> manager_op \<Rightarrow> unit mg" where
  "perform w (StartService i wid) = ignoring (start_service w i wid)"
| "perform w (RunJob i wid) = ignoring (run_job w i wid)"
| "perform w (StopService wid) = ignoring (stop_service wid)"
| "perform w (CancelJob wid) = ignoring (cancel_job wid)"
| "perform w (RestartService wid) = ignoring (restart_service wid)"
| "perform w (RerunJob i wid) = ignoring (rerun_job w i wid)"
| "perform w (SetWorkloadEnabled wid enabled) = ignoring (set_enabled_workload wid enabled)"
| "perform w (StartEnabled i) = start_enabled w i"
| "perform w EndSession = end_session"
| "perform w (SupervisorAttached i eid wid session config_hash process) =
     ignoring (attach_supervisor w i eid wid session config_hash process)"
| "perform w (SupervisorDisconnected eid attachment) = supervisor_disconnected eid attachment"
| "perform w (SupervisorObserved i eid ob) = ignoring (record_supervisor_observation w i eid ob)"
| "perform w (SupervisorTerminated i eid outcome code error) = ignoring (supervisor_terminal w i eid outcome code error)"
| "perform w (ReloadConfiguration candidate) = ignoring (reload w candidate)"
| "perform w (MonitorTurn i eid now result monitor) = ignoring (monitor_turn w i eid now result monitor)"
| "perform w (RunSupervisors wid eid c directory written turns) = ignoring (run_execution w wid eid c directory written turns)"
| "perform w (CompleteExecution i wid eid started finish) = complete_execution w i wid eid started finish"

text \<open>
  The clock is after the epoch where the operation reads it; a task completes the execution it
  was spawned for.
\<close>

fun op_ok :: "manager \<Rightarrow> manager_op \<Rightarrow> bool" where
  "op_ok m (SupervisorObserved i eid ob) = timely i"
| "op_ok m (SupervisorTerminated i eid outcome code error) = timely i"
| "op_ok m (MonitorTurn i eid now result monitor) = timely i"
| "op_ok m (CompleteExecution i wid eid started finish) = (timely i \<and> ExecutionSpawned wid eid \<in> set (mg_effects m))"
| "op_ok m op = True"

fun completes :: "manager_op \<Rightarrow> bool" where
  "completes (CompleteExecution i wid eid started finish) = True"
| "completes op = False"

text \<open>A new manager process opens the tables; after an operation it may be gone.\<close>

inductive controller_run :: "manager_world \<Rightarrow> database \<Rightarrow> manager \<Rightarrow> bool" for w db where
  opened: "(\<And>i t. time i = Some t \<Longrightarrow> 0 < t) \<Longrightarrow> manager_open w time (unopened db) = (Done (), m) \<Longrightarrow>
    controller_run w db m"
| performed: "controller_run w db m \<Longrightarrow> op_ok m op \<Longrightarrow> controller_run w db (snd (perform w op m))"
| reopened: "controller_run w db m \<Longrightarrow> (\<And>i t. time i = Some t \<Longrightarrow> 0 < t) \<Longrightarrow>
    manager_open w time (unopened (mg_database m)) = (Done (), m') \<Longrightarrow> controller_run w db m'"

lemma rerun_books: "decodes w \<Longrightarrow> keeps_books w (rerun_job w i wid)"
  unfolding rerun_job_def
  by (rule triple_bind_any) (intro triple_cond start_books keeps_holds cancel_holds)

lemma perform_keeps:
  assumes "decodes w" and "op_ok m op" and "\<not> completes op"
  shows "keeps_books w (perform w op)"
proof -
  have ignore: "keeps_books w (ignoring f)" if "keeps_books w f" for f :: "'b mg"
    using that by (simp add: keeps_bind keeps_attempt keeps_ret)
  have start: "keeps_books w (ignoring (start w i wid kind exclusive session))" for i wid kind exclusive session
    by (rule ignore) (rule start_books [OF assms(1)])
  have cancel: "keeps_books w (ignoring (cancel wid kind again))" for wid kind again
    by (rule ignore) (rule keeps_holds [OF cancel_holds])
  show ?thesis
    using assms(2,3)
    by (cases op)
      (simp_all add: start_service_def run_job_def stop_service_def cancel_job_def restart_service_def start cancel
        ignore rerun_books assms(1) start_enabled_books keeps_holds [OF end_session_holds]
        keeps_holds [OF attach_holds] keeps_holds [OF disconnected_holds] observation_books terminal_books
        keeps_holds [OF reload_holds] monitor_books keeps_holds [OF run_execution_holds]
        keeps_holds [OF set_enabled_holds])
qed

lemma perform_books:
  assumes "decodes w" and "op_ok m op" and "books w m"
  shows "books w (snd (perform w op m))"
proof (cases "completes op")
  case True
  then obtain i wid eid started finish where op: "op = CompleteExecution i wid eid started finish"
    by (cases op) auto
  then have "timely i" and "books w m \<and> has_row wid eid m"
    using assms(2,3) by (auto simp: books_def ledger_def spawned_ok_def has_row_def)
  then show ?thesis
    unfolding op perform.simps by (intro triple_state [OF complete_books [OF assms(1)]])
next
  case False
  then show ?thesis
    by (intro triple_state [OF perform_keeps [OF assms(1,2)] assms(3)]) auto
qed

end
