(* ===== verification/Manager_Properties.thy ===== *)
theory Manager_Properties
  imports Manager_Invariant
begin

text \<open>
  What the manager promises: its books balance across restarts of the controller, an ended
  session starts nothing, and the supervisors of an execution are launched within a budget.
  It also states where the manager departs from the documented control states.
\<close>

section \<open>The supervisors of an execution\<close>

lemma supervisor_retry_delay_capped:
  assumes "1 \<le> n" and "n \<le> 32"
  shows "unat (supervisor_retry_delay (word_of_nat n)) = min (100 * 2 ^ (n - 1)) 5000"
proof -
  have n: "unat (word_of_nat n :: u32) = n" using assms by (intro unat_word_of_nat_small) simp
  have e: "unat (min (saturating_sub (word_of_nat n :: u32) 1) 31) = n - 1"
  proof -
    have "unat (saturating_sub (word_of_nat n :: u32) 1) = n - 1" by (simp add: unat_saturating_sub n)
    moreover have "unat (min a b) = min (unat a) (unat b)" for a b :: u32
      by (simp add: min_def word_le_nat_alt)
    ultimately show ?thesis using assms by simp
  qed
  have pow: "unat (2 ^ (n - Suc 0) :: u64) = 2 ^ (n - Suc 0)"
  proof -
    have "(2::nat) ^ (n - 1) \<le> 2 ^ 31" using assms by (intro power_increasing) simp_all
    then have "(2::nat) ^ (n - 1) < 2 ^ LENGTH(64)" by (rule le_less_trans) simp
    from unat_word_of_nat_small [OF this] show ?thesis by simp
  qed
  have "unat (min a b) = min (unat a) (unat b)" for a b :: u64
    by (simp add: min_def word_le_nat_alt)
  then show ?thesis
    unfolding supervisor_retry_delay_def Let_def e
    by (simp add: unat_saturating_mul pow min.assoc)
qed

text \<open>The delay after the \<open>n\<close>-th failure; the manager stops at the eighth.\<close>

definition supervisor_delay_at :: "nat \<Rightarrow> nat" where
  "supervisor_delay_at n = unat (supervisor_retry_delay (word_of_nat (min n 32)))"

interpretation manager_backoff: backoff_schedule "\<lambda>_ :: unit. supervisor_delay_at" "\<lambda>_. True" "\<lambda>_. 100" "\<lambda>_. 5000"
proof
  fix n :: nat
  assume "1 \<le> n"
  then have n: "supervisor_delay_at n = min (100 * 2 ^ (min n 32 - 1)) 5000"
    unfolding supervisor_delay_at_def by (intro supervisor_retry_delay_capped) simp_all
  show "100 \<le> supervisor_delay_at n" "supervisor_delay_at n \<le> 5000" by (simp_all add: n)
next
  fix m n :: nat
  assume "1 \<le> m" and "m \<le> n"
  then have "supervisor_delay_at k = min (100 * 2 ^ (min k 32 - 1)) 5000" if "k = m \<or> k = n" for k
    unfolding supervisor_delay_at_def using that by (intro supervisor_retry_delay_capped) auto
  moreover have "(2::nat) ^ (min m 32 - 1) \<le> 2 ^ (min n 32 - 1)"
    using \<open>m \<le> n\<close> by (intro power_increasing) (auto simp: min_def)
  ultimately show "supervisor_delay_at m \<le> supervisor_delay_at n" by (simp add: min_le_iff_disj)
qed

fun is_launch :: "manager_effect \<Rightarrow> bool" where
  "is_launch (SupervisorLaunched eid process) = True"
| "is_launch _ = False"

fun backoff_of :: "manager_effect \<Rightarrow> nat option" where
  "backoff_of (SupervisorBackoff d) = Some (unat d)"
| "backoff_of _ = None"

definition launches :: "manager \<Rightarrow> nat" where
  "launches m = length (filter is_launch (mg_effects m))"

definition waits :: "manager \<Rightarrow> nat list" where
  "waits m = List.map_filter backoff_of (mg_effects m)"

lemma spawned_returns:
  "\<exists>m'. supervisor_spawned wid eid process m = (Done (), m') \<and> mg_effects m' = mg_effects m"
  by (cases "map_of (mg_active m) wid")
    (simp_all add: supervisor_spawned_def db_update_def set_active_def bump_def process_defs)

lemma after_failure_word: "unat f < 8 \<Longrightarrow> unat (saturating_add (f :: u32) 1) = unat f + 1"
  by (simp add: unat_saturating_add)

text \<open>What the loop adds to the effects of the manager, from \<open>f\<close> failures on.\<close>

definition within_budget :: "nat \<Rightarrow> nat \<Rightarrow> (manager_error, execution_finish) outcome \<Rightarrow> manager \<Rightarrow> manager \<Rightarrow> bool" where
  "within_budget f turns r m m' \<longleftrightarrow> launches m' \<le> launches m + (8 - f) \<and>
     (\<exists>k. k + f \<le> 7 \<and> waits m' = waits m @ map supervisor_delay_at [Suc f ..< Suc f + k]) \<and>
     (8 - f \<le> turns \<longrightarrow> (\<exists>finish. r = Done finish))"

lemma within_budget_stop:
  assumes "f \<le> 7" and "launches m' \<le> Suc (launches m)" and "waits m' = waits m"
  shows "within_budget f turns (Done finish) m m'"
  using assms by (auto simp: within_budget_def intro!: exI [of _ 0])

lemma within_budget_again:
  assumes "within_budget (Suc f) turns r m1 m'" and "launches m1 \<le> Suc (launches m)"
    and "waits m1 = waits m @ [supervisor_delay_at (Suc f)]"
  shows "within_budget f (Suc turns) r m m'"
proof -
  obtain k where k: "k + Suc f \<le> 7" "waits m' = waits m1 @ map supervisor_delay_at [Suc (Suc f) ..< Suc (Suc f) + k]"
    using assms(1) by (auto simp: within_budget_def)
  have "[Suc f ..< Suc f + Suc k] = Suc f # [Suc (Suc f) ..< Suc (Suc f) + k]"
    by (subst upt_rec) simp
  then have "waits m' = waits m @ map supervisor_delay_at [Suc f ..< Suc f + Suc k]" "Suc k + f \<le> 7"
    using k assms(3) by simp_all
  moreover have "launches m' \<le> launches m + (8 - f)" "8 - f \<le> Suc turns \<Longrightarrow> \<exists>finish. r = Done finish"
    using assms(1,2) k(1) by (auto simp: within_budget_def)
  ultimately show ?thesis unfolding within_budget_def by blast
qed

lemma wait_for_supervisor_budget:
  assumes "f \<le> 6" and "launches m1 \<le> Suc (launches m)" and "waits m1 = waits m"
    and "unat failures = Suc f"
    and "\<And>m2. within_budget (Suc f) turns (fst (again m2)) m2 (snd (again m2))"
  shows "within_budget f (Suc turns) (fst (wait_for_supervisor c p failures stop again m1)) m
    (snd (wait_for_supervisor c p failures stop again m1))"
proof (cases stop)
  case True
  then show ?thesis using within_budget_stop [of f m1 m] assms(1-3)
    by (simp add: wait_for_supervisor_def ret_def)
next
  case False
  let ?m2 = "m1\<lparr>mg_effects := mg_effects m1 @ [SupervisorBackoff (supervisor_retry_delay failures)]\<rparr>"
  have "failures = word_of_nat (Suc f)" using assms(4) by (simp flip: assms(4))
  then have "unat (supervisor_retry_delay failures) = supervisor_delay_at (Suc f)"
    using assms(1) by (simp add: supervisor_delay_at_def)
  then have "launches ?m2 \<le> Suc (launches m)" "waits ?m2 = waits m @ [supervisor_delay_at (Suc f)]"
    using assms(2,3) by (simp_all add: launches_def waits_def)
  from within_budget_again [OF assms(5) this] False show ?thesis
    by (simp add: wait_for_supervisor_def send_effect_def process_defs)
qed

lemma run_supervisors_budget:
  assumes "unat f \<le> 7"
  shows "within_budget (unat f) (length turns) (fst (run_supervisors wid eid c f p turns m)) m
    (snd (run_supervisors wid eid c f p turns m))"
  using assms
proof (induction turns arbitrary: f p m)
  case Nil
  then show ?case by (auto simp: within_budget_def pending_def intro!: exI [of _ 0])
next
  case (Cons t turns)
  let ?g = "saturating_add f 1"
  have g: "unat ?g = Suc (unat f)" using after_failure_word [of f] Cons.prems by simp
  have budget: "supervisor_budget \<le> ?g \<longleftrightarrow> unat f = 7"
    using g Cons.prems by (auto simp: supervisor_budget_def word_le_nat_alt)
  have again: "within_budget (unat f) (Suc (length turns))
      (fst (wait_for_supervisor c q ?g stop (run_supervisors wid eid c ?g q turns) m1)) m
      (snd (wait_for_supervisor c q ?g stop (run_supervisors wid eid c ?g q turns) m1))"
    if "unat f \<noteq> 7" and "launches m1 \<le> Suc (launches m)" and "waits m1 = waits m" for q stop m1
  proof (rule wait_for_supervisor_budget [OF _ that(2,3) g])
    show "unat f \<le> 6" using that(1) Cons.prems by simp
    then show "within_budget (Suc (unat f)) (length turns) (fst (run_supervisors wid eid c ?g q turns m2)) m2
        (snd (run_supervisors wid eid c ?g q turns m2))" for m2
      using Cons.IH [of ?g q m2] g by simp
  qed
  have stop: "within_budget (unat f) (Suc (length turns)) (Done finish) m m1"
    if "launches m1 \<le> Suc (launches m)" and "waits m1 = waits m" for finish m1
    by (rule within_budget_stop [OF Cons.prems that])
  have stop7: "within_budget 7 (Suc (length turns)) (Done finish) m m1"
    if "unat f = 7" and "launches m1 \<le> Suc (launches m)" and "waits m1 = waits m" for finish m1
    using stop that by simp
  show ?case
  proof (cases "su_cancelled t")
    case True
    then show ?thesis by (simp add: ret_def stop)
  next
    case False
    show ?thesis
    proof (cases "su_spawned t")
      case (Inl error)
      then show ?thesis using False budget by (simp add: ret_def stop stop7 again Let_def)
    next
      case (Inr q)
      obtain m1 where m1: "supervisor_spawned wid eid q (m\<lparr>mg_effects := mg_effects m @ [SupervisorLaunched eid q]\<rparr>) = (Done (), m1)"
          "mg_effects m1 = mg_effects m @ [SupervisorLaunched eid q]"
        using spawned_returns [of wid eid q "m\<lparr>mg_effects := mg_effects m @ [SupervisorLaunched eid q]\<rparr>"] by auto
      let ?m2 = "m1\<lparr>mg_effects := mg_effects m1 @ [StopWritten eid]\<rparr>"
      have facts: "launches m1 \<le> Suc (launches m)" "waits m1 = waits m"
          "launches ?m2 \<le> Suc (launches m)" "waits ?m2 = waits m"
        using m1(2) by (simp_all add: launches_def waits_def)
      show ?thesis
        using False Inr budget facts
        by (cases "su_stopped t"; cases "su_result t")
          (simp_all add: bind_def send_effect_def modify_def m1(1) ret_def stop stop7 again Let_def)
    qed
  qed
qed

section \<open>An ended session\<close>

text \<open>An operation keeps \<open>P\<close>, wherever it stops.\<close>

abbreviation stays :: "('s \<Rightarrow> bool) \<Rightarrow> ('s, 'e, 'a) process \<Rightarrow> bool" where
  "stays P m \<equiv> triple P m (\<lambda>_. P) P"

lemma stays_basic: "stays P (ret x)" "stays P (throw e)" "stays P pending" "stays P (gets f)"
  by (simp_all add: triple_def process_defs)

lemma stays_bind: "stays P m \<Longrightarrow> (\<And>x. stays P (f x)) \<Longrightarrow> stays P (bind m f)"
  by (rule triple_bind)

lemma stays_attempt: "stays P m \<Longrightarrow> stays P (attempt_of m)"
  by (rule triple_attempt_of)

lemma stays_lift_result: "stays P (lift_result r)"
  by (cases r) (simp_all add: lift_result_def stays_basic)

lemma stays_modify: "(\<And>s. P s \<Longrightarrow> P (f s)) \<Longrightarrow> stays P (modify f)"
  by (simp add: triple_def modify_def)

lemma stays_system_time: "stays P (system_time i)"
  by (simp add: system_time_def stays_lift_result)

lemma stays_decode: "stays P (decode_snapshot w bytes)"
  by (simp add: decode_snapshot_def stays_lift_result)

lemma stays_query: "stays P (db_query f)"
  by (simp add: db_query_def stays_bind stays_basic stays_lift_result)

lemma stays_stored_of: "stays P (stored_of i)"
  by (simp add: stored_of_def stays_bind stays_query stays_lift_result)

lemmas stays_rules = triple_read triple_cond triple_option triple_sum stays_bind stays_basic stays_attempt
  stays_lift_result stays_system_time stays_decode stays_query stays_stored_of

definition sealed :: "(string \<times> string) set \<Rightarrow> manager \<Rightarrow> bool" where
  "sealed K m \<longleftrightarrow> mg_session_ending m \<and> row_keys (mg_database m) = K"

lemma sealed_steps:
  "stays (sealed K) (set_active wid a)" "stays (sealed K) (remove_active wid)" "stays (sealed K) bump"
  "stays (sealed K) (set_last_outcome wid outcome)" "stays (sealed K) (send_effect e)"
  "stays (sealed K) (remove_version_pin c)"
  by (auto simp: triple_def set_active_def remove_active_def bump_def set_last_outcome_def send_effect_def
      remove_version_pin_def process_defs sealed_def split: option.split)

lemma sealed_statement:
  assumes "\<And>db db' x. f db = Inr (db', x) \<Longrightarrow> row_keys db' = row_keys db"
  shows "stays (sealed K) (db_update f)"
  using assms by (intro triple_db_update) (auto simp: sealed_def)

lemma sealed_finish: "stays (sealed K) (db_update (\<lambda>db. Inr (finish_execution db e, ())))"
  by (rule sealed_statement) (auto simp: finish_execution_def row_key_def)

lemma sealed_supervisor: "stays (sealed K) (db_update (\<lambda>db. Inr (set_execution_supervisor db i p, ())))"
  by (rule sealed_statement) (auto simp: set_execution_supervisor_def row_key_def)

lemma sealed_enabled: "stays (sealed K) (db_update (\<lambda>db. Inr (set_enabled db wid enabled)))"
  by (rule sealed_statement) (auto simp: set_enabled_def)

lemma sealed_commit: "stays (sealed K) (db_update (\<lambda>db. commit_observation db i n update))"
proof (rule sealed_statement)
  fix db db' x
  assume "commit_observation db i n update = Inr (db', x)"
  moreover have "row_keys (apply_update i k update db) = row_keys db" for k
    by (cases update) (simp_all add: Let_def row_key_def)
  ultimately show "row_keys db' = row_keys db"
    by (cases rule: commit_observation_cases) simp_all
qed

lemma sealed_definitions: "stays (sealed K) (db_update (\<lambda>db. replace_definitions db generation ds))"
  by (rule sealed_statement) (auto dest: replace_definitions_executions simp: row_keys_def)

lemma sealed_start: "stays (sealed K) (start w i wid kind exclusive session)"
  unfolding start_def
proof (rule triple_read)
  fix m
  assume "sealed K m"
  then have ending: "mg_session_ending m" by (simp add: sealed_def)
  show "stays (sealed K) (if mg_session_ending m then throw SessionEnding
       else
         (case map_of (mg_workloads m) wid of
            None \<Rightarrow> throw (NotFound wid)
          | Some r \<Rightarrow>
              bind (lift_result (ensure_kind wid r kind)) (\<lambda>_.
                case mr_definition r of
                  None \<Rightarrow> throw (DefinitionMissing wid)
                | Some c \<Rightarrow>
                    (case map_of (mg_active m) wid of
                       Some a \<Rightarrow>
                         if exclusive then throw (AlreadyActive wid)
                         else ret (False, workload_view wid r (Some a))
                     | None \<Rightarrow> allocate w i wid r c session))))"
    by (simp only: ending if_True stays_basic)
qed

lemma sealed_all: "(\<And>wid. stays (sealed K) (f wid)) \<Longrightarrow> stays (sealed K) (start_all f wids)"
  by (induction wids) (simp_all add: stays_rules)

lemma sealed_decoded: "stays (sealed K) (insert_decoded w stored)"
proof (induction stored)
  case (Cons s stored)
  show ?case
    unfolding insert_decoded.simps by (intro stays_rules stays_modify Cons.IH) (simp add: sealed_def)
qed (simp add: stays_basic)

lemma sealed_replacement: "stays (sealed K) (start_replacement w i wid)"
  unfolding start_replacement_def start_service_def run_job_def
  by (rule triple_bind_any) (intro stays_rules sealed_start)

lemma sealed_cancel: "stays (sealed K) (cancel wid kind again)"
  unfolding cancel_def Let_def by (intro stays_rules sealed_steps)

lemma sealed_complete: "stays (sealed K) (complete_execution w i wid eid started finish)"
  unfolding complete_execution_def finish_row_def drop_pin_def release_execution_def Let_def
  by (intro stays_rules sealed_steps sealed_finish sealed_replacement)

lemma sealed_terminal: "stays (sealed K) (supervisor_terminal w i eid outcome code error)"
  unfolding supervisor_terminal_def terminate_active_def Let_def
  by (intro stays_rules sealed_steps sealed_finish sealed_replacement)

lemma sealed_observation: "stays (sealed K) (record_supervisor_observation w i eid ob)"
  unfolding record_supervisor_observation_def observed_terminal_def observed_progress_def Let_def
  by (intro stays_rules sealed_steps sealed_commit sealed_replacement)

lemma sealed_attach: "stays (sealed K) (attach_supervisor w i eid wid session config_hash process)"
  unfolding attach_supervisor_def Let_def by (intro stays_rules sealed_steps sealed_supervisor)

lemma sealed_supervisors: "stays (sealed K) (run_supervisors wid eid c failures supervisor turns)"
proof (induction turns arbitrary: failures supervisor)
  case (Cons t turns)
  show ?case
    unfolding run_supervisors.simps wait_for_supervisor_def supervisor_spawned_def Let_def
    by (intro stays_rules sealed_steps sealed_supervisor Cons.IH)
qed (simp add: stays_basic)

lemma sealed_reload: "stays (sealed K) (reload w candidate)"
  unfolding reload_def reconcile_reload_def Let_def
  by (intro stays_rules sealed_steps sealed_definitions sealed_decoded stays_modify) (simp_all add: sealed_def)

lemma sealed_monitor: "stays (sealed K) (monitor_turn w i eid now result monitor)"
  unfolding monitor_turn_def Let_def by (intro stays_rules triple_prod sealed_steps sealed_terminal)

lemma perform_sealed: "stays (sealed K) (perform w op)"
proof -
  have ignore: "stays (sealed K) (ignoring f)" if "stays (sealed K) f" for f :: "'b mg"
    using that by (simp add: stays_bind stays_attempt stays_basic)
  have start: "stays (sealed K) (ignoring (start w i wid kind exclusive session))" for i wid kind exclusive session
    by (rule ignore) (rule sealed_start)
  have enabled: "stays (sealed K) (set_enabled_workload wid enabled)" for wid enabled
    unfolding set_enabled_workload_def Let_def
    by (intro stays_rules sealed_steps sealed_enabled stays_modify) (simp_all add: sealed_def)
  have all: "stays (sealed K) (start_enabled w i)" for i
    unfolding start_enabled_def start_service_def
    by (intro stays_rules sealed_all sealed_start)
  have session: "stays (sealed K) end_session"
    unfolding end_session_def by (intro stays_rules sealed_steps stays_modify) (simp add: sealed_def)
  have disconnected: "stays (sealed K) (supervisor_disconnected eid attachment)" for eid attachment
    unfolding supervisor_disconnected_def
    by (intro stays_rules triple_prod sealed_steps)
  have rerun: "stays (sealed K) (rerun_job w i wid)" for i wid
    unfolding rerun_job_def by (intro stays_rules sealed_cancel sealed_start)
  have run: "stays (sealed K) (run_execution w wid eid c directory written turns)" for wid eid c directory written turns
    unfolding run_execution_def Let_def by (intro stays_rules sealed_steps sealed_supervisors)
  show ?thesis
    by (cases op)
      (simp_all add: start_service_def run_job_def stop_service_def cancel_job_def restart_service_def start
        ignore [OF sealed_cancel] ignore [OF rerun] ignore [OF enabled] all session disconnected
        ignore [OF sealed_attach] ignore [OF sealed_observation] ignore [OF sealed_terminal]
        ignore [OF sealed_reload] ignore [OF sealed_monitor] ignore [OF run] sealed_complete)
qed

fun perform_all :: "manager_world \<Rightarrow> manager_op list \<Rightarrow> manager \<Rightarrow> manager" where
  "perform_all w [] m = m"
| "perform_all w (op # ops) m = perform_all w ops (snd (perform w op m))"

lemma perform_all_sealed: "sealed K m \<Longrightarrow> sealed K (perform_all w ops m)"
  by (induction ops arbitrary: m) (simp_all add: triple_state [OF perform_sealed])

lemma end_session_sealed: "sealed (row_keys (mg_database m)) (snd (end_session m))"
  by (simp add: end_session_def bump_def process_defs sealed_def)

section \<open>Every run keeps the books\<close>

lemma controller_run_books: "controller_run w db m \<Longrightarrow> decodes w \<Longrightarrow> tables_ok w db \<Longrightarrow> books w m"
proof (induction rule: controller_run.induct)
  case (opened time m)
  then show ?case using triple_Done [OF open_books [of w db time]] by blast
next
  case (performed m op)
  then show ?case by (simp add: perform_books)
next
  case (reopened m time m')
  then show ?case
    using triple_Done [OF open_books [of w "mg_database m" time]] books_tables [of w m] by blast
qed

text \<open>\<open>cancel\<close> of an active workload.\<close>

definition stopping_active :: "bool \<Rightarrow> active_execution \<Rightarrow> active_execution" where
  "stopping_active again a = a\<lparr>ae_restart_after := ae_restart_after a \<or> again, ae_state := ''stopping'', ae_cancelled := True\<rparr>"

lemma cancel_active:
  assumes "map_of (mg_workloads m) wid = Some r" and "mr_kind r = kind" and "map_of (mg_active m) wid = Some a"
  shows "cancel wid kind again m = (Done (True, workload_view wid r (Some (stopping_active again a))),
    m\<lparr>mg_active := btree_insert wid (stopping_active again a) (mg_active m),
      mg_effects := mg_effects m @ [CommandSent (ae_execution_id a) ''stop'' []],
      mg_revision := saturating_add (mg_revision m) 1\<rparr>)"
  using assms
  by (simp add: cancel_def set_active_def send_effect_def bump_def process_defs Let_def stopping_active_def)

section \<open>Properties\<close>


text \<open>
  C26. Once the session has ended, whatever is asked of the manager inserts no execution:
  no start, rerun, reload, report or pending replacement does.
\<close>

theorem ended_session_starts_nothing:
  "mg_session_ending (perform_all w ops (snd (end_session m))) \<and>
   row_keys (mg_database (perform_all w ops (snd (end_session m)))) = row_keys (mg_database m)"
  using perform_all_sealed [OF end_session_sealed] by (simp add: sealed_def)

text \<open>
  C27. The supervisors of an execution are launched at most eight times, with the delays
  100 ms, 200 ms, ... capped at 5 s between them, at most seven; after eight turns of the loop
  there is a result, whatever happened in them.
\<close>

theorem supervisors_launched_within_budget:
  assumes "run_execution w wid eid c directory written turns m = (r, m')"
  shows "launches m' \<le> launches m + 8 \<and>
    (\<exists>k \<le> 7. waits m' = waits m @ map (\<lambda>n. min (100 * 2 ^ (n - 1)) 5000) [1 ..< Suc k]) \<and>
    (8 \<le> length turns \<longrightarrow> (\<exists>finish. r = Done finish))"
proof -
  have "within_budget 0 (length turns) r m m'"
  proof (cases "directory = None \<and> written = None")
    case True
    define m1 where "m1 = snd (send_effect (SpecWritten (path_join (execution_runtime_root w (ec_manager_session_id c) eid)
      ''execution.pb'') (execution_spec w wid eid c)) m)"
    have "run_supervisors wid eid (execution_spec w wid eid c) 0 0 turns m1 = (r, m')"
      using assms True by (simp add: run_execution_def m1_def send_effect_def process_defs Let_def)
    then have "within_budget 0 (length turns) r m1 m'"
      using run_supervisors_budget [of 0 turns wid eid "execution_spec w wid eid c" 0 m1] by simp
    moreover have "launches m1 = launches m" "waits m1 = waits m"
      by (simp_all add: m1_def send_effect_def modify_def launches_def waits_def)
    ultimately show ?thesis by (simp add: within_budget_def)
  next
    case False
    then have "m' = m" "\<exists>finish. r = Done finish"
      using assms by (auto simp: run_execution_def ret_def Let_def split: option.splits)
    then show ?thesis by (auto simp: within_budget_def intro!: exI [of _ 0])
  qed
  then obtain k where k: "k \<le> 7" "waits m' = waits m @ map supervisor_delay_at [1 ..< Suc k]"
    by (auto simp: within_budget_def)
  have "map supervisor_delay_at [1 ..< Suc k] = map (\<lambda>n. min (100 * 2 ^ (n - 1)) 5000) [1 ..< Suc k]"
  proof (rule map_cong [OF refl])
    fix n
    assume "n \<in> set [1 ..< Suc k]"
    then have "1 \<le> n" "n \<le> 32" using k(1) by auto
    from supervisor_retry_delay_capped [OF this] \<open>n \<le> 32\<close>
    show "supervisor_delay_at n = min (100 * 2 ^ (n - 1)) 5000" by (simp add: supervisor_delay_at_def min_absorb1)
  qed
  then have "\<exists>k \<le> 7. waits m' = waits m @ map (\<lambda>n. min (100 * 2 ^ (n - 1)) 5000) [1 ..< Suc k]"
    using k by (intro exI [of _ k]) (simp only: simp_thms)
  moreover have "launches m' \<le> launches m + 8" "8 \<le> length turns \<longrightarrow> (\<exists>finish. r = Done finish)"
    using \<open>within_budget 0 (length turns) r m m'\<close> by (simp_all add: within_budget_def)
  ultimately show ?thesis by (simp only: simp_thms)
qed

text \<open>
  A stop does not cancel the replacement that a restart has asked for: after a
  restart and a stop the execution still restarts when it ends.
\<close>

theorem stop_keeps_replacement:
  assumes "map_of (mg_workloads m) wid = Some r" and "mr_kind r = ''service''"
    and "map_of (mg_active m) wid = Some a" and "btree_ok (mg_active m)" and "\<not> mg_session_ending m"
  shows "restarts_after (snd (stop_service wid (snd (restart_service wid m)))) wid"
  using assms
  by (simp add: stop_service_def restart_service_def cancel_active restarts_after_def btree.lookup_put
      btree.put_ok stopping_active_def)

text \<open>
  When an adopted execution whose supervisor is gone is stopped, its monitor waits
  forever: without a result file no turn changes anything or launches a replacement.
\<close>

theorem stopped_recovery_never_ends:
  assumes "active_by_execution eid m = Some (wid, a)" and "ae_state a = ''stopping''"
  shows "\<exists>monitor'. monitor_turn w i eid now None monitor m = (Done (Some monitor'), m)"
  using assms by (simp add: monitor_turn_def process_defs)

section \<open>Sample managers\<close>

definition sample_manager_world :: manager_world where
  "sample_manager_world = \<lparr>mw_encoder = \<lparr>encode_configuration = \<lambda>_. [], encode_policy = \<lambda>_. [], digest = \<lambda>bs. bs\<rparr>,
     mw_decode = \<lambda>_. Inr configuration_default, mw_session = None, mw_supervisor_executable = ''susm-supervisor.exe'',
     mw_data_directory = ''C:''\<rparr>"

text \<open>A manager that finds the job \<open>backup\<close> with one open execution.\<close>

definition reopened_manager :: manager where
  "reopened_manager = snd (manager_open sample_manager_world (\<lambda>_. Some 1) (unopened (sample_database 0)))"

lemmas open_defs = manager_open_def unopened_def load_workloads_def load_active_executions_def
  read_execution_def u64_try_from_def decode_snapshot_def sample_manager_world_def db_query_def process_defs
  sample_database_def sample_row_def set_active_def current_session_def configuration_default_def

lemma reopened_manager:
  "manager_open sample_manager_world (\<lambda>_. Some 1) (unopened (sample_database 0)) = (Done (), reopened_manager)"
  "mg_database reopened_manager = sample_database 0"
  by (simp_all add: reopened_manager_def open_defs)

lemma sample_tables_ok: "tables_ok sample_manager_world (sample_database 0)"
  by (auto simp: tables_ok_def db_ok_def snapshots_ok_def sample_database_def sample_row_def kind_ok_def row_ok_def
      btree_ok_def open_rows_def row_key_def sample_manager_world_def)


definition crashing_turn :: supervisor_turn where
  "crashing_turn = \<lparr>su_cancelled = False, su_spawned = Inl ''no file'', su_stopped = False, su_result = None,
     su_cancelled_waiting = False\<rparr>"

theorem supervisors_launched_within_budget_witness:
  "\<exists>finish m'. run_execution sample_manager_world ''web'' ''e'' configuration_default None None
     (replicate 8 crashing_turn) (unopened empty_database) = (Done finish, m') \<and> launches m' \<le> 8"
proof -
  obtain r m' where run: "run_execution sample_manager_world ''web'' ''e'' configuration_default None None
     (replicate 8 crashing_turn) (unopened empty_database) = (r, m')" by fastforce
  from supervisors_launched_within_budget [OF this] show ?thesis
    unfolding run by (auto simp: launches_def unopened_def)
qed

text \<open>A manager with one active service.\<close>

definition serving_manager :: "string \<Rightarrow> manager" where
  "serving_manager state = (unopened empty_database)\<lparr>
     mg_workloads := [(''web'', \<lparr>mr_kind = ''service'', mr_definition = Some configuration_default,
       mr_enabled = True, mr_last_outcome = []\<rparr>)],
     mg_active := [(''web'', (new_active sample_manager_world ''e'' configuration_default)\<lparr>ae_state := state,
       ae_locally_owned := False\<rparr>)]\<rparr>"

theorem stop_keeps_replacement_witness:
  "restarts_after (snd (stop_service ''web'' (snd (restart_service ''web'' (serving_manager ''running''))))) ''web''"
  by (rule stop_keeps_replacement) (simp add: serving_manager_def btree_ok_def unopened_def)+

theorem stopped_recovery_never_ends_witness:
  "\<exists>monitor'. monitor_turn sample_manager_world \<lparr>mi_uuid = ''u'', mi_time = Some 9, mi_pin = Inr None\<rparr> ''e'' 60000 None
     (monitor_start 0) (serving_manager ''stopping'') = (Done (Some monitor'), serving_manager ''stopping'')"
  by (rule stopped_recovery_never_ends) (simp add: serving_manager_def active_by_execution_def new_active_def)+

end
