(* ===== verification/Process_Encoding.thy ===== *)
theory Process_Encoding
  imports Btree
begin

text \<open>
  What the supervisor hands to \<open>CreateProcessW\<close> (\<open>crates/supervisor/src/process.rs\<close>): the command
  line with its quoting, the environment block, and the user's environment read back from such a
  block. A \<open>str\<close> is the list of its Unicode scalar values. The system calls, handles and pipes of
  that file are not modelled.
\<close>

type_synonym u16 = "16 word"
type_synonym str = "nat list"

datatype process_error = InvalidSpec string

abbreviation quote_char :: nat where "quote_char \<equiv> 34"
abbreviation backslash :: nat where "backslash \<equiv> 92"
abbreviation equals_char :: nat where "equals_char \<equiv> 61"

definition scalar :: "nat \<Rightarrow> bool" where
  "scalar n \<longleftrightarrow> n < 55296 \<or> (57343 < n \<and> n < 1114112)"

section \<open>UTF-16\<close>

definition utf16_char :: "nat \<Rightarrow> u16 list" where
  "utf16_char n =
     (if n < 65536 then [word_of_nat n]
      else [word_of_nat (55296 + (n - 65536) div 1024), word_of_nat (56320 + (n - 65536) mod 1024)])"

definition encode_utf16 :: "str \<Rightarrow> u16 list" where
  "encode_utf16 t = concat (map utf16_char t)"

text \<open>\<open>String::from_utf16\<close>.\<close>

fun from_utf16 :: "u16 list \<Rightarrow> str option" where
  "from_utf16 [] = Some []"
| "from_utf16 (u # us) =
     (if unat u < 55296 \<or> 57343 < unat u then map_option ((#) (unat u)) (from_utf16 us)
      else if unat u < 56320
      then
        (case us of
           [] \<Rightarrow> None
         | v # vs \<Rightarrow>
             if 56320 \<le> unat v \<and> unat v \<le> 57343
             then map_option ((#) (65536 + (unat u - 55296) * 1024 + (unat v - 56320))) (from_utf16 vs)
             else None)
      else None)"

lemma unat_u16: "n < 65536 \<Longrightarrow> unat (word_of_nat n :: u16) = n"
  by (rule unat_word_of_nat_small) simp

lemma from_utf16_char: "scalar n \<Longrightarrow> from_utf16 (utf16_char n @ us) = map_option ((#) n) (from_utf16 us)"
proof (cases "n < 65536")
  case True
  then show "scalar n \<Longrightarrow> ?thesis" by (auto simp: utf16_char_def unat_u16 scalar_def)
next
  case False
  assume n: "scalar n"
  have "(n - 65536) div 1024 < 1024" using n False by (simp add: scalar_def less_mult_imp_div_less)
  moreover have "(n - 65536) mod 1024 \<le> 1023" using mod_less_divisor [of 1024 "n - 65536"] by linarith
  moreover have "65536 + (n - 65536) div 1024 * 1024 + (n - 65536) mod 1024 = n"
    using False by simp
  ultimately show ?thesis using False by (simp add: utf16_char_def unat_u16 del: of_nat_add)
qed

lemma from_utf16_encode: "list_all scalar t \<Longrightarrow> from_utf16 (encode_utf16 t) = Some t"
  by (induction t) (simp_all add: encode_utf16_def from_utf16_char)

lemma encode_utf16_append: "encode_utf16 (s @ t) = encode_utf16 s @ encode_utf16 t"
  by (simp add: encode_utf16_def)

lemma utf16_char_nonzero: "scalar n \<Longrightarrow> n \<noteq> 0 \<Longrightarrow> 0 \<notin> set (utf16_char n)"
proof -
  assume n: "scalar n" "n \<noteq> 0"
  have zero: "(word_of_nat k :: u16) \<noteq> 0" if "0 < k" "k < 65536" for k
    using unat_u16 [OF that(2)] that(1) by (metis less_numeral_extra(3) unat_0)
  show ?thesis
  proof (cases "n < 65536")
    case False
    have "(n - 65536) div 1024 < 1024" using n False by (simp add: scalar_def less_mult_imp_div_less)
    moreover have "(n - 65536) mod 1024 < 1024" by simp
    ultimately show ?thesis using False zero [of "55296 + (n - 65536) div 1024"] zero [of "56320 + (n - 65536) mod 1024"]
      by (simp add: utf16_char_def del: of_nat_add)
  qed (use n zero [of n] in \<open>simp add: utf16_char_def\<close>)
qed

lemma encode_utf16_nonzero: "list_all scalar t \<Longrightarrow> 0 \<notin> set t \<Longrightarrow> 0 \<notin> set (encode_utf16 t)"
  by (induction t) (auto simp: encode_utf16_def dest: utf16_char_nonzero)

definition wide_null :: "str \<Rightarrow> process_error + u16 list" where
  "wide_null t = (if 0 \<in> set t then Inl (InvalidSpec ''string contains NUL'') else Inr (encode_utf16 t @ [0]))"

section \<open>The command line\<close>

text \<open>\<open>char::is_whitespace\<close>: the Unicode property \<open>White_Space\<close>.\<close>

definition whitespace :: "nat \<Rightarrow> bool" where
  "whitespace c \<longleftrightarrow> (9 \<le> c \<and> c \<le> 13) \<or> c \<in> {32, 133, 160, 5760} \<or> (8192 \<le> c \<and> c \<le> 8202) \<or>
     c \<in> {8232, 8233, 8239, 8287, 12288}"

text \<open>The loop over the characters, with the backslashes counted so far.\<close>

fun quote_loop :: "nat \<Rightarrow> str \<Rightarrow> str" where
  "quote_loop backslashes [] = replicate (backslashes * 2) backslash @ [quote_char]"
| "quote_loop backslashes (c # cs) =
     (if c = backslash then quote_loop (Suc backslashes) cs
      else if c = quote_char then replicate (backslashes * 2 + 1) backslash @ quote_char # quote_loop 0 cs
      else replicate backslashes backslash @ c # quote_loop 0 cs)"

definition quote_windows_argument :: "str \<Rightarrow> str" where
  "quote_windows_argument argument =
     (if argument \<noteq> [] \<and> \<not> list_ex (\<lambda>c. whitespace c \<or> c = quote_char) argument then argument
      else quote_char # quote_loop 0 argument)"

definition max_command_line_code_units :: nat where
  "max_command_line_code_units = 32767"

definition command_line :: "str \<Rightarrow> str list \<Rightarrow> str" where
  "command_line executable arguments =
     quote_windows_argument executable @ concat (map (\<lambda>a. 32 # quote_windows_argument a) arguments)"

definition encode_command_line :: "str \<Rightarrow> str list \<Rightarrow> process_error + str" where
  "encode_command_line executable arguments =
     (let line = command_line executable arguments in
      if max_command_line_code_units < length (encode_utf16 line) + 1
      then Inl (InvalidSpec ''encoded command line is too long'') else Inr line)"

section \<open>The environment block\<close>

definition strip_equals :: "str \<Rightarrow> str" where
  "strip_equals name = (case name of c # cs \<Rightarrow> if c = equals_char then cs else name | [] \<Rightarrow> [])"

fun encode_entries :: "(str \<times> str) list \<Rightarrow> process_error + u16 list" where
  "encode_entries [] = Inr []"
| "encode_entries ((name, v) # entries) =
     (if name = [] \<or> 0 \<in> set name \<or> 0 \<in> set v
      then Inl (InvalidSpec ''environment names and values must not contain NUL'')
      else if equals_char \<in> set (strip_equals name)
      then Inl (InvalidSpec ''environment name contains '' )
      else and_then (encode_entries entries) (\<lambda>block.
        Inr (encode_utf16 (name @ equals_char # v) @ 0 # block)))"

definition encode_environment :: "(str, str) btree \<Rightarrow> process_error + u16 list" where
  "encode_environment environment =
     and_then (encode_entries environment) (\<lambda>block.
       let block = block @ [0] in Inr (if length block = 1 then block @ [0] else block))"

text \<open>\<open>str::find\<close> of the equals sign, as the number of characters before it.\<close>

fun find_equals :: "str \<Rightarrow> nat option" where
  "find_equals [] = None"
| "find_equals (c # cs) = (if c = equals_char then Some 0 else map_option Suc (find_equals cs))"

definition delimiter_of :: "str \<Rightarrow> nat option" where
  "delimiter_of entry =
     (case entry of
        c # cs \<Rightarrow> if c = equals_char then map_option Suc (find_equals cs) else find_equals entry
      | [] \<Rightarrow> None)"

text \<open>
  The loop over the block, up to the empty entry that ends it (or the end of the list, which the
  code must not reach). \<open>upper\<close> is \<open>str::to_uppercase\<close>.
\<close>

function parse_entries ::
  "(str \<Rightarrow> str) \<Rightarrow> u16 list \<Rightarrow> (str, str) btree \<Rightarrow> process_error + (str, str) btree"
where
  "parse_entries upper cursor environment =
     (let units = takeWhile (\<lambda>u. u \<noteq> 0) cursor in
      if units = [] then Inr environment
      else
        and_then (ok_or (InvalidSpec ''user environment contains invalid UTF-16'') (from_utf16 units)) (\<lambda>entry.
        and_then (ok_or (InvalidSpec ''user environment entry has no delimiter'') (delimiter_of entry)) (\<lambda>delimiter.
          parse_entries upper (drop (length units + 1) cursor)
            (btree_insert (upper (take delimiter entry)) (drop (delimiter + 1) entry) environment))))"
  by auto
termination
proof (relation "measure (\<lambda>(upper, cursor, environment). length cursor)")
  fix cursor :: "u16 list" and units
  assume "units = takeWhile (\<lambda>u. u \<noteq> 0) cursor" and "units \<noteq> []"
  then have "cursor \<noteq> []" by auto
  then show "((upper, drop (length units + 1) cursor, env), upper, cursor, environment)
      \<in> measure (\<lambda>(upper, cursor, environment). length cursor)" for upper env environment
    by simp
qed simp

declare parse_entries.simps [simp del]

definition parse_environment_block :: "(str \<Rightarrow> str) \<Rightarrow> u16 list \<Rightarrow> process_error + (str, str) btree" where
  "parse_environment_block upper block = parse_entries upper block []"

section \<open>The block reads back\<close>

lemma find_equals_append: "equals_char \<notin> set name \<Longrightarrow> find_equals (name @ equals_char # v) = Some (length name)"
  by (induction name) auto

lemma delimiter_of_entry:
  assumes "name \<noteq> []" and "equals_char \<notin> set (strip_equals name)"
  shows "delimiter_of (name @ equals_char # v) = Some (length name)"
  using assms by (cases name)
    (auto simp: delimiter_of_def strip_equals_def find_equals_append split: if_split_asm)

lemma encode_entries_ok:
  assumes "encode_entries ((name, v) # entries) = Inr block"
  obtains rest where "name \<noteq> []" "0 \<notin> set name" "0 \<notin> set v" "equals_char \<notin> set (strip_equals name)"
    "encode_entries entries = Inr rest" "block = encode_utf16 (name @ equals_char # v) @ 0 # rest"
  using assms by (auto simp: rust_result split: if_split_asm)

definition text_entry :: "str \<times> str \<Rightarrow> bool" where
  "text_entry e \<longleftrightarrow> list_all scalar (fst e) \<and> list_all scalar (snd e)"

lemma scalar_equals: "scalar equals_char"
  by (simp add: scalar_def)

lemma encode_utf16_nonempty: "t \<noteq> [] \<Longrightarrow> encode_utf16 t \<noteq> []"
  by (cases t) (auto simp: encode_utf16_def utf16_char_def)

lemma parse_entries_encoded:
  assumes "encode_entries entries = Inr block" and "list_all text_entry entries"
  shows "parse_entries upper (block @ 0 # rest) env =
    Inr (foldl (\<lambda>env (name, v). btree_insert (upper name) v env) env entries)"
  using assms
proof (induction entries arbitrary: block env)
  case Nil
  then show ?case by (simp add: parse_entries.simps)
next
  case (Cons e entries)
  obtain name v where e: "e = (name, v)" by (cases e)
  obtain tail where ok: "name \<noteq> []" "0 \<notin> set name" "0 \<notin> set v" "equals_char \<notin> set (strip_equals name)"
    "encode_entries entries = Inr tail" "block = encode_utf16 (name @ equals_char # v) @ 0 # tail"
    using Cons.prems(1) unfolding e by (rule encode_entries_ok)
  let ?entry = "name @ equals_char # v"
  have scalars: "list_all scalar ?entry" using Cons.prems(2) by (simp add: e text_entry_def scalar_equals)
  then have "0 \<notin> set (encode_utf16 ?entry)" using ok(2,3) by (intro encode_utf16_nonzero) auto
  then have take: "takeWhile (\<lambda>u. u \<noteq> 0) (encode_utf16 ?entry @ 0 # xs) = encode_utf16 ?entry" for xs
    by (subst takeWhile_append2) auto
  have "parse_entries upper (block @ 0 # rest) env =
      parse_entries upper (tail @ 0 # rest) (btree_insert (upper name) v env)"
    using from_utf16_encode [OF scalars] delimiter_of_entry [OF ok(1,4), of v] encode_utf16_nonempty [of ?entry]
    by (subst parse_entries.simps) (simp add: ok(6) take Let_def)
  then show ?case using Cons.IH [OF ok(5)] Cons.prems(2) by (simp add: e)
qed

section \<open>The command line reads back\<close>

text \<open>
  The reference: the rules of the C runtime for splitting a command line. The program name ends at
  a blank or its closing quote and has no escapes. In the arguments, blanks outside quotes
  separate; \<open>2n\<close> backslashes before a quote are \<open>n\<close> backslashes and the quote toggles quoting;
  \<open>2n + 1\<close> are \<open>n\<close> backslashes and a literal quote; other backslashes are literal.
\<close>

definition blank :: "nat \<Rightarrow> bool" where
  "blank c \<longleftrightarrow> c = 32 \<or> c = 9"

definition the_default :: "'a \<Rightarrow> 'a option \<Rightarrow> 'a" where
  "the_default d x = (case x of None \<Rightarrow> d | Some y \<Rightarrow> y)"

fun read_arguments :: "bool \<Rightarrow> nat \<Rightarrow> str option \<Rightarrow> str \<Rightarrow> str list" where
  "read_arguments quoted n current [] =
     (if current = None \<and> n = 0 then [] else [the_default [] current @ replicate n backslash])"
| "read_arguments quoted n current (c # cs) =
     (if c = backslash then read_arguments quoted (Suc n) current cs
      else if c = quote_char
      then
        (if even n
         then read_arguments (\<not> quoted) 0 (Some (the_default [] current @ replicate (n div 2) backslash)) cs
         else read_arguments quoted 0 (Some (the_default [] current @ replicate (n div 2) backslash @ [quote_char])) cs)
      else if blank c \<and> \<not> quoted
      then
        (if current = None \<and> n = 0 then read_arguments False 0 None cs
         else (the_default [] current @ replicate n backslash) # read_arguments False 0 None cs)
      else read_arguments quoted 0 (Some (the_default [] current @ replicate n backslash @ [c])) cs)"

definition read_program :: "str \<Rightarrow> str \<times> str" where
  "read_program line =
     (case line of
        c # cs \<Rightarrow>
          if c = quote_char then (takeWhile (\<lambda>c. c \<noteq> quote_char) cs, drop 1 (dropWhile (\<lambda>c. c \<noteq> quote_char) cs))
          else (takeWhile (\<lambda>c. \<not> blank c) line, dropWhile (\<lambda>c. \<not> blank c) line)
      | [] \<Rightarrow> ([], []))"

definition read_command_line :: "str \<Rightarrow> str \<times> str list" where
  "read_command_line line = (let (program, rest) = read_program line in (program, read_arguments False 0 None rest))"

lemma the_default_simps [simp]: "the_default d None = d" "the_default d (Some y) = y"
  by (simp_all add: the_default_def)

lemma read_backslashes:
  "read_arguments quoted n current (replicate k backslash @ cs) = read_arguments quoted (n + k) current cs"
  by (induction k arbitrary: n) simp_all

text \<open>A quoted argument: \<open>n\<close> backslashes were seen and not yet written.\<close>

lemma read_quote_loop:
  "read_arguments True 0 (Some a) (quote_loop n cs @ rest) =
   read_arguments False 0 (Some (a @ replicate n backslash @ cs)) rest"
proof (induction cs arbitrary: n a)
  case Nil
  then show ?case by (simp add: read_backslashes)
next
  case (Cons c cs)
  have "replicate (Suc n) backslash @ cs = replicate n backslash @ backslash # cs"
    by (simp add: replicate_app_Cons_same)
  moreover have "Suc (2 * n) div 2 = n" by simp
  ultimately show ?case using Cons.IH [of a "Suc n"]
    by (cases "c = backslash"; cases "c = quote_char")
      (simp_all add: read_backslashes mult.commute Cons.IH)
qed

definition unquoted :: "str \<Rightarrow> bool" where
  "unquoted a \<longleftrightarrow> \<not> list_ex (\<lambda>c. whitespace c \<or> c = quote_char) a"

lemma blank_whitespace: "blank c \<Longrightarrow> whitespace c"
  by (auto simp: blank_def whitespace_def)

text \<open>An argument as it is: the end of the line or a blank follows it.\<close>

lemma read_plain:
  assumes "unquoted a" and "rest = [] \<or> rest = 32 # more" and "a \<noteq> [] \<or> current \<noteq> None \<or> n \<noteq> 0"
  shows "read_arguments False n current (a @ rest) =
    (the_default [] current @ replicate n backslash @ a) # read_arguments False 0 None (drop 1 rest)"
  using assms(1,3)
proof (induction a arbitrary: n current)
  case Nil
  then show ?case using assms(2) by (auto simp: blank_def)
next
  case (Cons c cs)
  have c: "\<not> blank c" "c \<noteq> quote_char" "unquoted cs"
    using Cons.prems(1) blank_whitespace by (auto simp: unquoted_def)
  show ?case
  proof (cases "c = backslash")
    case True
    have "replicate n backslash @ backslash # cs = replicate (Suc n) backslash @ cs"
      by (simp add: replicate_app_Cons_same)
    then show ?thesis using True Cons.IH [OF c(3), of current "Suc n"] by simp
  next
    case False
    then show ?thesis using c Cons.IH [OF c(3), of "Some (the_default [] current @ replicate n backslash @ [c])" 0]
      by simp
  qed
qed

lemma read_argument:
  assumes "rest = [] \<or> rest = 32 # more"
  shows "read_arguments False 0 None (quote_windows_argument a @ rest) =
    a # read_arguments False 0 None (drop 1 rest)"
proof (cases "a \<noteq> [] \<and> unquoted a")
  case True
  then have q: "quote_windows_argument a = a" by (simp add: quote_windows_argument_def unquoted_def)
  show ?thesis using read_plain [of a rest more None 0] True assms by (simp add: q)
next
  case False
  then have q: "quote_windows_argument a = quote_char # quote_loop 0 a"
    by (auto simp: quote_windows_argument_def unquoted_def)
  have "read_arguments False 0 None (quote_windows_argument a @ rest) = read_arguments False 0 (Some a) rest"
    by (simp add: q read_quote_loop)
  also have "\<dots> = a # read_arguments False 0 None (drop 1 rest)"
    using read_plain [of "[]" rest more "Some a" 0] assms by (simp add: unquoted_def)
  finally show ?thesis .
qed

lemma read_arguments_line:
  "read_arguments False 0 None (concat (map (\<lambda>a. 32 # quote_windows_argument a) arguments)) = arguments"
proof (induction arguments)
  case (Cons a arguments)
  let ?rest = "concat (map (\<lambda>a. 32 # quote_windows_argument a) arguments)"
  have "?rest = [] \<or> (\<exists>more. ?rest = 32 # more)" by (cases arguments) simp_all
  then obtain more where "?rest = [] \<or> ?rest = 32 # more" by blast
  from read_argument [OF this, of a] Cons.IH show ?case
    by (cases arguments) (simp_all add: blank_def)
qed simp

text \<open>A path has no quotes and does not end with a backslash when it names a file.\<close>

definition program_path :: "str \<Rightarrow> bool" where
  "program_path p \<longleftrightarrow> quote_char \<notin> set p \<and> (p \<noteq> [] \<longrightarrow> last p \<noteq> backslash)"

lemma quote_loop_path:
  "quote_char \<notin> set p \<Longrightarrow> (p \<noteq> [] \<longrightarrow> last p \<noteq> backslash) \<Longrightarrow> (p = [] \<longrightarrow> n = 0) \<Longrightarrow>
   quote_loop n p = replicate n backslash @ p @ [quote_char]"
proof (induction n p rule: quote_loop.induct)
  case (2 n c cs)
  have "replicate (Suc n) backslash @ cs = replicate n backslash @ backslash # cs"
    by (simp add: replicate_app_Cons_same)
  then show ?case using 2 by (auto split: if_split_asm)
qed simp

lemma read_program_line:
  assumes "program_path p" and "rest = [] \<or> rest = 32 # more"
  shows "read_program (quote_windows_argument p @ rest) = (p, rest)"
proof (cases "p \<noteq> [] \<and> unquoted p")
  case True
  then have q: "quote_windows_argument p = p" by (simp add: quote_windows_argument_def unquoted_def)
  have plain: "\<forall>c \<in> set p. \<not> blank c" and "hd p \<noteq> quote_char"
    using True blank_whitespace assms(1) by (auto simp: unquoted_def program_path_def list_ex_iff)
  have "takeWhile (\<lambda>c. \<not> blank c) (p @ rest) = p" "dropWhile (\<lambda>c. \<not> blank c) (p @ rest) = rest"
    using plain assms(2) by (auto simp: takeWhile_append2 dropWhile_append2 blank_def)
  then have "read_program (p @ rest) = (p, rest)"
    using True \<open>hd p \<noteq> quote_char\<close> unfolding read_program_def by (cases p) (simp_all del: takeWhile.simps dropWhile.simps)
  then show ?thesis by (simp only: q)
next
  case False
  then have q: "quote_windows_argument p = quote_char # p @ [quote_char]"
    using assms(1) quote_loop_path [of p 0]
    by (auto simp: quote_windows_argument_def unquoted_def program_path_def)
  have "quote_char \<notin> set p" using assms(1) by (simp add: program_path_def)
  then have "takeWhile (\<lambda>c. c \<noteq> quote_char) (p @ quote_char # rest) = p"
    "dropWhile (\<lambda>c. c \<noteq> quote_char) (p @ quote_char # rest) = quote_char # rest"
    by (induction p) auto
  then show ?thesis by (simp add: q read_program_def)
qed

section \<open>Properties\<close>

lemma foldl_insert_ok: "btree_ok env \<Longrightarrow> btree_ok (foldl (\<lambda>env (k, v). btree_insert k v env) env es)"
  by (induction es arbitrary: env) (auto simp: btree.put_ok)

lemma foldl_insert_lookup:
  "btree_ok env \<Longrightarrow> map_of (foldl (\<lambda>env (k, v). btree_insert k v env) env es) = map_of env ++ map_of (rev es)"
proof (induction es arbitrary: env)
  case (Cons e es)
  then show ?case
    by (cases e) (auto simp: btree.put_ok btree.lookup_put map_add_def fun_eq_iff split: option.split)
qed simp

lemma foldl_insert_sorted:
  assumes "btree_ok es"
  shows "foldl (\<lambda>env (k, v). btree_insert k v env) [] es = es"
proof (rule btree_ext [OF foldl_insert_ok assms])
  have d: "distinct (map fst es)" "distinct (map fst (rev es))"
    using btree_ok_distinct [OF assms] by (simp_all flip: rev_map)
  have "map_of (rev es) k = Some v \<longleftrightarrow> map_of es k = Some v" for k v
    by (simp only: map_of_eq_Some_iff [OF d(1)] map_of_eq_Some_iff [OF d(2)] set_rev)
  then have "map_of (rev es) = map_of es" by (metis map_le_antisym map_le_def domIff not_None_eq ext option.exhaust)
  then show "map_of (foldl (\<lambda>env (k, v). btree_insert k v env) [] es) = map_of es"
    by (simp add: foldl_insert_lookup)
qed simp

text \<open>
  C28. The command line that the supervisor builds is split back, by the rules of the C
  runtime, into the executable and exactly the arguments of the definition, whatever blanks,
  quotes and backslashes they contain.
\<close>

theorem command_line_reads_back:
  assumes "encode_command_line executable arguments = Inr line" and "program_path executable"
  shows "read_command_line line = (executable, arguments) \<and> length (encode_utf16 line) < 32767"
proof -
  let ?rest = "concat (map (\<lambda>a. 32 # quote_windows_argument a) arguments)"
  have line: "line = quote_windows_argument executable @ ?rest" "length (encode_utf16 line) < 32767"
    using assms(1)
    by (auto simp: encode_command_line_def command_line_def max_command_line_code_units_def Let_def split: if_split_asm)
  have "?rest = [] \<or> (\<exists>more. ?rest = 32 # more)" by (cases arguments) simp_all
  then obtain more where "?rest = [] \<or> ?rest = 32 # more" by blast
  from read_program_line [OF assms(2) this] line show ?thesis
    by (simp add: read_command_line_def read_arguments_line)
qed

text \<open>
  C29. An environment whose names are in upper case, as those the supervisor builds are,
  is read back from the block encoded for it; a name or value that would corrupt the block is
  an error.
\<close>

theorem environment_block_reads_back:
  assumes "encode_environment environment = Inr block" and "btree_ok environment"
    and "list_all text_entry environment" and "\<forall>name \<in> fst ` set environment. upper name = name"
  shows "parse_environment_block upper block = Inr environment \<and>
    (\<forall>(name, v) \<in> set environment. name \<noteq> [] \<and> 0 \<notin> set name \<and> 0 \<notin> set v \<and> 61 \<notin> set (drop 1 name))"
proof -
  obtain body where body: "encode_entries environment = Inr body"
      "block = body @ 0 # (if body = [] then [0] else [])"
    using assms(1) by (auto simp: encode_environment_def rust_result Let_def split: if_split_asm)
  have "foldl (\<lambda>env (name, v). btree_insert (upper name) v env) [] environment =
      foldl (\<lambda>env (name, v). btree_insert name v env) [] environment"
    by (rule foldl_cong) (use assms(4) in auto)
  also have "\<dots> = environment" by (rule foldl_insert_sorted [OF assms(2)])
  finally have "parse_environment_block upper block = Inr environment"
    using parse_entries_encoded [OF body(1) assms(3), of upper _ "[]"] by (simp add: parse_environment_block_def body(2))
  moreover have "\<forall>(name, v) \<in> set es. name \<noteq> [] \<and> 0 \<notin> set name \<and> 0 \<notin> set v \<and> 61 \<notin> set (drop 1 name)"
    if "encode_entries es = Inr b" for es b
    using that
  proof (induction es arbitrary: b)
    case (Cons e es)
    then show ?case
      by (cases e; cases "fst e")
        (auto simp: rust_result strip_equals_def split: if_split_asm)
  qed simp
  ultimately show ?thesis using body(1) by blast
qed

text \<open>Sample values: a path with a blank, arguments that need quoting, and an environment.\<close>

theorem command_line_reads_back_witness:
  "\<exists>line. encode_command_line [67, 58, 92, 97, 32, 98] [[], [97, 92], [32, 92, 92], [34, 92, 34]] = Inr line \<and>
     snd (read_command_line line) = [[], [97, 92], [32, 92, 92], [34, 92, 34]]"
proof -
  obtain line where line: "encode_command_line [67, 58, 92, 97, 32, 98] [[], [97, 92], [32, 92, 92], [34, 92, 34]] = Inr line"
    by (simp add: encode_command_line_def command_line_def quote_windows_argument_def whitespace_def
        encode_utf16_def utf16_char_def max_command_line_code_units_def Let_def numeral_2_eq_2)
  show ?thesis using command_line_reads_back [OF line] line by (simp add: program_path_def)
qed

theorem environment_block_reads_back_witness:
  "\<exists>block. encode_environment [([65], [98, 61]), ([66], [])] = Inr block \<and>
     parse_environment_block (\<lambda>name. name) block = Inr [([65], [98, 61]), ([66], [])]"
proof -
  obtain block where block: "encode_environment [([65], [98, 61]), ([66], [])] = Inr block"
    by (simp add: encode_environment_def strip_equals_def Let_def)
  show ?thesis
    using environment_block_reads_back [OF block, of "\<lambda>name. name"] block
    by (simp add: btree_ok_def text_entry_def scalar_def)
qed

end
