(* ===== verification/Supervisor_Link.thy ===== *)
theory Supervisor_Link
  imports Run_Protocol Manager_Supervision
begin

text \<open>
  The stream between a supervisor and the controller: the supervisor's end
  (\<open>crates/supervisor/src/controller_link.rs\<close>), the controller's end
  (\<open>crates/controller/src/supervisor_rpc.rs\<close>) and the messages of
  \<open>crates/protocol/proto/susm/supervisor/v1/supervisor.proto\<close> they exchange. The named pipe and gRPC
  are not modelled: a stream is a queue of messages in each direction. \<open>uuid_ok\<close> stands for
  \<open>Uuid::parse_str\<close>, and a \<open>Status\<close> for its code.
\<close>

section \<open>Messages\<close>

record hello =
  he_manager_session_id :: string
  he_workload_id :: string
  he_execution_id :: string
  he_supervisor_id :: string
  he_incarnation :: u32
  he_execution_config_hash :: "u8 list"
  he_last_sequence :: u64

datatype attach_request =
    HelloMessage hello
  | ObservationMessage supervisor_observation

record welcome_message =
  wl_execution_configuration :: execution_configuration
  wl_committed_sequence :: u64

record link_command =
  lc_kind :: string
  lc_payload :: "u8 list"

record attach_response =
  at_welcome :: "welcome_message option"
  at_command :: "link_command option"
  at_acknowledgement :: "u64 option"

definition acknowledged :: "u64 \<Rightarrow> attach_response" where
  "acknowledged n = \<lparr>at_welcome = None, at_command = None, at_acknowledgement = Some n\<rparr>"

definition commanded :: "link_command \<Rightarrow> attach_response" where
  "commanded c = \<lparr>at_welcome = None, at_command = Some c, at_acknowledgement = None\<rparr>"

definition welcomed :: "welcome_message \<Rightarrow> attach_response" where
  "welcomed wl = \<lparr>at_welcome = Some wl, at_command = None, at_acknowledgement = None\<rparr>"

section \<open>The supervisor's end\<close>

text \<open>
  \<open>Returned\<close> and \<open>GaveUp\<close> are the two ways the task ends: \<open>Ok\<close>, and an error passed on by \<open>?\<close>,
  which ends the loop that would reconnect.
\<close>

datatype link_phase = Connecting | Attaching | Attached | Returned | GaveUp

record link =
  lk_phase :: link_phase
  lk_recovery :: runtime_recovery
  lk_sent_sequence :: u64
  lk_terminal_sequence :: "u64 option"
  lk_observations_open :: bool
  lk_stop :: bool
  lk_policy :: "policy_update option"

definition hello_of :: "execution_configuration \<Rightarrow> supervisor_identity \<Rightarrow> runtime_recovery \<Rightarrow> hello" where
  "hello_of c identity r = \<lparr>
     he_manager_session_id = ec_manager_session_id c,
     he_workload_id = ec_workload_id c,
     he_execution_id = ec_execution_id c,
     he_supervisor_id = si_id identity,
     he_incarnation = si_incarnation identity,
     he_execution_config_hash = ec_execution_config_hash c,
     he_last_sequence = rr_last_sequence r\<rparr>"

definition send_observation :: "runtime_observation \<Rightarrow> attach_request" where
  "send_observation ob = ObservationMessage \<lparr>
     so_sequence = ro_sequence ob,
     so_kind = ro_kind ob,
     so_exit_code = ro_exit_code ob,
     so_detail = ro_detail ob,
     so_attempt = ro_attempt ob,
     so_workload_process_id = ro_workload_process_id ob\<rparr>"

text \<open>What the link notes of an observation that it has sent.\<close>

definition note_sent :: "runtime_observation \<Rightarrow> link \<Rightarrow> link" where
  "note_sent ob l = l\<lparr>lk_sent_sequence := ro_sequence ob,
     lk_terminal_sequence := (if ro_terminal ob then Some (ro_sequence ob) else lk_terminal_sequence l)\<rparr>"

text \<open>A connection is there: the recovery is read again and \<open>Hello\<close> sent.\<close>

definition link_connected ::
  "execution_configuration \<Rightarrow> supervisor_identity \<Rightarrow> runtime_journal \<Rightarrow> link \<Rightarrow> link \<times> attach_request list"
where
  "link_connected c identity j l =
     (l\<lparr>lk_phase := Attaching, lk_recovery := recovery j\<rparr>, [HelloMessage (hello_of c identity (recovery j))])"

text \<open>The first response: acknowledge what the controller has and replay the rest.\<close>

definition link_welcomed ::
  "codec \<Rightarrow> attach_response \<Rightarrow> runtime_journal \<times> link \<Rightarrow>
   journal_error + (runtime_journal \<times> link) \<times> attach_request list"
where
  "link_welcomed c response = (\<lambda>(j, l).
     case at_welcome response of
       None \<Rightarrow> Inr ((j, l\<lparr>lk_phase := Connecting\<rparr>), [])
     | Some wl \<Rightarrow>
         let committed = wl_committed_sequence wl in
         and_then (if rr_committed_sequence (lk_recovery l) < committed then acknowledge c j committed else Inr j) (\<lambda>j.
         let replay = observations_after j committed;
             l = l\<lparr>lk_phase := Attached, lk_sent_sequence := committed, lk_terminal_sequence := None,
               lk_observations_open := True\<rparr>
         in Inr ((j, fold note_sent replay l), map send_observation replay)))"

definition obey :: "(u8 list \<Rightarrow> policy_update option) \<Rightarrow> link_command \<Rightarrow> link \<Rightarrow> link" where
  "obey decode_policy command l =
     (if lc_kind command = ''stop'' \<or> lc_kind command = ''session-ending'' then l\<lparr>lk_stop := True\<rparr>
      else if lc_kind command = ''update-policy''
      then
        (case decode_policy (lc_payload command) of
           Some update \<Rightarrow> l\<lparr>lk_policy := Some update\<rparr>
         | None \<Rightarrow> l)
      else l)"

definition link_response ::
  "codec \<Rightarrow> (u8 list \<Rightarrow> policy_update option) \<Rightarrow> attach_response \<Rightarrow> runtime_journal \<times> link \<Rightarrow>
   journal_error + runtime_journal \<times> link"
where
  "link_response c decode_policy response = (\<lambda>(j, l).
     let l = (case at_command response of Some command \<Rightarrow> obey decode_policy command l | None \<Rightarrow> l) in
     case at_acknowledgement response of
       None \<Rightarrow> Inr (j, l)
     | Some committed \<Rightarrow>
         and_then (acknowledge c j committed) (\<lambda>j.
           case lk_terminal_sequence l of
             Some terminal \<Rightarrow> if terminal \<le> committed then Inr (j, l\<lparr>lk_phase := Returned\<rparr>) else Inr (j, l)
           | None \<Rightarrow> Inr (j, l)))"

definition last_terminal :: "runtime_journal \<Rightarrow> u64 option" where
  "last_terminal j = map_option ro_sequence (find ro_terminal (rev (observations_after j 0)))"

definition live_closed :: "runtime_journal \<Rightarrow> link \<Rightarrow> link" where
  "live_closed j l = l\<lparr>lk_observations_open := False,
     lk_terminal_sequence :=
       (case lk_terminal_sequence l of None \<Rightarrow> last_terminal j | Some t \<Rightarrow> Some t)\<rparr>"

definition live_observation :: "runtime_observation \<Rightarrow> link \<Rightarrow> link \<times> attach_request list" where
  "live_observation ob l =
     (if ro_sequence ob \<le> lk_sent_sequence l then (l, [])
      else (note_sent ob l, [send_observation ob]))"

section \<open>The controller's end\<close>

datatype status_code =
    Unauthenticated
  | InvalidArgument
  | NotFoundCode
  | FailedPrecondition
  | AlreadyExists
  | Internal
  | Cancelled

definition supervisor_map_error :: "manager_error \<Rightarrow> status_code" where
  "supervisor_map_error e =
     (case e of
        NotFound _ \<Rightarrow> NotFoundCode
      | DefinitionMissing _ \<Rightarrow> FailedPrecondition
      | WrongKind _ _ _ \<Rightarrow> FailedPrecondition
      | KindChangeActive _ \<Rightarrow> FailedPrecondition
      | SupervisorIdentityMismatch \<Rightarrow> FailedPrecondition
      | SessionEnding \<Rightarrow> FailedPrecondition
      | AlreadyActive _ \<Rightarrow> AlreadyExists
      | ConfigError _ \<Rightarrow> Internal
      | StorageFailed _ \<Rightarrow> Internal
      | DecodeError _ \<Rightarrow> Internal
      | ManagerIo _ _ \<Rightarrow> Internal
      | InvalidSystemTime \<Rightarrow> Internal)"

text \<open>The caller of a pipe, when the transport has identified it: its process id.\<close>

type_synonym caller = "u32 option"

text \<open>
  Attaching: \<open>Inr\<close> carries the welcome and the names the task keeps. A manager that is cut short
  does not answer.
\<close>

definition attach ::
  "manager_world \<Rightarrow> (string \<Rightarrow> bool) \<Rightarrow> manager_input \<Rightarrow> caller \<Rightarrow> attach_request option \<Rightarrow> manager \<Rightarrow>
   (status_code + attach_response \<times> string \<times> string) \<times> manager"
where
  "attach w uuid_ok i caller first m =
     (case caller of
        None \<Rightarrow> (Inl Unauthenticated, m)
      | Some process_id \<Rightarrow>
          (case first of
             None \<Rightarrow> (Inl InvalidArgument, m)
           | Some (ObservationMessage _) \<Rightarrow> (Inl InvalidArgument, m)
           | Some (HelloMessage h) \<Rightarrow>
               if \<not> uuid_ok (he_execution_id h) then (Inl InvalidArgument, m)
               else
                 (case attach_supervisor w i (he_execution_id h) (he_workload_id h)
                     (he_manager_session_id h) (he_execution_config_hash h) process_id m of
                    (Done a, m) \<Rightarrow>
                      (Inr (welcomed \<lparr>wl_execution_configuration = sa_configuration a,
                          wl_committed_sequence = sa_committed_sequence a\<rparr>,
                        he_execution_id h, sa_attachment_id a), m)
                  | (Failed e, m) \<Rightarrow> (Inl (supervisor_map_error e), m)
                  | (Pending, m) \<Rightarrow> (Inl Cancelled, m))))"

text \<open>One inbound message of the task: the response, or the status that ends the stream.\<close>

definition serve_message ::
  "manager_world \<Rightarrow> manager_input \<Rightarrow> string \<Rightarrow> attach_request \<Rightarrow> manager \<Rightarrow>
   (status_code + attach_response option) \<times> manager"
where
  "serve_message w i execution_id message m =
     (case message of
        HelloMessage _ \<Rightarrow> (Inr None, m)
      | ObservationMessage ob \<Rightarrow>
          if so_kind ob \<notin> set observation_kinds then (Inl InvalidArgument, m)
          else
            (case record_supervisor_observation w i execution_id ob m of
               (Done _, m) \<Rightarrow> (Inr (Some (acknowledged (so_sequence ob))), m)
             | (Failed e, m) \<Rightarrow> (Inl (supervisor_map_error e), m)
             | (Pending, m) \<Rightarrow> (Inl Cancelled, m)))"

definition serve_command :: "link_command \<Rightarrow> attach_response" where
  "serve_command command = commanded command"

text \<open>The end of the task.\<close>

definition serve_end :: "string \<Rightarrow> string \<Rightarrow> manager \<Rightarrow> manager" where
  "serve_end execution_id attachment_id m = snd (supervisor_disconnected execution_id attachment_id m)"

end
