(* ===== verification/Delivery.thy ===== *)
theory Delivery
  imports Supervisor_Link
begin

text \<open>
  The two ends of \<open>Supervisor_Link\<close> put together: the runner that writes observations, the link,
  the messages in flight, and the controller, whose store is behind an interface. Connections are
  lost at any point, the controller and the supervisor restart at any point, and the task of a
  lost stream may go on with messages it had already received.
\<close>

section \<open>The controller as a service\<close>

text \<open>
  What a supervisor can ask of the controller: to attach, with the welcome if it is accepted, and
  to take a message, with the response if the stream goes on. \<open>'i\<close> is the input of a call.
\<close>

record ('i, 's) service =
  sv_attach :: "'i \<Rightarrow> attach_request \<Rightarrow> 's \<Rightarrow> attach_response option \<times> 's"
  sv_serve :: "'i \<Rightarrow> attach_request \<Rightarrow> 's \<Rightarrow> attach_response option option \<times> 's"

definition manager_service ::
  "manager_world \<Rightarrow> (string \<Rightarrow> bool) \<Rightarrow> string \<Rightarrow> (manager_input \<times> caller, manager) service"
where
  "manager_service w uuid_ok execution_id = \<lparr>
     sv_attach = (\<lambda>(i, caller) message m.
       case attach w uuid_ok i caller (Some message) m of
         (Inr (response, attached, _), m) \<Rightarrow> (if attached = execution_id then Some response else None, m)
       | (Inl _, m) \<Rightarrow> (None, m)),
     sv_serve = (\<lambda>(i, caller) message m.
       case serve_message w i execution_id message m of
         (Inr response, m) \<Rightarrow> (Some response, m)
       | (Inl _, m) \<Rightarrow> (None, m))\<rparr>"

section \<open>The system\<close>

record supervisor_end =
  sn_codec :: codec
  sn_configuration :: execution_configuration
  sn_identity :: supervisor_identity
  sn_decode_policy :: "u8 list \<Rightarrow> policy_update option"

text \<open>
  \<open>dl_live\<close> is the channel from the runner to the link, \<open>dl_running\<close> whether the runner still has
  its end; \<open>dl_up\<close> and \<open>dl_down\<close> are the streams, \<open>dl_stale\<close> what lost streams had brought to the
  controller, \<open>dl_task\<close> is its task for the stream. \<open>dl_applied\<close> is what the store took.
\<close>

text \<open>The task waits for the hello, serves, or is not there (any more).\<close>

datatype stream_task = Greeting | Serving | Ended

record 's delivery =
  dl_journal :: runtime_journal
  dl_sequence :: u64
  dl_running :: bool
  dl_live :: "runtime_observation list"
  dl_link :: link
  dl_up :: "attach_request list"
  dl_down :: "attach_response list"
  dl_task :: stream_task
  dl_stale :: "attach_request list list"
  dl_store :: 's
  dl_applied :: "attach_request list"

datatype ('i, 's) delivery_event =
    Observed runtime_observation
  | Checkpointed checkpoint
  | RunnerEnded
  | Connected
  | Accepted 'i
  | Welcomed
  | Served 'i
  | ServedStale nat 'i
  | Commanded link_command
  | Responded
  | Sending
  | LiveEnded
  | Lost bool
  | SupervisorRestarted
  | ControllerRestarted
  | Elsewhere 's

definition fresh_link :: link where
  "fresh_link = \<lparr>lk_phase = Connecting,
     lk_recovery = \<lparr>rr_checkpoint = None, rr_last_sequence = 0, rr_committed_sequence = 0\<rparr>,
     lk_sent_sequence = 0, lk_terminal_sequence = None, lk_observations_open = True,
     lk_stop = False, lk_policy = None\<rparr>"

text \<open>The messages of the stream that its task may go on with when the stream is lost.\<close>

definition left_over :: "'s delivery \<Rightarrow> attach_request list list" where
  "left_over s = (if dl_task s = Ended then dl_stale s else dl_up s # dl_stale s)"

text \<open>A supervisor starts on a journal, also the second time: it counts on from what it finds.\<close>

definition supervisor_started :: "'s delivery \<Rightarrow> 's delivery" where
  "supervisor_started s = s\<lparr>dl_sequence := rr_last_sequence (recovery (dl_journal s)), dl_running := True,
     dl_live := [], dl_link := fresh_link, dl_up := [], dl_down := [], dl_task := Ended,
     dl_stale := left_over s\<rparr>"

definition delivery_start :: "'s \<Rightarrow> 's delivery" where
  "delivery_start store = \<lparr>
     dl_journal = \<lparr>rj_disk = [], rj_open = True, rj_frames = []\<rparr>, dl_sequence = 0, dl_running = True,
     dl_live = [], dl_link = fresh_link, dl_up = [], dl_down = [], dl_task = Ended, dl_stale = [],
     dl_store = store, dl_applied = []\<rparr>"

text \<open>The runner writes an observation (\<open>Runner\<close>): the journal first, then the channel.\<close>

definition observed :: "codec \<Rightarrow> runtime_observation \<Rightarrow> 's delivery \<Rightarrow> 's delivery option" where
  "observed c ob s =
     (let sequence = saturating_add (dl_sequence s) 1; ob = ob\<lparr>ro_sequence := sequence\<rparr> in
      if \<not> dl_running s then None
      else
        (case append_observation c (dl_journal s) ob of
           Inl _ \<Rightarrow> None
         | Inr j \<Rightarrow> Some (s\<lparr>dl_journal := j, dl_sequence := sequence, dl_live := dl_live s @ [ob]\<rparr>)))"

text \<open>A checkpoint carries a committed sequence that the journal had when the runner started.\<close>

definition checkpointed :: "codec \<Rightarrow> checkpoint \<Rightarrow> 's delivery \<Rightarrow> 's delivery option" where
  "checkpointed c cp s =
     (if rr_committed_sequence (recovery (dl_journal s)) < cp_committed_sequence cp then None
      else
        (case append_checkpoint c (dl_journal s) cp of
           Inl _ \<Rightarrow> None
         | Inr j \<Rightarrow> Some (s\<lparr>dl_journal := j\<rparr>)))"

definition link_fails :: "'s delivery \<Rightarrow> 's delivery" where
  "link_fails s = s\<lparr>dl_link := (dl_link s)\<lparr>lk_phase := GaveUp\<rparr>\<rparr>"

text \<open>The stream is gone; what the controller had received of it stays with its task.\<close>

definition stream_lost :: "link_phase \<Rightarrow> 's delivery \<Rightarrow> 's delivery" where
  "stream_lost phase s = s\<lparr>dl_link := (dl_link s)\<lparr>lk_phase := phase\<rparr>, dl_up := [], dl_down := [],
     dl_task := Ended, dl_stale := left_over s\<rparr>"

definition store_served :: "('s \<Rightarrow> nat) \<Rightarrow> attach_request \<Rightarrow> 's \<Rightarrow> 's delivery \<Rightarrow> 's delivery" where
  "store_served committed message store s = s\<lparr>dl_store := store,
     dl_applied := (if committed (dl_store s) < committed store then dl_applied s @ [message] else dl_applied s)\<rparr>"

text \<open>An attachment that is refused is tried again.\<close>

definition refused :: "link \<Rightarrow> link" where
  "refused l = (if lk_phase l = Attaching then l\<lparr>lk_phase := Connecting\<rparr> else l)"

definition accepted :: "('i, 's) service \<Rightarrow> 'i \<Rightarrow> 's delivery \<Rightarrow> 's delivery option" where
  "accepted sv i s =
     (case dl_up s of
        HelloMessage h # rest \<Rightarrow>
          if dl_task s \<noteq> Greeting then None
          else
            (case sv_attach sv i (HelloMessage h) (dl_store s) of
               (Some response, store) \<Rightarrow>
                 Some (s\<lparr>dl_store := store, dl_up := rest, dl_down := dl_down s @ [response], dl_task := Serving\<rparr>)
             | (None, store) \<Rightarrow>
                 Some (s\<lparr>dl_store := store, dl_up := [], dl_down := [], dl_task := Ended,
                   dl_link := refused (dl_link s)\<rparr>))
      | _ \<Rightarrow> None)"

definition served :: "('i, 's) service \<Rightarrow> ('s \<Rightarrow> nat) \<Rightarrow> 'i \<Rightarrow> 's delivery \<Rightarrow> 's delivery option" where
  "served sv committed i s =
     (case dl_up s of
        ObservationMessage ob # rest \<Rightarrow>
          if dl_task s \<noteq> Serving then None
          else
            (case sv_serve sv i (ObservationMessage ob) (dl_store s) of
               (Some response, store) \<Rightarrow>
                 Some ((store_served committed (ObservationMessage ob) store s)\<lparr>dl_up := rest,
                   dl_down := dl_down s @ (case response of Some r \<Rightarrow> [r] | None \<Rightarrow> [])\<rparr>)
             | (None, store) \<Rightarrow>
                 Some ((store_served committed (ObservationMessage ob) store s)\<lparr>dl_up := [], dl_task := Ended\<rparr>))
      | _ \<Rightarrow> None)"

definition served_stale ::
  "('i, 's) service \<Rightarrow> ('s \<Rightarrow> nat) \<Rightarrow> nat \<Rightarrow> 'i \<Rightarrow> 's delivery \<Rightarrow> 's delivery option"
where
  "served_stale sv committed k i s =
     (if length (dl_stale s) \<le> k then None
      else
        (case dl_stale s ! k of
           [] \<Rightarrow> None
         | HelloMessage h # rest \<Rightarrow>
             Some (s\<lparr>dl_store := snd (sv_attach sv i (HelloMessage h) (dl_store s)), dl_stale := (dl_stale s)[k := rest]\<rparr>)
         | ObservationMessage ob # rest \<Rightarrow>
             (case sv_serve sv i (ObservationMessage ob) (dl_store s) of
                (Some response, store) \<Rightarrow>
                  Some ((store_served committed (ObservationMessage ob) store s)\<lparr>dl_stale := (dl_stale s)[k := rest]\<rparr>)
              | (None, store) \<Rightarrow>
                  Some ((store_served committed (ObservationMessage ob) store s)\<lparr>dl_stale := (dl_stale s)[k := []]\<rparr>))))"

definition welcomed_by :: "codec \<Rightarrow> 's delivery \<Rightarrow> 's delivery option" where
  "welcomed_by c s =
     (case dl_down s of
        response # rest \<Rightarrow>
          if lk_phase (dl_link s) \<noteq> Attaching then None
          else
            (case link_welcomed c response (dl_journal s, dl_link s) of
               Inl _ \<Rightarrow> Some (link_fails s)
             | Inr ((j, l), messages) \<Rightarrow>
                 if lk_phase l = Attached
                 then Some (s\<lparr>dl_journal := j, dl_link := l, dl_up := dl_up s @ messages, dl_down := rest\<rparr>)
                 else Some (stream_lost Connecting s))
      | [] \<Rightarrow> None)"

definition responded :: "supervisor_end \<Rightarrow> 's delivery \<Rightarrow> 's delivery option" where
  "responded e s =
     (case dl_down s of
        response # rest \<Rightarrow>
          if lk_phase (dl_link s) \<noteq> Attached then None
          else
            (case link_response (sn_codec e) (sn_decode_policy e) response (dl_journal s, dl_link s) of
               Inl _ \<Rightarrow> Some (link_fails s)
             | Inr (j, l) \<Rightarrow> Some (s\<lparr>dl_journal := j, dl_link := l, dl_down := rest\<rparr>))
      | [] \<Rightarrow> None)"

definition sending :: "'s delivery \<Rightarrow> 's delivery option" where
  "sending s =
     (case dl_live s of
        ob # rest \<Rightarrow>
          if lk_phase (dl_link s) \<noteq> Attached then None
          else
            (let (l, messages) = live_observation ob (dl_link s) in
             Some (s\<lparr>dl_live := rest, dl_link := l, dl_up := dl_up s @ messages\<rparr>))
      | [] \<Rightarrow> None)"

definition live_ended :: "'s delivery \<Rightarrow> 's delivery option" where
  "live_ended s =
     (if dl_running s \<or> dl_live s \<noteq> [] \<or> lk_phase (dl_link s) \<noteq> Attached \<or>
        \<not> lk_observations_open (dl_link s)
      then None else Some (s\<lparr>dl_link := live_closed (dl_journal s) (dl_link s)\<rparr>))"

fun connected :: "supervisor_end \<Rightarrow> 's delivery \<Rightarrow> 's delivery option" where
  "connected e s =
     (if lk_phase (dl_link s) \<noteq> Connecting then None
      else
        (let (l, messages) = link_connected (sn_configuration e) (sn_identity e) (dl_journal s) (dl_link s) in
         Some (s\<lparr>dl_link := l, dl_up := messages, dl_down := [], dl_task := Greeting\<rparr>)))"

fun deliver ::
  "supervisor_end \<Rightarrow> ('i, 's) service \<Rightarrow> ('s \<Rightarrow> nat) \<Rightarrow> ('i, 's) delivery_event \<Rightarrow> 's delivery \<Rightarrow> 's delivery option"
where
  "deliver e sv committed (Observed ob) s = observed (sn_codec e) ob s"
| "deliver e sv committed (Checkpointed cp) s = checkpointed (sn_codec e) cp s"
| "deliver e sv committed RunnerEnded s = Some (s\<lparr>dl_running := False\<rparr>)"
| "deliver e sv committed Connected s = connected e s"
| "deliver e sv committed (Accepted i) s = accepted sv i s"
| "deliver e sv committed Welcomed s = welcomed_by (sn_codec e) s"
| "deliver e sv committed (Served i) s = served sv committed i s"
| "deliver e sv committed (ServedStale k i) s = served_stale sv committed k i s"
| "deliver e sv committed (Commanded command) s =
     (if dl_task s = Serving then Some (s\<lparr>dl_down := dl_down s @ [serve_command command]\<rparr>) else None)"
| "deliver e sv committed Responded s = responded e s"
| "deliver e sv committed Sending s = sending s"
| "deliver e sv committed LiveEnded s = live_ended s"
| "deliver e sv committed (Lost noticed) s =
     (if lk_phase (dl_link s) = Attaching \<or> lk_phase (dl_link s) = Attached
      then Some (stream_lost (if noticed then Connecting else GaveUp) s) else None)"
| "deliver e sv committed SupervisorRestarted s = Some (supervisor_started s)"
| "deliver e sv committed ControllerRestarted s =
     Some ((stream_lost (if lk_phase (dl_link s) = Returned \<or> lk_phase (dl_link s) = GaveUp
       then lk_phase (dl_link s) else Connecting) s)\<lparr>dl_stale := []\<rparr>)"
| "deliver e sv committed (Elsewhere store) s =
     (if committed store = committed (dl_store s) then Some (s\<lparr>dl_store := store\<rparr>) else None)"

fun deliver_all ::
  "supervisor_end \<Rightarrow> ('i, 's) service \<Rightarrow> ('s \<Rightarrow> nat) \<Rightarrow> ('i, 's) delivery_event list \<Rightarrow> 's delivery \<Rightarrow> 's delivery option"
where
  "deliver_all e sv committed [] s = Some s"
| "deliver_all e sv committed (ev # evs) s =
     Option.bind (deliver e sv committed ev s) (deliver_all e sv committed evs)"

end
