(* ===== verification/Delivery_Safety.thy ===== *)
theory Delivery_Safety
  imports Delivery
begin

text \<open>
  What holds in every state of \<open>Delivery\<close>: the journal numbers its observations without a gap, every
  stream carries a contiguous part of it that starts at or below what is committed, and what the
  store has applied is the part of the journal that is committed.
\<close>

section \<open>Numbered observations\<close>

definition recorded :: "runtime_journal \<Rightarrow> runtime_observation list" where
  "recorded j = List.map_filter (frame_observation \<circ> rf_record) (rj_frames j)"

definition numbered :: "runtime_observation list \<Rightarrow> bool" where
  "numbered obs \<longleftrightarrow> map (\<lambda>ob. unat (ro_sequence ob)) obs = [1..<Suc (length obs)]"

lemma numbered_nth: "numbered obs \<Longrightarrow> k < length obs \<Longrightarrow> unat (ro_sequence (obs ! k)) = Suc k"
  unfolding numbered_def by (drule arg_cong [where f = "\<lambda>xs. xs ! k"]) (simp del: upt_Suc)

lemma numbered_snoc: "numbered obs \<Longrightarrow> unat (ro_sequence ob) = Suc (length obs) \<Longrightarrow> numbered (obs @ [ob])"
  by (simp add: numbered_def)

lemma filter_upt: "map f xs = [a..<b] \<Longrightarrow> filter (\<lambda>x. k \<le> f x) xs = drop (k - a) xs"
proof (induction xs arbitrary: a)
  case (Cons x xs)
  have "a < b" using Cons.prems by (cases "a < b") simp_all
  then have a: "a < b" "f x = a" "map f xs = [Suc a..<b]"
    using Cons.prems by (simp_all add: upt_conv_Cons)
  show ?case
  proof (cases "k \<le> a")
    case True
    moreover have "filter (\<lambda>x. k \<le> f x) xs = xs"
      using a(3) True by (intro filter_True ballI) (metis atLeastLessThan_iff imageI le_trans Suc_leD set_map set_upt)
    ultimately show ?thesis using a by simp
  next
    case False
    then show ?thesis using Cons.IH [OF a(3)] a(2) by (simp add: Suc_diff_le not_le drop_Cons' )
  qed
qed simp

lemma observations_after_drop:
  assumes "numbered (recorded j)"
  shows "observations_after j k = drop (unat k) (recorded j)"
proof -
  have "observations_after j k = filter (\<lambda>ob. Suc (unat k) \<le> unat (ro_sequence ob)) (recorded j)"
    by (simp add: observations_after_def recorded_def word_less_nat_alt Suc_le_eq)
  also have "\<dots> = drop (Suc (unat k) - 1) (recorded j)"
    using assms unfolding numbered_def by (rule filter_upt)
  finally show ?thesis by simp
qed

section \<open>What a journal says after an append\<close>

lemma journal_append_sel:
  "journal_append c j f = Inr j' \<Longrightarrow> rj_frames j' = rj_frames j @ [f] \<and> rj_open j' = rj_open j"
  by (auto simp: journal_append_def split: if_splits)

lemma foldr_max_append: "foldr max (xs @ [x]) (0 :: u64) = max (foldr max xs 0) x"
  by (induction xs) (simp_all add: max.assoc)

lemma max_or_zero_snoc: "max_or_zero (xs @ [x]) = max (max_or_zero xs) x"
  unfolding max_or_zero_def by (rule foldr_max_append)

lemma append_observation_recorded:
  assumes "append_observation c j ob = Inr j'"
  shows "recorded j' = recorded j @ [ob]"
    and "rr_committed_sequence (recovery j') = rr_committed_sequence (recovery j)"
  using journal_append_sel [OF assms [unfolded append_observation_def]]
  by (simp_all add: recorded_def recovery_def)

lemma append_checkpoint_recorded:
  assumes "append_checkpoint c j cp = Inr j'"
  shows "recorded j' = recorded j"
    and "rr_committed_sequence (recovery j') =
      max (rr_committed_sequence (recovery j)) (cp_committed_sequence cp)"
  using journal_append_sel [OF assms [unfolded append_checkpoint_def]]
  by (simp_all add: recorded_def recovery_def max_or_zero_snoc)

lemma acknowledge_recorded:
  assumes "acknowledge c j k = Inr j'"
  shows "recorded j' = recorded j"
    and "rr_committed_sequence (recovery j') = max (rr_committed_sequence (recovery j)) k"
  using journal_append_sel [OF assms [unfolded acknowledge_def]]
  by (simp_all add: recorded_def recovery_def max_or_zero_snoc)

lemma max_or_zero_numbered:
  "map unat ws = [1..<Suc n] \<Longrightarrow> unat (max_or_zero ws) = n"
proof (induction n arbitrary: ws)
  case 0
  then show ?case by (simp add: max_or_zero_def)
next
  case (Suc n)
  from Suc.prems obtain us w where ws: "ws = us @ [w]" "map unat us = [1..<Suc n]" "unat w = Suc n"
    by (cases ws rule: rev_cases) auto
  have "unat (max_or_zero us) = n" using Suc.IH ws(2) by simp
  then have "max_or_zero us \<le> w" using ws(3) by (simp add: word_le_nat_alt)
  then show ?case using ws by (simp add: max_or_zero_snoc max_absorb2)
qed

lemma last_sequence_numbered:
  assumes "numbered (recorded j)"
  shows "unat (rr_last_sequence (recovery j)) = length (recorded j)"
proof -
  have "List.map_filter (frame_sequence \<circ> rf_record) fs = map ro_sequence (List.map_filter (frame_observation \<circ> rf_record) fs)"
    for fs :: "runtime_frame list"
  proof (induction fs)
    case (Cons f fs)
    show ?case by (cases "rf_record f" rule: frame_sequence.cases) (use Cons in \<open>simp_all add: map_filter_simps\<close>)
  qed (simp add: map_filter_simps)
  then have "rr_last_sequence (recovery j) = max_or_zero (map ro_sequence (recorded j))"
    unfolding recovery_def recorded_def by (simp only: runtime_recovery.select_convs)
  moreover have "map unat (map ro_sequence (recorded j)) = [1..<Suc (length (recorded j))]"
    using assms by (simp add: numbered_def comp_def del: upt_Suc)
  ultimately show ?thesis by (simp only: max_or_zero_numbered)
qed

section \<open>Streams\<close>

definition segment :: "runtime_observation list \<Rightarrow> nat \<Rightarrow> nat \<Rightarrow> attach_request list" where
  "segment obs a b = map send_observation (take (b - a) (drop a obs))"

lemma segment_empty: "segment obs a a = []"
  by (simp add: segment_def)

lemma segment_append: "b \<le> length obs \<Longrightarrow> segment (obs @ new_obs) a b = segment obs a b"
  by (cases "a \<le> length obs") (auto simp: segment_def)

lemma segment_Cons:
  assumes "segment obs a b = x # rest" and "b \<le> length obs"
  shows "a < b \<and> x = send_observation (obs ! a) \<and> rest = segment obs (Suc a) b"
proof -
  have "a < b" using assms(1) by (cases "a < b") (simp_all add: segment_def)
  then have "drop a obs = obs ! a # drop (Suc a) obs" "b - a = Suc (b - Suc a)"
    using assms(2) by (simp_all add: Cons_nth_drop_Suc)
  then show ?thesis using assms(1) \<open>a < b\<close> by (simp add: segment_def)
qed

lemma segment_snoc: "a \<le> b \<Longrightarrow> b < length obs \<Longrightarrow> segment obs a (Suc b) = segment obs a b @ [send_observation (obs ! b)]"
  by (simp add: segment_def Suc_diff_le take_Suc_conv_app_nth)

lemma segment_drop: "map send_observation (drop a obs) = segment obs a (length obs)"
  by (simp add: segment_def)

lemma segment_length: "a \<le> b \<Longrightarrow> b \<le> length obs \<Longrightarrow> length (segment obs a b) = b - a"
  by (simp add: segment_def)

lemma send_observation_not_hello: "send_observation ob \<noteq> HelloMessage h"
  by (simp add: send_observation_def)

lemma segment_not_hello: "HelloMessage h \<notin> set (segment obs a b)"
  by (auto simp: segment_def send_observation_def)

text \<open>A stream at the controller: a hello, or observations from at most the committed one on.\<close>

definition stream_ok :: "runtime_observation list \<Rightarrow> nat \<Rightarrow> attach_request list \<Rightarrow> bool" where
  "stream_ok obs k q \<longleftrightarrow> (\<exists>h. q = [HelloMessage h]) \<or> (\<exists>a b. a \<le> k \<and> b \<le> length obs \<and> q = segment obs a b)"

lemma stream_ok_Nil: "stream_ok obs k []"
  unfolding stream_ok_def by (metis le0 segment_empty)

lemma stream_ok_hello: "stream_ok obs k [HelloMessage h]"
  by (auto simp: stream_ok_def)

lemma stream_ok_hello_rest: "stream_ok obs k (HelloMessage h # rest) \<Longrightarrow> rest = []"
  unfolding stream_ok_def using segment_not_hello by (metis list.inject list.set_intros(1))

lemma stream_ok_mono: "stream_ok obs k q \<Longrightarrow> k \<le> k' \<Longrightarrow> stream_ok obs k' q"
  unfolding stream_ok_def using le_trans by blast

lemma stream_ok_append: "stream_ok obs k q \<Longrightarrow> stream_ok (obs @ new_obs) k q"
  unfolding stream_ok_def using segment_append by (metis length_append trans_le_add1)

text \<open>The observation at the head of a stream is the next one or has been committed.\<close>

lemma stream_ok_head:
  assumes "stream_ok obs k (ObservationMessage ob # rest)" and "numbered obs"
  shows "\<exists>a. a \<le> k \<and> a < length obs \<and> ObservationMessage ob = send_observation (obs ! a) \<and>
    unat (so_sequence ob) = Suc a \<and> (\<forall>k'. Suc a \<le> k' \<longrightarrow> stream_ok obs k' rest)"
proof -
  obtain a b where ab: "a \<le> k" "b \<le> length obs" "segment obs a b = ObservationMessage ob # rest"
    using assms(1) unfolding stream_ok_def by auto
  have s: "a < b" "ObservationMessage ob = send_observation (obs ! a)" "rest = segment obs (Suc a) b"
    using segment_Cons [OF ab(3,2)] by simp_all
  have "so_sequence ob = ro_sequence (obs ! a)" using s(2) by (simp add: send_observation_def)
  then have "unat (so_sequence ob) = Suc a" using numbered_nth [OF assms(2)] s(1) ab(2) by simp
  moreover have "stream_ok obs k' rest" if "Suc a \<le> k'" for k'
    using that s(3) ab(2) unfolding stream_ok_def by blast
  moreover have "a < length obs" using s(1) ab(2) by simp
  ultimately show ?thesis using s(2) ab(1) by blast
qed

section \<open>Interface: a store of observations\<close>

text \<open>
  What a supervisor relies on in the controller: it is told what is committed, an acknowledged
  observation is committed, and only the next one raises what is committed, by one.
\<close>

locale observation_service =
  fixes sv :: "('i, 's) service"
    and committed :: "'s \<Rightarrow> nat"
  assumes attach_welcome: "sv_attach sv i (HelloMessage h) s = (Some r, s') \<Longrightarrow>
      \<exists>wl. r = welcomed wl \<and> unat (wl_committed_sequence wl) = committed s"
    and attach_committed: "sv_attach sv i (HelloMessage h) s = (x, s') \<Longrightarrow> committed s' = committed s"
    and serve_response: "sv_serve sv i (ObservationMessage ob) s = (Some x, s') \<Longrightarrow>
      x = Some (acknowledged (so_sequence ob)) \<and> unat (so_sequence ob) \<le> committed s'"
    and serve_committed: "sv_serve sv i (ObservationMessage ob) s = (y, s') \<Longrightarrow>
      committed s' = committed s \<or> (committed s' = Suc (committed s) \<and> unat (so_sequence ob) = committed s')"

section \<open>The invariant\<close>

definition pending_from :: "runtime_observation list \<Rightarrow> runtime_observation list \<Rightarrow> nat \<Rightarrow> bool" where
  "pending_from obs live b \<longleftrightarrow> b \<le> length obs \<and> live = drop b obs"

lemma pending_from_snoc: "pending_from obs live b \<Longrightarrow> pending_from (obs @ [ob]) (live @ [ob]) b"
  by (simp add: pending_from_def)

lemma pending_from_Cons:
  "pending_from obs (ob # live) b \<Longrightarrow> b < length obs \<and> ob = obs ! b \<and> pending_from obs live (Suc b)"
  unfolding pending_from_def
  by (cases "b < length obs") (simp_all add: Cons_nth_drop_Suc [symmetric])

lemma pending_from_Nil: "pending_from obs [] b \<longleftrightarrow> b = length obs"
  by (auto simp: pending_from_def)

definition acks_ok :: "nat \<Rightarrow> attach_response list \<Rightarrow> bool" where
  "acks_ok k down \<longleftrightarrow> (\<forall>r \<in> set down. \<forall>x. at_acknowledgement r = Some x \<longrightarrow> unat x \<le> k)"

definition journal_committed :: "'s delivery \<Rightarrow> nat" where
  "journal_committed s = unat (rr_committed_sequence (recovery (dl_journal s)))"

definition acked :: "nat \<Rightarrow> nat \<Rightarrow> attach_response list \<Rightarrow> bool" where
  "acked a r down \<longleftrightarrow> a \<le> r \<or> (\<exists>x \<in> set down. \<exists>n. at_acknowledgement x = Some n \<and> a \<le> unat n)"

text \<open>
  The stream that is served: the controller has taken everything below \<open>a\<close>, and the supervisor
  knows it or an acknowledgement tells it; what it has sent since is in the stream.
\<close>

definition in_flight ::
  "runtime_observation list \<Rightarrow> nat \<Rightarrow> nat \<Rightarrow> nat \<Rightarrow> attach_request list \<Rightarrow> attach_response list \<Rightarrow> bool"
where
  "in_flight obs k sent r up down \<longleftrightarrow>
     (\<exists>a. a \<le> sent \<and> a \<le> k \<and> sent \<le> length obs \<and> up = segment obs a sent \<and> acked a r down)"

lemma in_flight_stream: "in_flight obs k sent r up down \<Longrightarrow> stream_ok obs k up"
  unfolding in_flight_def stream_ok_def by blast

lemma in_flight_append: "in_flight obs k sent r up down \<Longrightarrow> in_flight (obs @ new_obs) k sent r up down"
  unfolding in_flight_def using segment_append by (metis length_append trans_le_add1)

lemma in_flight_mono: "in_flight obs k sent r up down \<Longrightarrow> k \<le> k' \<Longrightarrow> r \<le> r' \<Longrightarrow> in_flight obs k' sent r' up down"
  unfolding in_flight_def acked_def using le_trans by blast

lemma in_flight_sent:
  assumes "in_flight obs k b r up down" and "b < length obs"
  shows "in_flight obs k (Suc b) r (up @ [send_observation (obs ! b)]) down"
  using assms segment_snoc unfolding in_flight_def by (metis Suc_leI le_SucI)

lemma in_flight_response:
  assumes "in_flight obs k sent r up (response # rest)"
    and "case at_acknowledgement response of None \<Rightarrow> r \<le> r' | Some x \<Rightarrow> r \<le> r' \<and> unat x \<le> r'"
  shows "in_flight obs k sent r' up rest"
proof -
  have "acked a r' rest" if "acked a r (response # rest)" for a
    using that assms(2) by (cases "at_acknowledgement response") (auto simp: acked_def)
  then show ?thesis using assms(1) unfolding in_flight_def by blast
qed

lemma in_flight_command:
  "in_flight obs k sent r up down \<Longrightarrow> in_flight obs k sent r up (down @ more_down)"
  unfolding in_flight_def acked_def by auto

lemma in_flight_served:
  assumes "in_flight obs k sent r (ObservationMessage ob # rest) down" and "numbered obs"
    and "unat (so_sequence ob) \<le> k'"
  shows "in_flight obs k' sent r rest (down @ [acknowledged (so_sequence ob)])"
proof -
  obtain a where a: "a \<le> sent" "sent \<le> length obs" "segment obs a sent = ObservationMessage ob # rest"
    using assms(1) unfolding in_flight_def by metis
  have s: "a < sent" "ObservationMessage ob = send_observation (obs ! a)" "rest = segment obs (Suc a) sent"
    using segment_Cons [OF a(3,2)] by simp_all
  have "so_sequence ob = ro_sequence (obs ! a)" using s(2) by (simp add: send_observation_def)
  then have "unat (so_sequence ob) = Suc a" using numbered_nth [OF assms(2)] s(1) a(2) by simp
  then have "acked (Suc a) r (down @ [acknowledged (so_sequence ob)])"
    by (auto simp: acked_def acknowledged_def)
  then show ?thesis using assms(3) s a(2) \<open>unat (so_sequence ob) = Suc a\<close> unfolding in_flight_def
    by (metis Suc_leI)
qed

definition link_ok :: "nat \<Rightarrow> 's delivery \<Rightarrow> bool" where
  "link_ok k s \<longleftrightarrow>
     (let obs = recorded (dl_journal s); sent = unat (lk_sent_sequence (dl_link s)) in
      case lk_phase (dl_link s) of
        Connecting \<Rightarrow> dl_up s = [] \<and> dl_down s = [] \<and> dl_task s = Ended
      | Attaching \<Rightarrow>
          unat (rr_committed_sequence (lk_recovery (dl_link s))) \<le> journal_committed s \<and>
          (case dl_task s of
             Greeting \<Rightarrow> (\<exists>h. dl_up s = [HelloMessage h]) \<and> dl_down s = []
           | Serving \<Rightarrow> dl_up s = [] \<and> (\<exists>wl rest. dl_down s = welcomed wl # rest \<and>
               unat (wl_committed_sequence wl) \<le> k \<and> (\<forall>x \<in> set rest. at_acknowledgement x = None))
           | Ended \<Rightarrow> False)
      | Attached \<Rightarrow>
          sent \<le> length obs \<and> (\<exists>b \<le> sent. pending_from obs (dl_live s) b) \<and> dl_task s \<noteq> Greeting \<and>
          (dl_task s = Serving \<longrightarrow> in_flight obs k sent (journal_committed s) (dl_up s) (dl_down s))
      | Returned \<Rightarrow> dl_task s \<noteq> Greeting
      | GaveUp \<Rightarrow> True)"

lemma link_ok_mono:
  assumes "link_ok k s" and "k \<le> k'"
  shows "link_ok k' s"
proof (cases "lk_phase (dl_link s)")
  case Attaching
  then show ?thesis using assms le_trans
    by (cases "dl_task s") (fastforce simp: link_ok_def Let_def)+
next
  case Attached
  then show ?thesis using assms(1) in_flight_mono [OF _ assms(2) order_refl] by (simp add: link_ok_def Let_def)
qed (use assms(1) in \<open>simp_all add: link_ok_def Let_def\<close>)

definition delivery_ok :: "('s \<Rightarrow> nat) \<Rightarrow> 's delivery \<Rightarrow> bool" where
  "delivery_ok committed s \<longleftrightarrow>
     (let obs = recorded (dl_journal s); k = committed (dl_store s) in
      numbered obs \<and> unat (dl_sequence s) = length obs \<and> k \<le> length obs \<and> journal_committed s \<le> k \<and>
      dl_applied s = segment obs 0 k \<and> (\<exists>b. pending_from obs (dl_live s) b) \<and>
      (dl_task s \<noteq> Ended \<longrightarrow> stream_ok obs k (dl_up s)) \<and> (\<forall>q \<in> set (dl_stale s). stream_ok obs k q) \<and>
      acks_ok k (dl_down s) \<and> link_ok k s)"

lemmas delivery_simps = delivery_ok_def link_ok_def Let_def acks_ok_def journal_committed_def

lemma start_ok: "committed store = 0 \<Longrightarrow> delivery_ok committed (delivery_start store)"
  by (simp add: delivery_simps delivery_start_def fresh_link_def recorded_def numbered_def recovery_def
      map_filter_simps max_or_zero_def segment_empty stream_ok_Nil pending_from_Nil)

lemma observed_ok:
  assumes "delivery_ok committed s" and "observed c ob s = Some s'" and "length (recorded (dl_journal s')) < 2 ^ 63"
  shows "delivery_ok committed s'"
proof -
  let ?ob = "ob\<lparr>ro_sequence := saturating_add (dl_sequence s) 1\<rparr>"
  obtain j where j: "append_observation c (dl_journal s) ?ob = Inr j"
      "s' = s\<lparr>dl_journal := j, dl_sequence := saturating_add (dl_sequence s) 1, dl_live := dl_live s @ [?ob]\<rparr>"
    using assms(2) by (auto simp: observed_def Let_def split: if_split_asm sum.split_asm)
  let ?obs = "recorded (dl_journal s)"
  have r: "recorded j = ?obs @ [?ob]" "rr_committed_sequence (recovery j) = rr_committed_sequence (recovery (dl_journal s))"
    using append_observation_recorded [OF j(1)] by simp_all
  have "unat (dl_sequence s) = length ?obs" using assms(1) by (simp add: delivery_simps)
  then have seq: "unat (saturating_add (dl_sequence s) 1) = Suc (length ?obs)"
    using assms(3) by (simp add: j(2) r(1) unat_saturating_add)
  show ?thesis
    using assms(1) seq
    by (cases "lk_phase (dl_link s)"; cases "dl_task s")
      (auto simp: delivery_simps j(2) r numbered_snoc segment_append stream_ok_append in_flight_append dest: pending_from_snoc)
qed

lemma checkpointed_ok:
  assumes "delivery_ok committed s" and "checkpointed c cp s = Some s'"
  shows "delivery_ok committed s'"
proof -
  obtain j where j: "append_checkpoint c (dl_journal s) cp = Inr j" "s' = s\<lparr>dl_journal := j\<rparr>"
      "cp_committed_sequence cp \<le> rr_committed_sequence (recovery (dl_journal s))"
    using assms(2) by (auto simp: checkpointed_def not_less split: if_split_asm sum.split_asm)
  have "recorded j = recorded (dl_journal s)" "rr_committed_sequence (recovery j) = rr_committed_sequence (recovery (dl_journal s))"
    using append_checkpoint_recorded [OF j(1)] j(3) by (simp_all add: max_absorb1)
  then show ?thesis using assms(1)
    by (cases "lk_phase (dl_link s)"; cases "dl_task s") (simp_all add: delivery_simps j(2) stream_ok_Nil)
qed

lemma stream_lost_ok:
  assumes "delivery_ok committed s" and "phase = Connecting \<or> phase = GaveUp \<or> phase = Returned"
  shows "delivery_ok committed (stream_lost phase s)"
  using assms by (auto simp: delivery_simps stream_lost_def left_over_def stream_ok_Nil)

lemma link_fails_ok: "delivery_ok committed s \<Longrightarrow> delivery_ok committed (link_fails s)"
  by (simp add: delivery_simps link_fails_def)

lemma supervisor_started_ok:
  assumes "delivery_ok committed s"
  shows "delivery_ok committed (supervisor_started s)"
  using assms last_sequence_numbered [of "dl_journal s"]
  by (auto simp: delivery_simps supervisor_started_def fresh_link_def left_over_def stream_ok_Nil pending_from_Nil)

lemma connected_ok: "delivery_ok committed s \<Longrightarrow> connected e s = Some s' \<Longrightarrow> delivery_ok committed s'"
  by (auto simp: delivery_simps link_connected_def stream_ok_hello split: if_split_asm)

lemma fold_note_sent:
  "lk_phase (fold note_sent obs l) = lk_phase l"
  "lk_sent_sequence (fold note_sent obs l) = (if obs = [] then lk_sent_sequence l else ro_sequence (last obs))"
  "lk_recovery (fold note_sent obs l) = lk_recovery l"
  by (induction obs arbitrary: l) (auto simp: note_sent_def)

lemma welcomed_ok:
  assumes "delivery_ok committed s" and "welcomed_by c s = Some s'"
  shows "delivery_ok committed s'"
proof (cases "link_welcomed c (hd (dl_down s)) (dl_journal s, dl_link s)")
  case (Inl err)
  then have "s' = link_fails s" using assms(2) by (auto simp: welcomed_by_def split: list.split_asm if_split_asm)
  then show ?thesis using link_fails_ok assms(1) by simp
next
  case (Inr result)
  have phase: "lk_phase (dl_link s) = Attaching" and "dl_down s \<noteq> []"
    using assms(2) by (auto simp: welcomed_by_def split: list.split_asm if_split_asm)
  then obtain wl rest where down: "dl_down s = welcomed wl # rest" "dl_task s = Serving" "dl_up s = []"
      "unat (wl_committed_sequence wl) \<le> committed (dl_store s)"
      "\<forall>x \<in> set rest. at_acknowledgement x = None"
    using assms(1) by (auto simp: delivery_simps split: stream_task.split_asm)
  let ?k = "wl_committed_sequence wl" and ?obs = "recorded (dl_journal s)"
  let ?l = "(dl_link s)\<lparr>lk_phase := Attached, lk_sent_sequence := ?k, lk_terminal_sequence := None,
    lk_observations_open := True\<rparr>"
  obtain j where j: "(if rr_committed_sequence (lk_recovery (dl_link s)) < ?k
        then acknowledge c (dl_journal s) ?k else Inr (dl_journal s)) = Inr j"
      "result = ((j, fold note_sent (observations_after j ?k) ?l), map send_observation (observations_after j ?k))"
    using Inr by (auto simp: down(1) link_welcomed_def welcomed_def Let_def and_then_Inr)
  have r: "recorded j = ?obs" "?k \<le> rr_committed_sequence (recovery j)"
      "unat (rr_committed_sequence (recovery j)) \<le> committed (dl_store s)"
  proof -
    have known: "rr_committed_sequence (lk_recovery (dl_link s)) \<le> rr_committed_sequence (recovery (dl_journal s))"
      "unat (rr_committed_sequence (recovery (dl_journal s))) \<le> committed (dl_store s)"
      using assms(1) phase by (simp_all add: delivery_simps word_le_nat_alt)
    show "recorded j = ?obs" "?k \<le> rr_committed_sequence (recovery j)"
      "unat (rr_committed_sequence (recovery j)) \<le> committed (dl_store s)"
      using j(1) known down(4) acknowledge_recorded [of c "dl_journal s" ?k j]
      by (auto simp: max_def split: if_split_asm)
  qed
  have numbered: "numbered ?obs" using assms(1) by (simp add: delivery_simps)
  have replay: "observations_after j ?k = drop (unat ?k) ?obs"
    using observations_after_drop [of j ?k] numbered by (simp add: r(1))
  have bound: "unat ?k \<le> length ?obs" using assms(1) down(4) by (simp add: delivery_simps)
  have sent: "unat (lk_sent_sequence (fold note_sent (observations_after j ?k) ?l)) = length ?obs"
  proof (cases "unat ?k = length ?obs")
    case False
    then have "unat (ro_sequence (last ?obs)) = length ?obs"
      using numbered_nth [OF numbered, of "length ?obs - 1"] bound by (cases "?obs = []") (simp_all add: last_conv_nth)
    then show ?thesis using False bound by (simp add: fold_note_sent replay)
  qed (simp add: fold_note_sent replay)
  obtain l where l: "l = fold note_sent (observations_after j ?k) ?l" by simp
  have result: "result = ((j, l), segment ?obs (unat ?k) (length ?obs))"
    using j(2) by (simp add: l replay segment_drop)
  have link: "lk_phase l = Attached" "unat (lk_sent_sequence l) = length ?obs"
    using sent by (simp_all add: l fold_note_sent)
  have s': "s' = s\<lparr>dl_journal := j, dl_link := l, dl_up := segment ?obs (unat ?k) (length ?obs), dl_down := rest\<rparr>"
    using assms(2) Inr phase down(1,3) link(1) by (simp add: welcomed_by_def result)
  have flight: "in_flight ?obs (committed (dl_store s)) (length ?obs) (unat (rr_committed_sequence (recovery j)))
      (segment ?obs (unat ?k) (length ?obs)) rest"
    using down(4) bound r(2) unfolding in_flight_def acked_def by (auto simp: word_le_nat_alt)
  show ?thesis
    using assms(1) phase r link bound down(1,2) flight in_flight_stream [OF flight] unfolding s'
    by (auto simp: delivery_simps pending_from_def)
qed

lemma obey_sel:
  "lk_phase (obey d command l) = lk_phase l" "lk_sent_sequence (obey d command l) = lk_sent_sequence l"
  "lk_terminal_sequence (obey d command l) = lk_terminal_sequence l"
  by (simp_all add: obey_def split: option.split)

lemma unat_max_word: "unat (max x y :: u64) = max (unat x) (unat y)"
  by (simp add: max_def word_le_nat_alt)

lemma responded_ok:
  assumes "delivery_ok committed s" and "responded e s = Some s'"
  shows "delivery_ok committed s'"
proof (cases "link_response (sn_codec e) (sn_decode_policy e) (hd (dl_down s)) (dl_journal s, dl_link s)")
  case (Inl err)
  then have "s' = link_fails s" using assms(2) by (auto simp: responded_def split: list.split_asm if_split_asm)
  then show ?thesis using link_fails_ok assms(1) by simp
next
  case (Inr result)
  obtain response rest where down: "dl_down s = response # rest" and phase: "lk_phase (dl_link s) = Attached"
    using assms(2) by (auto simp: responded_def split: list.split_asm if_split_asm)
  obtain j l where jl: "result = (j, l)" by (cases result)
  have s': "s' = s\<lparr>dl_journal := j, dl_link := l, dl_down := rest\<rparr>"
    using assms(2) Inr phase by (simp add: responded_def down jl)
  have l: "lk_phase l = Attached \<or> lk_phase l = Returned" "lk_sent_sequence l = lk_sent_sequence (dl_link s)"
    using Inr phase
    by (auto simp: link_response_def down jl Let_def and_then_Inr obey_sel split: option.split_asm if_split_asm)
  have "case at_acknowledgement response of None \<Rightarrow> j = dl_journal s
      | Some x \<Rightarrow> acknowledge (sn_codec e) (dl_journal s) x = Inr j"
    using Inr by (auto simp: link_response_def down jl Let_def and_then_Inr split: option.split_asm if_split_asm)
  then have j: "recorded j = recorded (dl_journal s)"
      "case at_acknowledgement response of
         None \<Rightarrow> unat (rr_committed_sequence (recovery j)) = unat (rr_committed_sequence (recovery (dl_journal s)))
       | Some x \<Rightarrow> unat (rr_committed_sequence (recovery j)) =
           max (unat (rr_committed_sequence (recovery (dl_journal s)))) (unat x)"
    using acknowledge_recorded by (auto simp: unat_max_word split: option.splits)
  have "unat (rr_committed_sequence (recovery j)) \<le> committed (dl_store s)"
    using j(2) assms(1) by (auto simp: delivery_simps down split: option.split_asm)
  moreover have "in_flight obs k sent r up rest" if "in_flight obs k sent r' up (response # rest)"
      "r' = unat (rr_committed_sequence (recovery (dl_journal s)))" "r = unat (rr_committed_sequence (recovery j))"
    for obs k sent r r' up
    by (rule in_flight_response [OF that(1)]) (use j(2) that(2,3) in \<open>auto split: option.split\<close>)
  ultimately show ?thesis
    using assms(1) phase l j(1) unfolding s'
    by (auto simp: delivery_simps down)
qed

lemma sending_ok:
  assumes "delivery_ok committed s" and "sending s = Some s'"
  shows "delivery_ok committed s'"
proof -
  let ?obs = "recorded (dl_journal s)" and ?sent = "lk_sent_sequence (dl_link s)"
  obtain ob live where live: "dl_live s = ob # live" and phase: "lk_phase (dl_link s) = Attached"
    using assms(2) by (auto simp: sending_def split: list.split_asm if_split_asm)
  obtain b where b: "b \<le> unat ?sent" "pending_from ?obs (ob # live) b"
    using assms(1) phase live by (auto simp: delivery_simps)
  have numbered: "numbered ?obs" and sent: "unat ?sent \<le> length ?obs"
    using assms(1) phase by (simp_all add: delivery_simps)
  have head: "b < length ?obs" "ob = ?obs ! b" "pending_from ?obs live (Suc b)"
    using pending_from_Cons [OF b(2)] by simp_all
  have seq: "unat (ro_sequence ob) = Suc b" using numbered_nth [OF numbered head(1)] head(2) by simp
  show ?thesis
  proof (cases "ro_sequence ob \<le> ?sent")
    case True
    then have "s' = s\<lparr>dl_live := live\<rparr>" using assms(2) live phase by (simp add: sending_def live_observation_def)
    moreover have "Suc b \<le> unat ?sent" using True seq by (simp add: word_le_nat_alt)
    ultimately show ?thesis using assms(1) phase head(3) by (auto simp: delivery_simps)
  next
    case False
    then have "unat ?sent = b" using b(1) seq by (simp add: word_le_nat_alt)
    moreover have "s' = s\<lparr>dl_live := live, dl_link := note_sent ob (dl_link s),
        dl_up := dl_up s @ [send_observation ob]\<rparr>"
      using False assms(2) live phase by (simp add: sending_def live_observation_def)
    ultimately show ?thesis
      using assms(1) phase head seq in_flight_sent [of ?obs _ b _ "dl_up s" "dl_down s"]
      by (cases "dl_task s") (auto simp: delivery_simps note_sent_def dest: in_flight_stream)
  qed
qed

lemma live_ended_ok:
  assumes "delivery_ok committed s" and "live_ended s = Some s'"
  shows "delivery_ok committed s'"
  using assms by (auto simp: delivery_simps live_ended_def live_closed_def split: if_split_asm)

lemma commanded_ok:
  assumes "delivery_ok committed s" and "dl_task s = Serving"
  shows "delivery_ok committed (s\<lparr>dl_down := dl_down s @ [serve_command command]\<rparr>)"
  using assms
  by (cases "lk_phase (dl_link s)")
    (auto simp: delivery_simps serve_command_def commanded_def in_flight_command)

context observation_service
begin

lemma accepted_ok:
  assumes "delivery_ok committed s" and "accepted sv i s = Some s'"
  shows "delivery_ok committed s'"
proof -
  obtain h rest where up: "dl_up s = HelloMessage h # rest" and task: "dl_task s = Greeting"
    using assms(2) by (auto simp: accepted_def split: list.split_asm attach_request.split_asm if_split_asm)
  have "stream_ok (recorded (dl_journal s)) (committed (dl_store s)) (HelloMessage h # rest)"
    using assms(1) up task by (simp add: delivery_simps)
  then have rest: "rest = []" by (rule stream_ok_hello_rest)
  obtain x store where attach: "sv_attach sv i (HelloMessage h) (dl_store s) = (x, store)" by fastforce
  have k: "committed store = committed (dl_store s)" by (rule attach_committed [OF attach])
  show ?thesis
  proof (cases x)
    case None
    then have "s' = s\<lparr>dl_store := store, dl_up := [], dl_down := [], dl_task := Ended,
        dl_link := refused (dl_link s)\<rparr>"
      using assms(2) by (simp add: accepted_def up task attach)
    then show ?thesis using assms(1) up task
      by (cases "lk_phase (dl_link s)") (auto simp: delivery_simps k refused_def)
  next
    case (Some r)
    then obtain wl where wl: "r = welcomed wl" "unat (wl_committed_sequence wl) = committed (dl_store s)"
      using attach_welcome attach by blast
    have s': "s' = s\<lparr>dl_store := store, dl_up := [], dl_down := dl_down s @ [r], dl_task := Serving\<rparr>"
      using assms(2) by (simp add: accepted_def up task attach Some rest)
    have "lk_phase (dl_link s) = Attaching \<or> lk_phase (dl_link s) = GaveUp"
      using assms(1) up task by (cases "lk_phase (dl_link s)") (auto simp: delivery_simps)
    then show ?thesis
      using assms(1) wl up task unfolding s'
      by (auto simp: delivery_simps k stream_ok_Nil welcomed_def)
  qed
qed

text \<open>Whatever the outcome, the store has taken the observation exactly if it was the next one.\<close>

lemma store_served_ok:
  assumes "delivery_ok committed s"
    and head: "stream_ok (recorded (dl_journal s)) (committed (dl_store s)) (ObservationMessage ob # rest)"
    and serve: "sv_serve sv i (ObservationMessage ob) (dl_store s) = (x, store)"
  shows "committed (dl_store s) \<le> committed store \<and> committed store \<le> length (recorded (dl_journal s)) \<and>
    dl_applied (store_served committed (ObservationMessage ob) store s) =
      segment (recorded (dl_journal s)) 0 (committed store) \<and>
    (x \<noteq> None \<longrightarrow> unat (so_sequence ob) \<le> committed store \<and>
      stream_ok (recorded (dl_journal s)) (committed store) rest)"
proof -
  let ?obs = "recorded (dl_journal s)" and ?k = "committed (dl_store s)"
  have inv: "numbered ?obs" "?k \<le> length ?obs" "dl_applied s = segment ?obs 0 ?k"
    using assms(1) by (simp_all add: delivery_simps)
  obtain a where a: "a \<le> ?k" "a < length ?obs" "ObservationMessage ob = send_observation (?obs ! a)"
      "unat (so_sequence ob) = Suc a" "\<forall>k'. Suc a \<le> k' \<longrightarrow> stream_ok ?obs k' rest"
    using stream_ok_head [OF head inv(1)] by blast
  from serve_committed [OF serve] have k:
    "committed store = ?k \<or> (committed store = Suc ?k \<and> a = ?k)" using a(4) by auto
  moreover have "dl_applied (store_served committed (ObservationMessage ob) store s) = segment ?obs 0 (committed store)"
    using k a(2,3) inv(3) segment_snoc [of 0 ?k ?obs] by (auto simp: store_served_def)
  moreover have "unat (so_sequence ob) \<le> committed store" if "x \<noteq> None"
    using serve_response [of i ob "dl_store s"] serve that by blast
  ultimately show ?thesis using a inv(2) by auto
qed

lemma served_ok:
  assumes "delivery_ok committed s" and "served sv committed i s = Some s'"
  shows "delivery_ok committed s'"
proof -
  let ?obs = "recorded (dl_journal s)"
  obtain ob rest where up: "dl_up s = ObservationMessage ob # rest" and task: "dl_task s = Serving"
    using assms(2) by (auto simp: served_def split: list.split_asm attach_request.split_asm if_split_asm)
  have head: "stream_ok ?obs (committed (dl_store s)) (ObservationMessage ob # rest)"
    using assms(1) up task by (simp add: delivery_simps)
  obtain x store where serve: "sv_serve sv i (ObservationMessage ob) (dl_store s) = (x, store)" by fastforce
  note taken = store_served_ok [OF assms(1) head serve]
  let ?applied = "dl_applied (store_served committed (ObservationMessage ob) store s)"
  have stale: "\<forall>q \<in> set (dl_stale s). stream_ok ?obs (committed store) q" "acks_ok (committed store) (dl_down s)"
      "journal_committed s \<le> committed store"
    using assms(1) taken stream_ok_mono by (fastforce simp: delivery_ok_def acks_ok_def Let_def)+
  have phase: "lk_phase (dl_link s) \<noteq> Connecting" "lk_phase (dl_link s) \<noteq> Attaching"
    using assms(1) up task by (auto simp: delivery_simps)
  show ?thesis
  proof (cases x)
    case None
    then have "s' = s\<lparr>dl_store := store, dl_applied := ?applied, dl_up := [], dl_task := Ended\<rparr>"
      using assms(2) by (simp add: served_def up task serve store_served_def)
    then show ?thesis using assms(1) taken stale phase
      by (cases "lk_phase (dl_link s)") (auto simp: delivery_simps task)
  next
    case (Some response)
    then have r: "response = Some (acknowledged (so_sequence ob))" using serve_response serve by blast
    have s': "s' = s\<lparr>dl_store := store, dl_applied := ?applied, dl_up := rest,
        dl_down := dl_down s @ [acknowledged (so_sequence ob)]\<rparr>"
      using assms(2) Some by (simp add: served_def up task serve store_served_def r)
    have seq: "unat (so_sequence ob) \<le> committed store" "stream_ok ?obs (committed store) rest"
      using taken Some by simp_all
    have "numbered ?obs" using assms(1) by (simp add: delivery_simps)
    then have "in_flight ?obs (committed store) sent r rest (dl_down s @ [acknowledged (so_sequence ob)])"
      if "in_flight ?obs (committed (dl_store s)) sent r (ObservationMessage ob # rest) (dl_down s)" for sent r
      using in_flight_served that seq(1) by blast
    then show ?thesis using assms(1) taken stale seq phase unfolding s'
      by (cases "lk_phase (dl_link s)") (auto simp: delivery_simps task up acknowledged_def)
  qed
qed

lemma served_stale_ok:
  assumes "delivery_ok committed s" and "served_stale sv committed k i s = Some s'"
  shows "delivery_ok committed s'"
proof -
  let ?obs = "recorded (dl_journal s)"
  have k: "k < length (dl_stale s)" and ok: "stream_ok ?obs (committed (dl_store s)) (dl_stale s ! k)"
    using assms by (auto simp: served_stale_def delivery_simps split: if_split_asm)
  have rising: "delivery_ok committed (s\<lparr>dl_store := store, dl_applied := applied, dl_stale := (dl_stale s)[k := q]\<rparr>)"
    if "committed (dl_store s) \<le> committed store" "committed store \<le> length ?obs"
      "applied = segment ?obs 0 (committed store)" "stream_ok ?obs (committed store) q" for store applied q
  proof -
    have "stream_ok ?obs (committed store) p" if "p \<in> set (dl_stale s)" for p
      using assms(1) that stream_ok_mono [OF _ \<open>committed (dl_store s) \<le> committed store\<close>]
      by (simp add: delivery_ok_def Let_def)
    then have "\<forall>p \<in> set ((dl_stale s)[k := q]). stream_ok ?obs (committed store) p"
      using that(4) set_update_subset_insert [of "dl_stale s" k q] by blast
    moreover have "acks_ok (committed store) (dl_down s)"
      using assms(1) that(1) le_trans by (fastforce simp: delivery_ok_def acks_ok_def Let_def)
    moreover have "dl_task s \<noteq> Ended \<longrightarrow> stream_ok ?obs (committed store) (dl_up s)"
      using assms(1) that(1) stream_ok_mono by (simp add: delivery_ok_def Let_def) blast
    moreover have "link_ok (committed store) s"
      by (rule link_ok_mono [OF _ that(1)]) (use assms(1) in \<open>simp add: delivery_ok_def Let_def\<close>)
    ultimately show ?thesis using assms(1) that by (cases "lk_phase (dl_link s)"; cases "dl_task s") (auto simp: delivery_simps)
  qed
  show ?thesis
  proof (cases "dl_stale s ! k")
    case Nil
    then show ?thesis using assms(2) k by (simp add: served_stale_def)
  next
    case (Cons message rest)
    show ?thesis
    proof (cases message)
      case (HelloMessage h)
      obtain x store where attach: "sv_attach sv i message (dl_store s) = (x, store)" by fastforce
      have s': "s' = s\<lparr>dl_store := store, dl_applied := dl_applied s, dl_stale := (dl_stale s)[k := rest]\<rparr>"
        using assms(2) k attach by (simp add: served_stale_def Cons HelloMessage)
      have rest: "rest = []" using ok stream_ok_hello_rest by (simp add: Cons HelloMessage)
      have same: "committed store = committed (dl_store s)"
        using attach_committed attach by (simp add: HelloMessage)
      have "committed (dl_store s) \<le> length ?obs" "dl_applied s = segment ?obs 0 (committed (dl_store s))"
        using assms(1) by (simp_all add: delivery_ok_def Let_def)
      then show ?thesis unfolding s' by (intro rising) (simp_all add: same rest stream_ok_Nil)
    next
      case (ObservationMessage ob)
      obtain x store where serve: "sv_serve sv i (ObservationMessage ob) (dl_store s) = (x, store)" by fastforce
      have head: "stream_ok ?obs (committed (dl_store s)) (ObservationMessage ob # rest)"
        using ok by (simp add: Cons ObservationMessage)
      note taken = store_served_ok [OF assms(1) head serve]
      have "s' = (store_served committed message store s)\<lparr>dl_stale := (dl_stale s)[k := (if x = None then [] else rest)]\<rparr>"
        using assms(2) k serve by (cases x) (simp_all add: served_stale_def Cons ObservationMessage)
      then show ?thesis
        using rising [of store "dl_applied (store_served committed message store s)" "if x = None then [] else rest"] taken
        by (simp add: store_served_def ObservationMessage stream_ok_Nil)
    qed
  qed
qed

lemma deliver_ok:
  assumes "delivery_ok committed s" and "deliver e sv committed ev s = Some s'"
    and "length (recorded (dl_journal s')) < 2 ^ 63"
  shows "delivery_ok committed s'"
proof (cases ev)
  case (Observed ob)
  then show ?thesis using observed_ok assms by simp
next
  case (Checkpointed cp)
  then show ?thesis using checkpointed_ok assms by simp
next
  case RunnerEnded
  then show ?thesis using assms by (cases "lk_phase (dl_link s)"; cases "dl_task s") (auto simp: delivery_simps)
next
  case (Elsewhere store)
  then show ?thesis using assms
    by (cases "lk_phase (dl_link s)"; cases "dl_task s") (auto simp: delivery_simps split: if_split_asm)
next
  case ControllerRestarted
  let ?phase = "if lk_phase (dl_link s) = Returned \<or> lk_phase (dl_link s) = GaveUp
    then lk_phase (dl_link s) else Connecting"
  have "delivery_ok committed (stream_lost ?phase s)" by (rule stream_lost_ok [OF assms(1)]) auto
  then show ?thesis using assms(2) ControllerRestarted by (auto simp: delivery_simps stream_lost_def)
next
  case (Lost noticed)
  then show ?thesis using stream_lost_ok assms by (auto split: if_split_asm)
next
  case (Commanded command)
  then show ?thesis using commanded_ok assms by (auto split: if_split_asm)
next
  case (Accepted i)
  then have "accepted sv i s = Some s'" using assms(2) by (simp del: connected.simps)
  then show ?thesis using accepted_ok [OF assms(1)] by simp
next
  case (Served i)
  then have "served sv committed i s = Some s'" using assms(2) by (simp del: connected.simps)
  then show ?thesis using served_ok [OF assms(1)] by simp
next
  case (ServedStale k i)
  then have "served_stale sv committed k i s = Some s'" using assms(2) by (simp del: connected.simps)
  then show ?thesis using served_stale_ok [OF assms(1)] by simp
next
  case Connected
  then have "connected e s = Some s'" using assms(2) by (simp del: connected.simps)
  then show ?thesis using connected_ok [OF assms(1)] by simp
next
  case Welcomed
  then have "welcomed_by (sn_codec e) s = Some s'" using assms(2) by (simp del: connected.simps)
  then show ?thesis using welcomed_ok [OF assms(1)] by simp
next
  case Responded
  then have "responded e s = Some s'" using assms(2) by (simp del: connected.simps)
  then show ?thesis using responded_ok [OF assms(1)] by simp
next
  case Sending
  then have "sending s = Some s'" using assms(2) by (simp del: connected.simps)
  then show ?thesis using sending_ok [OF assms(1)] by simp
next
  case LiveEnded
  then have "live_ended s = Some s'" using assms(2) by (simp del: connected.simps)
  then show ?thesis using live_ended_ok [OF assms(1)] by simp
next
  case SupervisorRestarted
  then have "s' = supervisor_started s" using assms(2) by (simp del: connected.simps)
  then show ?thesis using supervisor_started_ok [OF assms(1)] by simp
qed


end

text \<open>The journal only grows, so the bound on its length holds all along a run.\<close>

lemma journal_grows:
  "deliver e sv committed ev s = Some s' \<Longrightarrow> length (recorded (dl_journal s)) \<le> length (recorded (dl_journal s'))"
  by (cases ev)
    (auto simp: observed_def checkpointed_def accepted_def served_def served_stale_def welcomed_by_def
      responded_def sending_def live_ended_def stream_lost_def link_fails_def supervisor_started_def
      link_connected_def store_served_def link_welcomed_def link_response_def Let_def and_then_Inr
      append_observation_recorded append_checkpoint_recorded acknowledge_recorded
      split: if_split_asm list.split_asm attach_request.split_asm sum.split_asm prod.split_asm option.split_asm)

lemma run_grows:
  "deliver_all e sv committed evs s = Some s' \<Longrightarrow> length (recorded (dl_journal s)) \<le> length (recorded (dl_journal s'))"
proof (induction evs arbitrary: s)
  case (Cons ev evs)
  then show ?case using journal_grows le_trans by (fastforce simp: Option.bind_eq_Some_conv)
qed simp

context observation_service
begin

lemma run_ok:
  "delivery_ok committed s \<Longrightarrow> deliver_all e sv committed evs s = Some s' \<Longrightarrow>
   length (recorded (dl_journal s')) < 2 ^ 63 \<Longrightarrow> delivery_ok committed s'"
proof (induction evs arbitrary: s)
  case (Cons ev evs)
  then obtain t where t: "deliver e sv committed ev s = Some t" "deliver_all e sv committed evs t = Some s'"
    by (auto simp: Option.bind_eq_Some_conv)
  have "length (recorded (dl_journal t)) < 2 ^ 63" using run_grows [OF t(2)] Cons.prems(3) by simp
  then show ?case using Cons.IH [OF deliver_ok [OF Cons.prems(1) t(1)] t(2) Cons.prems(3)] by simp
qed simp

end

end
