(* ===== verification/Delivery_Manager.thy ===== *)
theory Delivery_Manager
  imports Manager_Properties Delivery_Safety
begin

text \<open>
  The manager as the store of observations that \<open>Delivery_Safety\<close> asks for: what is committed is the
  column of the execution's row, and no other statement that attaching or recording leads to
  changes it, a replacement that is started included.
\<close>

definition committed_sequence :: "string \<Rightarrow> database \<Rightarrow> nat" where
  "committed_sequence i db = (case execution_row_of db i of None \<Rightarrow> 0 | Some r \<Rightarrow> nat (er_committed_sequence r))"

definition manager_committed :: "string \<Rightarrow> manager \<Rightarrow> nat" where
  "manager_committed i m = committed_sequence i (mg_database m)"

abbreviation committed_is :: "string \<Rightarrow> nat \<Rightarrow> manager \<Rightarrow> bool" where
  "committed_is i k m \<equiv> manager_committed i m = k"

section \<open>Statements\<close>

lemma committed_sequence_update:
  assumes "\<And>r. er_id (f r) = er_id r" and "\<And>r. er_committed_sequence (f r) = er_committed_sequence r"
  shows "committed_sequence j (update_execution i f db) = committed_sequence j db"
  by (simp add: committed_sequence_def execution_row_of_update assms split: option.split)

lemma committed_finish: "committed_sequence j (finish_execution db e) = committed_sequence j db"
  unfolding finish_execution_def
  by (subst committed_sequence_def) (simp add: execution_row_of_workloads flip: committed_sequence_def add: committed_sequence_update)

lemma committed_supervisor: "committed_sequence j (set_execution_supervisor db i supervisor) = committed_sequence j db"
  by (simp add: set_execution_supervisor_def committed_sequence_update)

lemma find_snoc: "find P (rs @ [r]) = (case find P rs of None \<Rightarrow> if P r then Some r else None | Some x \<Rightarrow> Some x)"
  by (induction rs) simp_all

lemma committed_insert: "insert_execution db e = Inr db' \<Longrightarrow> committed_sequence j db' = committed_sequence j db"
  by (auto simp: insert_execution_def committed_sequence_def execution_row_of_def find_snoc
      split: if_split_asm option.split)

lemma committed_insert_enabled:
  "insert_enabled_job_execution db e session = Inr (db', x) \<Longrightarrow> committed_sequence j db' = committed_sequence j db"
  by (auto simp: insert_enabled_job_execution_def Let_def and_then_Inr committed_sequence_def
      execution_row_of_workloads dest!: committed_insert [where j = j] split: if_split_asm)

section \<open>The manager's operations\<close>

lemma committed_steps:
  "stays (committed_is j k) (set_active wid a)" "stays (committed_is j k) (remove_active wid)"
  "stays (committed_is j k) bump" "stays (committed_is j k) (set_last_outcome wid outcome)"
  "stays (committed_is j k) (send_effect e)" "stays (committed_is j k) (remove_version_pin c)"
  by (auto simp: triple_def set_active_def remove_active_def bump_def set_last_outcome_def send_effect_def
      remove_version_pin_def process_defs manager_committed_def split: option.split)

lemma committed_statement:
  assumes "\<And>db db' x. f db = Inr (db', x) \<Longrightarrow> committed_sequence j db' = committed_sequence j db"
  shows "stays (committed_is j k) (db_update f)"
  using assms by (intro triple_db_update) (auto simp: manager_committed_def)

lemma committed_insert_row: "stays (committed_is j k) (insert_row e session)"
  unfolding insert_row_def
  by (rule committed_statement) (auto simp: and_then_Inr committed_insert committed_insert_enabled split: option.split_asm)

lemma committed_conclude: "stays (committed_is j k) (conclude_start wid r c i result)"
  by (cases "(wid, r, c, i, result)" rule: conclude_start.cases)
    (simp_all, (intro stays_rules committed_steps)+)

lemma committed_start: "stays (committed_is j k) (start w i wid kind exclusive session)"
  unfolding start_def allocate_def allocate_with_def prepare_execution_build_def Let_def
  by (intro stays_rules committed_steps committed_insert_row committed_conclude)

lemma committed_replacement: "stays (committed_is j k) (start_replacement w i wid)"
  unfolding start_replacement_def start_service_def run_job_def
  by (rule triple_bind_any) (intro stays_rules committed_start)

lemma committed_attach: "stays (committed_is j k) (attach_supervisor w i eid wid session config_hash process)"
  unfolding attach_supervisor_def Let_def
  by (intro stays_rules committed_steps committed_statement) (auto simp: committed_supervisor)

lemma committed_terminal: "stays (committed_is j k) (observed_terminal w i stored eid kind)"
  unfolding observed_terminal_def Let_def by (intro stays_rules committed_steps committed_replacement)

lemma committed_progress: "stays (committed_is j k) (observed_progress wid eid ob)"
  unfolding observed_progress_def by (intro stays_rules committed_steps)

section \<open>Recording\<close>

lemma committed_sequence_committed: "committed_sequence i db = (case committed db i of None \<Rightarrow> 0 | Some c \<Rightarrow> nat c)"
  by (simp add: committed_sequence_def committed_def split: option.split)

text \<open>An observation is committed already, or it is the next one.\<close>

definition taken :: "string \<Rightarrow> nat \<Rightarrow> u64 \<Rightarrow> manager \<Rightarrow> bool" where
  "taken i k n m \<longleftrightarrow> (manager_committed i m = k \<and> unat n \<le> k) \<or>
     (manager_committed i m = Suc k \<and> unat n = Suc k)"

definition taken_or_not :: "string \<Rightarrow> nat \<Rightarrow> u64 \<Rightarrow> manager \<Rightarrow> bool" where
  "taken_or_not i k n m \<longleftrightarrow> manager_committed i m = k \<or> (manager_committed i m = Suc k \<and> unat n = Suc k)"

lemma commit_taken:
  assumes "commit_observation db i n update = Inr (db', applied)" and "committed_sequence i db = k"
  shows "(committed_sequence i db' = k \<and> unat n \<le> k) \<or> (committed_sequence i db' = Suc k \<and> unat n = Suc k)"
  using assms(1)
proof (cases rule: commit_observation_cases)
  case duplicate
  then obtain c where c: "committed db i = Some c" "uint n \<le> c" by blast
  then have "unat n \<le> nat c" by (metis nat_mono unat_eq_nat_uint)
  then show ?thesis using assms(2) c duplicate by (simp add: committed_sequence_committed)
next
  case (applied row)
  have "committed db' i = Some (uint n)"
    using committed_apply_update [OF applied(2), of "uint n" update i] by (simp only: applied(4) refl if_True)
  then have new: "committed_sequence i db' = unat n"
    by (simp only: committed_sequence_committed option.case unat_eq_nat_uint)
  have "k = nat (er_committed_sequence row)" using applied assms(2) by (simp add: committed_sequence_def)
  moreover have "unat n = nat (er_committed_sequence row + 1)" by (simp only: unat_eq_nat_uint applied(3))
  ultimately show ?thesis using new by (cases "0 \<le> er_committed_sequence row") (simp_all add: nat_add_distrib)
qed

lemma commit_observation_triple:
  "triple (committed_is i k) (db_update (\<lambda>db. commit_observation db i n update)) (\<lambda>_. taken i k n) (committed_is i k)"
  by (rule triple_db_update) (auto simp: taken_def manager_committed_def dest: commit_taken)

lemma stays_taken:
  assumes "\<And>k. stays (committed_is i k) p"
  shows "triple (taken i k n) p (\<lambda>_. taken i k n) (taken_or_not i k n)"
  unfolding triple_def
proof (intro allI impI)
  fix m
  assume m: "taken i k n m"
  have "case p m of (Done x, m') \<Rightarrow> committed_is i (manager_committed i m) m'
      | (Failed err, m') \<Rightarrow> committed_is i (manager_committed i m) m'
      | (Pending, m') \<Rightarrow> committed_is i (manager_committed i m) m'"
    using assms [of "manager_committed i m"] by (simp add: triple_def)
  then show "case p m of (Done x, m') \<Rightarrow> taken i k n m' | (Failed err, m') \<Rightarrow> taken_or_not i k n m'
      | (Pending, m') \<Rightarrow> taken_or_not i k n m'"
    using m by (auto simp: taken_def taken_or_not_def split: prod.splits outcome.splits)
qed

lemma record_taken:
  "triple (committed_is i k) (record_supervisor_observation w input i ob)
     (\<lambda>_. taken i k (so_sequence ob)) (taken_or_not i k (so_sequence ob))"
  unfolding record_supervisor_observation_def Let_def
proof (rule triple_bind)
  show "triple (committed_is i k) (stored_of i) (\<lambda>_. committed_is i k) (taken_or_not i k (so_sequence ob))"
    by (rule triple_conseq [OF stays_stored_of [of "committed_is i k"]]) (auto simp: taken_or_not_def)
next
  fix stored
  show "triple (committed_is i k)
      (bind (gets (\<lambda>m. terminalizes m (se_workload_id stored) i ob)) (\<lambda>terminalized.
       bind (db_update (\<lambda>db. commit_observation db i (so_sequence ob) (observation_update_of input stored terminalized ob)))
         (\<lambda>committed. if committed \<and> terminalized then observed_terminal w input stored i (so_kind ob)
            else if committed then observed_progress (se_workload_id stored) i ob else ret ())))
      (\<lambda>_. taken i k (so_sequence ob)) (taken_or_not i k (so_sequence ob))"
  proof (rule triple_bind_any, rule triple_bind)
    show "triple (committed_is i k) (db_update (\<lambda>db. commit_observation db i (so_sequence ob)
        (observation_update_of input stored b ob))) (\<lambda>_. taken i k (so_sequence ob)) (taken_or_not i k (so_sequence ob))" for b
      by (rule triple_conseq [OF commit_observation_triple [of i k]]) (auto simp: taken_or_not_def)
  qed (intro triple_cond stays_taken committed_terminal committed_progress stays_basic)
qed

section \<open>Attaching\<close>

lemma stored_of_committed:
  assumes "stored_of i m = (Done stored, m')"
  shows "m' = m \<and> unat (se_committed_sequence stored) = manager_committed i m"
proof -
  have "get_execution (mg_database m) i = Inr (Some stored)" "m' = m"
    using assms by (auto simp: stored_of_def db_query_def process_defs rust_result split: sum.split_asm option.split_asm)
  then obtain row where "execution_row_of (mg_database m) i = Some row" "read_execution row = Inr stored" "m' = m"
    by (auto simp: get_execution_def and_then_Inr split: option.split_asm)
  moreover from this(2) have "u64_try_from (er_committed_sequence row) = Some (se_committed_sequence stored)"
    by (auto simp: read_execution_def rust_result)
  then have range: "0 \<le> er_committed_sequence row" "er_committed_sequence row < 2 ^ 64"
      and word: "se_committed_sequence stored = word_of_int (er_committed_sequence row)"
    by (auto simp: u64_try_from_def split: if_split_asm)
  have "uint (se_committed_sequence stored) = er_committed_sequence row"
    using range by (simp add: word uint_word_of_int)
  ultimately show ?thesis by (simp add: manager_committed_def committed_sequence_def unat_eq_nat_uint)
qed

lemma decode_done: "decode_snapshot w bytes m = (Done c, m') \<Longrightarrow> m' = m"
  by (auto simp: decode_snapshot_def process_defs split: sum.split_asm)

lemma attach_supervisor_committed:
  assumes "attach_supervisor w input i wid session config_hash process m = (Done a, m')"
  shows "unat (sa_committed_sequence a) = manager_committed i m"
proof -
  have Q: "triple (\<lambda>s. s = m) (stored_of i) (\<lambda>stored s. unat (se_committed_sequence stored) = manager_committed i m) (\<lambda>_. True)"
    unfolding triple_def by (auto dest: stored_of_committed split: prod.split outcome.split)
  have rest: "triple (\<lambda>_. b) p (\<lambda>a _. b) (\<lambda>_. True)" for b :: bool and p :: "'q mg"
    by (auto simp: triple_def split: prod.split outcome.split)
  have "triple (\<lambda>s. s = m) (attach_supervisor w input i wid session config_hash process)
      (\<lambda>a _. unat (sa_committed_sequence a) = manager_committed i m) (\<lambda>_. True)"
    unfolding attach_supervisor_def Let_def
    by (rule triple_bind [OF Q])
      (intro triple_read triple_cond triple_option triple_bind [OF rest] triple_return triple_fail, simp_all)
  then show ?thesis using assms by (auto simp: triple_def)
qed

section \<open>The manager is such a store\<close>

lemma attach_keeps:
  assumes "attach w uuid_ok input caller first m = (result, m')"
  shows "manager_committed i m' = manager_committed i m"
proof -
  have "manager_committed i (snd (attach_supervisor w input eid wid session config_hash process m)) = manager_committed i m"
    for eid wid session config_hash process
    by (rule triple_state [OF committed_attach]) simp_all
  then show ?thesis using assms
    by (auto simp: attach_def split: option.split_asm attach_request.split_asm if_split_asm prod.split_asm outcome.split_asm)
      (metis snd_conv)+
qed

lemma attach_welcomes:
  assumes "attach w uuid_ok input caller first m = (Inr (response, attached, attachment), m')"
  shows "\<exists>wl. response = welcomed wl \<and> unat (wl_committed_sequence wl) = manager_committed attached m"
  using assms
  by (auto simp: attach_def split: option.split_asm attach_request.split_asm if_split_asm prod.split_asm outcome.split_asm)
    (metis attach_supervisor_committed welcome_message.select_convs(2))

lemma serve_takes:
  assumes "serve_message w input i (ObservationMessage ob) m = (result, m')"
  shows "taken_or_not i (manager_committed i m) (so_sequence ob) m' \<and>
    (\<forall>x. result = Inr x \<longrightarrow> x = Some (acknowledged (so_sequence ob)) \<and>
      taken i (manager_committed i m) (so_sequence ob) m')"
proof (cases "so_kind ob \<in> set observation_kinds")
  case False
  then show ?thesis using assms by (auto simp: serve_message_def taken_or_not_def)
next
  case True
  obtain r m'' where run: "record_supervisor_observation w input i ob m = (r, m'')" by fastforce
  have "case r of Done x \<Rightarrow> taken i (manager_committed i m) (so_sequence ob) m''
      | Failed e \<Rightarrow> taken_or_not i (manager_committed i m) (so_sequence ob) m''
      | Pending \<Rightarrow> taken_or_not i (manager_committed i m) (so_sequence ob) m''"
    using record_taken [of i "manager_committed i m" w input ob] run by (force simp: triple_def split: outcome.splits)
  moreover have "taken i k n m'' \<Longrightarrow> taken_or_not i k n m''" for k n
    by (auto simp: taken_def taken_or_not_def)
  ultimately show ?thesis using assms True run
    by (auto simp: serve_message_def split: outcome.split_asm)
qed

interpretation manager_store: observation_service "manager_service w uuid_ok i" "manager_committed i"
  for w uuid_ok i
proof
  fix input :: "manager_input \<times> caller" and h s r s'
  assume a: "sv_attach (manager_service w uuid_ok i) input (HelloMessage h) s = (Some r, s')"
  show "\<exists>wl. r = welcomed wl \<and> unat (wl_committed_sequence wl) = manager_committed i s"
    using a attach_welcomes
    by (cases input) (fastforce simp: manager_service_def split: prod.split_asm sum.split_asm if_split_asm)
next
  fix input :: "manager_input \<times> caller" and h s x s'
  assume "sv_attach (manager_service w uuid_ok i) input (HelloMessage h) s = (x, s')"
  then show "manager_committed i s' = manager_committed i s"
    using attach_keeps by (cases input) (fastforce simp: manager_service_def split: prod.split_asm sum.split_asm)
next
  fix input :: "manager_input \<times> caller" and ob s x s'
  assume "sv_serve (manager_service w uuid_ok i) input (ObservationMessage ob) s = (Some x, s')"
  then show "x = Some (acknowledged (so_sequence ob)) \<and> unat (so_sequence ob) \<le> manager_committed i s'"
    using serve_takes by (cases input) (fastforce simp: manager_service_def taken_def split: prod.split_asm sum.split_asm)
next
  fix input :: "manager_input \<times> caller" and ob s y s'
  assume "sv_serve (manager_service w uuid_ok i) input (ObservationMessage ob) s = (y, s')"
  then show "manager_committed i s' = manager_committed i s \<or>
      (manager_committed i s' = Suc (manager_committed i s) \<and> unat (so_sequence ob) = manager_committed i s')"
    using serve_takes
    by (cases input) (fastforce simp: manager_service_def taken_or_not_def split: prod.split_asm sum.split_asm)
qed

end
