(* ===== verification/Delivery_Progress.thy ===== *)
theory Delivery_Progress
  imports Delivery_Safety
begin

text \<open>
  The end of a link and the progress of a stream: the link returns only when a terminal
  observation is committed, and a stream that stands delivers everything in a bounded number of
  steps.
\<close>

section \<open>The terminal observation\<close>

definition terminal_ok :: "'s delivery \<Rightarrow> bool" where
  "terminal_ok s \<longleftrightarrow>
     (\<forall>t. lk_terminal_sequence (dl_link s) = Some t \<longrightarrow>
        (\<exists>ob \<in> set (recorded (dl_journal s)). ro_terminal ob \<and> ro_sequence ob = t)) \<and>
     (lk_phase (dl_link s) = Returned \<longrightarrow>
        (\<exists>t. lk_terminal_sequence (dl_link s) = Some t \<and> unat t \<le> journal_committed s))"

definition marks_terminal :: "runtime_observation list \<Rightarrow> link \<Rightarrow> bool" where
  "marks_terminal obs l \<longleftrightarrow> (\<forall>t. lk_terminal_sequence l = Some t \<longrightarrow> (\<exists>ob \<in> set obs. ro_terminal ob \<and> ro_sequence ob = t))"

lemma marks_terminal_sent: "ob \<in> set obs \<Longrightarrow> marks_terminal obs l \<Longrightarrow> marks_terminal obs (note_sent ob l)"
  by (auto simp: marks_terminal_def note_sent_def)

lemma fold_marks_terminal:
  "set sent \<subseteq> set obs \<Longrightarrow> marks_terminal obs l \<Longrightarrow> marks_terminal obs (fold note_sent sent l)"
  by (induction sent arbitrary: l) (simp_all add: marks_terminal_sent)

lemma observations_after_recorded: "set (observations_after j k) \<subseteq> set (recorded j)"
  by (auto simp: observations_after_def recorded_def)

lemma found_in: "find P xs = Some x \<Longrightarrow> x \<in> set xs \<and> P x"
  by (induction xs) (auto split: if_split_asm)

lemma last_terminal_marks:
  assumes "last_terminal j = Some t"
  shows "\<exists>ob \<in> set (recorded j). ro_terminal ob \<and> ro_sequence ob = t"
proof -
  obtain ob where ob: "find ro_terminal (rev (observations_after j 0)) = Some ob" "ro_sequence ob = t"
    using assms by (auto simp: last_terminal_def)
  then have "ob \<in> set (observations_after j 0)" "ro_terminal ob"
    using found_in [OF ob(1)] by simp_all
  then show ?thesis using ob(2) observations_after_recorded by blast
qed

lemma live_closed_marks: "marks_terminal (recorded j) l \<Longrightarrow> marks_terminal (recorded j) (live_closed j l)"
  using last_terminal_marks by (auto simp: marks_terminal_def live_closed_def split: option.split_asm)

section \<open>The steps of the link\<close>

lemma welcomed_cases:
  assumes "welcomed_by c s = Some s'"
  obtains "s' = link_fails s" | "s' = stream_lost Connecting s"
  | j l k where "dl_journal s' = j" "dl_link s' = fold note_sent (observations_after j k) l"
      "lk_terminal_sequence l = None" "lk_phase (dl_link s') = Attached"
proof (cases "link_welcomed c (hd (dl_down s)) (dl_journal s, dl_link s)")
  case (Inl err)
  then have "s' = link_fails s" using assms by (auto simp: welcomed_by_def split: list.split_asm if_split_asm)
  then show ?thesis by (rule that(1))
next
  case (Inr result)
  obtain j l messages where r: "result = ((j, l), messages)" by (cases result) auto
  show ?thesis
  proof (cases "lk_phase l = Attached")
    case False
    then have "s' = stream_lost Connecting s"
      using assms Inr r by (auto simp: welcomed_by_def split: list.split_asm if_split_asm)
    then show ?thesis by (rule that(2))
  next
    case True
    obtain k l' where "l = fold note_sent (observations_after j k) l'" "lk_terminal_sequence l' = None"
      using Inr True by (auto simp: r link_welcomed_def Let_def and_then_Inr split: option.split_asm)
    moreover have "dl_journal s' = j" "dl_link s' = l"
      using assms Inr r True by (auto simp: welcomed_by_def split: list.split_asm if_split_asm)
    ultimately show ?thesis using True by (intro that(3)) simp_all
  qed
qed

lemma responded_cases:
  assumes "responded e s = Some s'"
  obtains "s' = link_fails s"
  | response rest where "dl_down s = response # rest" "lk_phase (dl_link s) = Attached"
      "link_response (sn_codec e) (sn_decode_policy e) response (dl_journal s, dl_link s) =
        Inr (dl_journal s', dl_link s')" "s' = s\<lparr>dl_journal := dl_journal s', dl_link := dl_link s', dl_down := rest\<rparr>"
  using assms by (auto simp: responded_def split: list.split_asm if_split_asm sum.split_asm)

lemma response_sel:
  assumes "link_response c d response (j, l) = Inr (j', l')"
  shows "lk_terminal_sequence l' = lk_terminal_sequence l" and "recorded j' = recorded j"
    and "unat (rr_committed_sequence (recovery j)) \<le> unat (rr_committed_sequence (recovery j'))"
    and "lk_phase l' = lk_phase l \<or> (lk_phase l' = Returned \<and>
      (\<exists>t. lk_terminal_sequence l = Some t \<and> unat t \<le> unat (rr_committed_sequence (recovery j'))))"
    and "lk_observations_open l' = lk_observations_open l"
  using assms
  by (auto simp: link_response_def Let_def and_then_Inr obey_def acknowledge_recorded unat_max_word word_le_nat_alt
      split: option.split_asm if_split_asm dest: acknowledge_recorded)

lemma sending_cases:
  assumes "sending s = Some s'"
  obtains ob rest where "dl_live s = ob # rest" "lk_phase (dl_link s) = Attached" "dl_journal s' = dl_journal s"
    "dl_link s' = dl_link s \<or> dl_link s' = note_sent ob (dl_link s)" "dl_live s' = rest"
    "dl_down s' = dl_down s" "length (dl_up s') \<le> Suc (length (dl_up s))"
  using assms by (auto simp: sending_def live_observation_def split: list.split_asm if_split_asm)

lemma deliver_terminal:
  assumes "terminal_ok s" and "delivery_ok committed s" and "deliver e sv committed ev s = Some s'"
  shows "terminal_ok s'"
proof -
  note marks = assms(1) [unfolded terminal_ok_def, folded marks_terminal_def, THEN conjunct1]
  have keep: "terminal_ok s'" if "dl_link s' = dl_link s" "set (recorded (dl_journal s)) \<subseteq> set (recorded (dl_journal s'))"
    "journal_committed s \<le> journal_committed s'"
    using assms(1) that by (fastforce simp: terminal_ok_def)
  have marked: "terminal_ok s'" if "marks_terminal (recorded (dl_journal s')) (dl_link s')"
    "lk_phase (dl_link s') \<noteq> Returned"
    using that by (simp add: terminal_ok_def marks_terminal_def)
  show ?thesis
  proof (cases ev)
    case (Observed ob)
    then show ?thesis using assms(3)
      by (intro keep) (auto simp: observed_def Let_def journal_committed_def append_observation_recorded
          split: if_split_asm sum.split_asm)
  next
    case (Checkpointed cp)
    then show ?thesis using assms(3)
      by (intro keep) (auto simp: checkpointed_def journal_committed_def append_checkpoint_recorded unat_max_word
          split: if_split_asm sum.split_asm)
  next
    case Welcomed
    then have "welcomed_by (sn_codec e) s = Some s'" using assms(3) by simp
    then show ?thesis
    proof (cases rule: welcomed_cases)
      case (3 j l k)
      have "marks_terminal (recorded j) (fold note_sent (observations_after j k) l)"
        using observations_after_recorded 3(3) by (intro fold_marks_terminal) (simp_all add: marks_terminal_def)
      then show ?thesis using 3 by (intro marked) simp_all
    qed (use marks in \<open>simp_all add: link_fails_def stream_lost_def marks_terminal_def terminal_ok_def\<close>)
  next
    case Responded
    then have "responded e s = Some s'" using assms(3) by simp
    then show ?thesis
    proof (cases rule: responded_cases)
      case 1
      then show ?thesis using marks by (simp add: link_fails_def marks_terminal_def terminal_ok_def)
    next
      case (2 response rest)
      then show ?thesis using response_sel [OF 2(3)] assms(1) by (auto simp: terminal_ok_def journal_committed_def)
    qed
  next
    case Sending
    then have "sending s = Some s'" using assms(3) by simp
    then show ?thesis
    proof (cases rule: sending_cases)
      case (1 ob rest)
      obtain b where "pending_from (recorded (dl_journal s)) (ob # rest) b"
        using assms(2) 1(1) by (auto simp: delivery_ok_def Let_def)
      then have "ob \<in> set (recorded (dl_journal s))" using pending_from_Cons by fastforce
      then show ?thesis using 1 marks marks_terminal_sent by (intro marked) (auto simp: note_sent_def)
    qed
  next
    case LiveEnded
    then have s': "s' = s\<lparr>dl_link := live_closed (dl_journal s) (dl_link s)\<rparr>" "lk_phase (dl_link s) = Attached"
      using assms(3) by (auto simp: live_ended_def split: if_split_asm)
    then have "lk_phase (dl_link s') = Attached" by (simp add: live_closed_def)
    then show ?thesis using live_closed_marks [OF marks] s' by (intro marked) simp_all
  next
    case (Accepted i)
    then show ?thesis using assms(1,3)
      by (auto simp: accepted_def refused_def terminal_ok_def journal_committed_def
          split: list.split_asm attach_request.split_asm if_split_asm prod.split_asm option.split_asm)
  next
    case (Served i)
    then show ?thesis using assms(3)
      by (intro keep) (auto simp: served_def store_served_def journal_committed_def
          split: list.split_asm attach_request.split_asm if_split_asm prod.split_asm option.split_asm)
  next
    case (ServedStale k i)
    then show ?thesis using assms(3)
      by (intro keep) (auto simp: served_stale_def store_served_def journal_committed_def
          split: list.split_asm attach_request.split_asm if_split_asm prod.split_asm option.split_asm)
  qed (use assms(1,3) in \<open>auto simp: terminal_ok_def journal_committed_def link_connected_def stream_lost_def
      supervisor_started_def fresh_link_def split: if_split_asm\<close>)
qed

lemma run_terminal:
  assumes "observation_service sv committed" and "terminal_ok s" and "delivery_ok committed s"
    and "deliver_all e sv committed evs s = Some s'" and "length (recorded (dl_journal s')) < 2 ^ 63"
  shows "terminal_ok s'"
  using assms(2-)
proof (induction evs arbitrary: s)
  case (Cons ev evs)
  obtain t where t: "deliver e sv committed ev s = Some t" "deliver_all e sv committed evs t = Some s'"
    using Cons.prems(3) by (auto simp: Option.bind_eq_Some_conv)
  have "length (recorded (dl_journal t)) < 2 ^ 63" using run_grows [OF t(2)] Cons.prems(4) by simp
  then show ?case
    using Cons.IH [OF _ _ t(2) Cons.prems(4)] deliver_terminal [OF Cons.prems(1,2) t(1)]
      observation_service.deliver_ok [OF assms(1) Cons.prems(2) t(1)] by simp
qed simp

section \<open>Progress\<close>

text \<open>Steps of a stream that stands: nothing new is written and nothing is lost.\<close>

fun calm :: "('i, 's) delivery_event \<Rightarrow> bool" where
  "calm (Served i) = True"
| "calm Responded = True"
| "calm Sending = True"
| "calm LiveEnded = True"
| "calm _ = False"

definition weight :: "'s delivery \<Rightarrow> nat" where
  "weight s = 3 * length (dl_live s) + 2 * length (dl_up s) + length (dl_down s) +
     (if lk_observations_open (dl_link s) then 1 else 0) + (if lk_phase (dl_link s) = Attached then 1 else 0)"

lemma calm_weight:
  assumes "calm ev" and "deliver e sv committed ev s = Some s'"
    and service: "\<And>i ob st x st'. sv_serve sv i (ObservationMessage ob) st = (Some x, st') \<Longrightarrow>
      x = Some (acknowledged (so_sequence ob))"
  shows "weight s' < weight s"
proof (cases ev)
  case (Served i)
  then have "served sv committed i s = Some s'" using assms(2) by simp
  then show ?thesis using service
    by (auto simp: served_def weight_def store_served_def
        split: list.split_asm attach_request.split_asm if_split_asm prod.split_asm option.split_asm)
next
  case Responded
  then have "responded e s = Some s'" using assms(2) by simp
  then show ?thesis
  proof (cases rule: responded_cases)
    case 1
    have "lk_phase (dl_link s) = Attached"
      using \<open>responded e s = Some s'\<close> by (auto simp: responded_def split: list.split_asm if_split_asm)
    then show ?thesis by (simp add: 1 weight_def link_fails_def)
  next
    case (2 response rest)
    then have "dl_live s' = dl_live s" "dl_up s' = dl_up s" "dl_down s' = rest"
      by (metis delivery.select_convs(4,6,7) delivery.update_convs(1,5,7) delivery.surjective)+
    then show ?thesis using 2(1,2) response_sel [OF 2(3)] by (auto simp: weight_def)
  qed
next
  case Sending
  then have "sending s = Some s'" using assms(2) by simp
  then show ?thesis
    by (cases rule: sending_cases) (auto simp: weight_def note_sent_def split: if_split)
next
  case LiveEnded
  then show ?thesis using assms(2) by (auto simp: live_ended_def weight_def live_closed_def split: if_split_asm)
qed (use assms(1) in simp_all)

lemma calm_run:
  assumes service: "\<And>i ob st x st'. sv_serve sv i (ObservationMessage ob) st = (Some x, st') \<Longrightarrow>
      x = Some (acknowledged (so_sequence ob))"
  shows "deliver_all e sv committed evs s = Some s' \<Longrightarrow> list_all calm evs \<Longrightarrow> length evs + weight s' \<le> weight s"
proof (induction evs arbitrary: s)
  case (Cons ev evs)
  obtain t where t: "deliver e sv committed ev s = Some t" "deliver_all e sv committed evs t = Some s'"
    using Cons.prems(1) by (auto simp: Option.bind_eq_Some_conv)
  have "weight t < weight s" using calm_weight [OF _ t(1) service] Cons.prems(2) by simp
  then show ?case using Cons.IH [OF t(2)] Cons.prems(2) by simp
qed simp

lemma append_run:
  "deliver_all e sv committed (evs @ evs') s = Option.bind (deliver_all e sv committed evs s) (deliver_all e sv committed evs')"
proof (induction evs arbitrary: s)
  case (Cons ev evs)
  then show ?case by (cases "deliver e sv committed ev s") simp_all
qed simp

text \<open>A stream with nothing left to do has delivered everything.\<close>

lemma calm_stop:
  assumes "delivery_ok committed s" and "lk_phase (dl_link s) = Attached" and "dl_task s = Serving"
    and stop: "\<And>ev. calm ev \<Longrightarrow> deliver e sv committed ev s = None"
  shows "committed (dl_store s) = length (recorded (dl_journal s)) \<and>
    journal_committed s = length (recorded (dl_journal s))"
proof -
  let ?obs = "recorded (dl_journal s)" and ?sent = "unat (lk_sent_sequence (dl_link s))"
  have live: "dl_live s = []"
    using stop [of Sending] assms(2) by (auto simp: sending_def live_observation_def split: list.split_asm if_split_asm)
  have down: "dl_down s = []"
    using stop [of Responded] assms(2) by (auto simp: responded_def split: list.split_asm sum.split_asm prod.split_asm)
  have flight: "in_flight ?obs (committed (dl_store s)) ?sent (journal_committed s) (dl_up s) []"
    and sent: "?sent = length ?obs"
    using assms(1-3) live down by (auto simp: delivery_ok_def link_ok_def Let_def pending_from_Nil)
  have up: "dl_up s = []"
  proof (cases "dl_up s")
    case (Cons message rest)
    obtain a where "segment ?obs a ?sent = message # rest" using flight Cons by (auto simp: in_flight_def)
    then obtain ob where ob: "message = ObservationMessage ob"
      using segment_Cons [of ?obs a ?sent message rest] sent by (auto simp: send_observation_def)
    then have "deliver e sv committed (Served i) s \<noteq> None" for i
      using assms(3) Cons by (auto simp: served_def split: prod.split option.split)
    then show ?thesis using stop [of "Served undefined"] by (metis calm.simps(1))
  qed
  obtain a where a: "a \<le> ?sent" "segment ?obs a ?sent = []" "acked a (journal_committed s) []"
    using flight up by (auto simp: in_flight_def)
  have "a = length ?obs" using a(1,2) sent segment_length [of a ?sent ?obs] by simp
  then have "length ?obs \<le> journal_committed s" using a(3) by (simp add: acked_def)
  then show ?thesis using assms(1) by (auto simp: delivery_ok_def Let_def)
qed

end
