(* ===== verification/Delivery_Properties.thy ===== *)
theory Delivery_Properties
  imports Delivery_Manager Delivery_Progress Run_Properties
begin

text \<open>
  The promises of the stream between a supervisor and the manager, over every sequence of writes,
  losses of the connection, restarts of either side and messages that a lost stream had brought.
\<close>

section \<open>Properties\<close>


text \<open>
  C31. The link to the controller returns only when a terminal observation of the journal is
  committed.
\<close>

theorem link_returns_after_terminal:
  assumes "deliver_all e (manager_service w uuid_ok i) (manager_committed i) evs (delivery_start m) = Some s"
    and "manager_committed i m = 0" and "length (recorded (dl_journal s)) < 2 ^ 63"
    and "lk_phase (dl_link s) = Returned"
  shows "\<exists>ob \<in> set (recorded (dl_journal s)). ro_terminal ob \<and>
    unat (ro_sequence ob) \<le> manager_committed i (dl_store s)"
proof -
  have start: "delivery_ok (manager_committed i) (delivery_start m)" by (rule start_ok [where committed = "manager_committed i", OF assms(2)])
  have "terminal_ok (delivery_start m)" by (simp add: terminal_ok_def delivery_start_def fresh_link_def)
  then have "terminal_ok s"
    using run_terminal [OF manager_store.observation_service_axioms _ start assms(1,3)] by simp
  then obtain ob where "ob \<in> set (recorded (dl_journal s))" "ro_terminal ob"
      "unat (ro_sequence ob) \<le> journal_committed s"
    using assms(4) by (auto simp: terminal_ok_def)
  moreover have "journal_committed s \<le> manager_committed i (dl_store s)"
    using manager_store.run_ok [OF start assms(1,3)] by (simp add: delivery_ok_def Let_def)
  ultimately show ?thesis using le_trans by blast
qed

text \<open>
  C32. A stream that stands delivers: while nothing new is written and nothing is lost, it takes
  at most \<open>weight\<close> steps, and when no step is left, everything written is committed and the
  supervisor knows it.
\<close>

theorem standing_stream_delivers:
  assumes "deliver_all e (manager_service w uuid_ok i) (manager_committed i) evs (delivery_start m) = Some s"
    and "manager_committed i m = 0"
    and "deliver_all e (manager_service w uuid_ok i) (manager_committed i) calm_evs s = Some t"
    and "list_all calm calm_evs" and "length (recorded (dl_journal t)) < 2 ^ 63"
  shows "length calm_evs \<le> weight s \<and>
    (lk_phase (dl_link t) = Attached \<longrightarrow> dl_task t = Serving \<longrightarrow>
      (\<forall>ev. calm ev \<longrightarrow> deliver e (manager_service w uuid_ok i) (manager_committed i) ev t = None) \<longrightarrow>
      manager_committed i (dl_store t) = length (recorded (dl_journal t)) \<and>
      journal_committed t = length (recorded (dl_journal t)))"
proof -
  have "length calm_evs + weight t \<le> weight s"
    by (rule calm_run [OF _ assms(3,4)]) (use manager_store.serve_response in blast)
  moreover have "deliver_all e (manager_service w uuid_ok i) (manager_committed i) (evs @ calm_evs) (delivery_start m) = Some t"
    using assms(1,3) by (simp add: append_run)
  then have "delivery_ok (manager_committed i) t"
    by (rule manager_store.run_ok [OF start_ok [where committed = "manager_committed i", OF assms(2)] _ assms(5)])
  ultimately show ?thesis using calm_stop by fastforce
qed

text \<open>
  A link that has met the loss of its connection while it sent, or waited for the
  welcome, is gone for good: as long as the supervisor lives, it never connects again.
\<close>

theorem lost_link_is_never_rebuilt:
  assumes "deliver_all e sv level evs s = Some t" and "lk_phase (dl_link s) = GaveUp"
    and "list_all (\<lambda>ev. ev \<noteq> SupervisorRestarted) evs"
  shows "lk_phase (dl_link t) = GaveUp"
  using assms
proof (induction evs arbitrary: s)
  case (Cons ev evs)
  obtain u where u: "deliver e sv level ev s = Some u" "deliver_all e sv level evs u = Some t"
    using Cons.prems(1) by (auto simp: Option.bind_eq_Some_conv)
  have "lk_phase (dl_link u) = GaveUp"
    using u(1) Cons.prems(2,3)
    by (cases ev)
      (auto simp: observed_def checkpointed_def accepted_def refused_def served_def served_stale_def store_served_def
        welcomed_by_def responded_def sending_def live_ended_def stream_lost_def Let_def
        split: if_split_asm list.split_asm attach_request.split_asm sum.split_asm prod.split_asm option.split_asm)
  then show ?case using Cons.IH [OF u(2)] Cons.prems(3) by simp
qed simp

section \<open>A sample stream\<close>

text \<open>The manager has adopted the execution \<open>a\<close> of the job \<open>backup\<close>.\<close>

definition sample_end :: supervisor_end where
  "sample_end = \<lparr>sn_codec = plain_codec, sn_configuration = configuration_default\<lparr>ec_execution_id := ''a''\<rparr>,
     sn_identity = \<lparr>si_id = ''s'', si_incarnation = 1\<rparr>, sn_decode_policy = \<lambda>_. None\<rparr>"
definition sample_observation :: "string \<Rightarrow> bool \<Rightarrow> runtime_observation" where
  "sample_observation kind terminal = \<lparr>ro_sequence = 0, ro_kind = kind, ro_attempt = 1, ro_exit_code = None, ro_detail = [],
     ro_observed_unix_ms = 5, ro_terminal = terminal, ro_workload_process_id = 7\<rparr>"
definition sample_call :: "manager_input \<times> caller" where
  "sample_call = (\<lparr>mi_uuid = ''u'', mi_time = Some 9, mi_pin = Inr None\<rparr>, Some 3)"
definition sample_service :: "(manager_input \<times> caller, manager) service" where
  "sample_service = manager_service sample_manager_world (\<lambda>_. True) ''a''"

definition adopting_manager :: manager where
  "adopting_manager = (unopened (sample_database 0))\<lparr>
     mg_active := [(''backup'', (new_active sample_manager_world ''a'' configuration_default)\<lparr>ae_locally_owned := False\<rparr>)]\<rparr>"

lemmas attach_evaluation = manager_service_def attach_def attach_supervisor_def stored_of_def db_query_def
  get_execution_def read_execution_def execution_row_of_def u64_try_from_def decode_snapshot_def process_defs
  set_active_def bump_def sample_manager_world_def sample_database_def sample_row_def sample_service_def
  adopting_manager_def new_active_def unopened_def sample_call_def

definition attaching :: "string \<Rightarrow> bool \<Rightarrow> (manager_input \<times> caller, manager) delivery_event list" where
  "attaching kind terminal = [Observed (sample_observation kind terminal), Connected, Accepted sample_call, Welcomed]"

lemmas serve_evaluation = serve_message_def record_supervisor_observation_def terminalizes_def observation_kinds_def
  observation_update_of_def observed_progress_def observed_terminal_def observed_active_def owns_def
  restarts_after_def remove_version_pin_def remove_active_def set_last_outcome_def update_workloads_def db_update_def commit_observation_def
  i64_try_from_def i64_checked_add_def i64_ok_def update_execution_def progress_observation_def terminal_kinds_def

lemmas stream_evaluation = observed_def append_observation_def journal_append_def link_connected_def hello_of_def
  accepted_def welcomed_by_def link_welcomed_def welcomed_def served_def store_served_def stream_lost_def
  left_over_def delivery_start_def fresh_link_def recovery_def max_or_zero_def observations_after_def
  send_observation_def note_sent_def acknowledge_def frame_bytes_def saturating_add_def
  responded_def link_response_def obey_def sample_end_def plain_codec_def sample_observation_def acknowledged_def manager_committed_def committed_sequence_def
  recorded_def attaching_def weight_def configuration_default_def Let_def
  max_runtime_frame_bytes_def map_filter_simps

lemmas sample_evaluation = attach_evaluation serve_evaluation stream_evaluation

abbreviation sample_run :: "(manager_input \<times> caller, manager) delivery_event list \<Rightarrow> manager delivery \<Rightarrow> manager delivery option" where
  "sample_run \<equiv> deliver_all sample_end sample_service (manager_committed ''a'')"

lemma adopting_committed: "manager_committed ''a'' adopting_manager = 0"
  by (simp add: sample_evaluation)


theorem link_returns_after_terminal_witness:
  "\<exists>s. sample_run (attaching ''completed'' True @ [Served sample_call, Responded]) (delivery_start adopting_manager) = Some s \<and>
     1 \<le> manager_committed ''a'' (dl_store s)"
proof -
  obtain s where s: "sample_run (attaching ''completed'' True @ [Served sample_call, Responded])
        (delivery_start adopting_manager) = Some s"
      "length (recorded (dl_journal s)) = 1" "lk_phase (dl_link s) = Returned"
      "\<forall>ob \<in> set (recorded (dl_journal s)). ro_sequence ob = 1"
    by (simp add: sample_evaluation)
  then show ?thesis
    using link_returns_after_terminal [OF s(1) [unfolded sample_service_def] adopting_committed] by auto
qed

theorem standing_stream_delivers_witness:
  "\<exists>s t. sample_run (attaching ''policy-applied'' False) (delivery_start adopting_manager) = Some s \<and>
     sample_run [Served sample_call, Responded] s = Some t \<and> 2 \<le> weight s"
proof -
  obtain s where s: "sample_run (attaching ''policy-applied'' False) (delivery_start adopting_manager) = Some s"
      "\<exists>t. sample_run [Served sample_call, Responded] s = Some t \<and> length (recorded (dl_journal t)) = 1"
    by (simp add: sample_evaluation)
  then obtain t where t: "sample_run [Served sample_call, Responded] s = Some t" "length (recorded (dl_journal t)) = 1"
    by blast
  then show ?thesis
    using standing_stream_delivers [OF s(1) [unfolded sample_service_def] adopting_committed
        t(1) [unfolded sample_service_def]] s(1) by auto
qed

theorem lost_link_is_never_rebuilt_witness:
  "\<exists>s t. sample_run (attaching ''policy-applied'' False @ [Lost False]) (delivery_start adopting_manager) = Some s \<and>
     sample_run [ControllerRestarted, Observed (sample_observation ''completed'' True)] s = Some t \<and>
     lk_phase (dl_link t) = GaveUp"
proof -
  obtain s where s: "sample_run (attaching ''policy-applied'' False @ [Lost False]) (delivery_start adopting_manager) = Some s"
      "lk_phase (dl_link s) = GaveUp"
      "\<exists>t. sample_run [ControllerRestarted, Observed (sample_observation ''completed'' True)] s = Some t"
    by (simp add: sample_evaluation)
  then obtain t where t: "sample_run [ControllerRestarted, Observed (sample_observation ''completed'' True)] s = Some t"
    by blast
  show ?thesis using lost_link_is_never_rebuilt [OF t s(2)] s(1) t by simp
qed

end
