(* ===== verification/Files.thy ===== *)
theory Files
  imports Run_Monad Bytes "HOL-Library.AList" "HOL-Library.Sublist"
begin

text \<open>
  The file operations the installer and the host use. A tree lists the nodes of a volume by path;
  what a symbolic link or junction leads to is seen under the path of the link, so two paths do
  not share a node, and names differ when their spelling does. A system call takes one answer from the
  input: it works as the tree allows, or breaks off, a longer one after part of its effect. The
  input ends where the process is killed.
\<close>

datatype node = Regular "u8 list" | Directory | Link_file "u8 list" | Junction | Dangling

type_synonym path = "string list"
type_synonym files = "(path \<times> node) list"

datatype call = Works | Breaks nat

record disk =
  tree :: files
  calls :: "call list"
  uuids :: nat

section \<open>Looking\<close>

text \<open>\<open>FileType::is_symlink\<close>, which is true of junctions, and what \<open>fs::metadata\<close> finds behind a link.\<close>

fun is_link :: "node \<Rightarrow> bool" where
  "is_link (Link_file bs) = True"
| "is_link Junction = True"
| "is_link Dangling = True"
| "is_link (Regular bs) = False"
| "is_link Directory = False"

fun is_file :: "node \<Rightarrow> bool" where
  "is_file (Regular bs) = True"
| "is_file _ = False"

lemma is_file_iff [simp]: "is_file n \<longleftrightarrow> (\<exists>bs. n = Regular bs)"
  by (cases n) simp_all

fun follow :: "node \<Rightarrow> node option" where
  "follow (Regular bs) = Some (Regular bs)"
| "follow Directory = Some Directory"
| "follow (Link_file bs) = Some (Regular bs)"
| "follow Junction = Some Directory"
| "follow Dangling = None"

definition lstat :: "files \<Rightarrow> path \<Rightarrow> node option" where
  "lstat t p = (if p = [] then Some Directory else map_of t p)"

definition stat :: "files \<Rightarrow> path \<Rightarrow> node option" where
  "stat t p = Option.bind (lstat t p) follow"

definition read_file :: "files \<Rightarrow> path \<Rightarrow> u8 list option" where
  "read_file t p = (case stat t p of Some (Regular bs) \<Rightarrow> Some bs | _ \<Rightarrow> None)"

fun node_size :: "node \<Rightarrow> nat" where
  "node_size (Regular bs) = length bs"
| "node_size n = 0"

definition entries :: "files \<Rightarrow> path \<Rightarrow> (string \<times> node) list" where
  "entries t p =
     List.map_filter (\<lambda>(q, n). if q \<noteq> [] \<and> butlast q = p then Some (last q, n) else None) t"

definition read_dir :: "files \<Rightarrow> path \<Rightarrow> (string \<times> node) list option" where
  "read_dir t p = (if stat t p = Some Directory then Some (entries t p) else None)"

section \<open>Changing\<close>

definition place :: "path \<Rightarrow> node \<Rightarrow> files \<Rightarrow> files" where
  "place = AList.update"

definition erase :: "path \<Rightarrow> files \<Rightarrow> files" where
  "erase = AList.delete"

text \<open>
  A new node lies in a directory and has a name within the limit of the file system: 255 units of
  UTF-16, which are at most 765 bytes.
\<close>

definition in_directory :: "files \<Rightarrow> path \<Rightarrow> bool" where
  "in_directory t p \<longleftrightarrow>
     p \<noteq> [] \<and> length (last p) \<le> 765 \<and> stat t (butlast p) = Some Directory"

definition create_dir :: "path \<Rightarrow> files \<Rightarrow> files option" where
  "create_dir p t =
     (if in_directory t p \<and> lstat t p = None then Some (place p Directory t) else None)"

fun create_below :: "path \<Rightarrow> string list \<Rightarrow> files \<Rightarrow> files option" where
  "create_below p [] t = Some t"
| "create_below p (x # xs) t =
     (let q = p @ [x] in
      case lstat t q of
        None \<Rightarrow> if length x \<le> 765 then create_below q xs (place q Directory t) else None
      | Some n \<Rightarrow> if follow n = Some Directory then create_below q xs t else None)"

definition create_dir_all :: "path \<Rightarrow> files \<Rightarrow> files option" where
  "create_dir_all p t = create_below [] p t"

definition part_created :: "path \<Rightarrow> nat \<Rightarrow> files \<Rightarrow> files" where
  "part_created p n t = (case create_dir_all (take n p) t of None \<Rightarrow> t | Some t' \<Rightarrow> t')"

text \<open>A file with new contents: created, or truncated and written, through a link where there is one.\<close>

definition put_file :: "path \<Rightarrow> u8 list \<Rightarrow> files \<Rightarrow> files option" where
  "put_file p bs t =
     (case lstat t p of
        None \<Rightarrow> if in_directory t p then Some (place p (Regular bs) t) else None
      | Some (Regular _) \<Rightarrow> Some (place p (Regular bs) t)
      | Some (Link_file _) \<Rightarrow> Some (place p (Link_file bs) t)
      | Some Dangling \<Rightarrow> Some (place p (Link_file bs) t)
      | _ \<Rightarrow> None)"

definition part_put :: "path \<Rightarrow> u8 list \<Rightarrow> nat \<Rightarrow> files \<Rightarrow> files" where
  "part_put p bs n t =
     (if n = 0 then t else case put_file p (take (n - 1) bs) t of None \<Rightarrow> t | Some t' \<Rightarrow> t')"

fun container :: "node \<Rightarrow> bool" where
  "container Directory = True"
| "container Junction = True"
| "container _ = False"

definition moved :: "path \<Rightarrow> path \<Rightarrow> files \<Rightarrow> files" where
  "moved src dst t =
     map (\<lambda>(q, n). (if prefix src q then dst @ drop (length src) q else q, n)) t"

text \<open>
  \<open>fs::rename\<close> and \<open>MoveFileExW\<close>: a file takes the place of a file or of a link to one, a directory
  only a place that is free.
\<close>

definition rename :: "path \<Rightarrow> path \<Rightarrow> files \<Rightarrow> files option" where
  "rename src dst t =
     (case lstat t src of
        None \<Rightarrow> None
      | Some n \<Rightarrow>
          if \<not> in_directory t dst then None
          else if container n
          then (if lstat t dst = None \<and> \<not> prefix src dst
                then Some (moved src dst (filter (\<lambda>(q, m). \<not> prefix dst q) t)) else None)
          else (case lstat t dst of
                  None \<Rightarrow> Some (place dst n (erase src t))
                | Some m \<Rightarrow> if container m then None else Some (place dst n (erase src t))))"

definition remove_file :: "path \<Rightarrow> files \<Rightarrow> files option" where
  "remove_file p t =
     (case lstat t p of Some n \<Rightarrow> if container n then None else Some (erase p t) | None \<Rightarrow> None)"

definition remove_dir :: "path \<Rightarrow> files \<Rightarrow> files option" where
  "remove_dir p t =
     (case map_of t p of
        Some Directory \<Rightarrow> if entries t p = [] then Some (erase p t) else None
      | Some Junction \<Rightarrow> Some (erase p t)
      | _ \<Rightarrow> None)"

text \<open>\<open>fs::remove_dir_all\<close> removes the deepest nodes first, and of a link the link alone.\<close>

definition removal_order :: "path \<Rightarrow> files \<Rightarrow> path list" where
  "removal_order p t = rev (sort_key length (filter (prefix p) (map fst t)))"

definition erase_all :: "path list \<Rightarrow> files \<Rightarrow> files" where
  "erase_all ps t = fold erase ps t"

definition remove_dir_all :: "path \<Rightarrow> files \<Rightarrow> files option" where
  "remove_dir_all p t =
     (case map_of t p of
        Some Directory \<Rightarrow> Some (erase_all (removal_order p t) t)
      | Some n \<Rightarrow> if is_link n then Some (erase p t) else None
      | None \<Rightarrow> None)"

definition part_removed :: "path \<Rightarrow> nat \<Rightarrow> files \<Rightarrow> files" where
  "part_removed p n t =
     (if map_of t p = Some Directory then erase_all (take n (removal_order p t)) t else t)"

section \<open>System calls\<close>

definition syscall ::
  "'e \<Rightarrow> (nat \<Rightarrow> files \<Rightarrow> files) \<Rightarrow> (files \<Rightarrow> ('a \<times> files) option) \<Rightarrow> (disk, 'e, 'a) process" where
  "syscall e part action s =
     (case calls s of
        [] \<Rightarrow> (Pending, s)
      | Breaks n # cs \<Rightarrow> (Failed e, s\<lparr>calls := cs, tree := part n (tree s)\<rparr>)
      | Works # cs \<Rightarrow>
          (case action (tree s) of
             None \<Rightarrow> (Failed e, s\<lparr>calls := cs\<rparr>)
           | Some (x, t) \<Rightarrow> (Done x, s\<lparr>calls := cs, tree := t\<rparr>)))"

definition looking :: "'e \<Rightarrow> (files \<Rightarrow> 'a option) \<Rightarrow> (disk, 'e, 'a) process" where
  "looking e f = syscall e (\<lambda>n t. t) (\<lambda>t. map_option (\<lambda>x. (x, t)) (f t))"

definition doing :: "'e \<Rightarrow> (nat \<Rightarrow> files \<Rightarrow> files) \<Rightarrow> (files \<Rightarrow> files option) \<Rightarrow> (disk, 'e, unit) process" where
  "doing e part f = syscall e part (\<lambda>t. map_option (\<lambda>t'. ((), t')) (f t))"

text \<open>\<open>Path::is_dir\<close> answers false when it cannot tell.\<close>

definition asking :: "(files \<Rightarrow> bool) \<Rightarrow> (disk, 'e, bool) process" where
  "asking f s =
     (case calls s of
        [] \<Rightarrow> (Pending, s)
      | Breaks n # cs \<Rightarrow> (Done False, s\<lparr>calls := cs\<rparr>)
      | Works # cs \<Rightarrow> (Done (f (tree s)), s\<lparr>calls := cs\<rparr>))"

definition untouched :: "nat \<Rightarrow> files \<Rightarrow> files" where
  "untouched n t = t"

definition draw_uuid :: "(disk, 'e, nat) process" where
  "draw_uuid s = (Done (uuids s), s\<lparr>uuids := Suc (uuids s)\<rparr>)"

text \<open>A call whose answer carries nothing new, but which may fail.\<close>

definition proceed :: "'e \<Rightarrow> (disk, 'e, unit) process" where
  "proceed e = looking e (\<lambda>t. Some ())"

definition require :: "'e \<Rightarrow> bool \<Rightarrow> (disk, 'e, unit) process" where
  "require e b = (if b then ret () else throw e)"

section \<open>What a change leaves alone\<close>

lemma map_of_place [simp]: "map_of (place p n t) q = (if q = p then Some n else map_of t q)"
  by (simp add: place_def update_conv')

lemma map_of_erase [simp]: "map_of (erase p t) q = (if q = p then None else map_of t q)"
  by (auto simp: erase_def delete_conv')

lemma lstat_place [simp]:
  "p \<noteq> [] \<Longrightarrow> lstat (place p n t) q = (if q = p then Some n else lstat t q)"
  by (simp add: lstat_def)

lemma lstat_place_other: "q \<noteq> p \<Longrightarrow> lstat (place p n t) q = lstat t q"
  by (simp add: lstat_def)

lemma lstat_erase_other: "q \<noteq> p \<Longrightarrow> lstat (erase p t) q = lstat t q"
  by (simp add: lstat_def)

lemma map_of_erase_all:
  "map_of (erase_all ps t) q = (if q \<in> set ps then None else map_of t q)"
  by (induction ps arbitrary: t) (simp_all add: erase_all_def)

lemma removal_order_below: "set (removal_order p t) = {q \<in> fst ` set t. prefix p q}"
  by (auto simp: removal_order_def)

lemma remove_dir_all_other:
  "remove_dir_all p t = Some t' \<Longrightarrow> \<not> prefix p q \<Longrightarrow> map_of t' q = map_of t q"
  by (auto simp: remove_dir_all_def map_of_erase_all removal_order_below
    split: option.splits node.splits if_splits)

lemma part_removed_other: "\<not> prefix p q \<Longrightarrow> map_of (part_removed p n t) q = map_of t q"
  by (auto simp: part_removed_def map_of_erase_all removal_order_below
    dest: in_set_takeD)

lemma remove_file_other: "remove_file p t = Some t' \<Longrightarrow> p \<noteq> q \<Longrightarrow> map_of t' q = map_of t q"
  by (auto simp: remove_file_def split: option.splits if_splits)

lemma remove_dir_other: "remove_dir p t = Some t' \<Longrightarrow> p \<noteq> q \<Longrightarrow> map_of t' q = map_of t q"
  by (auto simp: remove_dir_def split: option.splits node.splits if_splits)

lemma put_file_other: "put_file p bs t = Some t' \<Longrightarrow> p \<noteq> q \<Longrightarrow> map_of t' q = map_of t q"
  by (auto simp: put_file_def split: option.splits node.splits if_splits)

lemma part_put_other: "p \<noteq> q \<Longrightarrow> map_of (part_put p bs n t) q = map_of t q"
  by (auto simp: part_put_def dest: put_file_other split: option.splits)

lemma create_below_other:
  "create_below p xs t = Some t' \<Longrightarrow> map_of t' q = map_of t q \<or>
     (map_of t q = None \<and> map_of t' q = Some Directory \<and> prefix q (p @ xs))"
proof (induction p xs t arbitrary: t' rule: create_below.induct)
  case (1 p t)
  then show ?case by simp
next
  case (2 p x xs t)
  show ?case
  proof (cases "lstat t (p @ [x])")
    case None
    then have "map_of t' q = map_of (place (p @ [x]) Directory t) q \<or>
        (map_of (place (p @ [x]) Directory t) q = None \<and> map_of t' q = Some Directory \<and>
         prefix q ((p @ [x]) @ xs))"
      using 2(1) [OF refl None] 2(3) None by (simp add: Let_def split: if_splits)
    then show ?thesis using None by (auto simp: lstat_def split: if_splits)
  next
    case (Some n)
    then show ?thesis using 2(2) [OF refl Some] 2(3) by (simp add: Let_def split: if_splits)
  qed
qed

lemma create_dir_all_other:
  "create_dir_all p t = Some t' \<Longrightarrow> map_of t q = Some n \<Longrightarrow> map_of t' q = Some n"
  using create_below_other [of "[]" p t t' q] by (auto simp: create_dir_all_def)

lemma create_dir_all_away:
  "create_dir_all p t = Some t' \<Longrightarrow> \<not> prefix q p \<Longrightarrow> map_of t' q = map_of t q"
  using create_below_other [of "[]" p t t' q] by (auto simp: create_dir_all_def)

lemma part_created_other: "map_of t q = Some n \<Longrightarrow> map_of (part_created p k t) q = Some n"
  by (auto simp: part_created_def dest: create_dir_all_other split: option.split)

lemma part_created_away:
  assumes "\<not> prefix q p"
  shows "map_of (part_created p k t) q = map_of t q"
proof -
  have "\<not> prefix q (take k p)"
    using assms prefix_order.order_trans [OF _ take_is_prefix [of k p]] by blast
  then show ?thesis
    by (auto simp: part_created_def dest: create_dir_all_away split: option.split)
qed

lemma create_dir_other: "create_dir p t = Some t' \<Longrightarrow> p \<noteq> q \<Longrightarrow> map_of t' q = map_of t q"
  by (auto simp: create_dir_def split: if_splits)

lemma map_of_unreached: "(\<And>n. (q, n) \<notin> set t) \<Longrightarrow> map_of t q = None"
  by (auto simp: map_of_eq_None_iff)

lemma moved_other:
  assumes "\<not> prefix dst q" and "\<not> prefix src q"
  shows "map_of (moved src dst t) q = map_of t q"
  using assms by (induction t) (auto simp: moved_def)

lemma moved_to:
  assumes "\<And>r m. (r, m) \<in> set t \<Longrightarrow> \<not> prefix dst r" and "\<not> prefix src dst"
  shows "map_of (moved src dst t) (dst @ q) = map_of t (src @ q)"
  using assms(1)
proof (induction t)
  case Nil
  then show ?case by (simp add: moved_def)
next
  case (Cons a t)
  obtain r m where a: "a = (r, m)" by fastforce
  have "\<not> prefix dst r" using Cons.prems a by auto
  moreover have "dst @ drop (length src) r = dst @ q \<longleftrightarrow> r = src @ q" if "prefix src r"
    using that by (auto simp: prefix_def)
  moreover have "r \<noteq> dst @ q" using calculation(1) by auto
  moreover have "r = src @ q \<Longrightarrow> prefix src r" by simp
  ultimately show ?case using Cons a by (auto simp: moved_def)
qed

lemma map_of_filter_away:
  "\<not> prefix p q \<Longrightarrow> map_of (filter (\<lambda>(r, m). \<not> prefix p r) t) q = map_of t q"
  by (induction t) auto

lemma rename_other:
  assumes "rename src dst t = Some t'" and "\<not> prefix src q" and "\<not> prefix dst q"
  shows "map_of t' q = map_of t q"
proof -
  have "src \<noteq> q" and "dst \<noteq> q" using assms(2,3) by auto
  then show ?thesis using assms
    by (auto simp: rename_def moved_other map_of_filter_away split: option.splits if_splits)
qed

lemma rename_file:
  assumes "rename src dst t = Some t'" and "lstat t src = Some (Regular bs)"
  shows "map_of t' dst = Some (Regular bs) \<and> (\<forall>q. q \<noteq> dst \<longrightarrow> q \<noteq> src \<longrightarrow> map_of t' q = map_of t q)"
  using assms by (auto simp: rename_def split: option.splits if_splits)

lemma rename_directory:
  assumes "rename src dst t = Some t'" and "map_of t src = Some Directory" and "src \<noteq> []"
  shows "lstat t dst = None \<and> \<not> prefix src dst \<and> length (last dst) \<le> 765 \<and>
    (\<not> prefix dst src \<longrightarrow> (\<forall>q. \<not> prefix dst (src @ q) \<longrightarrow> map_of t' (dst @ q) = map_of t (src @ q)))"
proof -
  let ?f = "filter (\<lambda>(q, m). \<not> prefix dst q) t"
  have t': "lstat t dst = None" "\<not> prefix src dst" "t' = moved src dst ?f"
    and name: "length (last dst) \<le> 765"
    using assms by (auto simp: rename_def lstat_def in_directory_def split: if_splits)
  have "map_of t' (dst @ q) = map_of t (src @ q)" if "\<not> prefix dst (src @ q)" for q
    using moved_to [of ?f dst src q] map_of_filter_away [OF that] t'(2,3) by auto
  then show ?thesis using t'(1,2) name by blast
qed

section \<open>Triples of system calls\<close>

definition on :: "(files \<Rightarrow> bool) \<Rightarrow> disk \<Rightarrow> bool" where
  "on T s \<longleftrightarrow> T (tree s)"

lemma syscall_rule:
  assumes "\<And>t. T t \<Longrightarrow> X t" and "\<And>t n. T t \<Longrightarrow> X (part n t)"
    and "\<And>t x t'. T t \<Longrightarrow> action t = Some (x, t') \<Longrightarrow> Q x t'"
  shows "triple (on T) (syscall e part action) (\<lambda>x. on (Q x)) (on X)"
  unfolding triple_def
proof (intro allI impI)
  fix s
  assume T: "on T s"
  show "case syscall e part action s of (Done x, s') \<Rightarrow> on (Q x) s' | (Failed e, s') \<Rightarrow> on X s'
      | (Pending, s') \<Rightarrow> on X s'"
  proof (cases "calls s")
    case Nil
    then show ?thesis using assms(1) T by (simp add: syscall_def on_def)
  next
    case (Cons c cs)
    then show ?thesis using assms T
      by (cases c; cases "action (tree s)") (auto simp: syscall_def on_def)
  qed
qed

text \<open>\<open>reads t m R\<close>: on the tree \<open>t\<close>, \<open>m\<close> changes nothing, and its result satisfies \<open>R\<close>.\<close>

definition reads :: "files \<Rightarrow> (disk, 'e, 'a) process \<Rightarrow> ('a \<Rightarrow> bool) \<Rightarrow> bool" where
  "reads t m R \<longleftrightarrow> triple (on ((=) t)) m (\<lambda>x s. on ((=) t) s \<and> R x) (on ((=) t))"

lemma reads_bind:
  assumes "reads t m R" and "\<And>x. R x \<Longrightarrow> reads t (g x) S"
  shows "reads t (bind m g) S"
  unfolding reads_def
proof (rule triple_bind)
  show "triple (on ((=) t)) m (\<lambda>x s. on ((=) t) s \<and> R x) (on ((=) t))"
    using assms(1) by (simp add: reads_def)
  show "triple (\<lambda>s. on ((=) t) s \<and> R x) (g x) (\<lambda>x s. on ((=) t) s \<and> S x) (on ((=) t))" for x
    by (rule triple_prem) (use assms(2) in \<open>simp add: reads_def\<close>)
qed

lemma reads_conseq: "reads t m R \<Longrightarrow> (\<And>x. R x \<Longrightarrow> S x) \<Longrightarrow> reads t m S"
  unfolding reads_def by (erule triple_weaken) auto

lemma reads_looking: "reads t (looking e f) (\<lambda>x. f t = Some x)"
  by (auto simp: reads_def looking_def triple_def syscall_def on_def
    split: list.split call.split option.split)

lemma reads_proceed: "reads t (proceed e) (\<lambda>_. True)"
  unfolding proceed_def by (rule reads_conseq, rule reads_looking) (rule TrueI)

lemma reads_asking: "reads t (asking f) (\<lambda>b. b \<longrightarrow> f t)"
  by (auto simp: reads_def triple_def asking_def on_def split: list.split call.split)

lemma reads_require: "reads t (require e b) (\<lambda>_. b)"
  by (auto simp: reads_def require_def triple_def on_def ret_def throw_def)

lemma reads_lift: "reads t (lift_result r) (\<lambda>x. r = Inr x)"
  by (cases r) (auto simp: reads_def triple_def on_def lift_result_def ret_def throw_def)

lemma reads_ret: "R x \<Longrightarrow> reads t (ret x) R"
  by (auto simp: reads_def triple_def on_def ret_def)

lemma reads_throw: "reads t (throw e) R"
  by (auto simp: reads_def triple_def on_def throw_def)

lemma reads_if: "(b \<Longrightarrow> reads t m R) \<Longrightarrow> (\<not> b \<Longrightarrow> reads t n R) \<Longrightarrow> reads t (if b then m else n) R"
  by simp

lemmas reads_calls = reads_proceed reads_looking reads_asking reads_require reads_lift

lemma triple_tree:
  assumes "\<And>t. T t \<Longrightarrow> triple (on ((=) t)) m Q E"
  shows "triple (on T) m Q E"
  using assms by (fastforce simp: triple_def on_def)

lemma read_step:
  assumes "reads t m R" and "X t" and "\<And>x. R x \<Longrightarrow> triple (on ((=) t)) (g x) Q (on X)"
  shows "triple (on ((=) t)) (bind m g) Q (on X)"
proof (rule triple_bind [where R = "\<lambda>x s. on ((=) t) s \<and> R x"])
  show "triple (on ((=) t)) m (\<lambda>x s. on ((=) t) s \<and> R x) (on X)"
    by (rule triple_conseq [OF assms(1) [unfolded reads_def]]) (use assms(2) in \<open>auto simp: on_def\<close>)
  show "triple (\<lambda>s. on ((=) t) s \<and> R x) (g x) Q (on X)" for x
    by (rule triple_prem) (rule assms(3))
qed

lemma reads_triple:
  assumes "reads t m R" and "X t" and "\<And>x. R x \<Longrightarrow> Q x t"
  shows "triple (on ((=) t)) m (\<lambda>x. on (Q x)) (on X)"
  by (rule triple_conseq [OF assms(1) [unfolded reads_def]]) (use assms(2,3) in \<open>auto simp: on_def\<close>)

lemma doing_rule:
  assumes "X t" and "\<And>n. X (part n t)" and "\<And>t'. f t = Some t' \<Longrightarrow> Q t'"
  shows "triple (on ((=) t)) (doing e part f) (\<lambda>_. on Q) (on X)"
  unfolding doing_def by (rule syscall_rule) (use assms in auto)

lemma doing_step:
  assumes "X t" and "\<And>n. X (part n t)"
    and "\<And>t'. f t = Some t' \<Longrightarrow> triple (on ((=) t')) (g ()) Q (on X)"
  shows "triple (on ((=) t)) (bind (doing e part f) g) Q (on X)"
proof (rule triple_bind)
  show "triple (on ((=) t)) (doing e part f) (\<lambda>_. on (\<lambda>t'. f t = Some t')) (on X)"
    by (rule doing_rule) (use assms in auto)
  show "triple (on (\<lambda>t'. f t = Some t')) (g x) Q (on X)" for x
    by (rule triple_tree) (use assms(3) in simp)
qed

text \<open>A procedure of its own, whose changed tree satisfies \<open>R\<close>.\<close>

lemma call_step:
  assumes "triple (on ((=) t)) m (\<lambda>x. on (R x)) (on X)"
    and "\<And>x t'. R x t' \<Longrightarrow> triple (on ((=) t')) (g x) Q (on X)"
  shows "triple (on ((=) t)) (bind m g) Q (on X)"
  by (rule triple_bind [OF assms(1)]) (rule triple_tree, rule assms(2))

lemma draw_step:
  assumes "\<And>n. triple (on ((=) t)) (g n) Q E"
  shows "triple (on ((=) t)) (bind draw_uuid g) Q E"
  using assms by (fastforce simp: triple_def on_def bind_def draw_uuid_def)

lemma ret_rule: "Q x t \<Longrightarrow> triple (on ((=) t)) (ret x) (\<lambda>x. on (Q x)) (on X)"
  by (auto simp: triple_def on_def ret_def)

lemma throw_rule: "X t \<Longrightarrow> triple (on ((=) t)) (throw e) Q (on X)"
  by (auto simp: triple_def on_def throw_def)

section \<open>Trees of a volume\<close>

text \<open>Every node lies in a directory and has a name within the limit.\<close>

definition rooted :: "files \<Rightarrow> bool" where
  "rooted t \<longleftrightarrow> (\<forall>q n. map_of t q = Some n \<longrightarrow> q \<noteq> [] \<and> in_directory t q)"

lemma rooted_name: "rooted t \<Longrightarrow> map_of t (p @ [x]) = Some n \<Longrightarrow> length x \<le> 765" (is "_ \<Longrightarrow> _ \<Longrightarrow> ?thesis")
proof -
  assume "rooted t" and "map_of t (p @ [x]) = Some n"
  then have "in_directory t (p @ [x])" unfolding rooted_def by blast
  then show ?thesis by (simp add: in_directory_def)
qed

lemma rooted_below: "rooted t \<Longrightarrow> p \<noteq> [] \<Longrightarrow> map_of t p = None \<Longrightarrow> map_of t (p @ [x]) = None"
proof (rule ccontr)
  assume t: "rooted t" "p \<noteq> []" "map_of t p = None" and "map_of t (p @ [x]) \<noteq> None"
  then have "in_directory t (p @ [x])" by (auto simp: rooted_def)
  then show False using t by (simp add: in_directory_def stat_def lstat_def)
qed

lemma entries_nonempty: "entries t p \<noteq> [] \<longleftrightarrow> (\<exists>x. map_of t (p @ [x]) \<noteq> None)"
proof -
  have "entries t p \<noteq> [] \<longleftrightarrow> (\<exists>q n. (q, n) \<in> set t \<and> q \<noteq> [] \<and> butlast q = p)"
    by (fastforce simp: entries_def List.map_filter_def filter_empty_conv split: if_splits)
  also have "\<dots> \<longleftrightarrow> (\<exists>x n. (p @ [x], n) \<in> set t)"
    by (metis append_butlast_last_id butlast_snoc snoc_eq_iff_butlast)
  also have "\<dots> \<longleftrightarrow> (\<exists>x. p @ [x] \<in> fst ` set t)" by force
  finally show ?thesis by (simp add: map_of_eq_None_iff)
qed

lemma entries_node: "map_of t (p @ [x]) = Some n \<Longrightarrow> (x, n) \<in> set (entries t p)"
  by (force simp: entries_def List.map_filter_def dest: map_of_SomeD)

end
