(* ===== verification/Bundle.thy ===== *)
theory Bundle
  imports Files Btree
begin

text \<open>
  Bundles and their manifests (the types and checks of \<open>crates/cli/src/installer.rs\<close> and
  \<open>crates/host/src/launcher.rs\<close>). TOML, versions, SHA-256, identifiers, ZIP archives and the
  architecture of the build are parameters, in the record \<open>bundle_libs\<close>.
\<close>

record manifest_file =
  mf_path :: string
  mf_size :: u64
  mf_sha256 :: string

record manifest =
  mn_bundle_format :: u32
  mn_version :: string
  mn_target :: string
  mn_protocol_major :: u32
  mn_schema_read_min :: u32
  mn_schema_read_max :: u32
  mn_schema_write :: u32
  mn_runtime_formats :: "u32 list"
  mn_files :: "manifest_file list"

record selection =
  sl_bundle_format :: u32
  sl_version :: string
  sl_manifest_sha256 :: string

datatype component = Normal_component string | Other_component

record zip_entry =
  ze_is_dir :: bool
  ze_enclosed_name :: "component list option"
  ze_size :: u64
  ze_contents :: "u8 list"

text \<open>\<open>bl_semver\<close> gives the build metadata of a version, when the text is one.\<close>

record bundle_libs =
  bl_manifest :: "string \<Rightarrow> manifest option"
  bl_selection :: "string \<Rightarrow> selection option"
  bl_semver :: "string \<Rightarrow> string option"
  bl_sha256 :: "u8 list \<Rightarrow> u8 list"
  bl_uuid :: "nat \<Rightarrow> string"
  bl_arch :: string
  bl_archive :: "u8 list \<Rightarrow> zip_entry option list option"
  bl_temp_dir :: "nat \<Rightarrow> path"

datatype install_error =
    Io path
  | Manifest_toml
  | Version_invalid
  | Invalid string
  | Zip_failed
  | Windows_failed

definition required_files :: "string list" where
  "required_files = [''susm.exe'', ''susmd.exe'', ''susm-supervisor.exe'']"

definition max_manifest_bytes :: nat where "max_manifest_bytes = 64 * 1024"
definition max_image_bytes :: nat where "max_image_bytes = 256 * 1024 * 1024"
definition max_payload_bytes :: nat where "max_payload_bytes = 768 * 1024 * 1024"
definition max_zip_bytes :: nat where "max_zip_bytes = 1024 * 1024 * 1024"

section \<open>The places of an installation\<close>

definition installation_in :: "path \<Rightarrow> path" where
  "installation_in local_app_data = local_app_data @ [''Programs'', ''susm'']"

definition selection_path :: "path \<Rightarrow> path" where
  "selection_path installation = installation @ [''current.susm-install'']"

definition versions_path :: "path \<Rightarrow> path" where
  "versions_path installation = installation @ [''versions'']"

definition pins_path :: "path \<Rightarrow> path" where
  "pins_path installation = installation @ [''pins'']"

definition bin_path :: "path \<Rightarrow> path" where
  "bin_path installation = installation @ [''bin'']"

section \<open>Text\<close>

definition hex_char :: "nat \<Rightarrow> char" where
  "hex_char n = (if n < 10 then char_of (48 + n) else char_of (87 + n))"

definition hex_text :: "u8 list \<Rightarrow> string" where
  "hex_text bs = concat (map (\<lambda>b. [hex_char (unat b div 16), hex_char (unat b mod 16)]) bs)"

definition lower_hex :: "char \<Rightarrow> bool" where
  "lower_hex c \<longleftrightarrow> (let n = (of_char c :: nat) in (48 \<le> n \<and> n \<le> 57) \<or> (97 \<le> n \<and> n \<le> 102))"

definition valid_digest :: "string \<Rightarrow> bool" where
  "valid_digest s \<longleftrightarrow> length s = 64 \<and> list_all lower_hex s"

text \<open>\<open>str::rsplit_once('-')\<close>.\<close>

definition rsplit_dash :: "string \<Rightarrow> (string \<times> string) option" where
  "rsplit_dash s =
     (let suffix = rev (takeWhile (\<lambda>c. c \<noteq> CHR ''-'') (rev s)) in
      if length suffix = length s then None
      else Some (take (length s - length suffix - 1) s, suffix))"

text \<open>\<open>{:?}\<close> of a string of ASCII characters.\<close>

definition debug_char :: "char \<Rightarrow> string" where
  "debug_char c =
     (if c = CHR 0x22 then [CHR 0x5C, CHR 0x22]
      else if c = CHR 0x5C then [CHR 0x5C, CHR 0x5C]
      else if c = CHR 0x09 then [CHR 0x5C, CHR ''t'']
      else if c = CHR 0x0A then [CHR 0x5C, CHR ''n'']
      else if c = CHR 0x0D then [CHR 0x5C, CHR ''r'']
      else if c = CHR 0x00 then [CHR 0x5C, CHR ''0'']
      else if (of_char c :: nat) < 16 then [CHR 0x5C, CHR ''u'', CHR ''{'', hex_char (of_char c), CHR ''}'']
      else if (of_char c :: nat) < 32 \<or> (of_char c :: nat) = 127
      then [CHR 0x5C, CHR ''u'', CHR ''{'', hex_char (of_char c div 16), hex_char (of_char c mod 16), CHR ''}'']
      else [c])"

definition debug_text :: "string \<Rightarrow> string" where
  "debug_text s = [CHR 0x22] @ concat (map debug_char s) @ [CHR 0x22]"

definition ascii_upper :: "char \<Rightarrow> char" where
  "ascii_upper c = (let n = (of_char c :: nat) in if 97 \<le> n \<and> n \<le> 122 then char_of (n - 32) else c)"

text \<open>\<open>to_uppercase\<close> of the names a bundle may have, which are ASCII.\<close>

definition to_uppercase :: "string \<Rightarrow> string" where
  "to_uppercase s = map ascii_upper s"

text \<open>\<open>Path::extension\<close>.\<close>

definition extension :: "path \<Rightarrow> string option" where
  "extension p =
     (if p = [] then None else
      let name = last p; suffix = rev (takeWhile (\<lambda>c. c \<noteq> CHR ''.'') (rev name)) in
      if name = ''..'' \<or> length name \<le> length suffix + 1 then None else Some suffix)"

section \<open>Manifests\<close>

definition expected_target :: "string \<Rightarrow> string option" where
  "expected_target arch =
     (if arch = ''x86_64'' then Some ''x86_64-pc-windows-msvc''
      else if arch = ''aarch64'' then Some ''aarch64-pc-windows-msvc''
      else None)"

definition validate_manifest :: "bundle_libs \<Rightarrow> manifest \<Rightarrow> install_error + unit" where
  "validate_manifest lib m =
     (if mn_bundle_format m \<noteq> 1 \<or> mn_protocol_major m \<noteq> 1
      then Inl (Invalid ''bundle_format and protocol_major must be 1'')
      else if mn_schema_read_max m < mn_schema_read_min m \<or>
          \<not> (mn_schema_read_min m \<le> mn_schema_write m \<and> mn_schema_write m \<le> mn_schema_read_max m)
      then Inl (Invalid ''controller schema compatibility range is invalid'')
      else if 1 \<notin> set (mn_runtime_formats m)
      then Inl (Invalid ''supervisor runtime format 1 is required'')
      else case expected_target (bl_arch lib) of
        None \<Rightarrow> Inl (Invalid (''unsupported native architecture '' @ bl_arch lib))
      | Some target \<Rightarrow>
          if mn_target m \<noteq> target
          then Inl (Invalid (''bundle target '' @ mn_target m @ '' does not match '' @ target))
          else if length (mn_files m) \<noteq> length required_files
          then Inl (Invalid ''manifest must declare exactly the three SUSM executables'')
          else if sort (map mf_path (mn_files m)) \<noteq> sort required_files
          then Inl (Invalid ''manifest contains an unexpected file set'')
          else (case find (\<lambda>f. \<not> valid_digest (mf_sha256 f)) (mn_files m) of
              Some f \<Rightarrow> Inl (Invalid (mf_path f @ '' has an invalid SHA-256''))
            | None \<Rightarrow> Inr ()))"

text \<open>The files of a manifest by path, the last of a path when it is declared twice.\<close>

definition files_by_path :: "manifest \<Rightarrow> (string, manifest_file) btree" where
  "files_by_path m = fold (\<lambda>f. btree_insert (mf_path f) f) (mn_files m) []"

definition declared_in :: "manifest \<Rightarrow> string \<Rightarrow> install_error + manifest_file" where
  "declared_in m name =
     ok_or (Invalid (''manifest does not declare '' @ name)) (map_of (files_by_path m) name)"

definition parse_manifest :: "bundle_libs \<Rightarrow> u8 list \<Rightarrow> install_error + manifest" where
  "parse_manifest lib bs =
     and_then (map_err (\<lambda>_. Invalid ''manifest is not UTF-8'') (from_utf8 bs)) (\<lambda>text.
     ok_or Manifest_toml (bl_manifest lib text))"

definition version_name :: "string \<Rightarrow> string \<Rightarrow> string" where
  "version_name version identity = version @ ''-'' @ identity"

definition selection_text :: "string \<Rightarrow> string \<Rightarrow> string" where
  "selection_text version identity =
     ''bundle_format = 1'' @ [CHR 0x0A] @
     ''version = '' @ debug_text version @ [CHR 0x0A] @
     ''manifest_sha256 = '' @ debug_text identity @ [CHR 0x0A]"

section \<open>Facts\<close>

lemma lower_hex_digit: "n < 16 \<Longrightarrow> lower_hex (hex_char n)"
  by (auto simp: lower_hex_def hex_char_def Let_def)

lemma hex_lower: "list_all lower_hex (hex_text bs)"
proof -
  have "unat b div 16 < 16" "unat b mod 16 < 16" for b :: u8
    using unsigned_less [of b, where 'a = nat] by (auto simp: less_mult_imp_div_less)
  then show ?thesis by (auto simp: hex_text_def list_all_iff lower_hex_digit)
qed

lemma length_hex: "length (hex_text bs) = 2 * length bs"
  by (induction bs) (simp_all add: hex_text_def)

lemma valid_digest_hex: "length bs = 32 \<Longrightarrow> valid_digest (hex_text bs)"
  by (simp add: valid_digest_def hex_lower length_hex)

lemma lower_hex_not_dash: "lower_hex c \<Longrightarrow> c \<noteq> CHR ''-''"
  by (auto simp: lower_hex_def)

lemma rsplit_version_name:
  assumes "list_all lower_hex identity"
  shows "rsplit_dash (version_name version identity) = Some (version, identity)"
proof -
  have "takeWhile (\<lambda>c. c \<noteq> CHR ''-'') (rev identity @ CHR ''-'' # rev version) = rev identity"
    using assms by (subst takeWhile_append2) (auto simp: list_all_iff dest: lower_hex_not_dash)
  then show ?thesis by (simp add: rsplit_dash_def version_name_def)
qed

lemma map_of_fold_insert:
  "btree_ok t \<Longrightarrow> btree_ok (fold (\<lambda>f. btree_insert (k f) f) fs t) \<and>
   map_of (fold (\<lambda>f. btree_insert (k f) f) fs t) x =
     (case find (\<lambda>f. k f = x) (rev fs) of Some f \<Rightarrow> Some f | None \<Rightarrow> map_of t x)"
  by (induction fs rule: rev_induct) (simp_all add: btree_insert_ok map_of_btree_insert)

lemma find_distinct_keys:
  assumes "distinct (map k fs)" and "f \<in> set fs"
  shows "find (\<lambda>g. k g = k f) fs = Some f"
  using assms by (induction fs) force+

lemma find_key_Some: "find (\<lambda>g. k g = x) fs = Some f \<Longrightarrow> f \<in> set fs \<and> k f = x"
  by (auto simp: find_Some_iff)

text \<open>A manifest that passes declares each executable once.\<close>

lemma validated_paths_distinct:
  assumes "validate_manifest lib m = Inr ()"
  shows "distinct (map mf_path (mn_files m))"
proof -
  have "sort (map mf_path (mn_files m)) = sort required_files"
    using assms by (auto simp: validate_manifest_def split: if_splits option.splits)
  then have "distinct (sort (map mf_path (mn_files m))) = distinct (sort required_files)" by simp
  then show ?thesis by (simp add: required_files_def)
qed

lemma declared_is_found:
  assumes "validate_manifest lib m = Inr ()" and "declared_in m name = Inr f"
  shows "find (\<lambda>g. mf_path g = name) (mn_files m) = Some f"
proof -
  have "find (\<lambda>g. mf_path g = name) (rev (mn_files m)) = Some f"
    using assms(2) by (auto simp: declared_in_def files_by_path_def map_of_fold_insert rust_result
      split: option.splits)
  then have "f \<in> set (rev (mn_files m)) \<and> mf_path f = name" by (rule find_key_Some)
  then have "f \<in> set (mn_files m)" and name: "mf_path f = name" by simp_all
  then show ?thesis using find_distinct_keys [OF validated_paths_distinct [OF assms(1)]] by blast
qed

lemma validated_digest:
  assumes "validate_manifest lib m = Inr ()" and "f \<in> set (mn_files m)"
  shows "valid_digest (mf_sha256 f)"
  using assms by (auto simp: validate_manifest_def find_None_iff split: if_splits option.splits)

lemma selection_text_nonempty: "selection_text version identity \<noteq> []"
  by (simp add: selection_text_def)

end
