(* ===== verification/Installer.thy ===== *)
theory Installer
  imports Bundle
begin

text \<open>
  Installing, listing, selecting and removing versions (\<open>crates/cli/src/installer.rs\<close>). Every
  call of the code that may fail takes an answer of the input, so each \<open>?\<close> is a branch and a run
  may stop, or be killed, between any two calls.
\<close>

type_synonym 'a installing = "(disk, install_error, 'a) process"

record installed_version =
  iv_version :: string
  iv_identity :: string
  iv_path :: path
  iv_current :: bool
  iv_pin_count :: nat

section \<open>Paths and reading\<close>

definition installation_root :: "path option \<Rightarrow> install_error + path" where
  "installation_root local_app_data =
     (case local_app_data of
        Some p \<Rightarrow> if p \<noteq> [] then Inr (installation_in p)
                  else Inl (Invalid ''LOCALAPPDATA is missing'')
      | None \<Rightarrow> Inl (Invalid ''LOCALAPPDATA is missing''))"

definition metadata :: "path \<Rightarrow> node installing" where
  "metadata p = looking (Io p) (\<lambda>t. lstat t p)"

definition bounded_read :: "path \<Rightarrow> nat \<Rightarrow> u8 list installing" where
  "bounded_read p maximum =
     bind (metadata p) (\<lambda>m.
     bind (require (Invalid (concat p @ '' exceeds its size limit'')) (node_size m \<le> maximum)) (\<lambda>_.
     looking (Io p) (\<lambda>t. read_file t p)))"

definition digest_file :: "bundle_libs \<Rightarrow> path \<Rightarrow> string installing" where
  "digest_file lib p =
     bind (looking (Io p) (\<lambda>t. read_file t p)) (\<lambda>bs. ret (hex_text (bl_sha256 lib bs)))"

definition try_exists :: "path \<Rightarrow> bool installing" where
  "try_exists p = looking (Io p) (\<lambda>t. Some (stat t p \<noteq> None))"

definition is_dir :: "path \<Rightarrow> bool installing" where
  "is_dir p = asking (\<lambda>t. stat t p = Some Directory)"

section \<open>Validating\<close>

text \<open>The entries of a bundle: regular files with the expected names, collected in capitals.\<close>

fun source_names :: "path \<Rightarrow> (string \<times> node) list \<Rightarrow> string list \<Rightarrow> string list installing" where
  "source_names root [] names = ret names"
| "source_names root ((name, node) # es) names =
     bind (proceed (Io root)) (\<lambda>_.
     bind (proceed (Io (root @ [name]))) (\<lambda>_.
     bind (require (Invalid (''bundle entry '' @ name @ '' is not a regular file''))
       (is_file node)) (\<lambda>_.
     bind (require (Invalid (''bundle contains unexpected file '' @ name))
       (name = ''manifest.toml'' \<or> name \<in> set required_files)) (\<lambda>_.
     source_names root es (set_insert (to_uppercase name) names)))))"

definition validate_source_root :: "path \<Rightarrow> unit installing" where
  "validate_source_root root =
     bind (looking (Io root) (\<lambda>t. read_dir t root)) (\<lambda>es.
     bind (source_names root es []) (\<lambda>names.
     require (Invalid ''bundle must contain exactly the manifest and three executables'')
       (length names = length required_files + 1 \<and> ''MANIFEST.TOML'' \<in> set names \<and>
        list_all (\<lambda>n. to_uppercase n \<in> set names) required_files)))"

fun check_installed :: "bundle_libs \<Rightarrow> path \<Rightarrow> manifest \<Rightarrow> string list \<Rightarrow> unit installing" where
  "check_installed lib p m [] = ret ()"
| "check_installed lib p m (name # names) =
     bind (lift_result (declared_in m name)) (\<lambda>d.
     bind (metadata (p @ [name])) (\<lambda>n.
     bind (require (Invalid (''installed '' @ name @ '' does not match its manifest''))
       (is_file n \<and> node_size n = unat (mf_size d))) (\<lambda>_.
     bind (digest_file lib (p @ [name])) (\<lambda>digest.
     bind (require (Invalid (''installed '' @ name @ '' does not match its manifest''))
       (digest = mf_sha256 d)) (\<lambda>_.
     check_installed lib p m names)))))"

definition validate_installed_directory :: "bundle_libs \<Rightarrow> path \<Rightarrow> unit installing" where
  "validate_installed_directory lib p =
     bind (lift_result (if p = [] then Inl (Invalid ''installed directory name is invalid'') else
       ok_or (Invalid ''installed directory has no manifest identity'') (rsplit_dash (last p)))) (\<lambda>(_, identity).
     bind (bounded_read (p @ [''manifest.toml'']) max_manifest_bytes) (\<lambda>bs.
     bind (require (Invalid (''installed manifest identity does not match '' @ last p))
       (hex_text (bl_sha256 lib bs) = identity)) (\<lambda>_.
     bind (lift_result (parse_manifest lib bs)) (\<lambda>m.
     bind (lift_result (validate_manifest lib m)) (\<lambda>_.
     check_installed lib p m required_files)))))"

definition current_selection :: "bundle_libs \<Rightarrow> path \<Rightarrow> string option installing" where
  "current_selection lib installation =
     bind (try_exists (selection_path installation)) (\<lambda>there.
     if \<not> there then ret None else
     bind (bounded_read (selection_path installation) max_manifest_bytes) (\<lambda>bs.
     bind (lift_result (map_err (\<lambda>_. Invalid ''selection is not UTF-8'') (from_utf8 bs))) (\<lambda>text.
     bind (lift_result (ok_or Manifest_toml (bl_selection lib text))) (\<lambda>sel.
     bind (require (Invalid ''current selection is invalid'')
       (sl_bundle_format sel = 1 \<and> bl_semver lib (sl_version sel) \<noteq> None \<and>
        valid_digest (sl_manifest_sha256 sel))) (\<lambda>_.
     ret (Some (version_name (sl_version sel) (sl_manifest_sha256 sel))))))))"

fun count_entries :: "path \<Rightarrow> (string \<times> node) list \<Rightarrow> nat \<Rightarrow> nat installing" where
  "count_entries p [] n = ret n"
| "count_entries p (e # es) n =
     bind (proceed (Io p)) (\<lambda>_. count_entries p es (Suc n))"

definition directory_entry_count :: "path \<Rightarrow> nat installing" where
  "directory_entry_count p =
     bind (try_exists p) (\<lambda>there.
     if \<not> there then ret 0 else
     bind (metadata p) (\<lambda>m.
     bind (require (Invalid (''pin path '' @ concat p @ '' is not a regular directory'')) (m = Directory)) (\<lambda>_.
     bind (looking (Io p) (\<lambda>t. read_dir t p)) (\<lambda>es.
     count_entries p es 0))))"

section \<open>Installing\<close>

definition copy_file :: "path \<Rightarrow> path \<Rightarrow> unit installing" where
  "copy_file src dst =
     doing (Io dst) (\<lambda>n t. case read_file t src of Some bs \<Rightarrow> part_put dst bs n t | None \<Rightarrow> t)
       (\<lambda>t. case read_file t src of Some bs \<Rightarrow> put_file dst bs t | None \<Rightarrow> None)"

definition atomic_write :: "bundle_libs \<Rightarrow> path \<Rightarrow> u8 list \<Rightarrow> unit installing" where
  "atomic_write lib p bs =
     bind (require (Invalid ''installation path has no parent'') (p \<noteq> [])) (\<lambda>_.
     bind (doing (Io (butlast p)) (part_created (butlast p)) (create_dir_all (butlast p))) (\<lambda>_.
     bind draw_uuid (\<lambda>u.
     let temporary = butlast p @ [''.'' @ last p @ ''.'' @ bl_uuid lib u @ ''.tmp''] in
     bind (doing (Io temporary) (part_put temporary []) (put_file temporary [])) (\<lambda>_.
     bind (doing (Io temporary) (part_put temporary bs) (put_file temporary bs)) (\<lambda>_.
     bind (proceed (Io temporary)) (\<lambda>_.
     bind (try_exists p) (\<lambda>there.
     if there then doing Windows_failed untouched (rename temporary p)
     else doing (Io p) untouched (rename temporary p))))))))"

fun check_payload ::
  "bundle_libs \<Rightarrow> path \<Rightarrow> manifest \<Rightarrow> string list \<Rightarrow> u64 \<Rightarrow> u64 installing" where
  "check_payload lib root m [] acc = ret acc"
| "check_payload lib root m (name # names) acc =
     bind (lift_result (declared_in m name)) (\<lambda>d.
     bind (require (Invalid (name @ '' exceeds 256 MiB'')) (unat (mf_size d) \<le> max_image_bytes)) (\<lambda>_.
     bind (lift_result (ok_or (Invalid ''payload size overflowed'') (checked_add acc (mf_size d)))) (\<lambda>acc.
     bind (metadata (root @ [name])) (\<lambda>n.
     bind (require (Invalid (name @ '' size differs from the manifest''))
       (node_size n = unat (mf_size d))) (\<lambda>_.
     bind (digest_file lib (root @ [name])) (\<lambda>digest.
     bind (require (Invalid (name @ '' SHA-256 does not match'')) (digest = mf_sha256 d)) (\<lambda>_.
     check_payload lib root m names acc)))))))"

fun copy_files :: "path \<Rightarrow> path \<Rightarrow> string list \<Rightarrow> unit installing" where
  "copy_files root staging [] = ret ()"
| "copy_files root staging (name # names) =
     bind (copy_file (root @ [name]) (staging @ [name])) (\<lambda>_. copy_files root staging names)"

definition fill_version :: "path \<Rightarrow> path \<Rightarrow> path \<Rightarrow> u8 list \<Rightarrow> unit installing" where
  "fill_version root staging final_path bs =
     bind (doing (Io staging) untouched (create_dir staging)) (\<lambda>_.
     bind (doing (Io (staging @ [''manifest.toml''])) (part_put (staging @ [''manifest.toml'']) bs)
       (put_file (staging @ [''manifest.toml'']) bs)) (\<lambda>_.
     bind (copy_files root staging required_files) (\<lambda>_.
     doing (Io final_path) untouched (rename staging final_path))))"

definition staging_name :: "bundle_libs \<Rightarrow> nat \<Rightarrow> string" where
  "staging_name lib u = ''.staging-'' @ bl_uuid lib u"

definition stage_version :: "bundle_libs \<Rightarrow> path \<Rightarrow> path \<Rightarrow> path \<Rightarrow> u8 list \<Rightarrow> unit installing" where
  "stage_version lib root versions final_path bs =
     bind draw_uuid (\<lambda>u. fill_version root (versions @ [staging_name lib u]) final_path bs)"

definition validate_bundle :: "bundle_libs \<Rightarrow> path \<Rightarrow> (manifest \<times> u8 list) installing" where
  "validate_bundle lib root =
     bind (validate_source_root root) (\<lambda>_.
     bind (bounded_read (root @ [''manifest.toml'']) max_manifest_bytes) (\<lambda>bs.
     bind (lift_result (parse_manifest lib bs)) (\<lambda>m.
     bind (lift_result (validate_manifest lib m)) (\<lambda>_.
     bind (lift_result (ok_or Version_invalid (bl_semver lib (mn_version m)))) (\<lambda>build.
     bind (require (Invalid ''bundle version must not contain build metadata'') (build = '''')) (\<lambda>_.
     bind (check_payload lib root m required_files 0) (\<lambda>acc.
     bind (require (Invalid ''payload exceeds 768 MiB'') (unat acc \<le> max_payload_bytes)) (\<lambda>_.
     ret (m, bs)))))))))"

text \<open>The rest of \<open>validate_and_install\<close>: the version directory, the selection, the command line program.\<close>

definition place_version :: "bundle_libs \<Rightarrow> path \<Rightarrow> path \<Rightarrow> path \<Rightarrow> u8 list \<Rightarrow> unit installing" where
  "place_version lib root versions final_path bs =
     bind (doing (Io versions) (part_created versions) (create_dir_all versions)) (\<lambda>_.
     bind (is_dir final_path) (\<lambda>there.
     if there then validate_installed_directory lib final_path
     else stage_version lib root versions final_path bs))"

definition select_version ::
  "bundle_libs \<Rightarrow> path \<Rightarrow> path \<Rightarrow> string \<Rightarrow> string \<Rightarrow> installed_version installing" where
  "select_version lib installation final_path version identity =
     bind (atomic_write lib (selection_path installation)
       (string_bytes (selection_text version identity))) (\<lambda>_.
     let bin = bin_path installation in
     bind (doing (Io bin) (part_created bin) (create_dir_all bin)) (\<lambda>_.
     bind (bounded_read (final_path @ [''susm.exe'']) max_image_bytes) (\<lambda>cli.
     bind (atomic_write lib (bin @ [''susm.exe'']) cli) (\<lambda>_.
     ret \<lparr>iv_version = version, iv_identity = identity, iv_path = final_path,
       iv_current = True, iv_pin_count = 0\<rparr>))))"

definition install_validated ::
  "bundle_libs \<Rightarrow> path option \<Rightarrow> path \<Rightarrow> manifest \<Rightarrow> u8 list \<Rightarrow> installed_version installing" where
  "install_validated lib env root m bs =
     bind (lift_result (installation_root env)) (\<lambda>installation.
     let versions = versions_path installation;
         identity = hex_text (bl_sha256 lib bs);
         final_path = versions @ [version_name (mn_version m) identity] in
     bind (place_version lib root versions final_path bs) (\<lambda>_.
     select_version lib installation final_path (mn_version m) identity))"

definition validate_and_install ::
  "bundle_libs \<Rightarrow> path option \<Rightarrow> path \<Rightarrow> installed_version installing" where
  "validate_and_install lib env root =
     bind (validate_bundle lib root) (\<lambda>(m, bs). install_validated lib env root m bs)"

section \<open>Bundles in archives\<close>

fun extract_entries ::
  "path \<Rightarrow> zip_entry option list \<Rightarrow> u64 \<Rightarrow> string list \<Rightarrow> unit installing" where
  "extract_entries destination [] acc names = ret ()"
| "extract_entries destination (e # es) acc names =
     bind (lift_result (ok_or Zip_failed e)) (\<lambda>entry.
     if ze_is_dir entry then extract_entries destination es acc names else
     bind (lift_result (ok_or (Invalid ''ZIP contains an unsafe path'') (ze_enclosed_name entry))) (\<lambda>enclosed.
     case enclosed of
       [Normal_component name] \<Rightarrow>
         bind (require (Invalid (''ZIP contains undeclared file '' @ name))
           (name = ''manifest.toml'' \<or> name \<in> set required_files)) (\<lambda>_.
         bind (require (Invalid (''ZIP contains duplicate path '' @ name))
           (to_uppercase name \<notin> set names)) (\<lambda>_.
         bind (lift_result (ok_or (Invalid ''ZIP payload size overflowed'')
           (checked_add acc (ze_size entry)))) (\<lambda>acc.
         bind (require (Invalid ''ZIP payload is too large'')
           (unat acc \<le> max_payload_bytes + max_manifest_bytes)) (\<lambda>_.
         bind (doing (Io (destination @ [name])) (part_put (destination @ [name]) [])
           (put_file (destination @ [name]) [])) (\<lambda>_.
         bind (doing (Io (destination @ [name])) (part_put (destination @ [name]) (ze_contents entry))
           (put_file (destination @ [name]) (ze_contents entry))) (\<lambda>_.
         extract_entries destination es acc (set_insert (to_uppercase name) names)))))))
     | _ \<Rightarrow> throw (Invalid ''ZIP paths must be flat'')))"

definition extract_zip :: "bundle_libs \<Rightarrow> path \<Rightarrow> path \<Rightarrow> unit installing" where
  "extract_zip lib source destination =
     bind (looking (Io source) (\<lambda>t. read_file t source)) (\<lambda>bs.
     bind (lift_result (ok_or Zip_failed (bl_archive lib bs))) (\<lambda>es.
     extract_entries destination es 0 []))"

text \<open>The temporary directory of an extracted archive is removed when the installation returns.\<close>

definition with_temporary :: "bundle_libs \<Rightarrow> path \<Rightarrow> (path \<Rightarrow> 'a installing) \<Rightarrow> 'a installing" where
  "with_temporary lib source f =
     bind draw_uuid (\<lambda>u. let temporary = bl_temp_dir lib u in
     bind (doing (Io source) untouched (create_dir temporary)) (\<lambda>_.
     bind (attempt_of (f temporary)) (\<lambda>result.
     bind (attempt_of (doing (Io temporary) (part_removed temporary) (remove_dir_all temporary))) (\<lambda>_.
     lift_result result))))"

definition install :: "bundle_libs \<Rightarrow> path option \<Rightarrow> path \<Rightarrow> installed_version installing" where
  "install lib env source =
     bind (metadata source) (\<lambda>m.
     bind (require (Invalid ''bundle source must not be a symbolic link or junction'') (\<not> is_link m)) (\<lambda>_.
     bind (is_dir source) (\<lambda>dir.
     if dir then validate_and_install lib env source
     else if (case extension source of Some e \<Rightarrow> to_uppercase e = ''ZIP'' | None \<Rightarrow> False)
     then bind (metadata source) (\<lambda>m.
       bind (require (Invalid ''ZIP exceeds 1 GiB'') (node_size m \<le> max_zip_bytes)) (\<lambda>_.
       with_temporary lib source (\<lambda>temporary.
         bind (extract_zip lib source temporary) (\<lambda>_.
         validate_and_install lib env temporary))))
     else throw (Invalid ''bundle must be a directory or .zip file''))))"

section \<open>Versions\<close>

fun listed_versions ::
  "bundle_libs \<Rightarrow> path \<Rightarrow> (string \<times> node) list \<Rightarrow> installed_version list installing" where
  "listed_versions lib installation [] = ret []"
| "listed_versions lib installation ((name, node) # es) =
     bind (proceed (Io (versions_path installation))) (\<lambda>_.
     bind (proceed (Io (versions_path installation @ [name]))) (\<lambda>_.
     if node \<noteq> Directory then listed_versions lib installation es else
     (case rsplit_dash name of
        None \<Rightarrow> listed_versions lib installation es
      | Some (version, identity) \<Rightarrow>
          bind (current_selection lib installation) (\<lambda>current.
          bind (directory_entry_count (pins_path installation @ [name])) (\<lambda>pins.
          bind (listed_versions lib installation es) (\<lambda>rest.
          ret (\<lparr>iv_version = version, iv_identity = identity,
                 iv_path = versions_path installation @ [name],
                 iv_current = (current = Some name), iv_pin_count = pins\<rparr> # rest)))))))"

definition list_versions :: "bundle_libs \<Rightarrow> path option \<Rightarrow> installed_version list installing" where
  "list_versions lib env =
     bind (lift_result (installation_root env)) (\<lambda>installation.
     let root = versions_path installation in
     bind (is_dir root) (\<lambda>there.
     if \<not> there then ret [] else
     bind (looking (Io root) (\<lambda>t. read_dir t root)) (\<lambda>es.
     bind (listed_versions lib installation es) (\<lambda>versions.
     ret (sort_key iv_version versions)))))"

definition rollback :: "bundle_libs \<Rightarrow> path option \<Rightarrow> string \<Rightarrow> installed_version installing" where
  "rollback lib env pre =
     bind (list_versions lib env) (\<lambda>versions.
     case filter (\<lambda>v. iv_version v = pre \<or> prefix pre (iv_identity v)) versions of
       [] \<Rightarrow> throw (Invalid (''no installed version matches '' @ pre))
     | [selected] \<Rightarrow> validate_and_install lib env (iv_path selected)
     | _ \<Rightarrow> throw (Invalid (''installed version prefix '' @ pre @ '' is ambiguous'')))"

definition collect_version ::
  "bundle_libs \<Rightarrow> path \<Rightarrow> string option \<Rightarrow> string \<Rightarrow> nat installing" where
  "collect_version lib installation current name =
     (let p = versions_path installation @ [name] in
      if prefix ''.staging-'' name
      then bind (doing (Io p) (part_removed p) (remove_dir_all p)) (\<lambda>_. ret 1)
      else if current = Some name then ret 0
      else
        bind (directory_entry_count (pins_path installation @ [name])) (\<lambda>pins.
        if pins \<noteq> 0 then ret 0 else
        bind (validate_installed_directory lib p) (\<lambda>_.
        bind (doing (Io p) (part_removed p) (remove_dir_all p)) (\<lambda>_.
        bind (is_dir (pins_path installation @ [name])) (\<lambda>there.
        if there
        then bind (doing (Io (pins_path installation @ [name])) untouched
            (remove_dir (pins_path installation @ [name]))) (\<lambda>_. ret 1)
        else ret 1)))))"

fun collect_versions ::
  "bundle_libs \<Rightarrow> path \<Rightarrow> string option \<Rightarrow> (string \<times> node) list \<Rightarrow> nat \<Rightarrow> nat installing" where
  "collect_versions lib installation current [] removed = ret removed"
| "collect_versions lib installation current ((name, node) # es) removed =
     bind (proceed (Io (versions_path installation))) (\<lambda>_.
     bind (proceed (Io (versions_path installation @ [name]))) (\<lambda>_.
     if node \<noteq> Directory then collect_versions lib installation current es removed else
     bind (collect_version lib installation current name) (\<lambda>n.
     collect_versions lib installation current es (removed + n))))"

definition garbage_collect :: "bundle_libs \<Rightarrow> path option \<Rightarrow> nat installing" where
  "garbage_collect lib env =
     bind (lift_result (installation_root env)) (\<lambda>installation.
     let versions = versions_path installation in
     bind (is_dir versions) (\<lambda>there.
     if \<not> there then ret 0 else
     bind (current_selection lib installation) (\<lambda>current.
     bind (looking (Io versions) (\<lambda>t. read_dir t versions)) (\<lambda>es.
     collect_versions lib installation current es 0))))"

fun remove_installed :: "path \<Rightarrow> string list \<Rightarrow> unit installing" where
  "remove_installed bin [] = ret ()"
| "remove_installed bin (name # names) =
     bind (try_exists (bin @ [name])) (\<lambda>there.
     bind (if there then doing (Io (bin @ [name])) untouched (remove_file (bin @ [name])) else ret ()) (\<lambda>_.
     remove_installed bin names))"

definition uninstall_user :: "path option \<Rightarrow> unit installing" where
  "uninstall_user env =
     bind (lift_result (installation_root env)) (\<lambda>installation.
     bind (is_dir (bin_path installation)) (\<lambda>there.
     if \<not> there then ret () else remove_installed (bin_path installation) required_files))"

end
