(* ===== verification/Launcher.thy ===== *)
theory Launcher
  imports Bundle Process_Encoding
begin

text \<open>
  How the host finds and runs the controller of a user (\<open>crates/host/src/launcher.rs\<close>): the
  checks from the selection to the digest of \<open>susmd.exe\<close>, the adoption of a recorded process, and
  the thread that restarts the controller with a growing delay. Reading is a function of the tree:
  a read that fails is the error of a missing file.
\<close>

datatype launch_error =
    Launch_windows
  | Local_app_data_missing
  | Controller_missing path
  | Installation_io path
  | Invalid_installation string
  | Installation_toml
  | Installation_version
  | Launch_thread

definition max_controller_bytes :: nat where "max_controller_bytes = 256 * 1024 * 1024"

section \<open>The selected controller\<close>

definition launch_read :: "files \<Rightarrow> path \<Rightarrow> nat \<Rightarrow> launch_error + u8 list" where
  "launch_read t p maximum =
     and_then (ok_or (Installation_io p) (stat t p)) (\<lambda>m.
     case m of
       Regular bs \<Rightarrow>
         if length bs > maximum then Inl (Invalid_installation (concat p @ '' is not a bounded regular file''))
         else Inr bs
     | _ \<Rightarrow> Inl (Invalid_installation (concat p @ '' is not a bounded regular file'')))"

definition reject_reparse_point :: "files \<Rightarrow> path \<Rightarrow> launch_error + unit" where
  "reject_reparse_point t p =
     and_then (ok_or (Installation_io p) (lstat t p)) (\<lambda>m.
     if is_link m then Inl (Invalid_installation (concat p @ '' is a reparse point'')) else Inr ())"

definition validate_selected :: "bundle_libs \<Rightarrow> manifest \<Rightarrow> selection \<Rightarrow> launch_error + unit" where
  "validate_selected lib m sel =
     (case expected_target (bl_arch lib) of
        None \<Rightarrow> Inl (Invalid_installation (''unsupported native architecture '' @ bl_arch lib))
      | Some target \<Rightarrow>
          if mn_bundle_format m \<noteq> 1 \<or> mn_protocol_major m \<noteq> 1 \<or> mn_version m \<noteq> sl_version sel \<or>
             mn_target m \<noteq> target \<or> mn_schema_read_max m < mn_schema_read_min m \<or>
             \<not> (mn_schema_read_min m \<le> mn_schema_write m \<and> mn_schema_write m \<le> mn_schema_read_max m) \<or>
             1 \<notin> set (mn_runtime_formats m)
          then Inl (Invalid_installation ''selected manifest is incompatible'')
          else Inr ())"

definition read_selection :: "bundle_libs \<Rightarrow> files \<Rightarrow> path \<Rightarrow> launch_error + selection" where
  "read_selection lib t installation =
     and_then (launch_read t (selection_path installation) max_manifest_bytes) (\<lambda>bs.
     and_then (map_err (\<lambda>_. Invalid_installation ''selection is not valid UTF-8'') (from_utf8 bs)) (\<lambda>text.
     and_then (ok_or Installation_toml (bl_selection lib text)) (\<lambda>sel.
     if sl_bundle_format sel \<noteq> 1
     then Inl (Invalid_installation ''selection bundle_format must be 1'')
     else and_then (ok_or Installation_version (bl_semver lib (sl_version sel))) (\<lambda>build.
       if build \<noteq> '''' \<or> \<not> valid_digest (sl_manifest_sha256 sel)
       then Inl (Invalid_installation ''selection version or manifest identity is invalid'')
       else Inr sel))))"

definition check_image ::
  "bundle_libs \<Rightarrow> files \<Rightarrow> path \<Rightarrow> manifest_file \<Rightarrow> launch_error + path" where
  "check_image lib t controller declared =
     and_then (reject_reparse_point t controller) (\<lambda>_.
     and_then (ok_or (Installation_io controller) (stat t controller)) (\<lambda>n.
     case n of
       Regular exe \<Rightarrow>
         if length exe \<noteq> unat (mf_size declared) then Inl (Controller_missing controller)
         else if hex_text (bl_sha256 lib exe) \<noteq> mf_sha256 declared
         then Inl (Invalid_installation ''susmd.exe digest does not match its manifest'')
         else Inr controller
     | _ \<Rightarrow> Inl (Controller_missing controller)))"

definition controller_in ::
  "bundle_libs \<Rightarrow> files \<Rightarrow> path \<Rightarrow> selection \<Rightarrow> launch_error + path" where
  "controller_in lib t version_directory sel =
     and_then (reject_reparse_point t version_directory) (\<lambda>_.
     and_then (launch_read t (version_directory @ [''manifest.toml'']) max_manifest_bytes) (\<lambda>bs.
     if hex_text (bl_sha256 lib bs) \<noteq> sl_manifest_sha256 sel
     then Inl (Invalid_installation ''selected manifest digest does not match the selection'')
     else and_then (map_err (\<lambda>_. Invalid_installation ''manifest is not valid UTF-8'') (from_utf8 bs)) (\<lambda>text.
     and_then (ok_or Installation_toml (bl_manifest lib text)) (\<lambda>m.
     and_then (validate_selected lib m sel) (\<lambda>_.
     and_then (ok_or (Invalid_installation ''manifest does not declare susmd.exe'')
       (find (\<lambda>f. mf_path f = ''susmd.exe'') (mn_files m))) (\<lambda>declared.
     if unat (mf_size declared) > max_controller_bytes \<or> \<not> valid_digest (mf_sha256 declared)
     then Inl (Invalid_installation ''susmd.exe manifest entry is invalid'')
     else check_image lib t (version_directory @ [''susmd.exe'']) declared))))))"

definition selected_controller :: "bundle_libs \<Rightarrow> files \<Rightarrow> path \<Rightarrow> launch_error + path" where
  "selected_controller lib t local_app_data =
     (let installation = installation_in local_app_data in
      and_then (read_selection lib t installation) (\<lambda>sel.
      controller_in lib t
        (versions_path installation @ [version_name (sl_version sel) (sl_manifest_sha256 sel)]) sel))"

section \<open>Processes\<close>

record process_identity =
  pi_process_id :: u32
  pi_creation_time :: u64

text \<open>What Windows tells of a process that can be opened: its creation time and its session.\<close>

record opened_process =
  op_creation :: "(u32 \<times> u32) option"
  op_session :: "u32 option"

definition process_creation_time :: "u32 \<Rightarrow> u32 \<Rightarrow> u64" where
  "process_creation_time high low = or (push_bit 32 (ucast high)) (ucast low)"

definition open_existing ::
  "(u32 \<Rightarrow> opened_process option) \<Rightarrow> process_identity \<Rightarrow> u32 \<Rightarrow> launch_error + process_identity" where
  "open_existing processes expected expected_session =
     and_then (ok_or Launch_windows (processes (pi_process_id expected))) (\<lambda>process.
     and_then (ok_or Launch_windows (op_creation process)) (\<lambda>(high, low).
     if process_creation_time high low \<noteq> pi_creation_time expected
     then Inl (Invalid_installation ''recorded controller PID was reused'')
     else and_then (ok_or Launch_windows (op_session process)) (\<lambda>session.
       if session \<noteq> expected_session
       then Inl (Invalid_installation ''recorded controller belongs to another Windows session'')
       else Inr expected)))"

text \<open>\<open>String::from_utf16_lossy\<close>: a surrogate without its partner is U+FFFD.\<close>

fun from_utf16_lossy :: "u16 list \<Rightarrow> str" where
  "from_utf16_lossy [] = []"
| "from_utf16_lossy (u # us) =
     (if unat u < 55296 \<or> 57343 < unat u then unat u # from_utf16_lossy us
      else if unat u < 56320
      then
        (case us of
           [] \<Rightarrow> [65533]
         | v # vs \<Rightarrow>
             if 56320 \<le> unat v \<and> unat v \<le> 57343
             then (65536 + (unat u - 55296) * 1024 + (unat v - 56320)) # from_utf16_lossy vs
             else 65533 # from_utf16_lossy us)
      else 65533 # from_utf16_lossy us)"

definition lower_ascii :: "nat \<Rightarrow> nat" where
  "lower_ascii n = (if 65 \<le> n \<and> n \<le> 90 then n + 32 else n)"

text \<open>\<open>"localappdata"\<close> in lower case, as code points.\<close>

definition local_app_data_name :: str where
  "local_app_data_name = [108, 111, 99, 97, 108, 97, 112, 112, 100, 97, 116, 97]"

definition split_equals :: "str \<Rightarrow> (str \<times> str) option" where
  "split_equals s =
     (let name = takeWhile (\<lambda>c. c \<noteq> 61) s in
      if length name = length s then None else Some (name, drop (Suc (length name)) s))"

text \<open>The environment block: entries ended by zero, the block ended by an empty entry.\<close>

function local_app_data_entry :: "u16 list \<Rightarrow> str option" where
  "local_app_data_entry us =
     (if us = [] \<or> hd us = 0 then None else
      let entry = takeWhile (\<lambda>u. u \<noteq> 0) us; rest = drop (Suc (length entry)) us in
      case split_equals (from_utf16_lossy entry) of
        Some (name, val) \<Rightarrow>
          if map lower_ascii name = local_app_data_name then Some val else local_app_data_entry rest
      | None \<Rightarrow> local_app_data_entry rest)"
  by pat_completeness auto
termination by (relation "measure length") (auto simp: neq_Nil_conv)

declare local_app_data_entry.simps [simp del]

definition user_local_app_data :: "u16 list option \<Rightarrow> launch_error + str" where
  "user_local_app_data environment =
     and_then (ok_or Launch_windows environment) (\<lambda>block.
     ok_or Local_app_data_missing (local_app_data_entry block))"

section \<open>The thread of a controller\<close>

datatype runner_command = Restart_controller | End_session | Detach_controller

datatype received = Received runner_command | Timed_out | Disconnected

datatype polled = Polled runner_command | Poll_empty | Poll_disconnected

datatype runner_phase =
    Launching
  | Pausing
  | Watching process_identity
  | Ended

text \<open>
  What the thread observes, one turn at a time: the process it launched or adopted, the end of a
  pause between attempts, and, while a controller runs, a command or none, whether the process
  exits within the wait (for \<open>End_session\<close>, within the 30 seconds it is given) and for how many
  milliseconds it has run by then.
\<close>

datatype runner_event =
    Launched "launch_error + process_identity"
  | Paused received
  | Turn polled bool nat

text \<open>What it does: the observer is told, a process is terminated.\<close>

datatype runner_effect =
    Observed "process_identity option"
  | Terminated process_identity

record controller_runner =
  cr_delay :: nat
  cr_phase :: runner_phase
  cr_identity :: "process_identity option"

definition initial_delay :: nat where "initial_delay = 250"
definition maximum_delay :: nat where "maximum_delay = 30000"
definition stable_run :: nat where "stable_run = 300000"

text \<open>The thread with its first process, if there is one; the observer is told of it twice.\<close>

definition runner_start :: "process_identity option \<Rightarrow> controller_runner \<times> runner_effect list" where
  "runner_start initial =
     (case initial of
        Some p \<Rightarrow>
          (\<lparr>cr_delay = initial_delay, cr_phase = Watching p, cr_identity = Some p\<rparr>,
           [Observed (Some p), Observed (Some p)])
      | None \<Rightarrow>
          (\<lparr>cr_delay = initial_delay, cr_phase = Launching, cr_identity = None\<rparr>, [Observed None]))"

definition paused :: "controller_runner \<Rightarrow> received \<Rightarrow> controller_runner" where
  "paused r c =
     (case c of
        Received Restart_controller \<Rightarrow> r\<lparr>cr_delay := initial_delay, cr_phase := Launching\<rparr>
      | Received End_session \<Rightarrow> r\<lparr>cr_phase := Ended\<rparr>
      | Received Detach_controller \<Rightarrow> r\<lparr>cr_phase := Ended\<rparr>
      | Disconnected \<Rightarrow> r\<lparr>cr_phase := Ended\<rparr>
      | Timed_out \<Rightarrow> r\<lparr>cr_delay := min (cr_delay r * 2) maximum_delay, cr_phase := Launching\<rparr>)"

definition watched ::
  "controller_runner \<Rightarrow> process_identity \<Rightarrow> polled \<Rightarrow> bool \<Rightarrow> nat \<Rightarrow> controller_runner \<times> runner_effect list" where
  "watched r p poll exits elapsed =
     (let gone = r\<lparr>cr_identity := None\<rparr> in
      case poll of
        Polled End_session \<Rightarrow>
          if exits then (gone\<lparr>cr_phase := Ended\<rparr>, [Observed None])
          else (gone\<lparr>cr_phase := Ended\<rparr>, [Terminated p, Observed None])
      | Polled Detach_controller \<Rightarrow> (r\<lparr>cr_phase := Ended\<rparr>, [])
      | Polled Restart_controller \<Rightarrow>
          (gone\<lparr>cr_delay := initial_delay, cr_phase := Launching\<rparr>, [Terminated p, Observed None])
      | Poll_disconnected \<Rightarrow> (r\<lparr>cr_phase := Ended\<rparr>, [])
      | Poll_empty \<Rightarrow>
          if exits
          then (gone\<lparr>cr_delay := (if elapsed \<ge> stable_run then initial_delay else cr_delay r),
                  cr_phase := Pausing\<rparr>, [Observed None])
          else (r, []))"

text \<open>One turn of \<open>run_controller\<close>; an event that does not fit the phase is not one of it.\<close>

fun run_controller_step ::
  "controller_runner \<Rightarrow> runner_event \<Rightarrow> (controller_runner \<times> runner_effect list) option" where
  "run_controller_step r (Launched result) =
     (if cr_phase r = Launching then
        (case result of
           Inr p \<Rightarrow> Some (r\<lparr>cr_phase := Watching p, cr_identity := Some p\<rparr>, [Observed (Some p)])
         | Inl e \<Rightarrow> Some (r\<lparr>cr_phase := Pausing\<rparr>, []))
      else None)"
| "run_controller_step r (Paused c) =
     (if cr_phase r = Pausing then Some (paused r c, []) else None)"
| "run_controller_step r (Turn poll exits elapsed) =
     (case cr_phase r of Watching p \<Rightarrow> Some (watched r p poll exits elapsed) | _ \<Rightarrow> None)"

fun run_controller ::
  "controller_runner \<Rightarrow> runner_event list \<Rightarrow> (controller_runner \<times> runner_effect list) option" where
  "run_controller r [] = Some (r, [])"
| "run_controller r (e # es) =
     Option.bind (run_controller_step r e) (\<lambda>(r', xs).
     map_option (\<lambda>(r'', ys). (r'', xs @ ys)) (run_controller r' es))"

text \<open>
  \<open>ControllerRunner::from_token\<close>: the recorded process when it can be opened, or else a launch of
  the selected controller, whose failure leaves the thread to try again. \<open>launched\<close> is what the
  launch of an image gives.
\<close>

definition first_process ::
  "bundle_libs \<Rightarrow> files \<Rightarrow> path \<Rightarrow> (u32 \<Rightarrow> opened_process option) \<Rightarrow> (path \<Rightarrow> process_identity option) \<Rightarrow>
   process_identity option \<Rightarrow> u32 \<Rightarrow> launch_error + process_identity option" where
  "first_process lib t local_app_data processes launched adopted session =
     (case Option.bind adopted (\<lambda>p. case open_existing processes p session of
         Inr q \<Rightarrow> Some q | Inl e \<Rightarrow> None) of
        Some p \<Rightarrow> Inr (Some p)
      | None \<Rightarrow> and_then (selected_controller lib t local_app_data) (\<lambda>controller. Inr (launched controller)))"

end
