(* ===== verification/Installation.thy ===== *)
theory Installation
  imports Installer Launcher
begin

text \<open>
  The installer and the host on the same tree: what validation establishes, what each changing
  step leaves alone, and that at every point of an installation, a rollback or a collection the
  host finds the controller selected before it, or the one it selects.
\<close>

section \<open>What the parameters are relied on for\<close>

text \<open>
  A version does not begin with a dot and is ASCII text; a digest has 32 bytes; TOML reads back the text of a selection.
\<close>

definition ascii_text :: "string \<Rightarrow> bool" where
  "ascii_text s \<longleftrightarrow> list_all (\<lambda>c. (of_char c :: nat) < 128) s"

definition libs_ok :: "bundle_libs \<Rightarrow> bool" where
  "libs_ok lib \<longleftrightarrow>
     (\<forall>v. bl_semver lib v \<noteq> None \<longrightarrow> v \<noteq> [] \<and> hd v \<noteq> CHR ''.'' \<and> ascii_text v) \<and>
     (\<forall>bs. length (bl_sha256 lib bs) = 32) \<and>
     (\<forall>v i. bl_semver lib v \<noteq> None \<longrightarrow> valid_digest i \<longrightarrow>
        bl_selection lib (selection_text v i) =
          Some \<lparr>sl_bundle_format = 1, sl_version = v, sl_manifest_sha256 = i\<rparr>)"

text \<open>No two files of the tree have one digest and different contents.\<close>

definition collision_free :: "bundle_libs \<Rightarrow> files \<Rightarrow> bool" where
  "collision_free lib t \<longleftrightarrow>
     (\<forall>p q x y. read_file t p = Some x \<longrightarrow> read_file t q = Some y \<longrightarrow>
        bl_sha256 lib x = bl_sha256 lib y \<longrightarrow> x = y)"

lemma hex_inject:
  assumes "hex_text xs = hex_text ys"
  shows "xs = ys"
proof -
  have code: "(of_char (hex_char k) :: nat) = (if k < 10 then 48 + k else 87 + k)" if "k < 16" for k
    using that by (simp add: hex_char_def)
  have digit: "hex_char m = hex_char n \<longleftrightarrow> m = n" if "m < 16" "n < 16" for m n
  proof
    assume "hex_char m = hex_char n"
    then have "(if m < 10 then 48 + m else 87 + m) = (if n < 10 then 48 + n else 87 + n)"
      using code [OF that(1)] code [OF that(2)] by metis
    then show "m = n" using that by (auto split: if_splits)
  qed simp
  show ?thesis using assms
  proof (induction xs arbitrary: ys)
    case Nil
    then show ?case by (cases ys) (simp_all add: hex_text_def)
  next
    case (Cons x xs)
    then obtain y zs where ys: "ys = y # zs" by (cases ys) (simp_all add: hex_text_def)
    have lt: "unat b div 16 < 16" "unat b mod 16 < 16" for b :: u8
      using unsigned_less [of b, where 'a = nat] by (auto simp: less_mult_imp_div_less)
    have "unat x div 16 = unat y div 16" "unat x mod 16 = unat y mod 16" and "hex_text xs = hex_text zs"
      using Cons.prems by (simp_all add: ys hex_text_def digit lt)
    then have "unat x = unat y" by (metis div_mult_mod_eq)
    then show ?case using Cons.IH [OF \<open>hex_text xs = hex_text zs\<close>] by (simp add: ys word_unat_eq_iff)
  qed
qed

section \<open>Text\<close>

lemma ascii_is_utf8: "list_all (\<lambda>b. unat b < 128) bs \<Longrightarrow> utf8_valid bs"
proof (induction bs)
  case Nil
  then show ?case by (simp add: utf8_valid.simps)
next
  case (Cons b bs)
  then show ?case by (subst utf8_valid.simps) (simp add: in_range_def)
qed

lemma from_utf8_ascii: "ascii_text s \<Longrightarrow> from_utf8 (string_bytes s) = Inr s" (is "_ \<Longrightarrow> ?thesis")
proof -
  assume "ascii_text s"
  then have "utf8_valid (string_bytes s)"
    by (intro ascii_is_utf8) (simp add: string_bytes_def ascii_text_def list.pred_map comp_def unat_of_char)
  then show ?thesis by (simp add: from_utf8_def)
qed

lemma ascii_text_append [simp]: "ascii_text (s @ t) \<longleftrightarrow> ascii_text s \<and> ascii_text t"
  by (simp add: ascii_text_def)

lemma ascii_text_Cons [simp]: "ascii_text (c # s) \<longleftrightarrow> (of_char c :: nat) < 128 \<and> ascii_text s"
  by (simp add: ascii_text_def)

lemma ascii_text_Nil [simp]: "ascii_text []"
  by (simp add: ascii_text_def)

lemma ascii_hex_digit: "n < 16 \<Longrightarrow> (of_char (hex_char n) :: nat) < 128"
  by (simp add: hex_char_def)

lemma ascii_debug_char: "(of_char c :: nat) < 128 \<Longrightarrow> ascii_text (debug_char c)"
  by (simp add: debug_char_def ascii_hex_digit less_mult_imp_div_less)

lemma ascii_debug: "ascii_text s \<Longrightarrow> ascii_text (debug_text s)"
proof -
  have "ascii_text s \<Longrightarrow> ascii_text (concat (map debug_char s))"
    by (induction s) (simp_all add: ascii_debug_char)
  then show "ascii_text s \<Longrightarrow> ?thesis" by (simp add: debug_text_def)
qed

lemma length_debug: "length (debug_text s) \<le> 6 * length s + 2"
proof -
  have "length (debug_char c) \<le> 6" for c by (simp add: debug_char_def)
  then have "length (concat (map debug_char s)) \<le> 6 * length s"
    by (induction s) (simp_all add: add_mono)
  then show ?thesis by (simp add: debug_text_def)
qed

lemma ascii_digest: "valid_digest s \<Longrightarrow> ascii_text s"
  by (auto simp: valid_digest_def ascii_text_def lower_hex_def Let_def list_all_iff)

lemma ascii_selection: "ascii_text v \<Longrightarrow> valid_digest i \<Longrightarrow> ascii_text (selection_text v i)"
  by (simp add: selection_text_def ascii_debug ascii_digest)

lemma length_selection:
  assumes "length v \<le> 765" and "length i = 64"
  shows "length (selection_text v i) \<le> max_manifest_bytes"
  using length_debug [of v] length_debug [of i] assms
  by (simp add: selection_text_def max_manifest_bytes_def)

section \<open>What the host depends on\<close>

lemma lstat_same: "map_of t' q = map_of t q \<Longrightarrow> lstat t' q = lstat t q"
  by (simp add: lstat_def)

lemma stat_same: "map_of t' q = map_of t q \<Longrightarrow> stat t' q = stat t q"
  by (simp add: stat_def lstat_def)

lemma read_selection_cong:
  assumes "map_of t' (selection_path i) = map_of t (selection_path i)"
  shows "read_selection lib t' i = read_selection lib t i"
  unfolding read_selection_def launch_read_def
  by (simp only: stat_same [OF assms])

lemma controller_in_cong:
  assumes "\<And>q. prefix v q \<Longrightarrow> map_of t' q = map_of t q"
  shows "controller_in lib t' v sel = controller_in lib t v sel"
proof -
  have "map_of t' (v @ p) = map_of t (v @ p)" for p using assms by simp
  note below = stat_same [OF this] lstat_same [OF this]
  have "lstat t' v = lstat t v" using below(2) [of "[]"] by simp
  then show ?thesis unfolding controller_in_def check_image_def launch_read_def reject_reparse_point_def
    by (simp only: below Let_def)
qed

lemma controller_in_path:
  assumes "controller_in lib t v sel = Inr c"
  shows "c = v @ [''susmd.exe'']"
proof -
  have tail: "check_image lib t p d = Inr c \<Longrightarrow> c = p" for p d
    unfolding check_image_def
    by (cases "stat t p"; cases "the (stat t p)") (auto simp: rust_result split: if_splits)
  show ?thesis using assms unfolding controller_in_def
    by (auto simp: rust_result dest!: tail split: if_splits)
qed

lemma selected_controller_frame:
  assumes "selected_controller lib t lad = Inr c"
    and "map_of t' (selection_path (installation_in lad)) = map_of t (selection_path (installation_in lad))"
    and "\<And>q. prefix (butlast c) q \<Longrightarrow> map_of t' q = map_of t q"
  shows "selected_controller lib t' lad = Inr c"
proof -
  let ?i = "installation_in lad"
  obtain sel v where sel: "read_selection lib t ?i = Inr sel" "controller_in lib t v sel = Inr c"
    and v: "v = versions_path ?i @ [version_name (sl_version sel) (sl_manifest_sha256 sel)]"
    using assms(1) by (auto simp: selected_controller_def Let_def rust_result)
  have "butlast c = v" using controller_in_path [OF sel(2)] by simp
  then have "controller_in lib t' v sel = Inr c"
    using sel(2) controller_in_cong [of v t' t lib sel] assms(3) by simp
  then show ?thesis using sel(1) read_selection_cong [OF assms(2)]
    by (simp add: selected_controller_def Let_def v)
qed

section \<open>What validation establishes\<close>

definition image_at :: "bundle_libs \<Rightarrow> files \<Rightarrow> path \<Rightarrow> manifest \<Rightarrow> u8 list \<Rightarrow> bool" where
  "image_at lib t p m bs \<longleftrightarrow>
     map_of t (p @ [''manifest.toml'']) = Some (Regular bs) \<and> length bs \<le> max_manifest_bytes \<and>
     parse_manifest lib bs = Inr m \<and> validate_manifest lib m = Inr () \<and>
     (\<forall>name \<in> set required_files. \<exists>d exe. declared_in m name = Inr d \<and>
        map_of t (p @ [name]) = Some (Regular exe) \<and> length exe = unat (mf_size d) \<and>
        hex_text (bl_sha256 lib exe) = mf_sha256 d)"

definition sizes_ok :: "manifest \<Rightarrow> bool" where
  "sizes_ok m \<longleftrightarrow> (\<forall>name d. name \<in> set required_files \<longrightarrow> declared_in m name = Inr d \<longrightarrow>
     unat (mf_size d) \<le> max_image_bytes)"

lemma bounded_read_reads:
  "reads t (bounded_read p n) (\<lambda>bs. read_file t p = Some bs \<and> (\<exists>m. lstat t p = Some m \<and> node_size m \<le> n))"
  unfolding bounded_read_def metadata_def
  by (intro reads_bind [OF reads_looking] reads_bind [OF reads_require] reads_conseq [OF reads_looking]) auto

lemma digest_file_reads:
  "reads t (digest_file lib p) (\<lambda>x. \<exists>bs. read_file t p = Some bs \<and> x = hex_text (bl_sha256 lib bs))"
  unfolding digest_file_def by (intro reads_bind [OF reads_looking] reads_ret) auto

lemma source_names_reads:
  "reads t (source_names root es names) (\<lambda>_. \<forall>(x, n) \<in> set es. \<exists>bs. n = Regular bs)"
proof (induction root es names rule: source_names.induct)
  case (1 root names)
  then show ?case by (auto intro: reads_ret)
next
  case (2 root name node es names)
  show ?case unfolding source_names.simps
    by (rule reads_bind, rule reads_proceed, rule reads_bind, rule reads_proceed,
        rule reads_bind, rule reads_require, rule reads_bind, rule reads_require,
        rule reads_conseq, rule 2) auto
qed

lemma validate_source_root_reads:
  "reads t (validate_source_root root)
     (\<lambda>_. stat t root = Some Directory \<and> (\<forall>(x, n) \<in> set (entries t root). \<exists>bs. n = Regular bs))"
  unfolding validate_source_root_def
  by (intro reads_bind [OF reads_looking] reads_bind [OF source_names_reads] reads_conseq [OF reads_require])
    (auto simp: read_dir_def split: if_splits)

lemma read_regular: "map_of t p = Some (Regular bs) \<Longrightarrow> p \<noteq> [] \<Longrightarrow> read_file t p = Some bs"
  by (simp add: read_file_def stat_def lstat_def)

lemma regular_read:
  "read_file t p = Some bs \<Longrightarrow> (\<And>n. map_of t p = Some n \<Longrightarrow> \<not> is_link n) \<Longrightarrow> map_of t p = Some (Regular bs)"
  by (auto simp: read_file_def stat_def lstat_def bind_eq_Some_conv split: option.splits node.splits if_splits
    elim!: follow.elims)

lemma check_payload_reads:
  assumes "\<And>name n. map_of t (root @ [name]) = Some n \<Longrightarrow> \<not> is_link n"
  shows "reads t (check_payload lib root m names acc) (\<lambda>_. \<forall>name \<in> set names. \<exists>d exe. declared_in m name = Inr d \<and>
     map_of t (root @ [name]) = Some (Regular exe) \<and> length exe = unat (mf_size d) \<and>
     hex_text (bl_sha256 lib exe) = mf_sha256 d \<and> unat (mf_size d) \<le> max_image_bytes)"
proof (induction names arbitrary: acc)
  case Nil
  then show ?case by (auto intro: reads_ret)
next
  case (Cons name names)
  show ?case unfolding check_payload.simps metadata_def
    by (intro reads_bind [OF reads_lift] reads_bind [OF reads_looking] reads_bind [OF reads_require]
        reads_bind [OF digest_file_reads] reads_conseq [OF Cons])
      (use assms in \<open>auto dest!: regular_read simp: lstat_def\<close>)
qed

lemma check_installed_reads:
  assumes "\<And>name n. map_of t (p @ [name]) = Some n \<Longrightarrow> \<not> is_link n"
  shows "reads t (check_installed lib p m names) (\<lambda>_. \<forall>name \<in> set names. \<exists>d exe. declared_in m name = Inr d \<and>
     map_of t (p @ [name]) = Some (Regular exe) \<and> length exe = unat (mf_size d) \<and>
     hex_text (bl_sha256 lib exe) = mf_sha256 d)"
proof (induction names)
  case Nil
  then show ?case by (auto intro: reads_ret)
next
  case (Cons name names)
  show ?case unfolding check_installed.simps metadata_def
    by (rule reads_bind, rule reads_lift, rule reads_bind, rule reads_looking,
        rule reads_bind, rule reads_require, rule reads_bind, rule digest_file_reads,
        rule reads_bind, rule reads_require, rule reads_conseq, rule Cons)
      (use assms in \<open>auto dest!: regular_read simp: lstat_def\<close>)
qed

lemma validate_installed_reads:
  assumes "\<And>name n. map_of t (p @ [name]) = Some n \<Longrightarrow> \<not> is_link n"
  shows "reads t (validate_installed_directory lib p) (\<lambda>_. \<exists>m bs version.
     rsplit_dash (last p) = Some (version, hex_text (bl_sha256 lib bs)) \<and> image_at lib t p m bs)"
  unfolding validate_installed_directory_def case_prod_beta
  by (rule reads_bind, rule reads_lift, rule reads_bind, rule bounded_read_reads,
      rule reads_bind, rule reads_require, rule reads_bind, rule reads_lift,
      rule reads_bind, rule reads_lift, rule reads_conseq, rule check_installed_reads, rule assms)
    (use assms in \<open>auto simp: image_at_def rust_result lstat_def dest!: regular_read split: if_splits\<close>)

lemma validate_bundle_reads:
  "reads t (validate_bundle lib root) (\<lambda>(m, bs). image_at lib t root m bs \<and> sizes_ok m \<and>
     bl_semver lib (mn_version m) = Some '''' \<and> stat t root = Some Directory)"
proof -
  have links: "\<not> is_link n"
    if "\<forall>(x, n) \<in> set (entries t root). \<exists>bs. n = Regular bs" and "map_of t (root @ [name]) = Some n" for name n
    using entries_node [OF that(2)] that(1) by auto
  show ?thesis unfolding validate_bundle_def
    apply (rule reads_bind, rule validate_source_root_reads)
    apply (rule reads_bind, rule bounded_read_reads, rule reads_bind, rule reads_lift,
      rule reads_bind, rule reads_lift, rule reads_bind, rule reads_lift, rule reads_bind, rule reads_require)
    apply (rule reads_bind, rule check_payload_reads, rule links, blast, assumption)
    apply (rule reads_bind, rule reads_require, rule reads_ret)
    using links
    apply (fastforce simp: image_at_def sizes_ok_def rust_result lstat_def dest!: regular_read)
    done
qed

section \<open>What installing changes\<close>

text \<open>
  Writing at \<open>p\<close> touches its neighbours (the temporary file) and may create the directories
  above it; it leaves the paths alone that are neither.
\<close>

definition away :: "path \<Rightarrow> path \<Rightarrow> bool" where
  "away p q \<longleftrightarrow> butlast q \<noteq> butlast p \<and> \<not> prefix q (butlast p)"

lemma put_file_follow:
  assumes "put_file p bs t = Some t'" and "p \<noteq> []"
  shows "\<exists>n. map_of t' p = Some n \<and> follow n = Some (Regular bs)"
  using assms by (cases "map_of t p"; cases "the (map_of t p)")
    (auto simp: put_file_def lstat_def split: if_splits)

lemma rename_put:
  assumes "rename src dst t = Some t'" and "map_of t src = Some n" and "follow n = Some (Regular bs)"
    and "src \<noteq> []" and "dst \<noteq> src"
  shows "map_of t' dst = Some n \<and> (\<forall>q. q \<noteq> dst \<longrightarrow> q \<noteq> src \<longrightarrow> map_of t' q = map_of t q)"
proof -
  have "\<not> container n" using assms(3) by (cases n) auto
  then show ?thesis using assms
    by (auto simp: rename_def lstat_def split: option.splits if_splits)
qed

lemma atomic_write_rule:
  assumes p: "p \<noteq> []"
    and X: "\<And>t'. (\<And>q. away p q \<or> q = p \<Longrightarrow> map_of t' q = map_of t q) \<Longrightarrow> X t'"
    and R: "\<And>t'. (\<And>q. away p q \<Longrightarrow> map_of t' q = map_of t q) \<Longrightarrow> read_file t' p = Some bs \<Longrightarrow> R t'"
  shows "triple (on ((=) t)) (atomic_write lib p bs) (\<lambda>_. on R) (on X)"
proof -
  define same where "same t' \<longleftrightarrow> (\<forall>q. away p q \<or> q = p \<longrightarrow> map_of t' q = map_of t q)" for t'
  have X': "same t' \<Longrightarrow> X t'" for t' using X unfolding same_def by blast
  have "\<not> prefix p (butlast p)"
  proof
    assume "prefix p (butlast p)"
    then have "length p \<le> length (butlast p)" by (rule prefix_length_le)
    moreover have "0 < length p" using p by simp
    ultimately show False by (simp only: length_butlast)
  qed
  then have own: "\<not> prefix q (butlast p)" if "away p q \<or> q = p" for q
    using that by (auto simp: away_def)
  have t: "same t" by (simp add: same_def)
  have dirs: "same (part_created (butlast p) n t)" for n
    using own by (simp add: same_def part_created_away)
  have dirs': "same t'" if "create_dir_all (butlast p) t = Some t'" for t'
    using own create_dir_all_away [OF that] by (simp add: same_def)
  show ?thesis unfolding atomic_write_def Let_def
  proof (rule read_step, rule reads_require, rule X', rule t, rule doing_step, rule X', rule t,
      rule X', rule dirs, rule draw_step)
    fix t1 u
    assume "create_dir_all (butlast p) t = Some t1"
    then have t1: "same t1" by (rule dirs')
    let ?tmp = "butlast p @ [''.'' @ last p @ ''.'' @ bl_uuid lib u @ ''.tmp'']"
    have "last ?tmp \<noteq> last p"
    proof
      assume "last ?tmp = last p"
      then have "length (last ?tmp) = length (last p)" by simp
      then show False by simp
    qed
    then have "?tmp \<noteq> p" by metis
    moreover have "\<not> away p ?tmp" by (simp add: away_def)
    ultimately have tmp: "q \<noteq> ?tmp" if "away p q \<or> q = p" for q using that by metis
    have put: "same t''" if "same t'" "put_file ?tmp b t' = Some t''" for t' t'' b
      using that put_file_other [OF that(2)] tmp unfolding same_def by metis
    have part: "same (part_put ?tmp b n t')" if "same t'" for t' b n
      using that part_put_other tmp unfolding same_def by metis
    have final: "R t'" if t3: "same t3" and put3: "put_file ?tmp bs t2 = Some t3"
        and move: "rename ?tmp p t3 = Some t'" for t2 t3 t'
    proof (rule R)
      obtain n where n: "map_of t3 ?tmp = Some n" "follow n = Some (Regular bs)"
        using put_file_follow [OF put3] by auto
      have moved: "map_of t' p = Some n" "q \<noteq> p \<Longrightarrow> q \<noteq> ?tmp \<Longrightarrow> map_of t' q = map_of t3 q" for q
        using rename_put [OF move n] \<open>?tmp \<noteq> p\<close> by auto
      show "read_file t' p = Some bs" using moved(1) n(2) p by (simp add: read_file_def stat_def lstat_def)
      show "map_of t' q = map_of t q" if "away p q" for q
      proof -
        have "q \<noteq> p" using that by (auto simp: away_def)
        then show ?thesis using moved(2) tmp that t3 by (simp add: same_def)
      qed
    qed
    show "triple (on ((=) t1)) (bind (doing (Io ?tmp) (part_put ?tmp []) (put_file ?tmp [])) (\<lambda>_.
        bind (doing (Io ?tmp) (part_put ?tmp bs) (put_file ?tmp bs)) (\<lambda>_.
        bind (proceed (Io ?tmp)) (\<lambda>_. bind (try_exists p) (\<lambda>there.
          if there then doing Windows_failed untouched (rename ?tmp p)
          else doing (Io p) untouched (rename ?tmp p)))))) (\<lambda>_. on R) (on X)"
      apply (rule doing_step, rule X', rule t1, rule X', rule part, rule t1)
      apply (rule doing_step, rule X', erule put [OF t1], rule X', rule part, erule put [OF t1])
      subgoal for t2 t3
        apply (rule read_step, rule reads_proceed, rule X', rule put, rule put [OF t1], assumption+)
        unfolding try_exists_def
        apply (rule read_step, rule reads_looking, rule X', rule put, rule put [OF t1], assumption+)
        apply (rule triple_cond; rule doing_rule; (simp only: untouched_def)?)
        by (blast intro: X' put t1 final)+
      done
  qed
qed

text \<open>What an image consists of, as far as it decides on the image.\<close>

lemma image_at_cong:
  assumes "\<And>x. x = ''manifest.toml'' \<or> x \<in> set required_files \<Longrightarrow> map_of t' (p' @ [x]) = map_of t (p @ [x])"
  shows "image_at lib t' p' m bs = image_at lib t p m bs"
  unfolding image_at_def using assms by (intro conj_cong ball_cong) simp_all

lemma image_at_node:
  assumes "image_at lib t p m bs" and "x = ''manifest.toml'' \<or> x \<in> set required_files"
  shows "\<exists>n. map_of t (p @ [x]) = Some n"
  using assms(2)
proof
  assume "x = ''manifest.toml''"
  then show ?thesis using assms(1) by (simp add: image_at_def)
next
  assume "x \<in> set required_files"
  moreover have "\<forall>x \<in> set required_files. \<exists>exe. map_of t (p @ [x]) = Some (Regular exe)"
    using assms(1) unfolding image_at_def by fast
  ultimately show ?thesis by blast
qed

lemma copy_files_rule:
  assumes "distinct names" and "\<And>x. x \<in> set names \<Longrightarrow> map_of t (root @ [x]) = Some (Regular (f x))"
    and "\<And>x. x \<in> set names \<Longrightarrow> map_of t (staging @ [x]) = None" and "root \<noteq> staging"
    and X: "\<And>t'. (\<And>q. butlast q \<noteq> staging \<Longrightarrow> map_of t' q = map_of t q) \<Longrightarrow> X t'"
    and R: "\<And>t'. (\<And>q. q \<notin> (\<lambda>x. staging @ [x]) ` set names \<Longrightarrow> map_of t' q = map_of t q) \<Longrightarrow>
       (\<And>x. x \<in> set names \<Longrightarrow> map_of t' (staging @ [x]) = Some (Regular (f x))) \<Longrightarrow> R t'"
  shows "triple (on ((=) t)) (copy_files root staging names) (\<lambda>_. on R) (on X)"
  using assms
proof (induction names arbitrary: t)
  case Nil
  then show ?case by (auto intro: ret_rule)
next
  case (Cons x names)
  let ?src = "root @ [x]" and ?dst = "staging @ [x]"
  have read: "read_file t ?src = Some (f x)"
    using Cons.prems(2) [of x] by (simp add: read_regular)
  have X: "X t'" if "\<And>q. q \<noteq> ?dst \<Longrightarrow> map_of t' q = map_of t q" for t'
    using that by (intro Cons.prems(5)) (metis butlast_snoc)
  show ?case unfolding copy_files.simps copy_file_def
  proof (rule doing_step)
    show "X t" by (rule X) simp
    show "X (case read_file t ?src of Some bs \<Rightarrow> part_put ?dst bs n t | None \<Rightarrow> t)" for n
      by (rule X) (simp add: read part_put_other)
    fix t'
    assume "(case read_file t ?src of Some bs \<Rightarrow> put_file ?dst bs t | None \<Rightarrow> None) = Some t'"
    then have put: "put_file ?dst (f x) t = Some t'" by (simp add: read)
    have other: "map_of t' q = map_of t q" if "q \<noteq> ?dst" for q
      using put_file_other [OF put] that by metis
    have "lstat t ?dst = None" using Cons.prems(3) by (simp add: lstat_def)
    then have here: "map_of t' ?dst = Some (Regular (f x))"
      using put by (auto simp: put_file_def split: if_splits)
    show "triple (on ((=) t')) (copy_files root staging names) (\<lambda>_. on R) (on X)"
    proof (rule Cons.IH)
      show "distinct names" using Cons.prems(1) by simp
      show "root \<noteq> staging" by (rule Cons.prems(4))
      show "map_of t' (root @ [y]) = Some (Regular (f y))" if "y \<in> set names" for y
        using Cons.prems(2) [of y] Cons.prems(4) other [of "root @ [y]"] that by auto
      show "map_of t' (staging @ [y]) = None" if "y \<in> set names" for y
        using Cons.prems(1) Cons.prems(3) [of y] other [of "staging @ [y]"] that by auto
      show "X t''" if "\<And>q. butlast q \<noteq> staging \<Longrightarrow> map_of t'' q = map_of t' q" for t''
      proof (rule Cons.prems(5))
        show "map_of t'' q = map_of t q" if "butlast q \<noteq> staging" for q
          using that \<open>\<And>q. butlast q \<noteq> staging \<Longrightarrow> map_of t'' q = map_of t' q\<close> other [of q] by fastforce
      qed
      show "R t''" if "\<And>q. q \<notin> (\<lambda>x. staging @ [x]) ` set names \<Longrightarrow> map_of t'' q = map_of t' q"
        "\<And>y. y \<in> set names \<Longrightarrow> map_of t'' (staging @ [y]) = Some (Regular (f y))" for t''
      proof (rule Cons.prems(6))
        show "map_of t'' q = map_of t q" if "q \<notin> (\<lambda>x. staging @ [x]) ` set (x # names)" for q
          using that \<open>\<And>q. q \<notin> (\<lambda>x. staging @ [x]) ` set names \<Longrightarrow> map_of t'' q = map_of t' q\<close> other by auto
        show "map_of t'' (staging @ [y]) = Some (Regular (f y))" if "y \<in> set (x # names)" for y
        proof (cases "y \<in> set names")
          case False
          then have "y = x" and "staging @ [y] \<notin> (\<lambda>x. staging @ [x]) ` set names" using that by auto
          then show ?thesis using here
              \<open>\<And>q. q \<notin> (\<lambda>x. staging @ [x]) ` set names \<Longrightarrow> map_of t'' q = map_of t' q\<close> by simp
        qed (rule \<open>\<And>y. y \<in> set names \<Longrightarrow> map_of t'' (staging @ [y]) = Some (Regular (f y))\<close>)
      qed
    qed
  qed
qed

lemma fill_version_rule:
  assumes image: "image_at lib t root m bs" and root: "lstat t root \<noteq> None"
    and below: "\<And>x. map_of t s = None \<Longrightarrow> map_of t (s @ [x]) = None" and s: "s \<noteq> []"
    and final: "butlast final = butlast s" "final \<noteq> s" "final \<noteq> []"
    and X: "\<And>t'. (\<And>q. \<not> prefix s q \<Longrightarrow> map_of t' q = map_of t q) \<Longrightarrow> X t'"
    and R: "\<And>t'. image_at lib t' final m bs \<Longrightarrow> lstat t' final = Some Directory \<Longrightarrow> lstat t final = None \<Longrightarrow>
       length (last final) \<le> 765 \<Longrightarrow>
       (\<And>q. \<not> prefix s q \<Longrightarrow> \<not> prefix final q \<Longrightarrow> map_of t' q = map_of t q) \<Longrightarrow> R t'"
  shows "triple (on ((=) t)) (fill_version root s final bs) (\<lambda>_. on R) (on X)"
proof -
  define same where "same t' \<longleftrightarrow> (\<forall>q. \<not> prefix s q \<longrightarrow> map_of t' q = map_of t q)" for t'
  have X': "X t'" if "same t'" for t'
    using that by (intro X) (simp add: same_def)
  obtain f where f: "\<And>x. x \<in> set required_files \<Longrightarrow> map_of t (root @ [x]) = Some (Regular (f x))"
    using image unfolding image_at_def by metis
  let ?m = "s @ [''manifest.toml'']"
  have m: "''manifest.toml'' \<notin> set required_files" by (simp add: required_files_def)
  have apart: "\<not> prefix final (s @ q)" for q
  proof
    assume "prefix final (s @ q)"
    moreover have "length final = length s" using final s by (metis length_butlast length_greater_0_conv Suc_pred')
    ultimately show False using final(2) by (auto simp: prefix_def append_eq_append_conv)
  qed
  show ?thesis unfolding fill_version_def
  proof (rule doing_step)
    show "X t" by (rule X') (simp add: same_def)
    show "X (untouched n t)" for n by (rule X') (simp add: same_def untouched_def)
    fix t1
    assume "create_dir s t = Some t1"
    then have free: "lstat t s = None" and t1: "t1 = place s Directory t"
      by (auto simp: create_dir_def split: if_splits)
    have same1: "same t1" by (auto simp: same_def t1)
    have "root \<noteq> s" using root free by auto
    have inside: "map_of t1 (s @ [x]) = None" for x
      using below free s by (simp add: lstat_def t1)
    show "triple (on ((=) t1)) (bind (doing (Io ?m) (part_put ?m bs) (put_file ?m bs)) (\<lambda>_.
        bind (copy_files root s required_files) (\<lambda>_. doing (Io final) untouched (rename s final))))
        (\<lambda>_. on R) (on X)"
    proof (rule doing_step, rule X', rule same1)
      have "q \<noteq> ?m" if "\<not> prefix s q" for q using that by auto
      then show "X (part_put ?m bs n t1)" for n
        using same1 part_put_other [of ?m] by (intro X') (metis same_def)
      fix t2
      assume put: "put_file ?m bs t1 = Some t2"
      have other: "map_of t2 q = map_of t1 q" if "q \<noteq> ?m" for q
        using put_file_other [OF put] that by metis
      have manifest: "map_of t2 ?m = Some (Regular bs)"
        using put inside [of "''manifest.toml''"] by (auto simp: put_file_def lstat_def split: if_splits)
      have same2: "same t2" using same1 other \<open>\<And>q. \<not> prefix s q \<Longrightarrow> q \<noteq> ?m\<close>
        by (simp add: same_def)
      define filled where "filled t' \<longleftrightarrow> same t' \<and> map_of t' s = Some Directory \<and>
        map_of t' ?m = Some (Regular bs) \<and>
        (\<forall>x \<in> set required_files. map_of t' (s @ [x]) = Some (Regular (f x)))" for t'
      show "triple (on ((=) t2)) (bind (copy_files root s required_files) (\<lambda>_.
          doing (Io final) untouched (rename s final))) (\<lambda>_. on R) (on X)"
      proof (rule call_step [where R = "\<lambda>_. filled"])
        show "triple (on ((=) t2)) (copy_files root s required_files) (\<lambda>_. on filled) (on X)"
        proof (rule copy_files_rule [where f = f])
          show "distinct required_files" by (simp add: required_files_def)
          show "map_of t2 (root @ [x]) = Some (Regular (f x))" if "x \<in> set required_files" for x
            using f [OF that] \<open>root \<noteq> s\<close> that m other [of "root @ [x]"] free s
            by (auto simp: t1 lstat_def)
          show "map_of t2 (s @ [x]) = None" if "x \<in> set required_files" for x
            using inside [of x] other [of "s @ [x]"] that m by auto
          show "root \<noteq> s" by fact
          show "X t'" if "\<And>q. butlast q \<noteq> s \<Longrightarrow> map_of t' q = map_of t2 q" for t'
          proof (rule X')
            have "butlast q \<noteq> s" if "\<not> prefix s q" for q
              using that by (metis append_butlast_last_id butlast.simps(1) prefixI prefix_bot.bot_least)
            then show "same t'" using same2 that by (simp add: same_def)
          qed
          show "filled t'"
            if away: "\<And>q. q \<notin> (\<lambda>x. s @ [x]) ` set required_files \<Longrightarrow> map_of t' q = map_of t2 q"
              and copied: "\<And>x. x \<in> set required_files \<Longrightarrow> map_of t' (s @ [x]) = Some (Regular (f x))" for t'
          proof -
            have "q \<notin> (\<lambda>x. s @ [x]) ` set required_files" if "\<not> prefix s q" for q using that by auto
            then have "same t'" using same2 away by (simp add: same_def)
            moreover have "map_of t' s = Some Directory" using away [of s] other [of s] by (auto simp: t1)
            moreover have "map_of t' ?m = Some (Regular bs)" using away [of ?m] m manifest by auto
            ultimately show ?thesis using copied by (simp add: filled_def)
          qed
        qed
        fix x t3
        assume filled: "filled t3"
        then have same3: "same t3" by (simp add: filled_def)
        show "triple (on ((=) t3)) (doing (Io final) untouched (rename s final)) (\<lambda>_. on R) (on X)"
        proof (rule doing_rule, rule X', rule same3)
          show "X (untouched n t3)" for n by (rule X') (simp add: untouched_def same3)
          fix t4
          assume rename: "rename s final t3 = Some t4"
          have dir: "map_of t3 s = Some Directory" using filled by (simp add: filled_def)
          have moved: "lstat t3 final = None" "map_of t4 (final @ q) = map_of t3 (s @ q)" for q
            using rename_directory [OF rename dir s] apart [of "[]"] apart [of q] by auto
          have "\<not> prefix s final" using apart [of "[]"] rename_directory [OF rename dir s] by auto
          show "R t4"
          proof (rule R)
            have "map_of t4 (final @ [y]) = map_of t (root @ [y])"
              if "y = ''manifest.toml'' \<or> y \<in> set required_files" for y
            proof (cases "y = ''manifest.toml''")
              case True
              then show ?thesis using filled moved(2) [of "[y]"] image
                unfolding filled_def image_at_def by metis
            next
              case False
              then have "y \<in> set required_files" using that by simp
              then show ?thesis using filled f moved(2) [of "[y]"] unfolding filled_def by metis
            qed
            then have "image_at lib t4 final m bs = image_at lib t root m bs" by (rule image_at_cong)
            then show "image_at lib t4 final m bs" using image by simp
            show "lstat t4 final = Some Directory"
              using moved(2) [of "[]"] dir final(3) by (simp add: lstat_def)
            show "lstat t final = None"
              using moved(1) same3 \<open>\<not> prefix s final\<close> final(3) by (simp add: lstat_def same_def)
            show "length (last final) \<le> 765" using rename_directory [OF rename dir s] by simp
            show "map_of t4 q = map_of t q" if "\<not> prefix s q" "\<not> prefix final q" for q
              using rename_other [OF rename that] same3 that(1) by (simp add: same_def)
          qed
        qed
      qed
    qed
  qed
qed

section \<open>What the host finds\<close>

lemma validated_for_host:
  assumes "validate_manifest lib m = Inr ()" and "mn_version m = sl_version sel"
  shows "validate_selected lib m sel = Inr ()"
  using assms by (auto simp: validate_manifest_def validate_selected_def split: if_splits option.splits)

lemma image_is_launched:
  assumes image: "image_at lib t v m bs" and sizes: "sizes_ok m" and dir: "lstat t v = Some Directory"
    and sel: "sl_version sel = mn_version m" "sl_manifest_sha256 sel = hex_text (bl_sha256 lib bs)"
  shows "controller_in lib t v sel = Inr (v @ [''susmd.exe''])"
proof -
  have required: "''susmd.exe'' \<in> set required_files" by (simp add: required_files_def)
  obtain d exe where d: "declared_in m ''susmd.exe'' = Inr d"
      "map_of t (v @ [''susmd.exe'']) = Some (Regular exe)" "length exe = unat (mf_size d)"
      "hex_text (bl_sha256 lib exe) = mf_sha256 d"
    and manifest: "map_of t (v @ [''manifest.toml'']) = Some (Regular bs)" "length bs \<le> max_manifest_bytes"
      "parse_manifest lib bs = Inr m" "validate_manifest lib m = Inr ()"
    using image required unfolding image_at_def by blast
  have size: "unat (mf_size d) \<le> max_controller_bytes"
    using sizes d(1) required by (auto simp: sizes_ok_def max_controller_bytes_def max_image_bytes_def)
  have found: "find (\<lambda>f. mf_path f = ''susmd.exe'') (mn_files m) = Some d"
    by (rule declared_is_found [OF manifest(4) d(1)])
  then have digest: "valid_digest (mf_sha256 d)"
    using validated_digest [OF manifest(4)] find_key_Some by fast
  obtain doc where doc: "from_utf8 bs = Inr doc" "bl_manifest lib doc = Some m"
    using manifest(3) by (auto simp: parse_manifest_def rust_result)
  have read: "launch_read t (v @ [''manifest.toml'']) max_manifest_bytes = Inr bs"
    using manifest(1,2) by (simp add: launch_read_def stat_def lstat_def)
  have check: "check_image lib t (v @ [''susmd.exe'']) d = Inr (v @ [''susmd.exe''])"
    using d(2-4) by (simp add: check_image_def reject_reparse_point_def stat_def lstat_def)
  have "reject_reparse_point t v = Inr ()" using dir by (simp add: reject_reparse_point_def)
  then show ?thesis
    using read doc found digest size check validated_for_host [OF manifest(4)] sel
    by (simp add: controller_in_def not_less)
qed

lemma selection_is_read:
  assumes lib: "libs_ok lib" and v: "bl_semver lib v = Some ''''" "length v \<le> 765"
    and written: "read_file t (selection_path i) = Some (string_bytes (selection_text v (hex_text (bl_sha256 lib bs))))"
  shows "read_selection lib t i =
    Inr \<lparr>sl_bundle_format = 1, sl_version = v, sl_manifest_sha256 = hex_text (bl_sha256 lib bs)\<rparr>"
proof -
  let ?d = "hex_text (bl_sha256 lib bs)"
  have digest: "valid_digest ?d" using lib by (simp add: libs_ok_def valid_digest_hex)
  have "ascii_text v" using lib v(1) by (simp add: libs_ok_def)
  then have utf8: "from_utf8 (string_bytes (selection_text v ?d)) = Inr (selection_text v ?d)"
    using digest by (intro from_utf8_ascii ascii_selection)
  have "length ?d = 64" using digest by (simp add: valid_digest_def)
  then have "length (selection_text v ?d) \<le> max_manifest_bytes" using v(2) by (rule length_selection [rotated])
  moreover have "stat t (selection_path i) = Some (Regular (string_bytes (selection_text v ?d)))"
    using written by (simp add: read_file_def split: option.splits node.splits)
  ultimately have read: "launch_read t (selection_path i) max_manifest_bytes = Inr (string_bytes (selection_text v ?d))"
    by (simp add: launch_read_def)
  have "bl_selection lib (selection_text v ?d) = Some \<lparr>sl_bundle_format = 1, sl_version = v, sl_manifest_sha256 = ?d\<rparr>"
    using lib v(1) digest by (simp add: libs_ok_def)
  then show ?thesis using read utf8 v(1) digest by (simp add: read_selection_def)
qed

end
