(* ===== verification/Installation_Safety.thy ===== *)
theory Installation_Safety
  imports Installation
begin

text \<open>
  Each procedure of the installer, at every point where it may stop: what it leaves alone, and what
  the host then finds. \<open>as_before\<close> is a tree with the selection and the version directories of before,
  \<open>host_accepts\<close> one on which the host accepts a version, \<open>spared\<close> what a collection may not touch.
\<close>

section \<open>The places do not meet\<close>

lemma below_version:
  assumes "prefix (versions_path i @ [x]) q"
  shows "\<not> prefix q (versions_path i)" and "\<not> prefix q (bin_path i)" and "q \<noteq> selection_path i"
    and "away (selection_path i) q" and "away (bin_path i @ [y]) q"
proof -
  obtain r where q: "q = i @ ''versions'' # x # r" using assms by (auto simp: prefix_def versions_path_def)
  show "\<not> prefix q (versions_path i)" by (simp add: q versions_path_def)
  show "\<not> prefix q (bin_path i)" by (simp add: q bin_path_def)
  show "q \<noteq> selection_path i" by (simp add: q selection_path_def)
  have "butlast q = i @ ''versions'' # butlast (x # r)" by (simp add: q butlast_append)
  then show "away (selection_path i) q" "away (bin_path i @ [y]) q"
    by (simp_all add: away_def q selection_path_def bin_path_def butlast_append)
qed

lemma selection_apart:
  "\<not> prefix (selection_path i) (versions_path i)" "\<not> prefix (selection_path i) (bin_path i)"
  "away (bin_path i @ [y]) (selection_path i)" "selection_path i \<noteq> []"
  by (simp_all add: selection_path_def versions_path_def bin_path_def away_def butlast_append)

lemma selected_shape:
  assumes "libs_ok lib" and "selected_controller lib t lad = Inr c"
  shows "\<exists>x. butlast c = versions_path (installation_in lad) @ [x] \<and> hd x \<noteq> CHR ''.'' \<and> lstat t (butlast c) \<noteq> None"
proof -
  let ?i = "installation_in lad"
  obtain sel v where sel: "read_selection lib t ?i = Inr sel" "controller_in lib t v sel = Inr c"
    and v: "v = versions_path ?i @ [version_name (sl_version sel) (sl_manifest_sha256 sel)]"
    using assms(2) by (auto simp: selected_controller_def Let_def rust_result)
  have "bl_semver lib (sl_version sel) \<noteq> None"
    using sel(1) by (auto simp: read_selection_def rust_result split: if_splits)
  then have "sl_version sel \<noteq> []" "hd (sl_version sel) \<noteq> CHR ''.''"
    using assms(1) by (auto simp: libs_ok_def)
  moreover have "butlast c = v" using controller_in_path [OF sel(2)] by simp
  moreover have "lstat t v \<noteq> None"
    using sel(2) by (auto simp: controller_in_def reject_reparse_point_def rust_result)
  ultimately show ?thesis using v by (auto simp: version_name_def)
qed

section \<open>Installing\<close>

text \<open>\<open>as_before i t t'\<close>: the selection and every version directory of \<open>t\<close> are as they were.\<close>

definition as_before :: "path \<Rightarrow> files \<Rightarrow> files \<Rightarrow> bool" where
  "as_before i t t' \<longleftrightarrow>
     map_of t' (selection_path i) = map_of t (selection_path i) \<and>
     (\<forall>x q. hd x \<noteq> CHR ''.'' \<longrightarrow> lstat t (versions_path i @ [x]) \<noteq> None \<longrightarrow>
        prefix (versions_path i @ [x]) q \<longrightarrow> map_of t' q = map_of t q)"

lemma as_before_selected:
  assumes "libs_ok lib" and "as_before (installation_in lad) t t'" and "selected_controller lib t lad = Inr c"
  shows "selected_controller lib t' lad = Inr c"
  using selected_shape [OF assms(1,3)] assms(2) unfolding as_before_def
  by (intro selected_controller_frame [OF assms(3)]) metis+

lemma as_before_refl: "as_before i t t"
  by (simp add: as_before_def)

lemma as_before_trans_same:
  assumes "as_before i t t'" and "map_of t'' (selection_path i) = map_of t' (selection_path i)"
    and "\<And>x q. prefix (versions_path i @ [x]) q \<Longrightarrow> map_of t'' q = map_of t' q"
  shows "as_before i t t''"
  using assms by (simp add: as_before_def)

definition outcome_ok :: "bundle_libs \<Rightarrow> path \<Rightarrow> files \<Rightarrow> path \<Rightarrow> files \<Rightarrow> bool" where
  "outcome_ok lib lad t new t' \<longleftrightarrow>
     (\<forall>c. selected_controller lib t lad = Inr c \<longrightarrow>
        selected_controller lib t' lad = Inr c \<or> selected_controller lib t' lad = Inr new)"

lemma as_before_outcome: "libs_ok lib \<Longrightarrow> as_before (installation_in lad) t t' \<Longrightarrow> outcome_ok lib lad t new t'"
  by (auto simp: outcome_ok_def dest: as_before_selected)

lemma new_outcome: "selected_controller lib t' lad = Inr new \<Longrightarrow> outcome_ok lib lad t new t'"
  by (simp add: outcome_ok_def)

definition version_in :: "bundle_libs \<Rightarrow> path \<Rightarrow> manifest \<Rightarrow> u8 list \<Rightarrow> path" where
  "version_in lib lad m bs =
     versions_path (installation_in lad) @ [version_name (mn_version m) (hex_text (bl_sha256 lib bs))]"

lemma written_selection_is_launched:
  assumes "libs_ok lib" and "image_at lib t (version_in lib lad m bs) m bs" and "sizes_ok m"
    and "lstat t (version_in lib lad m bs) = Some Directory"
    and "bl_semver lib (mn_version m) = Some ''''" and "length (last (version_in lib lad m bs)) \<le> 765"
    and "read_file t (selection_path (installation_in lad)) =
      Some (string_bytes (selection_text (mn_version m) (hex_text (bl_sha256 lib bs))))"
  shows "selected_controller lib t lad = Inr (version_in lib lad m bs @ [''susmd.exe''])"
proof -
  have "length (mn_version m) \<le> 765" using assms(6) by (simp add: version_in_def version_name_def)
  then have "read_selection lib t (installation_in lad) = Inr \<lparr>sl_bundle_format = 1,
      sl_version = mn_version m, sl_manifest_sha256 = hex_text (bl_sha256 lib bs)\<rparr>"
    using assms by (intro selection_is_read)
  moreover have "controller_in lib t (version_in lib lad m bs) \<lparr>sl_bundle_format = 1,
      sl_version = mn_version m, sl_manifest_sha256 = hex_text (bl_sha256 lib bs)\<rparr> =
      Inr (version_in lib lad m bs @ [''susmd.exe''])"
    using assms by (intro image_is_launched) simp_all
  ultimately show ?thesis by (simp add: selected_controller_def version_in_def)
qed

definition link_free :: "files \<Rightarrow> path \<Rightarrow> bool" where
  "link_free t p \<longleftrightarrow> (\<forall>q n. prefix p q \<longrightarrow> map_of t q = Some n \<longrightarrow> \<not> is_link n)"

text \<open>The version directory after it was validated or staged.\<close>

definition in_place :: "bundle_libs \<Rightarrow> path \<Rightarrow> manifest \<Rightarrow> u8 list \<Rightarrow> files \<Rightarrow> files \<Rightarrow> bool" where
  "in_place lib lad m bs t t' \<longleftrightarrow>
     as_before (installation_in lad) t t' \<and> image_at lib t' (version_in lib lad m bs) m bs \<and>
     lstat t' (version_in lib lad m bs) = Some Directory \<and> length (last (version_in lib lad m bs)) \<le> 765"

lemma present_version_in_place:
  assumes lib: "libs_ok lib" and hash: "collision_free lib t" and rooted: "rooted t"
    and links: "link_free t (version_in lib lad m bs)"
    and image: "image_at lib t root m bs"
    and t1: "create_dir_all (versions_path (installation_in lad)) t = Some t1"
    and there: "stat t1 (version_in lib lad m bs) = Some Directory"
  shows "reads t1 (validate_installed_directory lib (version_in lib lad m bs)) (\<lambda>_. in_place lib lad m bs t t1)"
proof -
  let ?v = "version_in lib lad m bs"
  have below: "map_of t1 q = map_of t q" if "prefix ?v q" for q
    using create_dir_all_away [OF t1] below_version(1) that by (simp add: version_in_def)
  have link: "\<not> is_link n" if "prefix ?v q" "map_of t1 q = Some n" for q n
    using links that by (auto simp: link_free_def below)
  have dir: "map_of t1 ?v = Some Directory"
  proof -
    have "?v \<noteq> []" by (simp add: version_in_def)
    then obtain n where n: "map_of t1 ?v = Some n" "follow n = Some Directory"
      using there by (auto simp: stat_def lstat_def bind_eq_Some_conv)
    then show ?thesis using link [of ?v n] by (cases n) auto
  qed
  have as_before: "as_before (installation_in lad) t t1"
    using create_dir_all_away [OF t1] selection_apart(1) below_version(1) by (simp add: as_before_def)
  have name: "length (last ?v) \<le> 765"
  proof -
    have "map_of t ?v = Some Directory" using dir below [of ?v] by simp
    then show ?thesis using rooted_name [OF rooted] unfolding version_in_def by (metis last_snoc)
  qed
  show ?thesis
  proof (rule reads_conseq, rule validate_installed_reads)
    show "\<not> is_link n" if "map_of t1 (?v @ [x]) = Some n" for x n
      by (rule link [OF _ that]) simp
    fix r
    assume "\<exists>m' bs' version. rsplit_dash (last ?v) = Some (version, hex_text (bl_sha256 lib bs')) \<and>
      image_at lib t1 ?v m' bs'"
    then obtain m' bs' version where m': "rsplit_dash (last ?v) = Some (version, hex_text (bl_sha256 lib bs'))"
      "image_at lib t1 ?v m' bs'" by blast
    have "rsplit_dash (last ?v) = Some (mn_version m, hex_text (bl_sha256 lib bs))"
      by (simp add: version_in_def rsplit_version_name hex_lower)
    then have "hex_text (bl_sha256 lib bs') = hex_text (bl_sha256 lib bs)" using m'(1) by simp
    then have "bl_sha256 lib bs' = bl_sha256 lib bs" by (rule hex_inject)
    moreover have "read_file t (?v @ [''manifest.toml'']) = Some bs'"
      using m'(2) below [of "?v @ [''manifest.toml'']"] by (simp add: image_at_def read_regular)
    moreover have "read_file t (root @ [''manifest.toml'']) = Some bs"
      using image by (simp add: image_at_def read_regular)
    ultimately have "bs' = bs" using hash unfolding collision_free_def by blast
    moreover from this have "m' = m" using m'(2) image by (simp add: image_at_def)
    ultimately show "in_place lib lad m bs t t1"
      using m'(2) as_before dir name by (simp add: in_place_def lstat_def version_in_def)
  qed
qed

lemma staged_version_in_place:
  assumes lib: "libs_ok lib" and rooted: "rooted t" and image: "image_at lib t root m bs"
    and root: "stat t root = Some Directory" and semver: "bl_semver lib (mn_version m) = Some ''''"
    and t1: "create_dir_all (versions_path (installation_in lad)) t = Some t1"
    and image1: "image_at lib t1 root m bs"
  shows "triple (on ((=) t1)) (stage_version lib root (versions_path (installation_in lad)) (version_in lib lad m bs) bs)
    (\<lambda>_. on (in_place lib lad m bs t)) (on (as_before (installation_in lad) t))"
  unfolding stage_version_def
proof (rule draw_step)
  fix u
  let ?i = "installation_in lad"
  let ?V = "versions_path ?i" and ?v = "version_in lib lad m bs"
  let ?s = "?V @ [staging_name lib u]"
  have same: "map_of t1 q = map_of t q" if "\<not> prefix q ?V" for q
    by (rule create_dir_all_away [OF t1 that])
  have dot: "hd (staging_name lib u) = CHR ''.''" by (simp add: staging_name_def)
  have "mn_version m \<noteq> []" "hd (mn_version m) \<noteq> CHR ''.''" using lib semver by (auto simp: libs_ok_def)
  then have undot: "hd (version_name (mn_version m) (hex_text (bl_sha256 lib bs))) \<noteq> CHR ''.''"
    by (simp add: version_name_def)
  have as_before1: "as_before ?i t t1"
    using same selection_apart(1) below_version(1) by (simp add: as_before_def)
  have off: "\<not> prefix ?s q" if "prefix (?V @ [x]) q" "hd x \<noteq> CHR ''.''" for x q
    using that dot by (auto simp: prefix_def)
  have sel: "\<not> prefix (?V @ [x]) (selection_path ?i)" for x
    using below_version(3) by blast
  show "triple (on ((=) t1)) (fill_version root ?s ?v bs) (\<lambda>_. on (in_place lib lad m bs t)) (on (as_before ?i t))"
  proof (rule fill_version_rule [OF image1])
    show "lstat t1 root \<noteq> None"
    proof (cases "root = []")
      case False
      then obtain n where "map_of t root = Some n" using root by (auto simp: stat_def lstat_def bind_eq_Some_conv)
      then show ?thesis using create_dir_all_other [OF t1] False by (simp add: lstat_def)
    qed (simp add: lstat_def)
    show "map_of t1 (?s @ [x]) = None" if "map_of t1 ?s = None" for x
    proof -
      have "\<not> prefix ?s ?V" "\<not> prefix (?s @ [x]) ?V" by (auto simp: prefix_def)
      then have "map_of t ?s = None" and step: "map_of t1 (?s @ [x]) = map_of t (?s @ [x])"
        using that same by simp_all
      moreover have "?s \<noteq> []" by simp
      ultimately show ?thesis using rooted_below [OF rooted] step by metis
    qed
    show "?s \<noteq> []" "?v \<noteq> []" by (simp_all add: version_in_def)
    show "butlast ?v = butlast ?s" by (simp add: version_in_def)
    show "?v \<noteq> ?s" using dot undot by (auto simp: version_in_def)
    show "as_before ?i t t'" if "\<And>q. \<not> prefix ?s q \<Longrightarrow> map_of t' q = map_of t1 q" for t'
      using as_before1 that off sel by (simp add: as_before_def)
    fix t'
    assume t': "image_at lib t' ?v m bs" "lstat t' ?v = Some Directory" "lstat t1 ?v = None"
      "length (last ?v) \<le> 765" "\<And>q. \<not> prefix ?s q \<Longrightarrow> \<not> prefix ?v q \<Longrightarrow> map_of t' q = map_of t1 q"
    have "lstat t ?v = None" using t'(3) same [of ?v] by (auto simp: lstat_def version_in_def)
    then have "\<not> prefix ?v q" if "prefix (?V @ [x]) q" "lstat t (?V @ [x]) \<noteq> None" for x q
      using that by (auto simp: version_in_def prefix_def)
    then have "as_before ?i t t'" using as_before1 t'(5) off sel by (simp add: as_before_def version_in_def)
    then show "in_place lib lad m bs t t'" using t' by (simp add: in_place_def)
  qed
qed

lemma image_kept:
  assumes "image_at lib t root m bs" and "create_dir_all p t = Some t'"
  shows "image_at lib t' root m bs"
proof -
  have "map_of t' (root @ [x]) = map_of t (root @ [x])"
    if "x = ''manifest.toml'' \<or> x \<in> set required_files" for x
    using image_at_node [OF assms(1) that] create_dir_all_other [OF assms(2)] by auto
  then have "image_at lib t' root m bs = image_at lib t root m bs" by (rule image_at_cong)
  then show ?thesis using assms(1) by simp
qed

lemma place_version_rule:
  assumes lib: "libs_ok lib" and hash: "collision_free lib t" and rooted: "rooted t"
    and links: "link_free t (version_in lib lad m bs)"
    and image: "image_at lib t root m bs" and root: "stat t root = Some Directory"
    and semver: "bl_semver lib (mn_version m) = Some ''''"
  shows "triple (on ((=) t))
    (place_version lib root (versions_path (installation_in lad)) (version_in lib lad m bs) bs)
    (\<lambda>_. on (in_place lib lad m bs t)) (on (as_before (installation_in lad) t))"
  unfolding place_version_def is_dir_def
proof (rule doing_step, rule as_before_refl)
  let ?i = "installation_in lad" and ?v = "version_in lib lad m bs"
  let ?V = "versions_path ?i"
  show "as_before ?i t (part_created ?V n t)" for n
    by (simp add: as_before_def part_created_away selection_apart below_version(1))
  fix t1
  assume t1: "create_dir_all ?V t = Some t1"
  then have as_before1: "as_before ?i t t1"
    using create_dir_all_away selection_apart(1) below_version(1) unfolding as_before_def by blast
  show "triple (on ((=) t1)) (bind (asking (\<lambda>t. stat t ?v = Some Directory)) (\<lambda>there.
      if there then validate_installed_directory lib ?v else stage_version lib root ?V ?v bs))
      (\<lambda>_. on (in_place lib lad m bs t)) (on (as_before ?i t))"
  proof (rule read_step, rule reads_asking, rule as_before1, rule triple_cond)
    fix there
    assume "there \<longrightarrow> stat t1 ?v = Some Directory" and there
    then have "stat t1 ?v = Some Directory" by simp
    note reading = present_version_in_place [OF lib hash rooted links image t1 this]
    show "triple (on ((=) t1)) (validate_installed_directory lib ?v) (\<lambda>_. on (in_place lib lad m bs t)) (on (as_before ?i t))"
      by (rule reads_triple [OF reading]) (simp_all add: as_before1)
  next
    show "triple (on ((=) t1)) (stage_version lib root ?V ?v bs) (\<lambda>_. on (in_place lib lad m bs t)) (on (as_before ?i t))"
      by (rule staged_version_in_place [OF lib rooted image root semver t1 image_kept [OF image t1]])
  qed
qed

definition host_accepts :: "bundle_libs \<Rightarrow> path \<Rightarrow> path \<Rightarrow> files \<Rightarrow> bool" where
  "host_accepts lib lad v t \<longleftrightarrow> selected_controller lib t lad = Inr (v @ [''susmd.exe''])"

lemma host_accepts_stays:
  assumes "host_accepts lib lad (version_in lib lad m bs) t"
    and "map_of t' (selection_path (installation_in lad)) = map_of t (selection_path (installation_in lad))"
    and "\<And>q. prefix (version_in lib lad m bs) q \<Longrightarrow> map_of t' q = map_of t q"
  shows "host_accepts lib lad (version_in lib lad m bs) t'"
  unfolding host_accepts_def
  by (rule selected_controller_frame [OF assms(1) [unfolded host_accepts_def]]) (use assms(2,3) in simp_all)

lemma selecting_rule:
  assumes lib: "libs_ok lib" and sizes: "sizes_ok m" and semver: "bl_semver lib (mn_version m) = Some ''''"
    and placed: "in_place lib lad m bs t t'"
  shows "triple (on ((=) t')) (atomic_write lib (selection_path (installation_in lad))
      (string_bytes (selection_text (mn_version m) (hex_text (bl_sha256 lib bs)))))
    (\<lambda>_. on (host_accepts lib lad (version_in lib lad m bs))) (on (as_before (installation_in lad) t))"
proof (rule atomic_write_rule, rule selection_apart(4))
  let ?i = "installation_in lad" and ?v = "version_in lib lad m bs"
  have as_before: "as_before ?i t t'" using placed by (simp add: in_place_def)
  show "as_before ?i t t''" if "\<And>q. away (selection_path ?i) q \<or> q = selection_path ?i \<Longrightarrow> map_of t'' q = map_of t' q" for t''
    by (rule as_before_trans_same [OF as_before]) (use that below_version(4) in blast)+
  fix t''
  assume away: "\<And>q. away (selection_path ?i) q \<Longrightarrow> map_of t'' q = map_of t' q"
    and written: "read_file t'' (selection_path ?i) =
      Some (string_bytes (selection_text (mn_version m) (hex_text (bl_sha256 lib bs))))"
  have below: "map_of t'' q = map_of t' q" if "prefix ?v q" for q
    using away below_version(4) that by (simp add: version_in_def)
  have "image_at lib t'' ?v m bs"
    using placed image_at_cong [of t'' ?v t' ?v lib m bs] below by (simp add: in_place_def)
  moreover have "lstat t'' ?v = Some Directory"
    using placed below [of ?v] by (simp add: in_place_def lstat_def split: if_splits)
  ultimately show "host_accepts lib lad ?v t''" unfolding host_accepts_def
    using lib sizes semver written placed
    by (intro written_selection_is_launched) (simp_all add: in_place_def)
qed

lemma select_version_rule:
  assumes lib: "libs_ok lib" and sizes: "sizes_ok m" and semver: "bl_semver lib (mn_version m) = Some ''''"
    and placed: "in_place lib lad m bs t t'"
  shows "triple (on ((=) t')) (select_version lib (installation_in lad) (version_in lib lad m bs) (mn_version m)
      (hex_text (bl_sha256 lib bs)))
    (\<lambda>r. on (\<lambda>t'. iv_path r = version_in lib lad m bs \<and> host_accepts lib lad (iv_path r) t'))
    (on (\<lambda>t'. as_before (installation_in lad) t t' \<or> host_accepts lib lad (version_in lib lad m bs) t'))"
    (is "triple _ _ ?Q (on ?X)")
  unfolding select_version_def Let_def
proof (rule call_step [where R = "\<lambda>_. host_accepts lib lad (version_in lib lad m bs)"])
  let ?i = "installation_in lad" and ?v = "version_in lib lad m bs"
  show "triple (on ((=) t')) (atomic_write lib (selection_path ?i)
      (string_bytes (selection_text (mn_version m) (hex_text (bl_sha256 lib bs)))))
      (\<lambda>_. on (host_accepts lib lad ?v)) (on ?X)"
    by (rule triple_conseq [OF selecting_rule [OF assms]]) (auto simp: on_def)
  fix t1
  assume t1: "host_accepts lib lad ?v t1"
  have part: "host_accepts lib lad ?v (part_created (bin_path ?i) n t1)" for n
    by (rule host_accepts_stays [OF t1])
      (simp_all add: part_created_away selection_apart version_in_def below_version(2))
  have dirs: "host_accepts lib lad ?v t2" if "create_dir_all (bin_path ?i) t1 = Some t2" for t2
    by (rule host_accepts_stays [OF t1]; rule create_dir_all_away [OF that])
      (auto simp: selection_apart version_in_def below_version(2))
  have away: "host_accepts lib lad ?v t3" if "host_accepts lib lad ?v t2"
    and "\<And>q. away (bin_path ?i @ [''susm.exe'']) q \<Longrightarrow> map_of t3 q = map_of t2 q" for t2 t3
    by (rule host_accepts_stays [OF that(1)])
      (use that(2) selection_apart(3) below_version(5) in \<open>auto simp: version_in_def\<close>)
  show "triple (on ((=) t1)) (bind (doing (Io (bin_path ?i)) (part_created (bin_path ?i)) (create_dir_all (bin_path ?i))) (\<lambda>_.
      bind (bounded_read (?v @ [''susm.exe'']) max_image_bytes) (\<lambda>cli.
      bind (atomic_write lib (bin_path ?i @ [''susm.exe'']) cli) (\<lambda>_.
      ret \<lparr>iv_version = mn_version m, iv_identity = hex_text (bl_sha256 lib bs), iv_path = ?v,
        iv_current = True, iv_pin_count = 0\<rparr>)))) ?Q (on ?X)"
    apply (rule doing_step, simp add: t1, simp add: part)
    apply (rule read_step, rule bounded_read_reads, simp add: dirs)
    apply (rule call_step [where R = "\<lambda>_. host_accepts lib lad ?v"])
     apply (rule atomic_write_rule, simp)
      apply (blast intro: away dirs)
     apply (blast intro: away dirs)
    apply (rule ret_rule, simp)
    done
qed

lemma install_validated_rule:
  assumes "libs_ok lib" and "collision_free lib t" and "rooted t"
    and "link_free t (version_in lib lad m bs)" and lad: "lad \<noteq> []"
    and "image_at lib t root m bs" and "sizes_ok m"
    and "bl_semver lib (mn_version m) = Some ''''" and "stat t root = Some Directory"
  shows "triple (on ((=) t)) (install_validated lib (Some lad) root m bs)
    (\<lambda>r. on (\<lambda>t'. iv_path r = version_in lib lad m bs \<and> host_accepts lib lad (iv_path r) t'))
    (on (\<lambda>t'. as_before (installation_in lad) t t' \<or> host_accepts lib lad (version_in lib lad m bs) t'))"
proof -
  have env: "installation_root (Some lad) = Inr (installation_in lad)" using lad by (simp add: installation_root_def)
  let ?X = "\<lambda>t'. as_before (installation_in lad) t t' \<or> host_accepts lib lad (version_in lib lad m bs) t'"
  have placing: "triple (on ((=) t))
      (place_version lib root (versions_path (installation_in lad)) (version_in lib lad m bs) bs)
      (\<lambda>_. on (in_place lib lad m bs t)) (on ?X)"
    by (rule triple_conseq [OF place_version_rule]) (use assms in \<open>auto simp: on_def\<close>)
  show ?thesis unfolding install_validated_def env Let_def
  proof (rule read_step, rule reads_lift, simp add: as_before_refl)
    fix i
    assume "(Inr (installation_in lad) :: install_error + path) = Inr i"
    then have i: "i = installation_in lad" by simp
    show "triple (on ((=) t)) (bind (place_version lib root (versions_path i)
          (versions_path i @ [version_name (mn_version m) (hex_text (bl_sha256 lib bs))]) bs) (\<lambda>_.
        select_version lib i (versions_path i @ [version_name (mn_version m) (hex_text (bl_sha256 lib bs))])
          (mn_version m) (hex_text (bl_sha256 lib bs))))
      (\<lambda>r. on (\<lambda>t'. iv_path r = version_in lib lad m bs \<and> host_accepts lib lad (iv_path r) t')) (on ?X)"
      unfolding i version_in_def [symmetric]
      by (rule call_step [OF placing], rule select_version_rule) (use assms in simp_all)
  qed
qed

section \<open>Collecting\<close>

lemma check_installed_reads_any: "reads t (check_installed lib p m names) (\<lambda>_. True)"
proof (induction names)
  case Nil
  then show ?case by (auto intro: reads_ret)
next
  case (Cons name names)
  show ?case unfolding check_installed.simps metadata_def
    by (rule reads_bind, rule reads_lift, rule reads_bind, rule reads_looking,
        rule reads_bind, rule reads_require, rule reads_bind, rule digest_file_reads,
        rule reads_bind, rule reads_require, rule Cons)
qed

lemma validate_installed_reads_any: "reads t (validate_installed_directory lib p) (\<lambda>_. True)"
  unfolding validate_installed_directory_def case_prod_beta
  by (rule reads_bind, rule reads_lift, rule reads_bind, rule bounded_read_reads,
      rule reads_bind, rule reads_require, rule reads_bind, rule reads_lift,
      rule reads_bind, rule reads_lift, rule check_installed_reads_any)

lemma current_selection_reads:
  "reads t (current_selection lib i) (\<lambda>current. \<forall>sel. read_selection lib t i = Inr sel \<longrightarrow>
     current = Some (version_name (sl_version sel) (sl_manifest_sha256 sel)))"
  (is "reads t _ ?R")
  unfolding current_selection_def try_exists_def
proof (rule reads_bind, rule reads_looking, rule reads_if)
  fix there
  assume "Some (stat t (selection_path i) \<noteq> None) = Some there" and "\<not> there"
  then have "stat t (selection_path i) = None" by simp
  then have "read_selection lib t i \<noteq> Inr sel" for sel
    by (simp add: read_selection_def launch_read_def rust_result)
  then show "reads t (ret None) ?R" by (intro reads_ret) blast
next
  have known: "?R (Some (version_name (sl_version sel) (sl_manifest_sha256 sel)))"
    if "read_file t (selection_path i) = Some bs" and "from_utf8 bs = Inr doc" and "bl_selection lib doc = Some sel"
    for bs doc sel
  proof (intro allI impI)
    fix sel'
    assume "read_selection lib t i = Inr sel'"
    moreover have "stat t (selection_path i) = Some (Regular bs)"
      using that(1) by (simp add: read_file_def split: option.splits node.splits)
    ultimately have "sel' = sel"
      using that(2,3) by (auto simp: read_selection_def launch_read_def rust_result split: if_splits)
    then show "Some (version_name (sl_version sel) (sl_manifest_sha256 sel)) =
      Some (version_name (sl_version sel') (sl_manifest_sha256 sel'))" by simp
  qed
  show "reads t (bind (bounded_read (selection_path i) max_manifest_bytes) (\<lambda>bs.
     bind (lift_result (map_err (\<lambda>_. Invalid ''selection is not UTF-8'') (from_utf8 bs))) (\<lambda>doc.
     bind (lift_result (ok_or Manifest_toml (bl_selection lib doc))) (\<lambda>sel.
     bind (require (Invalid ''current selection is invalid'')
       (sl_bundle_format sel = 1 \<and> bl_semver lib (sl_version sel) \<noteq> None \<and>
        valid_digest (sl_manifest_sha256 sel))) (\<lambda>_.
     ret (Some (version_name (sl_version sel) (sl_manifest_sha256 sel)))))))) ?R"
    by (rule reads_bind, rule bounded_read_reads, rule reads_bind, rule reads_lift,
      rule reads_bind, rule reads_lift, rule reads_bind, rule reads_require, rule reads_ret, rule known)
      (simp_all add: rust_result)
qed

lemma count_entries_reads: "reads t (count_entries p es n) (\<lambda>k. k = n + length es)"
proof (induction es arbitrary: n)
  case Nil
  then show ?case by (auto intro: reads_ret)
next
  case (Cons e es)
  show ?case unfolding count_entries.simps
    by (rule reads_bind, rule reads_proceed, rule reads_conseq, rule Cons) simp
qed

lemma directory_entry_count_reads:
  "reads t (directory_entry_count p) (\<lambda>n. stat t p \<noteq> None \<longrightarrow> n = length (entries t p))"
  unfolding directory_entry_count_def try_exists_def
proof (rule reads_bind, rule reads_looking, rule reads_if)
  fix there
  assume "Some (stat t p \<noteq> None) = Some there" and "\<not> there"
  then show "reads t (ret 0) (\<lambda>n. stat t p \<noteq> None \<longrightarrow> n = length (entries t p))"
    by (intro reads_ret) simp
next
  show "reads t (bind (metadata p) (\<lambda>m. bind (require (Invalid (''pin path '' @ concat p @ '' is not a regular directory''))
      (m = Directory)) (\<lambda>_. bind (looking (Io p) (\<lambda>t. read_dir t p)) (\<lambda>es. count_entries p es 0))))
      (\<lambda>n. stat t p \<noteq> None \<longrightarrow> n = length (entries t p))"
    unfolding metadata_def
    by (rule reads_bind, rule reads_looking, rule reads_bind, rule reads_require, rule reads_bind, rule reads_looking,
      rule reads_conseq, rule count_entries_reads) (auto simp: read_dir_def split: if_splits)
qed

text \<open>
  \<open>spared i keep t t'\<close>: the selection, the pins, and the version directories whose name \<open>keep\<close>
  holds of are in \<open>t'\<close> as in \<open>t\<close>.
\<close>

definition spared :: "path \<Rightarrow> (string \<Rightarrow> bool) \<Rightarrow> files \<Rightarrow> files \<Rightarrow> bool" where
  "spared i keep t t' \<longleftrightarrow>
     map_of t' (selection_path i) = map_of t (selection_path i) \<and>
     (\<forall>x q. keep x \<longrightarrow> prefix (versions_path i @ [x]) q \<or> q = pins_path i @ [x] \<longrightarrow> map_of t' q = map_of t q) \<and>
     (\<forall>x y. map_of t' (pins_path i @ [x, y]) = map_of t (pins_path i @ [x, y]))"

definition kept_name :: "path \<Rightarrow> files \<Rightarrow> string option \<Rightarrow> string \<Rightarrow> bool" where
  "kept_name i t current x \<longleftrightarrow> \<not> prefix ''.staging-'' x \<and>
     (current = Some x \<or> (\<exists>y. map_of t (pins_path i @ [x, y]) \<noteq> None))"

lemma pins_apart:
  "\<not> prefix (versions_path i @ [x]) (pins_path i @ r)" "pins_path i @ [x] \<noteq> selection_path i"
  "\<not> prefix (versions_path i @ [x]) (selection_path i)"
  "prefix (versions_path i @ [x]) q \<Longrightarrow> q \<noteq> pins_path i @ [y]"
  by (auto simp: versions_path_def pins_path_def selection_path_def prefix_def)

lemma spared_version:
  assumes "spared i keep t t1" and "\<not> keep x"
    and "\<And>q. \<not> prefix (versions_path i @ [x]) q \<Longrightarrow> map_of t2 q = map_of t1 q"
  shows "spared i keep t t2"
proof -
  have "\<not> prefix (versions_path i @ [x]) q" if "keep y" "prefix (versions_path i @ [y]) q" for y q
    using that assms(2) by (auto simp: prefix_def)
  then show ?thesis using assms(1,3) pins_apart unfolding spared_def by (metis (no_types))
qed

lemma spared_pins:
  assumes "spared i keep t t1" and "\<not> keep x" and "\<And>q. q \<noteq> pins_path i @ [x] \<Longrightarrow> map_of t2 q = map_of t1 q"
  shows "spared i keep t t2"
proof -
  have "pins_path i @ [y] \<noteq> pins_path i @ [x]" if "keep y" for y using that assms(2) by auto
  moreover have "pins_path i @ [y, z] \<noteq> pins_path i @ [x]" for y z by simp
  ultimately show ?thesis using assms(1,3) pins_apart(2,4) unfolding spared_def by (metis (no_types))
qed

lemma pins_seen:
  assumes "rooted t" and "spared i keep t t'" and "keep x" and "map_of t (pins_path i @ [x, y]) \<noteq> None"
  shows "stat t' (pins_path i @ [x]) \<noteq> None" and "entries t' (pins_path i @ [x]) \<noteq> []"
proof -
  have "map_of t ((pins_path i @ [x]) @ [y]) \<noteq> None" using assms(4) by simp
  then have "in_directory t ((pins_path i @ [x]) @ [y])" using assms(1) unfolding rooted_def by blast
  then have "stat t (pins_path i @ [x]) \<noteq> None" by (simp only: in_directory_def butlast_snoc) simp
  moreover have "stat t' (pins_path i @ [x]) = stat t (pins_path i @ [x])"
    using assms(2,3) by (intro stat_same) (simp add: spared_def)
  ultimately show "stat t' (pins_path i @ [x]) \<noteq> None" by simp
  have "map_of t' ((pins_path i @ [x]) @ [y]) \<noteq> None" using assms(2,4) by (simp add: spared_def)
  then show "entries t' (pins_path i @ [x]) \<noteq> []" unfolding entries_nonempty by blast
qed

lemma collect_version_rule:
  assumes rooted: "rooted t" and spared: "spared i (kept_name i t current) t t1"
  shows "triple (on ((=) t1)) (collect_version lib i current x)
    (\<lambda>_. on (spared i (kept_name i t current) t)) (on (spared i (kept_name i t current) t))"
    (is "triple _ _ (\<lambda>_. on ?S) _")
proof -
  let ?p = "versions_path i @ [x]" and ?pins = "pins_path i @ [x]"
  have removed: "?S t2" if "\<not> kept_name i t current x" "\<And>q. \<not> prefix ?p q \<Longrightarrow> map_of t2 q = map_of t1 q" for t2
    by (rule spared_version [OF spared that])
  show ?thesis unfolding collect_version_def Let_def
  proof (rule triple_cond)
    assume "prefix ''.staging-'' x"
    then have x: "\<not> kept_name i t current x" by (simp add: kept_name_def)
    show "triple (on ((=) t1)) (bind (doing (Io ?p) (part_removed ?p) (remove_dir_all ?p)) (\<lambda>_. ret 1)) (\<lambda>_. on ?S) (on ?S)"
      by (rule doing_step, rule spared, rule removed [OF x], erule part_removed_other,
        rule ret_rule, rule removed [OF x], erule (1) remove_dir_all_other)
  next
    assume staging: "\<not> prefix ''.staging-'' x"
    show "triple (on ((=) t1)) (if current = Some x then ret 0 else
        bind (directory_entry_count ?pins) (\<lambda>pins. if pins \<noteq> 0 then ret 0 else
        bind (validate_installed_directory lib ?p) (\<lambda>_.
        bind (doing (Io ?p) (part_removed ?p) (remove_dir_all ?p)) (\<lambda>_.
        bind (is_dir ?pins) (\<lambda>there.
        if there then bind (doing (Io ?pins) untouched (remove_dir ?pins)) (\<lambda>_. ret 1) else ret 1)))))
        (\<lambda>_. on ?S) (on ?S)"
    proof (rule triple_cond, rule ret_rule, rule spared, rule read_step, rule directory_entry_count_reads,
        rule spared, rule triple_cond, rule ret_rule, rule spared)
      fix n
      assume current: "current \<noteq> Some x" and n: "stat t1 ?pins \<noteq> None \<longrightarrow> n = length (entries t1 ?pins)"
        and "\<not> n \<noteq> 0"
      have x: "\<not> kept_name i t current x"
      proof
        assume kept: "kept_name i t current x"
        then obtain y where "map_of t (pins_path i @ [x, y]) \<noteq> None"
          using current by (auto simp: kept_name_def)
        then show False using pins_seen [OF rooted spared kept] n \<open>\<not> n \<noteq> 0\<close> by simp
      qed
      have validating: "reads t1 (validate_installed_directory lib ?p) (\<lambda>_. True)"
        by (rule validate_installed_reads_any)
      show "triple (on ((=) t1)) (bind (validate_installed_directory lib ?p) (\<lambda>_.
        bind (doing (Io ?p) (part_removed ?p) (remove_dir_all ?p)) (\<lambda>_.
        bind (is_dir ?pins) (\<lambda>there.
        if there then bind (doing (Io ?pins) untouched (remove_dir ?pins)) (\<lambda>_. ret 1) else ret 1))))
        (\<lambda>_. on ?S) (on ?S)"
        unfolding is_dir_def
      proof (rule read_step, rule validating, rule spared, rule doing_step, rule spared,
          rule removed [OF x], erule part_removed_other)
        fix t2
        assume "remove_dir_all ?p t1 = Some t2"
        then have t2: "?S t2" by (intro removed [OF x]) (rule remove_dir_all_other)
        have t3: "?S t3" if "remove_dir ?pins t2 = Some t3" for t3
          by (rule spared_pins [OF t2 x]) (metis remove_dir_other that)
        show "triple (on ((=) t2)) (bind (asking (\<lambda>t. stat t ?pins = Some Directory)) (\<lambda>there.
          if there then bind (doing (Io ?pins) untouched (remove_dir ?pins)) (\<lambda>_. ret 1) else ret 1))
          (\<lambda>_. on ?S) (on ?S)"
          by (rule read_step, rule reads_asking, rule t2, rule triple_cond, rule doing_step, rule t2,
            simp add: untouched_def t2, rule ret_rule, erule t3, rule ret_rule, rule t2)
      qed
    qed
  qed
qed

lemma collect_versions_rule:
  assumes rooted: "rooted t" and spared: "spared i (kept_name i t current) t t1"
  shows "triple (on ((=) t1)) (collect_versions lib i current es n)
    (\<lambda>_. on (spared i (kept_name i t current) t)) (on (spared i (kept_name i t current) t))"
  using spared
proof (induction es arbitrary: n t1)
  case Nil
  then show ?case by (auto intro: ret_rule)
next
  case (Cons e es)
  obtain x node where e: "e = (x, node)" by fastforce
  show ?case unfolding e collect_versions.simps
    by (rule read_step, rule reads_proceed, rule Cons.prems, rule read_step, rule reads_proceed, rule Cons.prems,
      rule triple_cond, rule Cons.IH, rule Cons.prems,
      rule call_step, rule collect_version_rule [OF rooted Cons.prems], rule Cons.IH)
qed

lemma garbage_collect_rule:
  assumes "libs_ok lib" and rooted: "rooted t" and lad: "lad \<noteq> []"
  shows "triple (on ((=) t)) (garbage_collect lib (Some lad))
    (\<lambda>_. on (\<lambda>t'. \<exists>current. spared (installation_in lad) (kept_name (installation_in lad) t current) t t' \<and>
       (\<forall>sel. read_selection lib t (installation_in lad) = Inr sel \<longrightarrow>
          current = Some (version_name (sl_version sel) (sl_manifest_sha256 sel)))))
    (on (\<lambda>t'. \<exists>current. spared (installation_in lad) (kept_name (installation_in lad) t current) t t' \<and>
       (\<forall>sel. read_selection lib t (installation_in lad) = Inr sel \<longrightarrow>
          current = Some (version_name (sl_version sel) (sl_manifest_sha256 sel)))))"
    (is "triple _ _ (\<lambda>_. on ?S) _")
proof -
  let ?i = "installation_in lad"
  have refl: "spared ?i keep t t" for keep by (simp add: spared_def)
  have start: "?S t"
    by (cases "read_selection lib t ?i") (auto intro: refl)
  show ?thesis unfolding garbage_collect_def installation_root_def Let_def is_dir_def
  proof (rule read_step, rule reads_lift, rule start)
    fix i
    assume "(case Some lad of Some p \<Rightarrow> if p \<noteq> [] then Inr (installation_in p)
        else Inl (Invalid ''LOCALAPPDATA is missing'')
      | None \<Rightarrow> Inl (Invalid ''LOCALAPPDATA is missing'')) = Inr i"
    then have i: "i = ?i" using lad by simp
    show "triple (on ((=) t)) (bind (asking (\<lambda>t. stat t (versions_path i) = Some Directory)) (\<lambda>there.
        if \<not> there then ret 0 else bind (current_selection lib i) (\<lambda>current.
        bind (looking (Io (versions_path i)) (\<lambda>t. read_dir t (versions_path i))) (\<lambda>es.
        collect_versions lib i current es 0)))) (\<lambda>_. on ?S) (on ?S)"
      unfolding i
    proof (rule read_step, rule reads_asking, rule start, rule triple_cond, rule ret_rule, rule start,
        rule read_step, rule current_selection_reads, rule start, rule read_step, rule reads_looking, rule start)
      fix current es
      assume current: "\<forall>sel. read_selection lib t ?i = Inr sel \<longrightarrow>
        current = Some (version_name (sl_version sel) (sl_manifest_sha256 sel))"
      show "triple (on ((=) t)) (collect_versions lib ?i current es 0) (\<lambda>_. on ?S) (on ?S)"
        by (rule triple_conseq [OF collect_versions_rule [OF rooted refl]]) (use current in \<open>auto simp: on_def\<close>)
    qed
  qed
qed

lemma no_installation: "snd (garbage_collect lib (Some []) s) = s"
  by (simp add: garbage_collect_def installation_root_def bind_def lift_result_def throw_def)

lemma spared_selected:
  assumes lib: "libs_ok lib" and selected: "selected_controller lib t lad = Inr c"
    and spared: "spared (installation_in lad) (kept_name (installation_in lad) t current) t t'"
    and current: "\<And>sel. read_selection lib t (installation_in lad) = Inr sel \<Longrightarrow>
      current = Some (version_name (sl_version sel) (sl_manifest_sha256 sel))"
  shows "selected_controller lib t' lad = Inr c"
proof -
  let ?i = "installation_in lad"
  obtain sel v where sel: "read_selection lib t ?i = Inr sel" "controller_in lib t v sel = Inr c"
    and v: "v = versions_path ?i @ [version_name (sl_version sel) (sl_manifest_sha256 sel)]"
    using selected by (auto simp: selected_controller_def Let_def rust_result)
  let ?x = "version_name (sl_version sel) (sl_manifest_sha256 sel)"
  have c: "butlast c = v" using controller_in_path [OF sel(2)] by simp
  have "hd ?x \<noteq> CHR ''.''" using selected_shape [OF lib selected] c v by auto
  then have "kept_name ?i t current ?x"
    using current [OF sel(1)] by (auto simp: kept_name_def version_name_def prefix_def)
  then have "map_of t' q = map_of t q" if "prefix (butlast c) q" for q
    using spared that unfolding c v spared_def by blast
  moreover have "map_of t' (selection_path ?i) = map_of t (selection_path ?i)"
    using spared by (simp add: spared_def)
  ultimately show ?thesis by (intro selected_controller_frame [OF selected])
qed

section \<open>Listing\<close>

lemma listed_versions_reads: "reads t (listed_versions lib i es) (\<lambda>vs. \<forall>v \<in> set vs. iv_path v \<noteq> [])"
proof (induction es)
  case Nil
  then show ?case by (auto intro: reads_ret)
next
  case (Cons e es)
  obtain x node where e: "e = (x, node)" by fastforce
  show ?case unfolding e listed_versions.simps
  proof (rule reads_bind, rule reads_proceed, rule reads_bind, rule reads_proceed, rule reads_if, rule Cons)
    show "reads t (case rsplit_dash x of None \<Rightarrow> listed_versions lib i es
      | Some (version, identity) \<Rightarrow> bind (current_selection lib i) (\<lambda>current.
          bind (directory_entry_count (pins_path i @ [x])) (\<lambda>pins.
          bind (listed_versions lib i es) (\<lambda>rest.
          ret (\<lparr>iv_version = version, iv_identity = identity, iv_path = versions_path i @ [x],
            iv_current = (current = Some x), iv_pin_count = pins\<rparr> # rest)))))
      (\<lambda>vs. \<forall>v \<in> set vs. iv_path v \<noteq> [])"
    proof (cases "rsplit_dash x")
      case None
      then show ?thesis using Cons by simp
    next
      case (Some vi)
      obtain version identity where "vi = (version, identity)" by fastforce
      then show ?thesis using Some
        by (simp, intro reads_bind [OF current_selection_reads] reads_bind [OF directory_entry_count_reads]
          reads_bind [OF Cons] reads_ret) auto
    qed
  qed
qed

lemma list_versions_reads: "reads t (list_versions lib env) (\<lambda>_. True)"
  unfolding list_versions_def Let_def is_dir_def
  by (rule reads_bind, rule reads_lift, rule reads_bind, rule reads_asking, rule reads_if, rule reads_ret, rule TrueI,
    rule reads_bind, rule reads_looking, rule reads_bind, rule listed_versions_reads, rule reads_ret, rule TrueI)

section \<open>From the bundle to the controller\<close>

definition installs :: "bundle_libs \<Rightarrow> path \<Rightarrow> files \<Rightarrow> path \<Rightarrow> bool" where
  "installs lib lad t v \<longleftrightarrow> (\<exists>root m bs. image_at lib t root m bs \<and> v = version_in lib lad m bs)"

definition soundly :: "bundle_libs \<Rightarrow> path \<Rightarrow> files \<Rightarrow> files \<Rightarrow> bool" where
  "soundly lib lad t t' \<longleftrightarrow>
     as_before (installation_in lad) t t' \<or> (\<exists>v. installs lib lad t v \<and> host_accepts lib lad v t')"

definition ready :: "bundle_libs \<Rightarrow> path \<Rightarrow> files \<Rightarrow> bool" where
  "ready lib lad t \<longleftrightarrow> libs_ok lib \<and> collision_free lib t \<and> rooted t \<and> lad \<noteq> [] \<and>
     link_free t (versions_path (installation_in lad))"

lemma soundly_refl: "soundly lib lad t t"
  by (simp add: soundly_def as_before_refl)

lemma validate_and_install_rule:
  assumes "ready lib lad t"
  shows "triple (on ((=) t)) (validate_and_install lib (Some lad) root)
    (\<lambda>r. on (\<lambda>t'. host_accepts lib lad (iv_path r) t' \<and> installs lib lad t (iv_path r))) (on (soundly lib lad t))"
  unfolding validate_and_install_def
proof (rule read_step, rule validate_bundle_reads, rule soundly_refl)
  fix x :: "manifest \<times> u8 list"
  obtain m bs where x: "x = (m, bs)" by fastforce
  assume "case x of (m, bs) \<Rightarrow> image_at lib t root m bs \<and> sizes_ok m \<and>
    bl_semver lib (mn_version m) = Some '''' \<and> stat t root = Some Directory"
  then have facts: "image_at lib t root m bs" "sizes_ok m" "bl_semver lib (mn_version m) = Some ''''"
    "stat t root = Some Directory" by (simp_all add: x)
  have "link_free t (version_in lib lad m bs)"
    using assms by (auto simp: ready_def link_free_def version_in_def dest: append_prefixD)
  then have "triple (on ((=) t)) (install_validated lib (Some lad) root m bs)
    (\<lambda>r. on (\<lambda>t'. iv_path r = version_in lib lad m bs \<and> host_accepts lib lad (iv_path r) t'))
    (on (\<lambda>t'. as_before (installation_in lad) t t' \<or> host_accepts lib lad (version_in lib lad m bs) t'))"
    using assms facts by (intro install_validated_rule) (simp_all add: ready_def)
  then show "triple (on ((=) t)) (case x of (m, bs) \<Rightarrow> install_validated lib (Some lad) root m bs)
    (\<lambda>r. on (\<lambda>t'. host_accepts lib lad (iv_path r) t' \<and> installs lib lad t (iv_path r))) (on (soundly lib lad t))"
    unfolding x prod.case
    by (rule triple_conseq) (use facts(1) in \<open>auto simp: on_def soundly_def installs_def\<close>)
qed

lemma rollback_rule:
  assumes "ready lib lad t"
  shows "triple (on ((=) t)) (rollback lib (Some lad) pre)
    (\<lambda>r. on (\<lambda>t'. host_accepts lib lad (iv_path r) t' \<and> installs lib lad t (iv_path r))) (on (soundly lib lad t))"
  unfolding rollback_def
proof (rule read_step, rule list_versions_reads, rule soundly_refl)
  fix versions
  let ?Q = "\<lambda>r. on (\<lambda>t'. host_accepts lib lad (iv_path r) t' \<and> installs lib lad t (iv_path r))"
  let ?vs = "filter (\<lambda>v. iv_version v = pre \<or> prefix pre (iv_identity v)) versions"
  have wrong: "triple (on ((=) t)) (throw e) ?Q (on (soundly lib lad t))" for e
    by (rule throw_rule, rule soundly_refl)
  show "triple (on ((=) t)) (case ?vs of [] \<Rightarrow> throw (Invalid (''no installed version matches '' @ pre))
     | [selected] \<Rightarrow> validate_and_install lib (Some lad) (iv_path selected)
     | _ \<Rightarrow> throw (Invalid (''installed version prefix '' @ pre @ '' is ambiguous''))) ?Q (on (soundly lib lad t))"
    using wrong validate_and_install_rule [OF assms] by (auto split: list.split)
qed

lemma soundly_selected:
  assumes "libs_ok lib" and "soundly lib lad t t'" and "selected_controller lib t lad = Inr c"
  shows "\<exists>c'. selected_controller lib t' lad = Inr c' \<and>
    (c' = c \<or> (\<exists>v. installs lib lad t v \<and> c' = v @ [''susmd.exe'']))"
  using assms(2) as_before_selected [OF assms(1) _ assms(3), of t'] unfolding soundly_def host_accepts_def by blast

definition plain_bundle :: "path \<Rightarrow> bool" where
  "plain_bundle source \<longleftrightarrow> (case extension source of Some e \<Rightarrow> to_uppercase e \<noteq> ''ZIP'' | None \<Rightarrow> True)"

lemma install_rule:
  assumes "ready lib lad t" and "plain_bundle source"
  shows "triple (on ((=) t)) (install lib (Some lad) source)
    (\<lambda>r. on (\<lambda>t'. host_accepts lib lad (iv_path r) t' \<and> installs lib lad t (iv_path r))) (on (soundly lib lad t))"
  unfolding install_def metadata_def is_dir_def
proof (rule read_step, rule reads_looking, rule soundly_refl, rule read_step, rule reads_require, rule soundly_refl,
    rule read_step, rule reads_asking, rule soundly_refl, rule triple_cond)
  let ?Q = "\<lambda>r. on (\<lambda>t'. host_accepts lib lad (iv_path r) t' \<and> installs lib lad t (iv_path r))"
  show "triple (on ((=) t)) (validate_and_install lib (Some lad) source) ?Q (on (soundly lib lad t))"
    by (rule validate_and_install_rule [OF assms(1)])
  have "\<not> (case extension source of Some e \<Rightarrow> to_uppercase e = ''ZIP'' | None \<Rightarrow> False)"
    using assms(2) by (auto simp: plain_bundle_def split: option.splits)
  then show "triple (on ((=) t))
      (if (case extension source of Some e \<Rightarrow> to_uppercase e = ''ZIP'' | None \<Rightarrow> False)
       then bind (looking (Io source) (\<lambda>t. lstat t source)) (\<lambda>m.
         bind (require (Invalid ''ZIP exceeds 1 GiB'') (node_size m \<le> max_zip_bytes)) (\<lambda>_.
         with_temporary lib source (\<lambda>temporary.
           bind (extract_zip lib source temporary) (\<lambda>_. validate_and_install lib (Some lad) temporary))))
       else throw (Invalid ''bundle must be a directory or .zip file'')) ?Q (on (soundly lib lad t))"
    by (simp only: if_False) (rule throw_rule, rule soundly_refl)
qed

end
