(* ===== verification/Installation_Sample.thy ===== *)
theory Installation_Sample
  imports Installation_Safety
begin

text \<open>
  A volume with an installed version and a bundle of a newer one, on which the properties are
  applied: the hypotheses on the parameters and the tree hold of it, and the host finds its controller.
\<close>

definition sample_digest :: "u8 list \<Rightarrow> u8 list" where
  "sample_digest bs = take 32 (bs @ replicate 32 0)"

definition sample_file :: "string \<Rightarrow> string \<Rightarrow> manifest_file" where
  "sample_file name content = \<lparr>mf_path = name, mf_size = word_of_nat (length content),
     mf_sha256 = hex_text (sample_digest (string_bytes content))\<rparr>"

definition sample_manifest :: "string \<Rightarrow> string \<Rightarrow> manifest" where
  "sample_manifest version content = \<lparr>mn_bundle_format = 1, mn_version = version, mn_target = ''x86_64-pc-windows-msvc'',
     mn_protocol_major = 1, mn_schema_read_min = 1, mn_schema_read_max = 1, mn_schema_write = 1,
     mn_runtime_formats = [1],
     mn_files = [sample_file ''susm.exe'' ''a'', sample_file ''susmd.exe'' content,
       sample_file ''susm-supervisor.exe'' ''e'']\<rparr>"

definition sample_libs :: bundle_libs where
  "sample_libs = \<lparr>
     bl_manifest = (\<lambda>s. if s = ''1'' then Some (sample_manifest ''1.0.0'' ''c'')
       else if s = ''2'' then Some (sample_manifest ''2.0.0'' ''d'') else None),
     bl_selection = (\<lambda>s. let v = take 5 (drop 29 s); i = take 64 (drop 55 s) in
       if s = selection_text v i
       then Some \<lparr>sl_bundle_format = 1, sl_version = v, sl_manifest_sha256 = i\<rparr> else None),
     bl_semver = (\<lambda>v. if v = ''1.0.0'' \<or> v = ''2.0.0'' then Some '''' else None),
     bl_sha256 = sample_digest, bl_uuid = show_nat, bl_arch = ''x86_64'',
     bl_archive = (\<lambda>bs. None), bl_temp_dir = (\<lambda>n. [''Temp''])\<rparr>"

definition bundle_nodes :: "path \<Rightarrow> string \<Rightarrow> string \<Rightarrow> files" where
  "bundle_nodes p manifest content =
     [(p, Directory), (p @ [''manifest.toml''], Regular (string_bytes manifest)),
      (p @ [''susm.exe''], Regular (string_bytes ''a'')),
      (p @ [''susmd.exe''], Regular (string_bytes content)),
      (p @ [''susm-supervisor.exe''], Regular (string_bytes ''e''))]"

definition sample_root :: path where "sample_root = [''Local'']"

definition sample_version :: "string \<Rightarrow> string \<Rightarrow> string" where
  "sample_version version manifest = version_name version (hex_text (sample_digest (string_bytes manifest)))"

definition sample_volume :: files where
  "sample_volume =
     [(sample_root, Directory), ([''Local'', ''Programs''], Directory),
      (installation_in sample_root, Directory), (versions_path (installation_in sample_root), Directory),
      (selection_path (installation_in sample_root),
        Regular (string_bytes (selection_text ''1.0.0'' (hex_text (sample_digest (string_bytes ''1'')))))),
      (pins_path (installation_in sample_root), Directory)] @
     bundle_nodes (versions_path (installation_in sample_root) @ [sample_version ''1.0.0'' ''1'']) ''1'' ''c'' @
     bundle_nodes [''bundle''] ''2'' ''d''"

definition sample_disk :: "call list \<Rightarrow> disk" where
  "sample_disk cs = \<lparr>tree = sample_volume, calls = cs, uuids = 0\<rparr>"

lemmas sample_defs = sample_digest_def sample_file_def sample_manifest_def sample_libs_def bundle_nodes_def
  sample_root_def sample_version_def sample_volume_def sample_disk_def

lemma hex_sample: "valid_digest (hex_text (sample_digest bs))"
  by (simp add: valid_digest_hex sample_digest_def)

lemma debug_lower_hex:
  assumes "lower_hex c"
  shows "debug_char c = [c]"
proof -
  have n: "48 \<le> (of_char c :: nat) \<and> (of_char c :: nat) \<le> 57 \<or> 97 \<le> (of_char c :: nat) \<and> (of_char c :: nat) \<le> 102"
    using assms by (simp only: lower_hex_def Let_def)
  have "c \<noteq> d" if "(of_char d :: nat) < 48 \<or> (of_char d :: nat) = 92" for d using n that by auto
  then have "c \<noteq> CHR 0x22" "c \<noteq> CHR 0x5C" "c \<noteq> CHR 0x09" "c \<noteq> CHR 0x0A" "c \<noteq> CHR 0x0D" "c \<noteq> CHR 0x00"
    by simp_all
  moreover have "\<not> (of_char c :: nat) < 16" "\<not> ((of_char c :: nat) < 32 \<or> (of_char c :: nat) = 127)"
    using n by auto
  ultimately show ?thesis by (simp only: debug_char_def if_False)
qed

lemma debug_lower: "list_all lower_hex s \<Longrightarrow> concat (map debug_char s) = s"
  by (induction s) (simp_all add: debug_lower_hex)

lemma sample_libs_ok: "libs_ok sample_libs"
proof -
  have "take 64 (drop 55 (selection_text v i)) = i \<and> take 5 (drop 29 (selection_text v i)) = v"
    if "v = ''1.0.0'' \<or> v = ''2.0.0''" and "valid_digest i" for v i
  proof -
    have "debug_text i = [CHR 0x22] @ i @ [CHR 0x22]"
      using that(2) by (simp add: debug_text_def valid_digest_def debug_lower)
    moreover have "debug_text v = [CHR 0x22] @ v @ [CHR 0x22]"
      using that(1) by (auto simp: debug_text_def debug_char_def)
    moreover have "length i = 64" using that(2) by (simp add: valid_digest_def)
    ultimately show ?thesis using that(1) by (auto simp: selection_text_def)
  qed
  then show ?thesis
    by (auto simp: libs_ok_def sample_libs_def Let_def ascii_text_def sample_digest_def split: if_splits)
qed

lemma rooted_list: "list_all (\<lambda>(q, n). in_directory t q) t \<Longrightarrow> rooted t"
  by (fastforce simp: rooted_def list_all_iff in_directory_def dest: map_of_SomeD)

lemma link_free_list: "list_all (\<lambda>(q, n). \<not> is_link n) t \<Longrightarrow> link_free t p"
  by (fastforce simp: link_free_def list_all_iff dest: map_of_SomeD)

fun content_of :: "node \<Rightarrow> u8 list option" where
  "content_of (Regular bs) = Some bs"
| "content_of (Link_file bs) = Some bs"
| "content_of _ = None"

definition contents :: "files \<Rightarrow> u8 list list" where
  "contents t = List.map_filter (\<lambda>(q, n). content_of n) t"

lemma read_contents: "read_file t p = Some x \<Longrightarrow> x \<in> set (contents t)"
proof -
  assume x: "read_file t p = Some x"
  then have "p \<noteq> []" by (auto simp: read_file_def stat_def lstat_def)
  then obtain n where n: "map_of t p = Some n" "follow n = Some (Regular x)"
    using x by (cases "map_of t p") (auto simp: read_file_def stat_def lstat_def split: option.splits node.splits)
  then have "content_of n = Some x" by (cases n) auto
  moreover have "(p, n) \<in> set t" using n(1) by (rule map_of_SomeD)
  ultimately show ?thesis by (force simp: contents_def List.map_filter_def)
qed

lemma sample_collisions:
  assumes "[] \<notin> set (contents t)"
    and "list_all (\<lambda>x. list_all (\<lambda>y. hd x = hd y \<longrightarrow> x = y) (contents t)) (contents t)"
  shows "collision_free sample_libs t"
  unfolding collision_free_def
proof (intro allI impI)
  fix p q x y
  assume "read_file t p = Some x" and "read_file t q = Some y"
    and digest: "bl_sha256 sample_libs x = bl_sha256 sample_libs y"
  then have mem: "x \<in> set (contents t)" "y \<in> set (contents t)" by (simp_all add: read_contents)
  then have "x \<noteq> []" "y \<noteq> []" using assms(1) by auto
  then have "hd x = hd y"
    using digest by (cases x; cases y) (simp_all add: sample_libs_def sample_digest_def)
  then show "x = y" using assms(2) mem by (simp add: list_all_iff)
qed

lemmas sample_paths = installation_in_def versions_path_def selection_path_def pins_path_def bin_path_def
  sample_root_def

lemma length_sample [simp]: "length (hex_text (sample_digest bs)) = 64"
  using hex_sample [of bs] by (simp add: valid_digest_def)

lemma sample_rooted: "rooted sample_volume"
  by (rule rooted_list)
    (simp add: sample_volume_def bundle_nodes_def sample_paths in_directory_def stat_def lstat_def sample_version_def version_name_def)

lemma sample_link_free: "link_free sample_volume p"
  by (rule link_free_list) (simp add: sample_volume_def bundle_nodes_def)

lemma sample_collision_free: "collision_free sample_libs sample_volume"
  by (rule sample_collisions) (simp_all add: sample_volume_def bundle_nodes_def contents_def string_bytes_def selection_text_def)

lemma sample_ready: "ready sample_libs sample_root sample_volume"
  by (simp add: ready_def sample_libs_ok sample_collision_free sample_rooted sample_link_free sample_root_def)

lemma sample_sorted: "sort [''susm.exe'', ''susmd.exe'', ''susm-supervisor.exe''] =
  [''susm-supervisor.exe'', ''susm.exe'', ''susmd.exe'']"
  by code_simp

lemma sample_manifest_ok: "validate_manifest sample_libs (sample_manifest v c) = Inr ()"
  by (simp add: validate_manifest_def sample_libs_def sample_manifest_def sample_file_def hex_sample
    expected_target_def required_files_def)

lemma sample_parse: "parse_manifest sample_libs (string_bytes ''1'') = Inr (sample_manifest ''1.0.0'' ''c'')"
  "parse_manifest sample_libs (string_bytes ''2'') = Inr (sample_manifest ''2.0.0'' ''d'')"
  by (simp_all add: parse_manifest_def from_utf8_ascii sample_libs_def)

lemma sample_declared:
  "declared_in (sample_manifest v c) ''susm.exe'' = Inr (sample_file ''susm.exe'' ''a'')"
  "declared_in (sample_manifest v c) ''susmd.exe'' = Inr (sample_file ''susmd.exe'' c)"
  "declared_in (sample_manifest v c) ''susm-supervisor.exe'' = Inr (sample_file ''susm-supervisor.exe'' ''e'')"
  by (simp_all add: declared_in_def files_by_path_def sample_manifest_def sample_file_def less_list_code)

lemma sample_version_in: "version_in sample_libs sample_root (sample_manifest v c) (string_bytes m) =
  versions_path (installation_in sample_root) @ [sample_version v m]"
  by (simp add: version_in_def sample_version_def sample_manifest_def sample_libs_def)

lemma sample_image: "image_at sample_libs sample_volume
    (versions_path (installation_in sample_root) @ [sample_version ''1.0.0'' ''1'']) (sample_manifest ''1.0.0'' ''c'') (string_bytes ''1'')"
  unfolding image_at_def
  by (simp add: sample_parse sample_manifest_ok sample_declared required_files_def max_manifest_bytes_def
    sample_volume_def bundle_nodes_def sample_paths, simp add: sample_file_def sample_libs_def)

lemma sample_selected: "selected_controller sample_libs sample_volume sample_root =
  Inr ((versions_path (installation_in sample_root) @ [sample_version ''1.0.0'' ''1'']) @ [''susmd.exe''])"
proof -
  have "selected_controller sample_libs sample_volume sample_root =
    Inr (version_in sample_libs sample_root (sample_manifest ''1.0.0'' ''c'') (string_bytes ''1'') @ [''susmd.exe''])"
  proof (rule written_selection_is_launched)
    show "libs_ok sample_libs" by (rule sample_libs_ok)
    show "image_at sample_libs sample_volume (version_in sample_libs sample_root (sample_manifest ''1.0.0'' ''c'')
        (string_bytes ''1'')) (sample_manifest ''1.0.0'' ''c'') (string_bytes ''1'')"
      unfolding sample_version_in by (rule sample_image)
    show "sizes_ok (sample_manifest ''1.0.0'' ''c'')"
      by (auto simp: sizes_ok_def required_files_def sample_declared max_image_bytes_def sample_file_def)
    show "lstat sample_volume (version_in sample_libs sample_root (sample_manifest ''1.0.0'' ''c'') (string_bytes ''1'')) = Some Directory"
      unfolding sample_version_in by (simp add: lstat_def sample_volume_def bundle_nodes_def sample_paths)
    show "bl_semver sample_libs (mn_version (sample_manifest ''1.0.0'' ''c'')) = Some ''''"
      by (simp add: sample_libs_def sample_manifest_def)
    show "length (last (version_in sample_libs sample_root (sample_manifest ''1.0.0'' ''c'') (string_bytes ''1''))) \<le> 765"
      unfolding sample_version_in by (simp add: sample_version_def version_name_def)
    show "read_file sample_volume (selection_path (installation_in sample_root)) =
      Some (string_bytes (selection_text (mn_version (sample_manifest ''1.0.0'' ''c'')) (hex_text (bl_sha256 sample_libs (string_bytes ''1'')))))"
      by (simp add: read_file_def stat_def lstat_def sample_volume_def sample_paths sample_libs_def sample_manifest_def)
  qed
  then show ?thesis unfolding sample_version_in .
qed

section \<open>Installing the version again\<close>

abbreviation sample_place :: path where
  "sample_place \<equiv> [''Local'', ''Programs'', ''susm'', ''versions'', sample_version ''1.0.0'' ''1'']"

lemma sample_place_eq: "versions_path (installation_in sample_root) @ [sample_version ''1.0.0'' ''1''] = sample_place"
  by (simp add: sample_paths)

lemmas sample_run = process_defs looking_def doing_def syscall_def asking_def proceed_def require_def draw_uuid_def

lemma sample_lookup:
  "read_dir sample_volume sample_place = Some [(''manifest.toml'', Regular (string_bytes ''1'')),
     (''susm.exe'', Regular (string_bytes ''a'')), (''susmd.exe'', Regular (string_bytes ''c'')),
     (''susm-supervisor.exe'', Regular (string_bytes ''e''))]"
  by (simp add: read_dir_def entries_def stat_def lstat_def sample_volume_def bundle_nodes_def sample_paths List.map_filter_def)

lemma sample_nodes:
  "lstat sample_volume (sample_place @ [''manifest.toml'']) = Some (Regular (string_bytes ''1''))"
  "lstat sample_volume (sample_place @ [''susm.exe'']) = Some (Regular (string_bytes ''a''))"
  "lstat sample_volume (sample_place @ [''susmd.exe'']) = Some (Regular (string_bytes ''c''))"
  "lstat sample_volume (sample_place @ [''susm-supervisor.exe'']) = Some (Regular (string_bytes ''e''))"
  "lstat sample_volume sample_place = Some Directory"
  "lstat sample_volume [''Local'', ''Programs'', ''susm'', ''versions''] = Some Directory"
  "lstat sample_volume [''Local'', ''Programs'', ''susm''] = Some Directory"
  "lstat sample_volume [''Local'', ''Programs''] = Some Directory"
  "lstat sample_volume [''Local''] = Some Directory"
  by (simp_all add: lstat_def sample_volume_def bundle_nodes_def sample_paths)

lemma sample_reads:
  "read_file sample_volume (sample_place @ [''manifest.toml'']) = Some (string_bytes ''1'')"
  "read_file sample_volume (sample_place @ [''susm.exe'']) = Some (string_bytes ''a'')"
  "read_file sample_volume (sample_place @ [''susmd.exe'']) = Some (string_bytes ''c'')"
  "read_file sample_volume (sample_place @ [''susm-supervisor.exe'']) = Some (string_bytes ''e'')"
  unfolding read_file_def stat_def sample_nodes by simp_all

lemma works: "replicate (numeral n) x = x # replicate (pred_numeral n) x"
  by (simp add: numeral_eq_Suc)

lemma sample_names:
  "set_insert (to_uppercase ''susm-supervisor.exe'') (set_insert (to_uppercase ''susmd.exe'')
     (set_insert (to_uppercase ''susm.exe'') (set_insert (to_uppercase ''manifest.toml'') []))) =
   [''MANIFEST.TOML'', ''SUSM-SUPERVISOR.EXE'', ''SUSM.EXE'', ''SUSMD.EXE'']"
  "to_uppercase ''susm.exe'' = ''SUSM.EXE''" "to_uppercase ''susmd.exe'' = ''SUSMD.EXE''"
  "to_uppercase ''susm-supervisor.exe'' = ''SUSM-SUPERVISOR.EXE''"
  by code_simp+

lemma sample_source_names:
  "source_names sample_place [(''manifest.toml'', Regular (string_bytes ''1'')),
     (''susm.exe'', Regular (string_bytes ''a'')), (''susmd.exe'', Regular (string_bytes ''c'')),
     (''susm-supervisor.exe'', Regular (string_bytes ''e''))] []
     \<lparr>tree = sample_volume, calls = replicate 8 Works @ cs, uuids = u\<rparr> =
   (Done [''MANIFEST.TOML'', ''SUSM-SUPERVISOR.EXE'', ''SUSM.EXE'', ''SUSMD.EXE''],
     \<lparr>tree = sample_volume, calls = cs, uuids = u\<rparr>)"
  by (simp add: sample_run required_files_def sample_names(1) works del: set_insert.simps)

lemma sample_source:
  "validate_source_root sample_place \<lparr>tree = sample_volume, calls = replicate 9 Works @ cs, uuids = u\<rparr> =
     (Done (), \<lparr>tree = sample_volume, calls = cs, uuids = u\<rparr>)"
proof -
  have "replicate 9 Works @ cs = Works # replicate 8 Works @ cs" by (simp add: works)
  then show ?thesis
    by (simp add: validate_source_root_def looking_def syscall_def bind_def sample_lookup sample_source_names del: source_names.simps)
      (simp add: sample_run required_files_def sample_names(2-4))
qed


abbreviation sample_state :: "nat \<Rightarrow> call list \<Rightarrow> disk" where
  "sample_state n cs \<equiv> \<lparr>tree = sample_volume, calls = replicate n Works @ cs, uuids = 0\<rparr>"

lemma sample_bounded:
  assumes "lstat t p = Some (Regular bs)" and "length bs \<le> n"
  shows "bounded_read p n \<lparr>tree = t, calls = Works # Works # cs, uuids = u\<rparr> = (Done bs, \<lparr>tree = t, calls = cs, uuids = u\<rparr>)"
  using assms by (simp add: bounded_read_def metadata_def sample_run read_file_def stat_def)

lemma sample_digest_file:
  assumes "lstat t p = Some (Regular bs)"
  shows "digest_file lib p \<lparr>tree = t, calls = Works # cs, uuids = u\<rparr> =
    (Done (hex_text (bl_sha256 lib bs)), \<lparr>tree = t, calls = cs, uuids = u\<rparr>)"
  using assms by (simp add: digest_file_def sample_run read_file_def stat_def)

lemma sample_metadata:
  "lstat t p = Some n \<Longrightarrow> metadata p \<lparr>tree = t, calls = Works # cs, uuids = u\<rparr> = (Done n, \<lparr>tree = t, calls = cs, uuids = u\<rparr>)"
  by (simp add: metadata_def sample_run)

lemma sample_length: "length (string_bytes [c]) = 1"
  by (simp add: string_bytes_def)

lemma sample_payload_checked:
  "check_payload sample_libs sample_place (sample_manifest ''1.0.0'' ''c'') required_files 0 (sample_state 6 cs) =
     (Done 3, \<lparr>tree = sample_volume, calls = cs, uuids = 0\<rparr>)"
  using sample_nodes(2-4) sample_digest_file [OF sample_nodes(2)] sample_digest_file [OF sample_nodes(3)] sample_digest_file [OF sample_nodes(4)]
  by (simp add: required_files_def sample_declared works bind_def lift_result_def ret_def require_def
    sample_metadata sample_file_def checked_add_def max_image_bytes_def sample_length sample_libs_def)

lemma sample_bundle:
  "validate_bundle sample_libs sample_place (sample_state 17 cs) =
     (Done (sample_manifest ''1.0.0'' ''c'', string_bytes ''1''), \<lparr>tree = sample_volume, calls = cs, uuids = 0\<rparr>)"
proof -
  have "replicate 17 Works @ cs = replicate 9 Works @ Works # Works # replicate 6 Works @ cs" by (simp add: works)
  moreover have "bl_semver sample_libs (mn_version (sample_manifest ''1.0.0'' ''c'')) = Some ''''"
    by (simp add: sample_libs_def sample_manifest_def)
  ultimately show ?thesis using sample_bounded [OF sample_nodes(1), of max_manifest_bytes]
    by (simp add: validate_bundle_def bind_def sample_source lift_result_def ret_def require_def sample_parse
      sample_manifest_ok sample_payload_checked max_payload_bytes_def max_manifest_bytes_def del: check_payload.simps)
qed

lemma sample_installed:
  "validate_installed_directory sample_libs sample_place (sample_state 8 cs) =
     (Done (), \<lparr>tree = sample_volume, calls = cs, uuids = 0\<rparr>)"
proof -
  have "rsplit_dash (sample_version ''1.0.0'' ''1'') = Some (''1.0.0'', hex_text (sample_digest (string_bytes ''1'')))"
    unfolding sample_version_def by (rule rsplit_version_name) (use hex_sample in \<open>simp add: valid_digest_def\<close>)
  moreover have "check_installed sample_libs sample_place (sample_manifest ''1.0.0'' ''c'') required_files (sample_state 6 cs) =
      (Done (), \<lparr>tree = sample_volume, calls = cs, uuids = 0\<rparr>)"
    using sample_nodes(2-4) sample_digest_file [OF sample_nodes(2)] sample_digest_file [OF sample_nodes(3)] sample_digest_file [OF sample_nodes(4)]
    by (simp add: required_files_def sample_declared works bind_def lift_result_def ret_def require_def
      sample_metadata sample_file_def sample_length sample_libs_def)
  moreover have "bl_sha256 sample_libs = sample_digest" by (simp add: sample_libs_def)
  moreover have "replicate 8 Works @ cs = Works # Works # replicate 6 Works @ cs" by (simp add: works)
  ultimately show ?thesis using sample_bounded [OF sample_nodes(1), of max_manifest_bytes]
    by (simp add: validate_installed_directory_def bind_def lift_result_def ret_def require_def sample_parse
      sample_manifest_ok max_manifest_bytes_def del: check_installed.simps)
qed

lemma sample_placed:
  "place_version sample_libs root [''Local'', ''Programs'', ''susm'', ''versions''] sample_place bs (sample_state 10 cs) =
     (Done (), \<lparr>tree = sample_volume, calls = cs, uuids = 0\<rparr>)"
proof -
  have "create_dir_all [''Local'', ''Programs'', ''susm'', ''versions''] sample_volume = Some sample_volume"
    by (simp add: create_dir_all_def sample_nodes)
  moreover have "stat sample_volume sample_place = Some Directory" by (simp add: stat_def sample_nodes)
  moreover have "replicate 10 Works @ cs = Works # Works # replicate 8 Works @ cs" by (simp add: works)
  ultimately show ?thesis
    by (simp add: place_version_def is_dir_def asking_def doing_def syscall_def bind_def sample_installed)
qed

text \<open>A file written into a directory where nothing has the temporary name.\<close>

lemma written_file:
  assumes "create_dir_all p t = Some t" and "stat t p = Some Directory" and "p \<noteq> []"
    and "lstat t (p @ [''.'' @ x @ ''.'' @ bl_uuid lib u @ ''.tmp'']) = None"
    and "lstat t (p @ [x]) = None \<or> (\<exists>old. lstat t (p @ [x]) = Some (Regular old))"
    and "length x \<le> 765" and "length x + length (bl_uuid lib u) \<le> 759"
  shows "\<exists>t'. atomic_write lib (p @ [x]) bs \<lparr>tree = t, calls = Works # Works # Works # Works # Works # Works # cs, uuids = u\<rparr> =
      (Done (), \<lparr>tree = t', calls = cs, uuids = Suc u\<rparr>) \<and>
    (\<forall>q. q \<noteq> p @ [x] \<longrightarrow> lstat t' q = lstat t q)"
proof -
  let ?tmp = "p @ [''.'' @ x @ ''.'' @ bl_uuid lib u @ ''.tmp'']"
  have ne: "?tmp \<noteq> p @ [x]" by (auto dest: arg_cong [where f = length])
  have dir: "in_directory t ?tmp" "in_directory t (p @ [x])"
    using assms(2,6,7) by (simp_all add: in_directory_def)
  let ?t1 = "place ?tmp (Regular []) t" and ?t2 = "place ?tmp (Regular bs) (place ?tmp (Regular []) t)"
  have put1: "put_file ?tmp [] t = Some ?t1" using assms(4) dir by (simp add: put_file_def)
  have put2: "put_file ?tmp bs ?t1 = Some ?t2" by (simp add: put_file_def)
  have there: "stat ?t2 (p @ [x]) \<noteq> None \<or> lstat t (p @ [x]) = None"
    using assms(5) ne by (auto simp: stat_def)
  have dir2: "in_directory ?t2 (p @ [x])" using dir(2) assms(2,3) by (auto simp: in_directory_def stat_def)
  have ren: "rename ?tmp (p @ [x]) ?t2 = Some (place (p @ [x]) (Regular bs) (erase ?tmp ?t2))"
    using assms(5) dir2 ne by (auto simp: rename_def)
  have others: "\<forall>q. q \<noteq> p @ [x] \<longrightarrow> lstat (place (p @ [x]) (Regular bs) (erase ?tmp ?t2)) q = lstat t q"
    using assms(4) by (auto simp: lstat_def)
  show ?thesis
    by (rule exI [of _ "place (p @ [x]) (Regular bs) (erase ?tmp ?t2)"])
      (use assms(1,3) put1 put2 ren others in \<open>simp add: atomic_write_def try_exists_def doing_def looking_def proceed_def
        syscall_def bind_def require_def ret_def draw_uuid_def Let_def\<close>)
qed

lemma sample_absent:
  "lstat sample_volume ([''Local'', ''Programs'', ''susm''] @ [''.'' @ x]) = None"
  "lstat sample_volume [''Local'', ''Programs'', ''susm'', ''bin''] = None"
  "lstat sample_volume [''Local'', ''Programs'', ''susm'', ''bin'', y] = None"
  by (simp_all add: lstat_def sample_volume_def bundle_nodes_def sample_paths)

lemma sample_selection_node:
  "\<exists>old. lstat sample_volume ([''Local'', ''Programs'', ''susm''] @ [''current.susm-install'']) = Some (Regular old)"
  by (simp add: lstat_def sample_volume_def sample_paths)

lemma sample_select:
  "\<exists>t. select_version sample_libs [''Local'', ''Programs'', ''susm''] sample_place version identity (sample_state 15 []) =
     (Done \<lparr>iv_version = version, iv_identity = identity, iv_path = sample_place, iv_current = True, iv_pin_count = 0\<rparr>,
      \<lparr>tree = t, calls = [], uuids = 2\<rparr>)"
proof -
  let ?p = "[''Local'', ''Programs'', ''susm'']" and ?six = "\<lambda>cs. Works # Works # Works # Works # Works # Works # cs"
  let ?bin = "?p @ [''bin'']" and ?rest = "[Works, Works, Works, Works, Works, Works, Works, Works, Works]"
  have calls: "replicate 15 Works = ?six ?rest" by (simp add: works)
  have create: "create_dir_all ?p sample_volume = Some sample_volume" by (simp add: create_dir_all_def sample_nodes)
  obtain t1 where t1: "atomic_write sample_libs (?p @ [''current.susm-install''])
        (string_bytes (selection_text version identity)) \<lparr>tree = sample_volume, calls = ?six ?rest, uuids = 0\<rparr> =
      (Done (), \<lparr>tree = t1, calls = ?rest, uuids = Suc 0\<rparr>)"
    and same: "\<And>q. q \<noteq> ?p @ [''current.susm-install''] \<Longrightarrow> lstat t1 q = lstat sample_volume q"
    using written_file [where x = "''current.susm-install''" and lib = sample_libs and u = 0 and cs = ?rest
        and bs = "string_bytes (selection_text version identity)", OF create _ _ sample_absent(1)] sample_selection_node
    by (auto simp: stat_def sample_nodes sample_libs_def show_nat.simps)
  let ?t2 = "place ?bin Directory t1"
  have bin: "create_dir_all ?bin t1 = Some ?t2"
    by (simp add: create_dir_all_def same sample_nodes sample_absent)
  have again: "create_dir_all ?bin ?t2 = Some ?t2" by (simp add: create_dir_all_def same sample_nodes)
  have empty: "lstat ?t2 (?bin @ [x]) = None" for x by (simp add: same sample_absent)
  have cli: "lstat ?t2 (sample_place @ [''susm.exe'']) = Some (Regular (string_bytes ''a''))"
    using sample_nodes(2) by (simp add: same)
  obtain t3 where t3: "atomic_write sample_libs (?bin @ [''susm.exe'']) (string_bytes ''a'')
      \<lparr>tree = ?t2, calls = ?six [], uuids = Suc 0\<rparr> = (Done (), \<lparr>tree = t3, calls = [], uuids = Suc (Suc 0)\<rparr>)"
    using written_file [where x = "''susm.exe''" and lib = sample_libs and u = "Suc 0" and cs = "[]"
        and bs = "string_bytes ''a''", OF again _ _ empty] empty [of "''susm.exe''"]
    by (auto simp: stat_def sample_libs_def show_nat.simps)
  have "select_version sample_libs ?p sample_place version identity (sample_state 15 []) =
      (Done \<lparr>iv_version = version, iv_identity = identity, iv_path = sample_place, iv_current = True, iv_pin_count = 0\<rparr>,
        \<lparr>tree = t3, calls = [], uuids = 2\<rparr>)"
    using t1 t3 bin sample_bounded [OF cli, of max_image_bytes]
    by (simp add: select_version_def calls bind_def selection_path_def bin_path_def doing_def syscall_def ret_def
      max_image_bytes_def Let_def numeral_2_eq_2)
  then show ?thesis ..
qed

lemma sample_reinstalled:
  "\<exists>r t. install sample_libs (Some sample_root) sample_place (sample_disk (replicate 44 Works)) =
     (Done r, \<lparr>tree = t, calls = [], uuids = 2\<rparr>) \<and> iv_path r = sample_place"
proof -
  have calls: "replicate 44 Works = Works # Works # replicate 17 Works @ replicate 10 Works @ replicate 15 Works"
    by (simp add: works)
  have place: "versions_path [''Local'', ''Programs'', ''susm''] @
      [version_name (mn_version (sample_manifest ''1.0.0'' ''c'')) (hex_text (sample_digest (string_bytes ''1'')))] = sample_place"
    by (simp add: versions_path_def sample_version_def sample_manifest_def)
  have root: "installation_root (Some sample_root) = Inr [''Local'', ''Programs'', ''susm'']"
    by (simp add: installation_root_def installation_in_def sample_root_def)
  have "bl_sha256 sample_libs = sample_digest" by (simp add: sample_libs_def)
  then show ?thesis
    using sample_select [of "mn_version (sample_manifest ''1.0.0'' ''c'')" "hex_text (sample_digest (string_bytes ''1''))"] place
    by (auto simp: install_def metadata_def sample_run is_dir_def stat_def sample_nodes calls sample_disk_def
      validate_and_install_def install_validated_def sample_bundle root Let_def versions_path_def sample_placed)
qed


end
