(* ===== verification/Installation_Properties.thy ===== *)
theory Installation_Properties
  imports Installation_Sample
begin

text \<open>
  The properties of installations: an installed version is the one the host accepts, an
  installation that fails or is killed leaves a controller to launch, and a collection removes
  neither the selected version nor a pinned one.
\<close>

section \<open>The properties\<close>

lemma triple_result:
  assumes "triple (on ((=) (tree s))) m (\<lambda>x. on (Q x)) (on X)" and "m s = (Done x, s')"
  shows "Q x (tree s')"
  using triple_Done [OF assms(1) _ assms(2)] by (simp add: on_def)

lemma triple_tree_after:
  assumes "triple (on ((=) (tree s))) m (\<lambda>x. on (Q x)) (on X)" and "\<And>x t. Q x t \<Longrightarrow> X t"
  shows "X (tree (snd (m s)))"
  using triple_state [OF assms(1), of s] assms(2) by (simp add: on_def)

text \<open>
  C34. When \<open>susm install\<close> of a bundle directory, or \<open>susm rollback\<close>,
  returns a version, the host's checks accept the selection it wrote and the controller they give
  is \<open>susmd.exe\<close> of that version, under the hypotheses \<open>ready\<close> on the parameters and the tree.
\<close>

theorem installed_version_is_launched:
  assumes "ready lib lad (tree s)" and "plain_bundle source"
  shows "(\<forall>r s'. install lib (Some lad) source s = (Done r, s') \<longrightarrow>
      selected_controller lib (tree s') lad = Inr (iv_path r @ [''susmd.exe''])) \<and>
    (\<forall>r s'. rollback lib (Some lad) pre s = (Done r, s') \<longrightarrow>
      selected_controller lib (tree s') lad = Inr (iv_path r @ [''susmd.exe'']))"
  using triple_result [OF install_rule [OF assms]] triple_result [OF rollback_rule [OF assms(1)]]
  by (simp add: host_accepts_def)

theorem installed_version_is_launched_witness:
  "\<exists>r s'. install sample_libs (Some sample_root) sample_place (sample_disk (replicate 44 Works)) = (Done r, s') \<and>
     iv_path r = sample_place \<and>
     selected_controller sample_libs (tree s') sample_root = Inr (sample_place @ [''susmd.exe''])"
proof -
  obtain r t where run: "install sample_libs (Some sample_root) sample_place (sample_disk (replicate 44 Works)) =
      (Done r, \<lparr>tree = t, calls = [], uuids = 2\<rparr>)" "iv_path r = sample_place"
    using sample_reinstalled by blast
  let ?h = "hex_text (sample_digest (string_bytes ''1''))"
  have "\<forall>c \<in> set (rev ?h). c \<noteq> CHR ''.''"
    using hex_sample [of "string_bytes ''1''"] by (auto simp: valid_digest_def list_all_iff lower_hex_def)
  then have "takeWhile (\<lambda>c. c \<noteq> CHR ''.'') (rev ?h @ xs) = rev ?h @ takeWhile (\<lambda>c. c \<noteq> CHR ''.'') xs" for xs
    by (intro takeWhile_append2) simp
  then have "plain_bundle sample_place"
    by (auto simp: plain_bundle_def extension_def sample_version_def version_name_def to_uppercase_def
      dest!: arg_cong [where f = length])
  then show ?thesis
    using installed_version_is_launched [of sample_libs sample_root "sample_disk (replicate 44 Works)" sample_place]
      sample_ready run by (fastforce simp: sample_disk_def)
qed

text \<open>
  C33. However an installation or a rollback ends - every
  call of it may fail, a write may stop in the middle, and the process may be killed between any
  two calls - a host that found a controller before it finds one after it: the same one, or the
  one of a complete bundle that was being installed.
\<close>

theorem interrupted_upgrade_keeps_a_controller:
  assumes "ready lib lad (tree s)" and "plain_bundle source"
    and "selected_controller lib (tree s) lad = Inr c"
  shows "(\<exists>c'. selected_controller lib (tree (snd (install lib (Some lad) source s))) lad = Inr c' \<and>
      (c' = c \<or> (\<exists>v. installs lib lad (tree s) v \<and> c' = v @ [''susmd.exe'']))) \<and>
    (\<exists>c'. selected_controller lib (tree (snd (rollback lib (Some lad) pre s))) lad = Inr c' \<and>
      (c' = c \<or> (\<exists>v. installs lib lad (tree s) v \<and> c' = v @ [''susmd.exe''])))"
proof -
  have lib: "libs_ok lib" using assms(1) by (simp add: ready_def)
  have "soundly lib lad (tree s) (tree (snd (install lib (Some lad) source s)))"
    by (rule triple_tree_after [OF install_rule [OF assms(1,2)]]) (auto simp: soundly_def)
  moreover have "soundly lib lad (tree s) (tree (snd (rollback lib (Some lad) pre s)))"
    by (rule triple_tree_after [OF rollback_rule [OF assms(1)]]) (auto simp: soundly_def)
  ultimately show ?thesis using soundly_selected [OF lib _ assms(3)] by blast
qed

theorem interrupted_upgrade_keeps_a_controller_witness:
  "(\<exists>c'. selected_controller sample_libs (tree (snd (install sample_libs (Some sample_root) [''bundle'']
      (sample_disk (replicate 20 Works @ [Breaks 1]))))) sample_root = Inr c') \<and>
   (\<exists>c'. selected_controller sample_libs (tree (snd (rollback sample_libs (Some sample_root) ''1.0.0''
      (sample_disk (replicate 20 Works @ [Breaks 1]))))) sample_root = Inr c')"
  using interrupted_upgrade_keeps_a_controller [of sample_libs sample_root
      "sample_disk (replicate 20 Works @ [Breaks 1])" "[''bundle'']" _ "''1.0.0''"]
    sample_ready sample_selected
  by (fastforce simp: sample_disk_def plain_bundle_def extension_def)

text \<open>
  C36. However a garbage collection ends, the host finds the
  controller it found before, and of a version with an entry under its pins nothing was removed
  (unless its name is that of a staging directory).
\<close>

theorem collection_keeps_selected_and_pinned:
  assumes "libs_ok lib" and "rooted (tree s)" and "s' = snd (garbage_collect lib (Some lad) s)"
  shows "(\<forall>c. selected_controller lib (tree s) lad = Inr c \<longrightarrow> selected_controller lib (tree s') lad = Inr c) \<and>
    (\<forall>x q. entries (tree s) (pins_path (installation_in lad) @ [x]) \<noteq> [] \<longrightarrow> \<not> prefix ''.staging-'' x \<longrightarrow>
       prefix (versions_path (installation_in lad) @ [x]) q \<longrightarrow> map_of (tree s') q = map_of (tree s) q)"
proof (cases "lad = []")
  case True
  then show ?thesis using assms(3) no_installation by simp
next
  case False
  let ?i = "installation_in lad"
  obtain current where spared: "spared ?i (kept_name ?i (tree s) current) (tree s) (tree s')"
    and current: "\<And>sel. read_selection lib (tree s) ?i = Inr sel \<Longrightarrow>
      current = Some (version_name (sl_version sel) (sl_manifest_sha256 sel))"
    using triple_tree_after [OF garbage_collect_rule [OF assms(1,2) False]] assms(3) by blast
  have "map_of (tree s') q = map_of (tree s) q"
    if "entries (tree s) (pins_path ?i @ [x]) \<noteq> []" "\<not> prefix ''.staging-'' x" "prefix (versions_path ?i @ [x]) q" for x q
  proof -
    have "kept_name ?i (tree s) current x"
      using that(1,2) unfolding kept_name_def entries_nonempty by simp
    then show ?thesis using spared that(3) unfolding spared_def by blast
  qed
  then show ?thesis using spared_selected [OF assms(1) _ spared current] by blast
qed

theorem collection_keeps_selected_and_pinned_witness:
  "selected_controller sample_libs
     (tree (snd (garbage_collect sample_libs (Some sample_root) (sample_disk (replicate 9 Works))))) sample_root =
   Inr ((versions_path (installation_in sample_root) @ [sample_version ''1.0.0'' ''1'']) @ [''susmd.exe''])"
  using collection_keeps_selected_and_pinned [OF sample_libs_ok _ refl, of "sample_disk (replicate 9 Works)" sample_root]
    sample_rooted sample_selected
  by (simp add: sample_disk_def)

lemma check_image_facts:
  assumes "check_image lib t p d = Inr c" and "p \<noteq> []"
  shows "\<exists>exe. map_of t p = Some (Regular exe) \<and> length exe = unat (mf_size d) \<and>
    hex_text (bl_sha256 lib exe) = mf_sha256 d"
proof -
  obtain n where n: "lstat t p = Some n" "\<not> is_link n"
    using assms(1) by (auto simp: check_image_def reject_reparse_point_def rust_result split: if_splits)
  then show ?thesis using assms
    by (cases n) (auto simp: check_image_def lstat_def stat_def rust_result split: if_splits)
qed

lemma launch_read_file: "launch_read t p n = Inr bs \<Longrightarrow> read_file t p = Some bs"
  by (cases "stat t p"; cases "the (stat t p)") (auto simp: launch_read_def read_file_def split: if_splits)

lemma controller_in_facts:
  assumes "controller_in lib t v sel = Inr c"
  shows "\<exists>bs m d exe. (\<forall>n. lstat t v = Some n \<longrightarrow> \<not> is_link n) \<and>
    read_file t (v @ [''manifest.toml'']) = Some bs \<and> hex_text (bl_sha256 lib bs) = sl_manifest_sha256 sel \<and>
    parse_manifest lib bs = Inr m \<and> mn_version m = sl_version sel \<and>
    d \<in> set (mn_files m) \<and> mf_path d = ''susmd.exe'' \<and> map_of t c = Some (Regular exe) \<and>
    length exe = unat (mf_size d) \<and> unat (mf_size d) \<le> max_controller_bytes \<and>
    hex_text (bl_sha256 lib exe) = mf_sha256 d"
proof -
  have c: "c = v @ [''susmd.exe'']" by (rule controller_in_path [OF assms])
  obtain bs doc m d where f: "reject_reparse_point t v = Inr ()"
      "launch_read t (v @ [''manifest.toml'']) max_manifest_bytes = Inr bs"
      "hex_text (bl_sha256 lib bs) = sl_manifest_sha256 sel" "from_utf8 bs = Inr doc" "bl_manifest lib doc = Some m"
      "validate_selected lib m sel = Inr ()" "find (\<lambda>f. mf_path f = ''susmd.exe'') (mn_files m) = Some d"
      "unat (mf_size d) \<le> max_controller_bytes" "check_image lib t (v @ [''susmd.exe'']) d = Inr c"
    using assms by (auto simp: controller_in_def rust_result split: if_splits)
  have "\<forall>n. lstat t v = Some n \<longrightarrow> \<not> is_link n"
    using f(1) by (auto simp: reject_reparse_point_def split: if_splits)
  moreover have "parse_manifest lib bs = Inr m" using f(4,5) by (simp add: parse_manifest_def)
  moreover have "mn_version m = sl_version sel"
    using f(6) by (auto simp: validate_selected_def split: option.splits if_splits)
  moreover have "d \<in> set (mn_files m) \<and> mf_path d = ''susmd.exe''" using find_key_Some [OF f(7)] by simp
  moreover obtain exe where "map_of t c = Some (Regular exe)" "length exe = unat (mf_size d)"
      "hex_text (bl_sha256 lib exe) = mf_sha256 d"
    using check_image_facts [OF f(9)] c by auto
  ultimately show ?thesis using launch_read_file [OF f(2)] f(3,8) by blast
qed

text \<open>
  C37. The controller the host accepts is a regular file in a
  directory that is no reparse point; its size and digest are those a manifest declares, and the
  digest of that manifest is the one of the selection.
\<close>

theorem launched_controller_is_verified:
  assumes "selected_controller lib t lad = Inr c"
  shows "\<exists>sel v bs m d exe. read_selection lib t (installation_in lad) = Inr sel \<and>
    v = versions_path (installation_in lad) @ [version_name (sl_version sel) (sl_manifest_sha256 sel)] \<and>
    c = v @ [''susmd.exe''] \<and> (\<forall>n. lstat t v = Some n \<longrightarrow> \<not> is_link n) \<and>
    read_file t (v @ [''manifest.toml'']) = Some bs \<and> hex_text (bl_sha256 lib bs) = sl_manifest_sha256 sel \<and>
    parse_manifest lib bs = Inr m \<and> mn_version m = sl_version sel \<and>
    d \<in> set (mn_files m) \<and> mf_path d = ''susmd.exe'' \<and> map_of t c = Some (Regular exe) \<and>
    length exe = unat (mf_size d) \<and> unat (mf_size d) \<le> max_controller_bytes \<and>
    hex_text (bl_sha256 lib exe) = mf_sha256 d"
proof -
  obtain sel v where sel: "read_selection lib t (installation_in lad) = Inr sel"
      "controller_in lib t v sel = Inr c"
    and v: "v = versions_path (installation_in lad) @ [version_name (sl_version sel) (sl_manifest_sha256 sel)]"
    using assms by (auto simp: selected_controller_def Let_def rust_result)
  show ?thesis using controller_in_facts [OF sel(2)] controller_in_path [OF sel(2)] sel(1) v by blast
qed

theorem launched_controller_is_verified_witness:
  "\<exists>c exe. selected_controller sample_libs sample_volume sample_root = Inr c \<and> map_of sample_volume c = Some (Regular exe)"
  using launched_controller_is_verified [OF sample_selected] sample_selected by blast

end
