(* ===== verification/Tracked.thy ===== *)
theory Tracked
  imports Prelude
begin

text \<open>
  Machines whose effects tell their state: an observer that replays the effects, by \<open>accept\<close>,
  arrives at what it may see of the state, and no effect comes when it must not. Proved once for
  every machine; the controller thread and the host interpret it.
\<close>

fun replay :: "('v \<Rightarrow> 'eff \<Rightarrow> 'v option) \<Rightarrow> 'v \<Rightarrow> 'eff list \<Rightarrow> 'v option" where
  "replay accept v [] = Some v"
| "replay accept v (e # es) = Option.bind (accept v e) (\<lambda>v'. replay accept v' es)"

lemma replay_append:
  "replay accept v (xs @ ys) = Option.bind (replay accept v xs) (\<lambda>v'. replay accept v' ys)"
  by (induction xs arbitrary: v) (simp_all add: bind_assoc)

lemma replay_idle: "(\<And>e. e \<in> set es \<Longrightarrow> accept v e = Some v) \<Longrightarrow> replay accept v es = Some v"
  by (induction es) simp_all

fun tracked_run :: "('s \<Rightarrow> 'ev \<Rightarrow> ('s \<times> 'eff list) option) \<Rightarrow> 's \<Rightarrow> 'ev list \<Rightarrow> ('s \<times> 'eff list) option" where
  "tracked_run step s [] = Some (s, [])"
| "tracked_run step s (e # es) =
     Option.bind (step s e) (\<lambda>(s', xs). map_option (\<lambda>(s'', ys). (s'', xs @ ys)) (tracked_run step s' es))"

locale tracked_machine =
  fixes step :: "'s \<Rightarrow> 'ev \<Rightarrow> ('s \<times> 'eff list) option"
    and inv :: "'s \<Rightarrow> bool"
    and ok :: "'ev \<Rightarrow> bool"
    and view :: "'s \<Rightarrow> 'v"
    and accept :: "'v \<Rightarrow> 'eff \<Rightarrow> 'v option"
  assumes step_inv: "inv s \<Longrightarrow> ok e \<Longrightarrow> step s e = Some (s', effs) \<Longrightarrow> inv s'"
    and step_tracked: "inv s \<Longrightarrow> ok e \<Longrightarrow> step s e = Some (s', effs) \<Longrightarrow> replay accept (view s) effs = Some (view s')"
begin

lemma run_tracked:
  "tracked_run step s es = Some (s', effs) \<Longrightarrow> inv s \<Longrightarrow> list_all ok es \<Longrightarrow>
   inv s' \<and> replay accept (view s) effs = Some (view s')"
proof (induction es arbitrary: s effs)
  case Nil
  then show ?case by simp
next
  case (Cons e es)
  obtain s1 xs ys where first: "step s e = Some (s1, xs)" and rest: "tracked_run step s1 es = Some (s', ys)"
    and effs: "effs = xs @ ys"
    using Cons.prems(1) by (auto simp: bind_eq_Some_conv)
  have e: "ok e" "list_all ok es" using Cons.prems(3) by simp_all
  have "inv s1" by (rule step_inv [OF Cons.prems(2) e(1) first])
  then show ?case using Cons.IH [OF rest _ e(2)] step_tracked [OF Cons.prems(2) e(1) first]
    by (simp add: effs replay_append)
qed

end

end
