(* ===== verification/Controller_Thread.thy ===== *)
theory Controller_Thread
  imports Launcher Tracked
begin

text \<open>
  The thread that keeps a controller running: what it tells its observer is what it has, it never
  has two controllers, and how long it waits before a launch.
\<close>

section \<open>One controller at a time\<close>

text \<open>
  What an observer knows: the process there is. One is announced only when there is none, and the
  one there is is terminated or announced to be gone.
\<close>

fun accept_effect :: "process_identity option \<Rightarrow> runner_effect \<Rightarrow> process_identity option option" where
  "accept_effect cur (Observed (Some p)) = (if cur = None then Some (Some p) else None)"
| "accept_effect cur (Observed None) = (if cur \<noteq> None then Some None else None)"
| "accept_effect cur (Terminated p) = (if cur = Some p then Some cur else None)"

definition runner_ok :: "controller_runner \<Rightarrow> bool" where
  "runner_ok r \<longleftrightarrow>
     (case cr_phase r of
        Launching \<Rightarrow> cr_identity r = None
      | Pausing \<Rightarrow> cr_identity r = None
      | Watching p \<Rightarrow> cr_identity r = Some p
      | Ended \<Rightarrow> True) \<and> (\<exists>k. cr_delay r = min maximum_delay (initial_delay * 2 ^ k))"

lemmas runner_defs = runner_start_def paused_def watched_def initial_delay_def maximum_delay_def stable_run_def

lemma first_delay: "\<exists>k. (250::nat) = min 30000 (250 * 2 ^ k)"
  by (rule exI [of _ 0]) simp

lemma next_delay: "min (min 30000 (250 * 2 ^ k) * 2) 30000 = min 30000 (250 * 2 ^ Suc k :: nat)"
  by (simp add: min_def)

lemma runner_start_ok: "runner_ok (fst (runner_start initial))"
  using first_delay by (simp add: runner_ok_def runner_defs split: option.split)

lemma run_step_ok:
  assumes "run_controller_step r e = Some (r', effs)" and "runner_ok r"
  shows "runner_ok r' \<and> replay accept_effect (cr_identity r) effs = Some (cr_identity r')"
proof -
  obtain k where k: "cr_delay r = min 30000 (250 * 2 ^ k)"
    using assms(2) by (auto simp: runner_ok_def runner_defs)
  show ?thesis
  proof (cases e)
    case (Launched result)
    then show ?thesis using assms
      by (cases result) (auto simp: runner_ok_def split: if_splits runner_phase.splits)
  next
    case (Paused c)
    have "\<exists>j. min (cr_delay r * 2) 30000 = min 30000 (250 * 2 ^ j)" unfolding k next_delay by blast
    then show ?thesis using Paused assms first_delay
      by (cases c) (auto simp: runner_ok_def runner_defs split: if_splits runner_command.splits)
  next
    case (Turn poll exits elapsed)
    then obtain p where "cr_phase r = Watching p" "watched r p poll exits elapsed = (r', effs)"
      using assms(1) by (auto split: runner_phase.splits)
    then show ?thesis using assms(2) first_delay
      by (auto simp: runner_ok_def runner_defs Let_def split: polled.splits runner_command.splits if_splits)
  qed
qed

interpretation controller_thread: tracked_machine run_controller_step runner_ok "\<lambda>_. True" cr_identity accept_effect
  by unfold_locales (auto dest: run_step_ok)

lemma run_controller_tracked: "run_controller r es = tracked_run run_controller_step r es"
  by (induction es arbitrary: r) simp_all


definition sample_controller :: "u32 \<Rightarrow> process_identity" where
  "sample_controller n = \<lparr>pi_process_id = n, pi_creation_time = 7\<rparr>"


section \<open>The delays\<close>

text \<open>A round that ends in a longer wait: a failed launch, or a run of less than five minutes.\<close>

datatype short_round = Failed_launch launch_error | Short_run process_identity nat

fun round_events :: "short_round \<Rightarrow> runner_event list" where
  "round_events (Failed_launch e) = [Launched (Inl e), Paused Timed_out]"
| "round_events (Short_run p elapsed) = [Launched (Inr p), Turn Poll_empty True elapsed, Paused Timed_out]"

fun short_enough :: "short_round \<Rightarrow> bool" where
  "short_enough (Failed_launch e) = True"
| "short_enough (Short_run p elapsed) = (elapsed < stable_run)"

lemma run_controller_append:
  "run_controller r (xs @ ys) =
     Option.bind (run_controller r xs) (\<lambda>(r', es). map_option (\<lambda>(r'', fs). (r'', es @ fs)) (run_controller r' ys))"
proof (induction xs arbitrary: r)
  case Nil
  then show ?case by (cases "run_controller r ys") auto
next
  case (Cons x xs)
  show ?case
  proof (cases "run_controller_step r x")
    case (Some s)
    obtain r1 fs where "s = (r1, fs)" by fastforce
    then show ?thesis using Some Cons [of r1]
      by (cases "run_controller r1 xs"; cases "run_controller (fst (the (run_controller r1 xs))) ys") auto
  qed simp
qed

lemma short_round_step:
  assumes "short_enough x" and "cr_phase r = Launching"
  shows "\<exists>r' fs. run_controller r (round_events x) = Some (r', fs) \<and> cr_phase r' = Launching \<and>
    cr_delay r' = min (cr_delay r * 2) maximum_delay"
  using assms by (cases x) (simp_all add: watched_def paused_def Let_def)

text \<open>
  After \<open>n\<close> consecutive rounds that failed to launch or ran for less
  than five minutes the thread waits min (250 ms * 2^n, 30 s) before it tries again.
\<close>

theorem controller_restart_delays:
  assumes "list_all short_enough xs"
  shows "\<exists>r effs. run_controller (fst (runner_start None)) (concat (map round_events xs)) = Some (r, effs) \<and>
    cr_phase r = Launching \<and> cr_delay r = min 30000 (250 * 2 ^ length xs)"
  using assms
proof (induction xs rule: rev_induct)
  case Nil
  then show ?case by (simp add: runner_defs)
next
  case (snoc x xs)
  then obtain r effs where r: "run_controller (fst (runner_start None)) (concat (map round_events xs)) = Some (r, effs)"
    "cr_phase r = Launching" "cr_delay r = min 30000 (250 * 2 ^ length xs)" by auto
  obtain r' fs where r': "run_controller r (round_events x) = Some (r', fs)" "cr_phase r' = Launching"
    "cr_delay r' = min (cr_delay r * 2) maximum_delay"
    using short_round_step [OF _ r(2), of x] snoc.prems by auto
  have "cr_delay r' = min 30000 (250 * 2 ^ length (xs @ [x]))"
    using r'(3) next_delay [of "length xs"] by (simp add: r(3) maximum_delay_def)
  then show ?case using r(1) r'(1,2) by (simp add: run_controller_append)
qed

theorem controller_restart_delays_witness:
  "\<exists>r effs. run_controller (fst (runner_start None))
     (concat (map round_events [Failed_launch Launch_windows, Short_run (sample_controller 4) 299999])) = Some (r, effs) \<and>
   cr_phase r = Launching \<and> cr_delay r = 1000"
  using controller_restart_delays [of "[Failed_launch Launch_windows, Short_run (sample_controller 4) 299999]"]
  by (simp add: stable_run_def)

end
