(* ===== verification/Host.thy ===== *)
theory Host
  imports Controller_Thread Btree "HOL-Library.Product_Lexorder"
begin

text \<open>
  The machine service (\<open>crates/host/src/rpc.rs\<close>, \<open>registration.rs\<close>, the loop of \<open>main.rs\<close>): for
  every registered user at most one runner, which keeps a controller in the user's session. The
  registry is two tables of the state, the permanent registrations and the volatile runtime
  records; what Windows answers in an operation is its argument. A call whose error the code drops
  leaves its table unchanged when it fails.
\<close>

record runtime_session =
  rs_manager_session_id :: string
  rs_windows_session_id :: u32
  rs_authentication_id :: u64
  rs_controller_process_id :: u32
  rs_controller_creation_time :: u64

section \<open>Sessions\<close>

datatype wts_state = Wts_active | Wts_connected | Wts_disconnected | Wts_idle | Wts_other

text \<open>A session as Windows lists it; the fields after the state are what the token calls give.\<close>

record wts_entry =
  we_session_id :: u32
  we_state :: wts_state
  we_token :: bool
  we_sid :: "string option"
  we_authentication_id :: "u64 option"

record active_session =
  as_session_id :: u32
  as_authentication_id :: u64

record active_sessions =
  av_sessions :: "(string, active_session) btree"
  av_conflicts :: "string list"
  av_logons :: "(u32 \<times> u64) list"

text \<open>A session that counts: listed in one of four states, with a token that gives a user and a logon.\<close>

definition eligible :: "wts_entry \<Rightarrow> (string \<times> active_session) option" where
  "eligible e =
     (if we_state e = Wts_other \<or> \<not> we_token e then None
      else Option.bind (we_sid e) (\<lambda>sid. map_option (\<lambda>a.
        (sid, \<lparr>as_session_id = we_session_id e, as_authentication_id = a\<rparr>)) (we_authentication_id e)))"

definition note_session :: "wts_entry \<Rightarrow> active_sessions \<Rightarrow> active_sessions" where
  "note_session e av =
     (case eligible e of
        None \<Rightarrow> av
      | Some (sid, s) \<Rightarrow>
          let av = av\<lparr>av_logons := set_insert (as_session_id s, as_authentication_id s) (av_logons av)\<rparr> in
          if sid \<in> set (av_conflicts av) then av
          else (case map_of (av_sessions av) sid of
                  None \<Rightarrow> av\<lparr>av_sessions := btree_insert sid s (av_sessions av)\<rparr>
                | Some _ \<Rightarrow> av\<lparr>av_conflicts := set_insert sid (av_conflicts av)\<rparr>))"

definition active_sessions_of :: "wts_entry list \<Rightarrow> active_sessions" where
  "active_sessions_of es = fold note_session es \<lparr>av_sessions = [], av_conflicts = [], av_logons = []\<rparr>"

section \<open>State\<close>

text \<open>A runner: what its observer has captured, and its thread.\<close>

record runner_handle =
  rh_session :: runtime_session
  rh_thread :: controller_runner

record registration =
  rg_manager_session_id :: string
  rg_windows_session_id :: "u32 option"
  rg_authentication_id :: "u64 option"
  rg_ending_event :: "string option"
  rg_runner :: "runner_handle option"
  rg_recorded_process :: "process_identity option"
  rg_session_conflict :: bool

record host =
  ho_controllers :: "(string, registration) btree"
  ho_ending :: "(u32 \<times> u64) list"
  ho_registered :: "string list"
  ho_runtime :: "(string, runtime_session) btree"

text \<open>What the host does besides: it signals the ending event of a manager session, starts, ends,
  restarts or lets go of a runner.\<close>

datatype host_effect =
    Signalled string
  | Runner_started string runtime_session "process_identity option"
  | Runner_ended string runtime_session
  | Runner_released string runtime_session
  | Runner_restarted string

text \<open>
  \<open>from_token\<close> with the first process of the runner, or its failure, before the observer was told
  or (when the thread cannot be created) after.
\<close>

datatype runner_result =
    Started "process_identity option"
  | Refused
  | Thread_lost "process_identity option"

record host_answers =
  an_inventory :: "active_sessions option"
  an_registered :: bool
  an_sid_ok :: "string \<Rightarrow> bool"
  an_uuid :: "string \<Rightarrow> string"
  an_event :: "string \<Rightarrow> bool"
  an_runner :: "string \<Rightarrow> runner_result"
  an_saved :: "string \<Rightarrow> bool"
  an_removed :: "string \<Rightarrow> bool"

definition new_registration :: registration where
  "new_registration = \<lparr>rg_manager_session_id = '''', rg_windows_session_id = None,
     rg_authentication_id = None, rg_ending_event = None, rg_runner = None,
     rg_recorded_process = None, rg_session_conflict = False\<rparr>"

type_synonym runtime_table = "(string, runtime_session) btree"

section \<open>The registry\<close>

definition save_runtime :: "host_answers \<Rightarrow> string \<Rightarrow> runtime_session \<Rightarrow> runtime_table \<Rightarrow> runtime_table" where
  "save_runtime an sid s rt = (if an_saved an sid then btree_insert sid s rt else rt)"

definition remove_runtime :: "host_answers \<Rightarrow> string \<Rightarrow> runtime_table \<Rightarrow> runtime_table" where
  "remove_runtime an sid rt = (if an_removed an sid then filter (\<lambda>(k, v). k \<noteq> sid) rt else rt)"

definition with_process :: "runtime_session \<Rightarrow> process_identity option \<Rightarrow> runtime_session" where
  "with_process s p = s\<lparr>
     rs_controller_process_id := (case p of Some i \<Rightarrow> pi_process_id i | None \<Rightarrow> 0),
     rs_controller_creation_time := (case p of Some i \<Rightarrow> pi_creation_time i | None \<Rightarrow> 0)\<rparr>"

definition runner_process :: "runner_handle option \<Rightarrow> process_identity option" where
  "runner_process r = Option.bind r (\<lambda>h. cr_identity (rh_thread h))"

definition persist_runtime :: "host_answers \<Rightarrow> string \<Rightarrow> registration \<Rightarrow> runtime_table \<Rightarrow> runtime_table" where
  "persist_runtime an sid rg rt =
     (case (rg_windows_session_id rg, rg_authentication_id rg) of
        (Some w, Some a) \<Rightarrow>
          let p = (case runner_process (rg_runner rg) of Some i \<Rightarrow> Some i | None \<Rightarrow> rg_recorded_process rg) in
          save_runtime an sid (with_process \<lparr>rs_manager_session_id = rg_manager_session_id rg,
            rs_windows_session_id = w, rs_authentication_id = a,
            rs_controller_process_id = 0, rs_controller_creation_time = 0\<rparr> p) rt
      | _ \<Rightarrow> rt)"

section \<open>One registration\<close>

type_synonym change = "registration \<times> runtime_table \<times> host_effect list"

definition end_registration :: "host_answers \<Rightarrow> string \<Rightarrow> registration \<Rightarrow> runtime_table \<Rightarrow> change" where
  "end_registration an sid rg rt =
     (rg\<lparr>rg_manager_session_id := '''', rg_windows_session_id := None, rg_authentication_id := None,
         rg_ending_event := None, rg_runner := None, rg_recorded_process := None\<rparr>,
      remove_runtime an sid rt,
      (case rg_ending_event rg of Some e \<Rightarrow> [Signalled e] | None \<Rightarrow> []) @
      (case rg_runner rg of Some h \<Rightarrow> [Runner_ended sid (rh_session h)] | None \<Rightarrow> []))"

definition signal_previous_session :: "host_answers \<Rightarrow> registration \<Rightarrow> host_effect list" where
  "signal_previous_session an rg =
     (if rg_manager_session_id rg = '''' then []
      else if an_event an (rg_manager_session_id rg) then [Signalled (rg_manager_session_id rg)] else [])"

text \<open>A logon other than the recorded one: the previous session is told to end and forgotten.\<close>

definition forget_previous :: "host_answers \<Rightarrow> string \<Rightarrow> active_session \<Rightarrow> registration \<Rightarrow> runtime_table \<Rightarrow> change" where
  "forget_previous an sid s rg rt =
     (if rg_authentication_id rg = Some (as_authentication_id s) then (rg, rt, [])
      else (rg\<lparr>rg_manager_session_id := '''', rg_windows_session_id := None, rg_recorded_process := None\<rparr>,
            remove_runtime an sid rt, signal_previous_session an rg))"

text \<open>The start of a runner with the session id \<open>m\<close>; its observer is told first.\<close>

definition start_controller_runner ::
  "host_answers \<Rightarrow> string \<Rightarrow> string \<Rightarrow> active_session \<Rightarrow> registration \<Rightarrow> runtime_table \<Rightarrow> bool \<times> change" where
  "start_controller_runner an sid m s rg rt =
     (let session = \<lparr>rs_manager_session_id = m, rs_windows_session_id = as_session_id s,
            rs_authentication_id = as_authentication_id s,
            rs_controller_process_id = 0, rs_controller_creation_time = 0\<rparr> in
      case an_runner an sid of
        Refused \<Rightarrow> (False, rg, rt, [])
      | Thread_lost p \<Rightarrow> (False, rg, save_runtime an sid (with_process session p) rt, [])
      | Started p \<Rightarrow>
          let rg = rg\<lparr>rg_manager_session_id := m, rg_windows_session_id := Some (as_session_id s),
                rg_authentication_id := Some (as_authentication_id s), rg_ending_event := Some m,
                rg_runner := Some \<lparr>rh_session = session, rh_thread = fst (runner_start p)\<rparr>\<rparr> in
          (True, rg, persist_runtime an sid rg (save_runtime an sid (with_process session p) rt),
           [Runner_started sid session p]))"

definition reconcile_session ::
  "host_answers \<Rightarrow> string \<Rightarrow> active_session \<Rightarrow> registration \<Rightarrow> runtime_table \<Rightarrow> change" where
  "reconcile_session an sid s rg rt =
     (if \<not> an_sid_ok an sid then (rg, rt, []) else
      let (rg, rt, effs) = forget_previous an sid s rg rt;
          m = (if rg_manager_session_id rg = '''' then an_uuid an sid else rg_manager_session_id rg) in
      if \<not> an_event an m then (rg, rt, effs) else
      let (ok, rg, rt, effs') = start_controller_runner an sid m s (rg\<lparr>rg_recorded_process := None\<rparr>) rt in
      (rg, rt, effs @ effs'))"

definition reconcile_one ::
  "host_answers \<Rightarrow> (string, active_session) btree \<Rightarrow> string list \<Rightarrow> string \<Rightarrow> registration \<Rightarrow> runtime_table \<Rightarrow> change" where
  "reconcile_one an sessions conflicts sid rg rt =
     (let rg = rg\<lparr>rg_session_conflict := sid \<in> set conflicts\<rparr> in
      if rg_session_conflict rg then (rg, persist_runtime an sid rg rt, [])
      else (case (rg_runner rg, map_of sessions sid) of
          (None, Some s) \<Rightarrow> reconcile_session an sid s rg rt
        | (Some _, None) \<Rightarrow> end_registration an sid rg rt
        | (Some _, Some s) \<Rightarrow>
            if rg_windows_session_id rg = Some (as_session_id s) \<and>
               rg_authentication_id rg = Some (as_authentication_id s)
            then (rg, persist_runtime an sid rg rt, [])
            else end_registration an sid rg rt
        | (None, None) \<Rightarrow> (rg, rt, [])))"

text \<open>A change of every registration, in key order, with the registry passed on.\<close>

fun each_registration ::
  "(string \<Rightarrow> registration \<Rightarrow> runtime_table \<Rightarrow> change) \<Rightarrow> (string, registration) btree \<Rightarrow> runtime_table \<Rightarrow>
   (string, registration) btree \<times> runtime_table \<times> host_effect list" where
  "each_registration f [] rt = ([], rt, [])"
| "each_registration f ((sid, rg) # rgs) rt =
     (let (rg', rt', effs) = f sid rg rt; (rgs', rt'', effs') = each_registration f rgs rt' in
      ((sid, rg') # rgs', rt'', effs @ effs'))"

section \<open>Operations\<close>

text \<open>Registrations that are gone drop their runner, which lets its controller go.\<close>

definition released :: "(string, registration) btree \<Rightarrow> host_effect list" where
  "released rgs = List.map_filter (\<lambda>(sid, rg). map_option (\<lambda>h. Runner_released sid (rh_session h)) (rg_runner rg)) rgs"

definition reconcile :: "host_answers \<Rightarrow> host \<Rightarrow> host \<times> host_effect list" where
  "reconcile an ho =
     (case an_inventory an of
        None \<Rightarrow> (ho, [])
      | Some inventory \<Rightarrow>
          let ending = filter (\<lambda>l. l \<in> set (av_logons inventory)) (ho_ending ho);
              sessions = filter (\<lambda>(sid, s). (as_session_id s, as_authentication_id s) \<notin> set ending) (av_sessions inventory);
              ho = ho\<lparr>ho_ending := ending\<rparr> in
          if \<not> an_registered an then (ho, []) else
          let gone = filter (\<lambda>(sid, rg). sid \<notin> set (ho_registered ho)) (ho_controllers ho);
              kept = filter (\<lambda>(sid, rg). sid \<in> set (ho_registered ho)) (ho_controllers ho);
              all = fold (\<lambda>sid t. if map_of t sid = None then btree_insert sid new_registration t else t)
                (ho_registered ho) kept;
              (rgs, rt, effs) = each_registration (reconcile_one an sessions (av_conflicts inventory)) all (ho_runtime ho) in
          (ho\<lparr>ho_controllers := rgs, ho_runtime := rt\<rparr>, released gone @ effs))"

text \<open>\<open>HostRpc::new\<close>: the registrations with what the runtime records remember; records without a
  registration are removed.\<close>

definition restored :: "runtime_session option \<Rightarrow> registration" where
  "restored saved = new_registration\<lparr>
     rg_manager_session_id := (case saved of Some s \<Rightarrow> rs_manager_session_id s | None \<Rightarrow> ''''),
     rg_windows_session_id := map_option rs_windows_session_id saved,
     rg_authentication_id := map_option rs_authentication_id saved,
     rg_recorded_process := Option.bind saved (\<lambda>s.
       if rs_controller_process_id s \<noteq> 0 \<and> rs_controller_creation_time s \<noteq> 0
       then Some \<lparr>pi_process_id = rs_controller_process_id s, pi_creation_time = rs_controller_creation_time s\<rparr>
       else None)\<rparr>"

definition host_new :: "host_answers \<Rightarrow> string list \<Rightarrow> runtime_table \<Rightarrow> (host \<times> host_effect list) option" where
  "host_new an registered runtime =
     (if \<not> an_registered an then None else
      let controllers = fold (\<lambda>sid t. btree_insert sid (restored (map_of runtime sid)) t) registered [];
          stale = filter (\<lambda>sid. sid \<notin> set registered) (map fst runtime);
          ho = \<lparr>ho_controllers = controllers, ho_ending = [], ho_registered = registered,
            ho_runtime = fold (remove_runtime an) stale runtime\<rparr> in
      Some (reconcile an ho))"

definition detach_all :: "host_answers \<Rightarrow> host \<Rightarrow> host \<times> host_effect list" where
  "detach_all an ho =
     (ho\<lparr>ho_controllers := [],
         ho_runtime := fold (\<lambda>(sid, rg). persist_runtime an sid rg) (ho_controllers ho) (ho_runtime ho)\<rparr>,
      released (ho_controllers ho))"

definition end_all :: "host_answers \<Rightarrow> host \<Rightarrow> host \<times> host_effect list" where
  "end_all an ho =
     (let (rgs, rt, effs) = each_registration (end_registration an) (ho_controllers ho) (ho_runtime ho) in
      (ho\<lparr>ho_controllers := rgs, ho_runtime := rt\<rparr>, effs))"

definition end_windows_session :: "host_answers \<Rightarrow> u32 \<Rightarrow> host \<Rightarrow> host \<times> host_effect list" where
  "end_windows_session an w ho =
     (let ended = List.map_filter (\<lambda>(sid, rg). if rg_windows_session_id rg = Some w
            then map_option (\<lambda>a. (w, a)) (rg_authentication_id rg) else None) (ho_controllers ho);
          (rgs, rt, effs) = each_registration
            (\<lambda>sid rg rt. if rg_windows_session_id rg = Some w then end_registration an sid rg rt else (rg, rt, []))
            (ho_controllers ho) (ho_runtime ho) in
      (ho\<lparr>ho_controllers := rgs, ho_runtime := rt, ho_ending := fold set_insert ended (ho_ending ho)\<rparr>, effs))"

record host_status =
  hs_registered :: bool
  hs_controller_running :: bool
  hs_manager_session_id :: string
  hs_controller_process_id :: u32
  hs_message :: string

definition status_of :: "host \<Rightarrow> string \<Rightarrow> host_status" where
  "status_of ho sid =
     (case map_of (ho_controllers ho) sid of
        Some rg \<Rightarrow>
          let p = (case runner_process (rg_runner rg) of Some i \<Rightarrow> pi_process_id i | None \<Rightarrow> 0) in
          \<lparr>hs_registered = True, hs_controller_running = (p \<noteq> 0),
           hs_manager_session_id = rg_manager_session_id rg, hs_controller_process_id = p,
           hs_message = (if rg_session_conflict rg
             then ''multiple eligible Windows sessions are active for this user'' else '''')\<rparr>
      | None \<Rightarrow>
          \<lparr>hs_registered = False, hs_controller_running = False, hs_manager_session_id = '''',
           hs_controller_process_id = 0, hs_message = ''''\<rparr>)"

datatype host_error = Host_internal | Failed_precondition | Not_found | Unavailable | Unauthenticated

text \<open>\<open>register_user\<close> of a caller; \<open>added\<close> is whether the registration could be written.\<close>

definition register_user ::
  "host_answers \<Rightarrow> bool \<Rightarrow> string \<Rightarrow> host \<Rightarrow> (host_error + host_status) \<times> host \<times> host_effect list" where
  "register_user an added sid ho =
     (if \<not> added then (Inl Host_internal, ho, []) else
      let ho = ho\<lparr>ho_registered := (if sid \<in> set (ho_registered ho) then ho_registered ho else ho_registered ho @ [sid])\<rparr>;
          rg = (case map_of (ho_controllers ho) sid of Some rg \<Rightarrow> rg | None \<Rightarrow> new_registration);
          put = (\<lambda>rg rt. ho\<lparr>ho_controllers := btree_insert sid rg (ho_controllers ho), ho_runtime := rt\<rparr>) in
      if rg_runner rg \<noteq> None then (let ho = put rg (ho_runtime ho) in (Inr (status_of ho sid), ho, []))
      else (case an_inventory an of
          None \<Rightarrow> (Inl Host_internal, put rg (ho_runtime ho), [])
        | Some inventory \<Rightarrow>
            let rg = rg\<lparr>rg_session_conflict := sid \<in> set (av_conflicts inventory)\<rparr> in
            case (if rg_session_conflict rg then None else map_of (av_sessions inventory) sid) of
              None \<Rightarrow> (let ho = put rg (ho_runtime ho) in (Inr (status_of ho sid), ho, []))
            | Some s \<Rightarrow>
                let m = an_uuid an sid in
                if \<not> an_event an m then (Inl Host_internal, put rg (ho_runtime ho), [])
                else (case start_controller_runner an sid m s rg (ho_runtime ho) of
                  (ok, rg, rt, effs) \<Rightarrow>
                    let ho = put rg rt in
                    (if ok then Inr (status_of ho sid) else Inl Failed_precondition, ho, effs))))"

definition unregister_user ::
  "host_answers \<Rightarrow> bool \<Rightarrow> string \<Rightarrow> host \<Rightarrow> (host_error + host_status) \<times> host \<times> host_effect list" where
  "unregister_user an removed sid ho =
     (if \<not> removed then (Inl Host_internal, ho, []) else
      let ho = ho\<lparr>ho_registered := filter (\<lambda>s. s \<noteq> sid) (ho_registered ho)\<rparr> in
      case map_of (ho_controllers ho) sid of
        None \<Rightarrow> (Inr (status_of ho sid), ho, [])
      | Some rg \<Rightarrow>
          let (rg', rt, effs) = end_registration an sid rg (ho_runtime ho);
              ho = ho\<lparr>ho_controllers := filter (\<lambda>(s, r). s \<noteq> sid) (ho_controllers ho), ho_runtime := rt\<rparr> in
          (Inr (status_of ho sid), ho, effs))"

definition restart_controller :: "string \<Rightarrow> host \<Rightarrow> (host_error + host_status) \<times> host_effect list" where
  "restart_controller sid ho =
     (case map_of (ho_controllers ho) sid of
        None \<Rightarrow> (Inl Not_found, [])
      | Some rg \<Rightarrow>
          (case rg_runner rg of
             None \<Rightarrow> (Inl Unavailable, [])
           | Some h \<Rightarrow> (Inr (status_of ho sid), [Runner_restarted sid])))"

text \<open>A request over the pipe, which knows its caller; \<open>written\<close> is whether the permanent
  registration could be changed.\<close>

datatype host_request = Register_user | Unregister_user | Get_controller_status | Restart_controller_request

definition caller_of :: "string option \<Rightarrow> host_error + string" where
  "caller_of identity = (case identity of Some sid \<Rightarrow> Inr sid | None \<Rightarrow> Inl Unauthenticated)"

definition serve_host ::
  "host_answers \<Rightarrow> bool \<Rightarrow> string option \<Rightarrow> host_request \<Rightarrow> host \<Rightarrow> (host_error + host_status) \<times> host \<times> host_effect list" where
  "serve_host an written identity request ho =
     (case caller_of identity of
        Inl e \<Rightarrow> (Inl e, ho, [])
      | Inr sid \<Rightarrow>
          (case request of
             Register_user \<Rightarrow> register_user an written sid ho
           | Unregister_user \<Rightarrow> unregister_user an written sid ho
           | Get_controller_status \<Rightarrow> (Inr (status_of ho sid), ho, [])
           | Restart_controller_request \<Rightarrow> (case restart_controller sid ho of (r, effs) \<Rightarrow> (r, ho, effs))))"

text \<open>The observer of a runner: the record of its session with the process it has now.\<close>

definition observe_process :: "host_answers \<Rightarrow> string \<Rightarrow> runner_handle \<Rightarrow> runner_effect \<Rightarrow> runtime_table \<Rightarrow> runtime_table" where
  "observe_process an sid h e rt =
     (case e of
        Observed p \<Rightarrow> save_runtime an sid (with_process (rh_session h) p) rt
      | Terminated p \<Rightarrow> rt)"

text \<open>A turn of the thread of a runner.\<close>

definition runner_turn :: "host_answers \<Rightarrow> string \<Rightarrow> runner_event \<Rightarrow> host \<Rightarrow> host" where
  "runner_turn an sid e ho =
     (case map_of (ho_controllers ho) sid of
        None \<Rightarrow> ho
      | Some rg \<Rightarrow>
          (case rg_runner rg of
             None \<Rightarrow> ho
           | Some h \<Rightarrow>
               (case run_controller_step (rh_thread h) e of
                  None \<Rightarrow> ho
                | Some (r, effs) \<Rightarrow>
                    ho\<lparr>ho_controllers := btree_insert sid (rg\<lparr>rg_runner := Some (h\<lparr>rh_thread := r\<rparr>)\<rparr>) (ho_controllers ho),
                       ho_runtime := fold (observe_process an sid h) effs (ho_runtime ho)\<rparr>)))"

section \<open>The service\<close>

datatype host_runtime_command = Reconcile_command | End_session_command u32 | Detach_command | Preshutdown_command

datatype scm_command =
    Service_start
  | Service_stop
  | Session_change u32 "u32 option"
  | Preshutdown_control
  | Other_control

text \<open>What the callback of the service sends to the host, from the control and its notification
  (5 is a logon, 6 a logoff).\<close>

definition command_of :: "scm_command \<Rightarrow> host_runtime_command option" where
  "command_of c =
     (case c of
        Service_stop \<Rightarrow> Some Detach_command
      | Preshutdown_control \<Rightarrow> Some Preshutdown_command
      | Session_change kind notification \<Rightarrow>
          Option.bind notification (\<lambda>w.
            if kind = 5 then Some Reconcile_command
            else if kind = 6 then Some (End_session_command w) else None)
      | _ \<Rightarrow> None)"

text \<open>A command, or the tick of five seconds (\<open>None\<close>); the result tells whether the loop goes on.\<close>

definition run_host_command ::
  "host_answers \<Rightarrow> host_runtime_command option \<Rightarrow> host \<Rightarrow> bool \<times> host \<times> host_effect list" where
  "run_host_command an c ho =
     (case c of
        None \<Rightarrow> (True, reconcile an ho)
      | Some Reconcile_command \<Rightarrow> (True, reconcile an ho)
      | Some (End_session_command w) \<Rightarrow> (True, end_windows_session an w ho)
      | Some Preshutdown_command \<Rightarrow> (False, end_all an ho)
      | Some Detach_command \<Rightarrow> (False, detach_all an ho))"

end
