(* ===== verification/Host_Properties.thy ===== *)
theory Host_Properties
  imports Host
begin

text \<open>
  What the host promises: every user has at most one runner, for a logon that is eligible and not
  ending, and a logon keeps its manager session over restarts of the host.
\<close>

section \<open>Operations of the host\<close>

datatype host_op =
    Do_reconcile host_answers
  | Do_end_session host_answers u32
  | Do_end_all host_answers
  | Do_detach host_answers
  | Do_register host_answers bool string
  | Do_unregister host_answers bool string
  | Do_restart string
  | Do_turn host_answers string runner_event

fun host_step :: "host \<Rightarrow> host_op \<Rightarrow> (host \<times> host_effect list) option" where
  "host_step ho (Do_reconcile an) = Some (reconcile an ho)"
| "host_step ho (Do_end_session an w) = Some (end_windows_session an w ho)"
| "host_step ho (Do_end_all an) = Some (end_all an ho)"
| "host_step ho (Do_detach an) = Some (detach_all an ho)"
| "host_step ho (Do_register an added sid) = Some (snd (register_user an added sid ho))"
| "host_step ho (Do_unregister an removed sid) = Some (snd (unregister_user an removed sid ho))"
| "host_step ho (Do_restart sid) = Some (ho, snd (restart_controller sid ho))"
| "host_step ho (Do_turn an sid e) = Some (runner_turn an sid e ho, [])"

text \<open>A fresh identifier is not empty.\<close>

definition answers_ok :: "host_answers \<Rightarrow> bool" where
  "answers_ok an \<longleftrightarrow> (\<forall>sid. an_uuid an sid \<noteq> '''')"

fun host_op_ok :: "host_op \<Rightarrow> bool" where
  "host_op_ok (Do_reconcile an) = answers_ok an"
| "host_op_ok (Do_register an added sid) = answers_ok an"
| "host_op_ok _ = True"

section \<open>The runner of a user\<close>

fun effect_sid :: "host_effect \<Rightarrow> string option" where
  "effect_sid (Signalled m) = None"
| "effect_sid (Runner_started sid s p) = Some sid"
| "effect_sid (Runner_ended sid s) = Some sid"
| "effect_sid (Runner_released sid s) = Some sid"
| "effect_sid (Runner_restarted sid) = Some sid"

text \<open>What an observer of a user knows: the session a runner works for.\<close>

fun accept_own :: "runtime_session option \<Rightarrow> host_effect \<Rightarrow> runtime_session option option" where
  "accept_own cur (Runner_started sid s p) = (if cur = None then Some (Some s) else None)"
| "accept_own cur (Runner_ended sid s) = (if cur = Some s then Some None else None)"
| "accept_own cur (Runner_released sid s) = (if cur = Some s then Some None else None)"
| "accept_own cur (Runner_restarted sid) = (if cur \<noteq> None then Some cur else None)"
| "accept_own cur (Signalled m) = Some cur"

definition accept_runner :: "string \<Rightarrow> runtime_session option \<Rightarrow> host_effect \<Rightarrow> runtime_session option option" where
  "accept_runner sid cur e = (if effect_sid e = Some sid then accept_own cur e else Some cur)"

definition session_of :: "registration \<Rightarrow> runtime_session option" where
  "session_of rg = map_option rh_session (rg_runner rg)"

definition view_of :: "(string, registration) btree \<Rightarrow> string \<Rightarrow> runtime_session option" where
  "view_of t sid = Option.bind (map_of t sid) session_of"

definition registration_ok :: "registration \<Rightarrow> bool" where
  "registration_ok rg \<longleftrightarrow>
     (\<forall>h. rg_runner rg = Some h \<longrightarrow> runner_ok (rh_thread h) \<and> rg_manager_session_id rg \<noteq> '''' \<and>
        rs_manager_session_id (rh_session h) = rg_manager_session_id rg \<and>
        rg_windows_session_id rg = Some (rs_windows_session_id (rh_session h)) \<and>
        rg_authentication_id rg = Some (rs_authentication_id (rh_session h)) \<and>
        rg_ending_event rg = Some (rg_manager_session_id rg))"

definition host_ok :: "host \<Rightarrow> bool" where
  "host_ok ho \<longleftrightarrow> btree_ok (ho_controllers ho) \<and>
     (\<forall>(sid, rg) \<in> set (ho_controllers ho). registration_ok rg)"

text \<open>A change of the registration of \<open>sid\<close>.\<close>

definition change_ok :: "string \<Rightarrow> registration \<Rightarrow> change \<Rightarrow> bool" where
  "change_ok sid rg c \<longleftrightarrow>
     (case c of (rg', rt, effs) \<Rightarrow> registration_ok rg' \<and>
        (\<forall>e \<in> set effs. effect_sid e = None \<or> effect_sid e = Some sid) \<and>
        replay (accept_runner sid) (session_of rg) effs = Some (session_of rg'))"

lemma foreign_effects:
  "(\<And>e. e \<in> set effs \<Longrightarrow> effect_sid e \<noteq> Some sid) \<Longrightarrow> replay (accept_runner sid) cur effs = Some cur"
  by (rule replay_idle) (simp add: accept_runner_def)

section \<open>Changes of one registration\<close>

lemmas change_defs = change_ok_def registration_ok_def session_of_def accept_runner_def

lemma unchanged_ok: "registration_ok rg \<Longrightarrow> change_ok sid rg (rg, rt, [])"
  by (simp add: change_ok_def)

lemma conflict_ok [simp]:
  "registration_ok (rg\<lparr>rg_session_conflict := b\<rparr>) = registration_ok rg"
  "session_of (rg\<lparr>rg_session_conflict := b\<rparr>) = session_of rg"
  "change_ok sid (rg\<lparr>rg_session_conflict := b\<rparr>) c = change_ok sid rg c"
  by (simp_all add: change_defs split: prod.split)

lemma end_registration_ok: "registration_ok rg \<Longrightarrow> change_ok sid rg (end_registration an sid rg rt)"
  by (auto simp: end_registration_def change_defs split: option.splits)

lemma forget_previous_ok:
  assumes "rg_runner rg = None"
  shows "change_ok sid rg (forget_previous an sid s rg rt) \<and> rg_runner (fst (forget_previous an sid s rg rt)) = None"
  using assms by (auto simp: forget_previous_def signal_previous_session_def change_defs)

lemma start_runner_ok:
  assumes "rg_runner rg = None" and "m \<noteq> ''''"
  shows "change_ok sid rg (snd (start_controller_runner an sid m s rg rt))"
  using assms runner_start_ok by (auto simp: start_controller_runner_def change_defs Let_def split: runner_result.split)

lemma reconcile_session_ok:
  assumes rg: "rg_runner rg = None" and an: "answers_ok an"
  shows "change_ok sid rg (reconcile_session an sid s rg rt)"
proof -
  obtain rg1 rt1 effs where prev: "forget_previous an sid s rg rt = (rg1, rt1, effs)" by (cases "forget_previous an sid s rg rt")
  then have first: "change_ok sid rg (rg1, rt1, effs)" "rg_runner rg1 = None"
    using forget_previous_ok [OF rg, of sid an s rt] by simp_all
  define m where "m = (if rg_manager_session_id rg1 = '''' then an_uuid an sid else rg_manager_session_id rg1)"
  have m: "m \<noteq> ''''" using an by (simp add: m_def answers_ok_def)
  obtain ok rg2 rt2 effs2 where start: "start_controller_runner an sid m s (rg1\<lparr>rg_recorded_process := None\<rparr>) rt1 = (ok, rg2, rt2, effs2)"
    by (cases "start_controller_runner an sid m s (rg1\<lparr>rg_recorded_process := None\<rparr>) rt1") auto
  have second: "change_ok sid (rg1\<lparr>rg_recorded_process := None\<rparr>) (rg2, rt2, effs2)"
    using start_runner_ok [OF _ m, of "rg1\<lparr>rg_recorded_process := None\<rparr>" sid an s rt1] first(2) start by simp
  have unchanged: "change_ok sid rg (rg, rt, [])" using rg by (simp add: change_defs)
  show ?thesis using first second unchanged
    by (auto simp: reconcile_session_def prev start m_def [symmetric] Let_def change_ok_def replay_append session_of_def)
qed

lemma reconcile_one_ok:
  assumes "registration_ok rg" and "answers_ok an"
  shows "change_ok sid rg (reconcile_one an sessions conflicts sid rg rt)"
proof -
  let ?rg = "rg\<lparr>rg_session_conflict := sid \<in> set conflicts\<rparr>"
  have ok: "registration_ok ?rg" using assms(1) by simp
  have kept: "change_ok sid rg (?rg, rt', [])" for rt' using unchanged_ok [OF ok] by simp
  have ended: "change_ok sid rg (end_registration an sid ?rg rt)" using end_registration_ok [OF ok] by simp
  have started: "change_ok sid rg (reconcile_session an sid s ?rg rt)" if "rg_runner rg = None" for s
    using reconcile_session_ok [of ?rg an sid s rt] that assms(2) by simp
  show ?thesis using kept ended started
    by (auto simp: reconcile_one_def Let_def split: option.splits)
qed

section \<open>Changes of all registrations\<close>

lemma view_of_Cons: "view_of ((k, rg) # t) sid = (if sid = k then session_of rg else view_of t sid)"
  by (simp add: view_of_def)

lemma view_of_absent: "sid \<notin> fst ` set t \<Longrightarrow> view_of t sid = None"
  using map_of_eq_None_iff [of t sid] by (simp add: view_of_def)

lemma accept_released: "accept_runner sid cur (Runner_released k s) =
  (if k = sid then (if cur = Some s then Some None else None) else Some cur)"
  by (simp add: accept_runner_def)

lemma each_registration_ok:
  assumes "\<And>sid rg rt. registration_ok rg \<Longrightarrow> change_ok sid rg (f sid rg rt)"
  shows "each_registration f t rt = (t', rt', effs) \<Longrightarrow> distinct (map fst t) \<Longrightarrow>
    (\<forall>(sid, rg) \<in> set t. registration_ok rg) \<Longrightarrow>
    map fst t' = map fst t \<and> (\<forall>(sid, rg) \<in> set t'. registration_ok rg) \<and>
    (\<forall>e \<in> set effs. \<forall>sid. effect_sid e = Some sid \<longrightarrow> sid \<in> fst ` set t) \<and>
    (\<forall>sid. replay (accept_runner sid) (view_of t sid) effs = Some (view_of t' sid))"
proof (induction t arbitrary: rt t' rt' effs)
  case Nil
  then show ?case by (simp add: view_of_def)
next
  case (Cons x t)
  obtain k rg where x: "x = (k, rg)" by fastforce
  obtain rg1 rt1 e1 where head: "f k rg rt = (rg1, rt1, e1)" by (cases "f k rg rt")
  obtain t2 rt2 e2 where tail: "each_registration f t rt1 = (t2, rt2, e2)" by (cases "each_registration f t rt1")
  have res: "t' = (k, rg1) # t2" "effs = e1 @ e2" using Cons.prems(1) by (auto simp: x head tail)
  have c: "change_ok k rg (rg1, rt1, e1)"
    using assms [of rg k rt] Cons.prems(3) head by (simp add: x)
  have IH: "map fst t2 = map fst t" "\<forall>(sid, rg) \<in> set t2. registration_ok rg"
    "\<forall>e \<in> set e2. \<forall>sid. effect_sid e = Some sid \<longrightarrow> sid \<in> fst ` set t"
    "\<And>sid. replay (accept_runner sid) (view_of t sid) e2 = Some (view_of t2 sid)"
    using Cons.IH [OF tail] Cons.prems(2,3) by (simp_all add: x)
  have k: "k \<notin> fst ` set t" using Cons.prems(2) by (simp add: x)
  have "replay (accept_runner sid) (view_of (x # t) sid) effs = Some (view_of t' sid)" for sid
  proof (cases "sid = k")
    case True
    have "replay (accept_runner k) (session_of rg1) e2 = Some (session_of rg1)"
      by (rule foreign_effects) (use IH(3) k in blast)
    then show ?thesis using c True by (simp add: x res view_of_Cons replay_append change_ok_def)
  next
    case False
    have "replay (accept_runner sid) (view_of t sid) e1 = Some (view_of t sid)"
      by (rule foreign_effects) (use c False in \<open>auto simp: change_ok_def\<close>)
    then show ?thesis using IH(4) [of sid] False by (simp add: x res view_of_Cons replay_append)
  qed
  moreover have "\<forall>e \<in> set effs. \<forall>sid. effect_sid e = Some sid \<longrightarrow> sid \<in> fst ` set (x # t)"
    using c IH(3) by (auto simp: x res change_ok_def)
  ultimately show ?case using IH(1,2) c by (simp add: x res change_ok_def)
qed

lemma released_view:
  "distinct (map fst t) \<Longrightarrow> sid \<in> fst ` set t \<Longrightarrow> replay (accept_runner sid) (view_of t sid) (released t) = Some None"
  "sid \<notin> fst ` set t \<Longrightarrow> replay (accept_runner sid) cur (released t) = Some cur"
proof -
  show other: "replay (accept_runner sid) cur (released t) = Some cur" if "sid \<notin> fst ` set t" for cur t
    by (rule foreign_effects) (use that in \<open>force simp: released_def List.map_filter_def\<close>)
  show "distinct (map fst t) \<Longrightarrow> sid \<in> fst ` set t \<Longrightarrow> replay (accept_runner sid) (view_of t sid) (released t) = Some None"
  proof (induction t)
    case (Cons x t)
    obtain k rg where x: "x = (k, rg)" by fastforce
    show ?case
    proof (cases "sid = k")
      case True
      then have "sid \<notin> fst ` set t" using Cons.prems(1) by (simp add: x)
      then show ?thesis using True other [of t None]
        by (cases "rg_runner rg") (simp_all add: x view_of_Cons released_def session_of_def accept_released)
    next
      case False
      then show ?thesis using Cons
        by (cases "rg_runner rg") (simp_all add: x view_of_Cons released_def accept_released)
    qed
  qed simp
qed

section \<open>The operations keep one runner\<close>

definition tracks :: "host \<Rightarrow> host \<Rightarrow> host_effect list \<Rightarrow> bool" where
  "tracks ho ho' effs \<longleftrightarrow> host_ok ho' \<and>
     (\<forall>sid. replay (accept_runner sid) (view_of (ho_controllers ho) sid) effs = Some (view_of (ho_controllers ho') sid))"

lemma new_registration_ok: "registration_ok new_registration" "session_of new_registration = None"
  "registration_ok (restored saved)" "session_of (restored saved) = None"
  by (simp_all add: registration_ok_def session_of_def new_registration_def restored_def)

lemma set_btree_insert: "set (btree_insert k v t) \<subseteq> insert (k, v) (set t)"
  by (induction k v t rule: btree_insert.induct) auto

lemma view_of_insert:
  "btree_ok t \<Longrightarrow> view_of (btree_insert k rg t) sid = (if sid = k then session_of rg else view_of t sid)"
  by (simp add: view_of_def map_of_btree_insert)

definition registrations_ok :: "(string, registration) btree \<Rightarrow> bool" where
  "registrations_ok t \<longleftrightarrow> btree_ok t \<and> (\<forall>(sid, rg) \<in> set t. registration_ok rg)"

lemma host_ok_iff: "host_ok ho \<longleftrightarrow> registrations_ok (ho_controllers ho)"
  by (simp add: host_ok_def registrations_ok_def)

lemma registrations_insert: "registrations_ok t \<Longrightarrow> registration_ok rg \<Longrightarrow> registrations_ok (btree_insert k rg t)"
  using set_btree_insert [of k rg t] by (auto simp: registrations_ok_def btree_insert_ok)

lemma registrations_lookup: "registrations_ok t \<Longrightarrow> map_of t sid = Some rg \<Longrightarrow> registration_ok rg"
  by (auto simp: registrations_ok_def dest: map_of_SomeD)

lemma registrations_filter:
  assumes "registrations_ok t"
  shows "registrations_ok (filter P t)"
  using assms by (auto simp: registrations_ok_def btree_ok_def sorted_wrt_map sorted_wrt_filter)

lemma view_of_filter: "view_of (filter (\<lambda>(k, rg). P k) t) sid = (if P sid then view_of t sid else None)"
  by (induction t) (auto simp: view_of_def)

lemma each_registration_tracks:
  assumes "\<And>sid rg rt. registration_ok rg \<Longrightarrow> change_ok sid rg (f sid rg rt)"
    and "each_registration f t rt = (t', rt', effs)" and "registrations_ok t"
  shows "registrations_ok t' \<and> (\<forall>sid. replay (accept_runner sid) (view_of t sid) effs = Some (view_of t' sid))"
  using each_registration_ok [OF assms(1,2)] assms(3) btree_ok_distinct [of t]
  by (simp add: registrations_ok_def btree_ok_def)

lemma added_registrations:
  assumes "registrations_ok t"
  shows "registrations_ok (fold (\<lambda>sid t. if map_of t sid = None then btree_insert sid new_registration t else t) sids t) \<and>
    view_of (fold (\<lambda>sid t. if map_of t sid = None then btree_insert sid new_registration t else t) sids t) = view_of t"
  using assms
proof (induction sids arbitrary: t)
  case Nil
  then show ?case by simp
next
  case (Cons x sids)
  show ?case
  proof (cases "map_of t x")
    case None
    have "view_of (btree_insert x new_registration t) = view_of t"
    proof
      have "view_of t x = None" using None by (simp add: view_of_def)
      then show "view_of (btree_insert x new_registration t) sid = view_of t sid" for sid
        using Cons.prems by (simp add: view_of_insert registrations_ok_def new_registration_ok)
    qed
    moreover have "registrations_ok (btree_insert x new_registration t)"
      using Cons.prems new_registration_ok(1) by (rule registrations_insert)
    ultimately show ?thesis using Cons.IH None by simp
  next
    case (Some rg)
    then show ?thesis using Cons by simp
  qed
qed

lemma reconcile_tracks:
  assumes "host_ok ho" and "answers_ok an" and "reconcile an ho = (ho', effs)"
  shows "tracks ho ho' effs"
proof (cases "an_inventory an")
  case None
  then show ?thesis using assms by (simp add: reconcile_def tracks_def)
next
  case (Some inventory)
  show ?thesis
  proof (cases "an_registered an")
    case False
    then show ?thesis using assms Some by (auto simp: reconcile_def tracks_def host_ok_def Let_def)
  next
    case True
    let ?t = "ho_controllers ho" and ?R = "\<lambda>sid. sid \<in> set (ho_registered ho)"
    let ?gone = "filter (\<lambda>(sid, rg). \<not> ?R sid) ?t" and ?kept = "filter (\<lambda>(sid, rg). ?R sid) ?t"
    define all_of where "all_of = fold (\<lambda>sid t. if map_of t sid = None then btree_insert sid new_registration t else t)
      (ho_registered ho) ?kept"
    define sessions where "sessions = filter (\<lambda>(sid, s). (as_session_id s, as_authentication_id s) \<notin>
      set (filter (\<lambda>l. l \<in> set (av_logons inventory)) (ho_ending ho))) (av_sessions inventory)"
    let ?f = "reconcile_one an sessions (av_conflicts inventory)"
    obtain t' rt' es where each: "each_registration ?f all_of (ho_runtime ho) = (t', rt', es)"
      by (cases "each_registration ?f all_of (ho_runtime ho)")
    have f: "registration_ok rg \<Longrightarrow> change_ok sid rg (?f sid rg rt)" for sid rg rt
      by (rule reconcile_one_ok [OF _ assms(2)])
    have ho': "ho_controllers ho' = t'" and effs: "effs = released ?gone @ es"
      using assms(3) True Some each unfolding reconcile_def Let_def all_of_def sessions_def by auto
    have t: "registrations_ok ?t" using assms(1) by (simp add: host_ok_iff)
    then have distinct: "distinct (map fst ?gone)"
      by (intro btree_ok_distinct) (rule registrations_filter [OF t, unfolded registrations_ok_def, THEN conjunct1])
    have all: "registrations_ok all_of" "view_of all_of = view_of ?kept"
      using added_registrations [OF registrations_filter [OF t]] by (simp_all add: all_of_def)
    have tail: "registrations_ok t'" "replay (accept_runner sid) (view_of all_of sid) es = Some (view_of t' sid)" for sid
      using each_registration_tracks [OF f each all(1)] by auto
    have "replay (accept_runner sid) (view_of ?t sid) (released ?gone) = Some (view_of all_of sid)" for sid
    proof (cases "?R sid")
      case True
      then have "sid \<notin> fst ` set ?gone" by auto
      then show ?thesis using released_view(2) True by (simp add: all(2) view_of_filter)
    next
      case False
      show ?thesis
      proof (cases "sid \<in> fst ` set ?gone")
        case True
        have "view_of ?gone sid = view_of ?t sid" using False by (simp add: view_of_filter)
        then show ?thesis using released_view(1) [OF distinct True] False by (simp add: all(2) view_of_filter)
      next
        case absent: False
        then have "sid \<notin> fst ` set ?t" using False by force
        then show ?thesis using released_view(2) [OF absent] False
          by (simp add: all(2) view_of_filter view_of_absent)
      qed
    qed
    then show ?thesis using tail by (simp add: tracks_def host_ok_iff ho' effs replay_append)
  qed
qed

lemma each_tracks:
  assumes "host_ok ho" and "\<And>sid rg rt. registration_ok rg \<Longrightarrow> change_ok sid rg (f sid rg rt)"
    and "each_registration f (ho_controllers ho) (ho_runtime ho) = (t', rt', effs)" and "ho_controllers ho' = t'"
  shows "tracks ho ho' effs"
  using each_registration_tracks [OF assms(2,3)] assms(1,4) by (simp add: tracks_def host_ok_iff)

lemma end_all_tracks:
  assumes "host_ok ho" and "end_all an ho = (ho', effs)"
  shows "tracks ho ho' effs"
proof -
  obtain t rt es where each: "each_registration (end_registration an) (ho_controllers ho) (ho_runtime ho) = (t, rt, es)"
    by (cases "each_registration (end_registration an) (ho_controllers ho) (ho_runtime ho)")
  then have "ho_controllers ho' = t" "effs = es" using assms(2) by (auto simp: end_all_def)
  then show ?thesis using each_tracks [OF assms(1) end_registration_ok each] by simp
qed

lemma end_windows_session_tracks:
  assumes "host_ok ho" and "end_windows_session an w ho = (ho', effs)"
  shows "tracks ho ho' effs"
proof -
  let ?f = "\<lambda>sid rg rt. if rg_windows_session_id rg = Some w then end_registration an sid rg rt else (rg, rt, [])"
  obtain t rt es where each: "each_registration ?f (ho_controllers ho) (ho_runtime ho) = (t, rt, es)"
    by (cases "each_registration ?f (ho_controllers ho) (ho_runtime ho)")
  have f: "registration_ok rg \<Longrightarrow> change_ok sid rg (?f sid rg rt)" for sid rg rt
    using end_registration_ok unchanged_ok by simp
  have "ho_controllers ho' = t" "effs = es" using assms(2) each by (auto simp: end_windows_session_def Let_def)
  then show ?thesis using each_tracks [OF assms(1) f each] by simp
qed

lemma detach_all_tracks:
  assumes "host_ok ho" and "detach_all an ho = (ho', effs)"
  shows "tracks ho ho' effs"
proof -
  have t: "registrations_ok (ho_controllers ho)" using assms(1) by (simp add: host_ok_iff)
  have ho': "ho_controllers ho' = []" "effs = released (ho_controllers ho)"
    using assms(2) by (auto simp: detach_all_def)
  have "replay (accept_runner sid) (view_of (ho_controllers ho) sid) (released (ho_controllers ho)) = Some None" for sid
  proof (cases "sid \<in> fst ` set (ho_controllers ho)")
    case True
    then show ?thesis using t by (intro released_view(1) btree_ok_distinct) (simp_all add: registrations_ok_def)
  next
    case False
    then show ?thesis using released_view(2) by (simp add: view_of_absent)
  qed
  then show ?thesis by (simp add: tracks_def host_ok_iff ho' registrations_ok_def view_of_def)
qed

text \<open>A change of one registration, by the entry of its user.\<close>

lemma replaced_tracks:
  assumes ok: "host_ok ho" and change: "change_ok sid rg (rg', rt, effs)"
    and before: "view_of (ho_controllers ho) sid = session_of rg"
    and after: "ho_controllers ho' = btree_insert sid rg' (ho_controllers ho)"
  shows "tracks ho ho' effs"
proof -
  have t: "registrations_ok (ho_controllers ho)" using ok by (simp add: host_ok_iff)
  have rg': "registration_ok rg'" using change by (simp add: change_ok_def)
  have "replay (accept_runner k) (view_of (ho_controllers ho) k) effs = Some (view_of (ho_controllers ho') k)" for k
  proof (cases "k = sid")
    case True
    then show ?thesis using change before t by (simp add: after change_ok_def view_of_insert registrations_ok_def)
  next
    case False
    have "replay (accept_runner k) (view_of (ho_controllers ho) k) effs = Some (view_of (ho_controllers ho) k)"
      by (rule foreign_effects) (use change False in \<open>auto simp: change_ok_def\<close>)
    then show ?thesis using False t by (simp add: after view_of_insert registrations_ok_def)
  qed
  then show ?thesis using registrations_insert [OF t rg'] by (simp add: tracks_def host_ok_iff after)
qed

lemma register_user_tracks:
  assumes ok: "host_ok ho" and an: "answers_ok an" and reg: "register_user an added sid ho = (r, ho', effs)"
  shows "tracks ho ho' effs"
proof -
  define rg where "rg = (case map_of (ho_controllers ho) sid of Some rg \<Rightarrow> rg | None \<Rightarrow> new_registration)"
  have before: "view_of (ho_controllers ho) sid = session_of rg"
    by (simp add: view_of_def rg_def new_registration_ok split: option.split)
  have rg: "registration_ok rg"
    using ok registrations_lookup by (auto simp: rg_def host_ok_iff new_registration_ok split: option.split)
  have refl: "tracks ho ho []" using ok by (simp add: tracks_def)
  have put: "tracks ho ho'' es" if "change_ok sid rg (rg', rt, es)"
    "ho_controllers ho'' = btree_insert sid rg' (ho_controllers ho)" for rg' rt es ho''
    by (rule replaced_tracks [OF ok that(1) before that(2)])
  have kept: "change_ok sid rg (rg\<lparr>rg_session_conflict := b\<rparr>, rt, [])" for b rt
    using unchanged_ok [of "rg\<lparr>rg_session_conflict := b\<rparr>" sid rt] rg by simp
  have same: "change_ok sid rg (rg, rt, [])" for rt using unchanged_ok [OF rg] .
  show ?thesis
  proof (cases "added \<and> rg_runner rg = None")
    case False
    then show ?thesis using reg refl put [OF same]
      by (auto simp: register_user_def Let_def rg_def [symmetric] split: if_splits)
  next
    case True
    show ?thesis
    proof (cases "an_inventory an")
      case None
      then show ?thesis using reg True put [OF same]
        by (auto simp: register_user_def Let_def rg_def [symmetric])
    next
      case (Some inventory)
      let ?b = "sid \<in> set (av_conflicts inventory)"
      let ?rg = "rg\<lparr>rg_session_conflict := ?b\<rparr>"
      show ?thesis
      proof (cases "if ?b then None else map_of (av_sessions inventory) sid")
        case None
        then show ?thesis using reg True Some put [OF kept]
          by (auto simp: register_user_def Let_def rg_def [symmetric] split: if_splits)
      next
        case session: (Some s)
        obtain started rg' rt es where start: "start_controller_runner an sid (an_uuid an sid) s ?rg (ho_runtime ho) = (started, rg', rt, es)"
          by (cases "start_controller_runner an sid (an_uuid an sid) s ?rg (ho_runtime ho)") auto
        have "change_ok sid ?rg (snd (start_controller_runner an sid (an_uuid an sid) s ?rg (ho_runtime ho)))"
          by (rule start_runner_ok) (use True an in \<open>simp_all add: answers_ok_def\<close>)
        then have change: "change_ok sid rg (rg', rt, es)" by (simp add: start)
        show ?thesis using reg True Some session start put [OF kept] put [OF change]
          by (auto simp: register_user_def Let_def rg_def [symmetric] split: if_splits)
      qed
    qed
  qed
qed

lemma unregister_user_tracks:
  assumes ok: "host_ok ho" and unreg: "unregister_user an removed sid ho = (r, ho', effs)"
  shows "tracks ho ho' effs"
proof (cases "removed \<and> map_of (ho_controllers ho) sid \<noteq> None")
  case False
  then show ?thesis using assms by (auto simp: unregister_user_def tracks_def host_ok_def Let_def split: if_splits)
next
  case True
  then obtain rg where rg: "map_of (ho_controllers ho) sid = Some rg" by auto
  have t: "registrations_ok (ho_controllers ho)" using ok by (simp add: host_ok_iff)
  obtain rg' rt es where ended: "end_registration an sid rg (ho_runtime ho) = (rg', rt, es)"
    by (cases "end_registration an sid rg (ho_runtime ho)")
  have change: "change_ok sid rg (rg', rt, es)" and none: "session_of rg' = None"
    using end_registration_ok [OF registrations_lookup [OF t rg], of sid an "ho_runtime ho"] ended
    by (auto simp: end_registration_def session_of_def)
  have ho': "ho_controllers ho' = filter (\<lambda>(s, r). s \<noteq> sid) (ho_controllers ho)" "effs = es"
    using unreg True rg ended by (auto simp: unregister_user_def Let_def)
  have "replay (accept_runner k) (view_of (ho_controllers ho) k) es = Some (view_of (ho_controllers ho') k)" for k
  proof (cases "k = sid")
    case True
    have "view_of (ho_controllers ho) sid = session_of rg" by (simp add: view_of_def rg)
    then show ?thesis using change none True by (simp add: ho' view_of_filter change_ok_def)
  next
    case False
    have "replay (accept_runner k) (view_of (ho_controllers ho) k) es = Some (view_of (ho_controllers ho) k)"
      by (rule foreign_effects) (use change False in \<open>auto simp: change_ok_def\<close>)
    then show ?thesis using False by (simp add: ho' view_of_filter)
  qed
  then show ?thesis using registrations_filter [OF t] by (simp add: tracks_def host_ok_iff ho')
qed

lemma runner_turn_tracks:
  assumes ok: "host_ok ho"
  shows "tracks ho (runner_turn an sid e ho) []"
proof -
  have t: "registrations_ok (ho_controllers ho)" using ok by (simp add: host_ok_iff)
  have refl: "tracks ho ho []" using ok by (simp add: tracks_def)
  show ?thesis
  proof (cases "map_of (ho_controllers ho) sid")
    case None
    then show ?thesis using refl by (simp add: runner_turn_def)
  next
    case (Some rg)
    have rg: "registration_ok rg" by (rule registrations_lookup [OF t Some])
    show ?thesis
    proof (cases "Option.bind (rg_runner rg) (\<lambda>h. run_controller_step (rh_thread h) e)")
      case None
      then show ?thesis using Some refl by (auto simp: runner_turn_def split: option.splits)
    next
      case step: (Some x)
      then obtain h r xs where h: "rg_runner rg = Some h" "run_controller_step (rh_thread h) e = Some (r, xs)"
        by (cases x) (auto simp: bind_eq_Some_conv)
      have "runner_ok r" using run_step_ok [OF h(2)] rg h(1) by (simp add: registration_ok_def)
      then have change: "change_ok sid rg (rg\<lparr>rg_runner := Some (h\<lparr>rh_thread := r\<rparr>)\<rparr>, ho_runtime ho, [])"
        using rg h(1) by (simp add: change_ok_def registration_ok_def session_of_def)
      show ?thesis
        by (rule replaced_tracks [OF ok change]) (simp_all add: Some view_of_def runner_turn_def h)
    qed
  qed
qed

lemma restart_controller_tracks:
  assumes "host_ok ho"
  shows "tracks ho ho (snd (restart_controller sid ho))"
proof -
  have "replay (accept_runner k) (view_of (ho_controllers ho) k) (snd (restart_controller sid ho)) =
      Some (view_of (ho_controllers ho) k)" for k
    by (auto simp: restart_controller_def accept_runner_def view_of_def session_of_def split: option.splits)
  then show ?thesis using assms by (simp add: tracks_def)
qed

lemma host_step_tracks:
  assumes "host_ok ho" and "host_op_ok op" and "host_step ho op = Some (ho', effs)"
  shows "tracks ho ho' effs"
proof (cases op)
  case (Do_register an added sid)
  obtain r where "register_user an added sid ho = (r, ho', effs)"
    using assms(3) Do_register by (cases "register_user an added sid ho") auto
  then show ?thesis using register_user_tracks [OF assms(1)] assms(2) Do_register by simp
next
  case (Do_unregister an removed sid)
  obtain r where "unregister_user an removed sid ho = (r, ho', effs)"
    using assms(3) Do_unregister by (cases "unregister_user an removed sid ho") auto
  then show ?thesis using unregister_user_tracks [OF assms(1)] by simp
qed (use assms reconcile_tracks end_windows_session_tracks end_all_tracks detach_all_tracks
  restart_controller_tracks runner_turn_tracks in auto)

interpretation host_runners: tracked_machine host_step host_ok host_op_ok "\<lambda>ho. view_of (ho_controllers ho) sid" "accept_runner sid"
  for sid
  by unfold_locales (auto dest!: host_step_tracks simp: tracks_def)

lemma host_new_tracks:
  assumes "host_new an registered runtime = Some (ho, effs)" and "answers_ok an"
  shows "host_ok ho \<and> replay (accept_runner sid) None effs = Some (view_of (ho_controllers ho) sid)"
proof -
  let ?t = "fold (\<lambda>sid t. btree_insert sid (restored (map_of runtime sid)) t) registered []"
  define ho0 where "ho0 = \<lparr>ho_controllers = ?t, ho_ending = [], ho_registered = registered,
    ho_runtime = fold (remove_runtime an) (filter (\<lambda>sid. sid \<notin> set registered) (map fst runtime)) runtime\<rparr>"
  have ho0: "ho_controllers ho0 = ?t" "reconcile an ho0 = (ho, effs)"
    using assms(1) by (auto simp: host_new_def Let_def ho0_def split: if_splits)
  have all: "registrations_ok (fold (\<lambda>sid t. btree_insert sid (restored (map_of runtime sid)) t) sids t) \<and>
      (\<forall>k. view_of (fold (\<lambda>sid t. btree_insert sid (restored (map_of runtime sid)) t) sids t) k = None)"
    if "registrations_ok t" "\<forall>k. view_of t k = None" for sids t
    using that
  proof (induction sids arbitrary: t)
    case (Cons x sids)
    then show ?case
      by (simp add: registrations_insert new_registration_ok view_of_insert registrations_ok_def [of t])
  qed simp
  have "registrations_ok ?t \<and> (\<forall>k. view_of ?t k = None)"
    by (rule all) (simp_all add: registrations_ok_def view_of_def)
  then show ?thesis using reconcile_tracks [OF _ assms(2) ho0(2)] ho0(1) by (simp add: host_ok_iff tracks_def)
qed

text \<open>
  C35. From the start of the host, in every sequence of its operations, with
  whatever Windows and the registry answer: a user's runner is started only while there is none,
  and only the runner there is is ended, let go of or restarted; and the registrations stay
  consistent: a registration with a runner has the manager session, the Windows session, the
  logon and the ending event the runner works for.
\<close>

theorem one_runner_per_user:
  assumes "host_new an registered runtime = Some (ho, effs)" and "answers_ok an"
    and "tracked_run host_step ho ops = Some (ho', effs')" and "list_all host_op_ok ops"
  shows "host_ok ho' \<and>
    replay (accept_runner sid) None (effs @ effs') = Some (view_of (ho_controllers ho') sid)"
  using host_new_tracks [OF assms(1,2)] host_runners.run_tracked [OF assms(3) _ assms(4)]
  by (simp add: replay_append)

section \<open>Which logons get a runner\<close>

lemma each_registration_effect:
  "each_registration f t rt = (t', rt', effs) \<Longrightarrow> e \<in> set effs \<Longrightarrow>
   \<exists>sid rg r. (sid, rg) \<in> set t \<and> e \<in> set (snd (snd (f sid rg r)))"
proof (induction t arbitrary: rt t' rt' effs)
  case (Cons x t)
  obtain k rg where x: "x = (k, rg)" by fastforce
  obtain rg1 rt1 e1 where head: "f k rg rt = (rg1, rt1, e1)" by (cases "f k rg rt")
  obtain t2 rt2 e2 where tail: "each_registration f t rt1 = (t2, rt2, e2)" by (cases "each_registration f t rt1")
  have "e \<in> set e1 \<or> e \<in> set e2" using Cons.prems by (auto simp: x head tail)
  then show ?case
  proof
    assume "e \<in> set e1"
    then have "e \<in> set (snd (snd (f k rg rt)))" by (simp add: head)
    then show ?thesis unfolding x by (meson list.set_intros(1))
  next
    assume "e \<in> set e2"
    then show ?thesis using Cons.IH [OF tail] by (meson list.set_intros(2))
  qed
qed simp

lemma no_start:
  "Runner_started k sess p \<notin> set (snd (snd (end_registration an sid rg rt)))"
  "Runner_started k sess p \<notin> set (snd (snd (forget_previous an sid s rg rt)))"
  "Runner_started k sess p \<notin> set (released t)"
  by (auto simp: end_registration_def forget_previous_def signal_previous_session_def released_def List.map_filter_def
    split: option.splits)

definition logon_of :: "runtime_session \<Rightarrow> u32 \<times> u64" where
  "logon_of sess = (rs_windows_session_id sess, rs_authentication_id sess)"

lemma start_runner_starts:
  "start_controller_runner an sid m s rg rt = (ok, rg', rt', effs) \<Longrightarrow> Runner_started k sess p \<in> set effs \<Longrightarrow>
   k = sid \<and> rs_manager_session_id sess = m \<and> logon_of sess = (as_session_id s, as_authentication_id s)"
  by (auto simp: start_controller_runner_def logon_of_def Let_def split: runner_result.splits)

lemma reconcile_session_starts:
  assumes "Runner_started k sess p \<in> set (snd (snd (reconcile_session an sid s rg rt)))"
  shows "k = sid \<and> logon_of sess = (as_session_id s, as_authentication_id s)"
proof -
  obtain rg1 rt1 effs where prev: "forget_previous an sid s rg rt = (rg1, rt1, effs)" by (cases "forget_previous an sid s rg rt")
  then have "Runner_started k sess p \<notin> set effs" using no_start(2) [of k sess p an sid s rg rt] by simp
  then show ?thesis using assms
    by (auto simp: reconcile_session_def prev Let_def split: if_splits prod.splits dest: start_runner_starts)
qed

lemma reconcile_one_starts:
  assumes "Runner_started k sess p \<in> set (snd (snd (reconcile_one an sessions conflicts sid rg rt)))"
  shows "k = sid \<and> sid \<notin> set conflicts \<and>
    (\<exists>s. map_of sessions sid = Some s \<and> logon_of sess = (as_session_id s, as_authentication_id s))"
  using assms no_start(1)
  by (auto simp: reconcile_one_def Let_def split: option.splits if_splits dest!: reconcile_session_starts)

lemma added_keys:
  "fst ` set (fold (\<lambda>sid t. if map_of t sid = None then btree_insert sid new_registration t else t) sids t)
   \<subseteq> fst ` set t \<union> set sids"
proof (induction sids arbitrary: t)
  case (Cons x sids)
  have "fst ` set (btree_insert x new_registration t) = insert x (fst ` set t)" by (rule keys_btree_insert)
  then show ?case using Cons [of "btree_insert x new_registration t"] Cons [of t] by auto
qed simp

lemma reconcile_starts:
  assumes "reconcile an ho = (ho', effs)" and "Runner_started sid sess p \<in> set effs"
  shows "\<exists>inventory s. an_inventory an = Some inventory \<and> sid \<in> set (ho_registered ho) \<and>
    sid \<notin> set (av_conflicts inventory) \<and> (sid, s) \<in> set (av_sessions inventory) \<and>
    logon_of sess = (as_session_id s, as_authentication_id s) \<and> logon_of sess \<notin> set (ho_ending ho')"
proof -
  obtain inventory where inv: "an_inventory an = Some inventory" "an_registered an"
    using assms by (auto simp: reconcile_def Let_def split: option.splits if_splits)
  define ending where "ending = filter (\<lambda>l. l \<in> set (av_logons inventory)) (ho_ending ho)"
  define sessions where "sessions = filter (\<lambda>(sid, s). (as_session_id s, as_authentication_id s) \<notin> set ending)
    (av_sessions inventory)"
  define all_of where "all_of = fold (\<lambda>sid t. if map_of t sid = None then btree_insert sid new_registration t else t)
    (ho_registered ho) (filter (\<lambda>(sid, rg). sid \<in> set (ho_registered ho)) (ho_controllers ho))"
  let ?f = "reconcile_one an sessions (av_conflicts inventory)"
  obtain t' rt' es where each: "each_registration ?f all_of (ho_runtime ho) = (t', rt', es)"
    by (cases "each_registration ?f all_of (ho_runtime ho)")
  have ho': "ho_ending ho' = ending"
    and effs: "effs = released (filter (\<lambda>(sid, rg). sid \<notin> set (ho_registered ho)) (ho_controllers ho)) @ es"
    using assms(1) inv each unfolding reconcile_def Let_def all_of_def sessions_def ending_def by auto
  have "Runner_started sid sess p \<in> set es" using assms(2) no_start(3) by (auto simp: effs)
  then obtain k rg r where k: "(k, rg) \<in> set all_of" "Runner_started sid sess p \<in> set (snd (snd (?f k rg r)))"
    using each_registration_effect [OF each] by blast
  then obtain s where s: "sid = k" "sid \<notin> set (av_conflicts inventory)" "map_of sessions sid = Some s"
    "logon_of sess = (as_session_id s, as_authentication_id s)"
    using reconcile_one_starts by blast
  have "fst (k, rg) \<in> fst ` set all_of" using k(1) by (rule imageI)
  then have "sid \<in> set (ho_registered ho)" using added_keys s(1) unfolding all_of_def by fastforce
  moreover have "(sid, s) \<in> set sessions" using s(3) by (rule map_of_SomeD)
  ultimately show ?thesis using inv(1) s ho' by (auto simp: sessions_def)
qed

section \<open>Logons that end\<close>

text \<open>An operation during which Windows still lists the logon, and which is not a registration.\<close>

fun still_listed :: "u32 \<times> u64 \<Rightarrow> host_op \<Rightarrow> bool" where
  "still_listed l (Do_reconcile an) = (\<forall>inventory. an_inventory an = Some inventory \<longrightarrow> l \<in> set (av_logons inventory))"
| "still_listed l (Do_register an added sid) = False"
| "still_listed l _ = True"

lemma no_start_elsewhere:
  "snd (restart_controller k ho) = effs \<Longrightarrow> Runner_started sid sess p \<notin> set effs"
  "unregister_user an b k ho = (r, ho', effs) \<Longrightarrow> Runner_started sid sess p \<notin> set effs"
  "end_all an ho = (ho', effs) \<Longrightarrow> Runner_started sid sess p \<notin> set effs"
  "end_windows_session an w ho = (ho', effs) \<Longrightarrow> Runner_started sid sess p \<notin> set effs"
  "detach_all an ho = (ho', effs) \<Longrightarrow> Runner_started sid sess p \<notin> set effs"
proof -
  show "snd (restart_controller k ho) = effs \<Longrightarrow> Runner_started sid sess p \<notin> set effs"
    by (auto simp: restart_controller_def split: option.splits)
  show "unregister_user an b k ho = (r, ho', effs) \<Longrightarrow> Runner_started sid sess p \<notin> set effs"
    by (auto simp: unregister_user_def Let_def end_registration_def split: option.splits if_splits)
  show "end_all an ho = (ho', effs) \<Longrightarrow> Runner_started sid sess p \<notin> set effs"
    using no_start(1) by (auto simp: end_all_def split: prod.splits dest!: each_registration_effect)
  show "end_windows_session an w ho = (ho', effs) \<Longrightarrow> Runner_started sid sess p \<notin> set effs"
    using no_start(1)
    by (auto simp: end_windows_session_def Let_def split: prod.splits if_splits dest!: each_registration_effect)
  show "detach_all an ho = (ho', effs) \<Longrightarrow> Runner_started sid sess p \<notin> set effs"
    using no_start(3) by (auto simp: detach_all_def)
qed

lemma set_fold_insert: "set (fold set_insert xs t) = set xs \<union> set t"
  by (induction xs arbitrary: t) auto

lemma ending_step:
  assumes "host_step ho op = Some (ho', effs)" and "still_listed l op" and "l \<in> set (ho_ending ho)"
  shows "l \<in> set (ho_ending ho') \<and> (\<forall>sid sess p. Runner_started sid sess p \<in> set effs \<longrightarrow> logon_of sess \<noteq> l)"
proof (cases op)
  case (Do_reconcile an)
  then have r: "reconcile an ho = (ho', effs)" using assms(1) by simp
  have "l \<in> set (ho_ending ho')"
    using r assms(2,3) Do_reconcile by (auto simp: reconcile_def Let_def split: option.splits if_splits prod.splits)
  then show ?thesis using reconcile_starts [OF r] by blast
next
  case (Do_end_session an w)
  then show ?thesis using assms no_start_elsewhere(4) [of an w ho ho' effs]
    by (auto simp: end_windows_session_def Let_def set_fold_insert split: prod.splits)
next
  case (Do_end_all an)
  then show ?thesis using assms no_start_elsewhere(3) [of an ho ho' effs]
    by (auto simp: end_all_def split: prod.splits)
next
  case (Do_detach an)
  then show ?thesis using assms no_start_elsewhere(5) [of an ho ho' effs] by (auto simp: detach_all_def)
next
  case (Do_unregister an b k)
  obtain r where u: "unregister_user an b k ho = (r, ho', effs)"
    using assms(1) Do_unregister by (cases "unregister_user an b k ho") auto
  then have "ho_ending ho' = ho_ending ho"
    by (auto simp: unregister_user_def Let_def split: option.splits if_splits prod.splits)
  then show ?thesis using no_start_elsewhere(2) [OF u] assms(3) by auto
next
  case (Do_restart k)
  then show ?thesis using assms no_start_elsewhere(1) [of k ho effs] by auto
next
  case (Do_turn an k e)
  then show ?thesis using assms by (auto simp: runner_turn_def split: option.splits)
qed (use assms in simp)

lemma ending_run:
  "tracked_run host_step ho ops = Some (ho', effs) \<Longrightarrow> list_all (still_listed l) ops \<Longrightarrow> l \<in> set (ho_ending ho) \<Longrightarrow>
   l \<in> set (ho_ending ho') \<and> (\<forall>sid sess p. Runner_started sid sess p \<in> set effs \<longrightarrow> logon_of sess \<noteq> l)"
proof (induction ops arbitrary: ho effs)
  case (Cons op ops)
  obtain h1 xs ys where first: "host_step ho op = Some (h1, xs)" and rest: "tracked_run host_step h1 ops = Some (ho', ys)"
    and effs: "effs = xs @ ys"
    using Cons.prems(1) by (auto simp: bind_eq_Some_conv)
  have l: "still_listed l op" "list_all (still_listed l) ops" using Cons.prems(2) by simp_all
  note one = ending_step [OF first l(1) Cons.prems(3)]
  note later = Cons.IH [OF rest l(2) one [THEN conjunct1]]
  show ?case
  proof (intro conjI allI impI)
    show "l \<in> set (ho_ending ho')" by (rule later [THEN conjunct1])
    fix sid sess p
    assume "Runner_started sid sess p \<in> set effs"
    then have "Runner_started sid sess p \<in> set xs \<or> Runner_started sid sess p \<in> set ys" by (simp add: effs)
    then show "logon_of sess \<noteq> l"
      using one [THEN conjunct2] later [THEN conjunct2] by (elim disjE) blast+
  qed
qed simp

text \<open>
  C40. After the end of a Windows session no runner is started for
  a logon it had, for as long as Windows lists that logon, whatever reconciliations, ends and
  unregistrations follow (a registration does not look at the ending logons).
\<close>

theorem ending_logon_gets_no_controller:
  assumes "(sid, rg) \<in> set (ho_controllers ho)" and "rg_windows_session_id rg = Some w" and "rg_authentication_id rg = Some a"
    and "end_windows_session an w ho = (ho1, effs1)"
    and "tracked_run host_step ho1 ops = Some (ho2, effs2)" and "list_all (still_listed (w, a)) ops"
  shows "\<forall>sid sess p. Runner_started sid sess p \<in> set effs2 \<longrightarrow> logon_of sess \<noteq> (w, a)"
proof -
  have "(w, a) \<in> set (ho_ending ho1)"
    using assms(1-4)
    by (force simp: end_windows_session_def Let_def set_fold_insert List.map_filter_def split: prod.splits)
  then show ?thesis using ending_run [OF assms(5,6)] by blast
qed

section \<open>Restarts of the host\<close>

lemma map_of_inserted: "map_of (btree_insert k v t) x = (if x = k then Some v else map_of t x)"
  by (induction k v t rule: btree_insert.induct) auto

lemma not_persisted:
  "k \<notin> fst ` set t \<Longrightarrow> map_of (fold (\<lambda>(sid, rg). persist_runtime an sid rg) t rt) k = map_of rt k"
  by (induction t arbitrary: rt)
    (auto simp: persist_runtime_def save_runtime_def map_of_inserted split: option.splits)

lemma persisted_own:
  assumes "an_saved an sid" and "registration_ok rg" and "rg_runner rg = Some h"
  shows "\<exists>saved. map_of (persist_runtime an sid rg rt) sid = Some saved \<and>
    rs_manager_session_id saved = rg_manager_session_id rg \<and>
    Some (rs_authentication_id saved) = rg_authentication_id rg"
  using assms by (simp add: registration_ok_def persist_runtime_def save_runtime_def map_of_inserted with_process_def Let_def)

lemma persisted_lookup:
  assumes "\<And>sid. an_saved an sid"
  shows "distinct (map fst t) \<Longrightarrow> map_of t sid = Some rg \<Longrightarrow> registration_ok rg \<Longrightarrow> rg_runner rg = Some h \<Longrightarrow>
    \<exists>saved. map_of (fold (\<lambda>(sid, rg). persist_runtime an sid rg) t rt) sid = Some saved \<and>
      rs_manager_session_id saved = rg_manager_session_id rg \<and>
      Some (rs_authentication_id saved) = rg_authentication_id rg"
proof (induction t arbitrary: rt)
  case (Cons x t)
  obtain k r where x: "x = (k, r)" by fastforce
  show ?case
  proof (cases "k = sid")
    case True
    then have "sid \<notin> fst ` set t" "r = rg" using Cons.prems by (auto simp: x)
    then show ?thesis using persisted_own [OF assms Cons.prems(3,4)] True by (simp add: x not_persisted)
  next
    case False
    then show ?thesis using Cons by (simp add: x)
  qed
qed simp

lemma restored_lookup:
  "map_of (fold (\<lambda>sid t. btree_insert sid (restored (map_of rt sid)) t) sids t) sid =
     (if sid \<in> set sids then Some (restored (map_of rt sid)) else map_of t sid)"
  by (induction sids arbitrary: t) (auto simp: map_of_inserted)

lemma each_registration_lookup:
  "each_registration f t rt = (t', rt', effs) \<Longrightarrow> map_of t sid = Some rg \<Longrightarrow>
   \<exists>r. set (snd (snd (f sid rg r))) \<subseteq> set effs"
proof (induction t arbitrary: rt t' rt' effs)
  case (Cons x t)
  obtain k r where x: "x = (k, r)" by fastforce
  obtain rg1 rt1 e1 where head: "f k r rt = (rg1, rt1, e1)" by (cases "f k r rt")
  obtain t2 rt2 e2 where tail: "each_registration f t rt1 = (t2, rt2, e2)" by (cases "each_registration f t rt1")
  have effs: "effs = e1 @ e2" using Cons.prems by (simp add: x head tail)
  show ?case
  proof (cases "k = sid")
    case True
    then have "set (snd (snd (f sid rg rt))) \<subseteq> set effs" using Cons.prems(2) head by (simp add: x effs)
    then show ?thesis ..
  next
    case False
    then obtain r where "set (snd (snd (f sid rg r))) \<subseteq> set e2" using Cons.IH [OF tail] Cons.prems(2) by (auto simp: x)
    then show ?thesis by (auto simp: effs)
  qed
qed simp

lemma all_present:
  "\<forall>k \<in> set sids. map_of t k \<noteq> None \<Longrightarrow>
   fold (\<lambda>sid t. if map_of t sid = None then btree_insert sid new_registration t else t) sids t = t"
  by (induction sids) auto

lemma host_new_effects:
  assumes "host_new an registered rt = Some (ho, effs)" and "sid \<in> set registered"
    and "an_inventory an = Some inventory"
  shows "\<exists>r. set (snd (snd (reconcile_one an (av_sessions inventory) (av_conflicts inventory) sid
    (restored (map_of rt sid)) r))) \<subseteq> set effs"
proof -
  let ?t = "fold (\<lambda>sid t. btree_insert sid (restored (map_of rt sid)) t) registered []"
  let ?rt = "fold (remove_runtime an) (filter (\<lambda>sid. sid \<notin> set registered) (map fst rt)) rt"
  let ?f = "reconcile_one an (av_sessions inventory) (av_conflicts inventory)"
  have keys: "k \<in> set registered" if "(k, rg) \<in> set ?t" for k rg
  proof -
    have "map_of ?t k \<noteq> None" using weak_map_of_SomeI [OF that] by simp
    then show ?thesis by (simp add: restored_lookup split: if_splits)
  qed
  then have kept: "filter (\<lambda>(sid, rg). sid \<in> set registered) ?t = ?t" by (auto intro!: filter_True)
  have all: "fold (\<lambda>sid t. if map_of t sid = None then btree_insert sid new_registration t else t) registered ?t = ?t"
    by (rule all_present) (simp add: restored_lookup)
  obtain t' rt' es where each: "each_registration ?f ?t ?rt = (t', rt', es)" by (cases "each_registration ?f ?t ?rt")
  have "set es \<subseteq> set effs"
    using assms(1,3) each by (auto simp: host_new_def reconcile_def Let_def kept all split: if_splits)
  moreover have "map_of ?t sid = Some (restored (map_of rt sid))" using assms(2) by (simp add: restored_lookup)
  ultimately show ?thesis using each_registration_lookup [OF each] by (meson subset_trans)
qed

text \<open>
  C38. A host that lets its controllers go and starts again gives a
  logon the manager session it had; a user who has logged on anew gets a fresh one, and the
  previous one is told to end.
\<close>

theorem logon_keeps_its_manager_session:
  assumes "host_ok ho" and "map_of (ho_controllers ho) sid = Some rg" and "rg_runner rg = Some h"
    and "detach_all an ho = (ho1, effs1)" and "\<And>sid. an_saved an sid"
    and "host_new an' registered (ho_runtime ho1) = Some (ho2, effs2)" and "sid \<in> set registered"
    and "an_inventory an' = Some inventory" and "sid \<notin> set (av_conflicts inventory)"
    and "map_of (av_sessions inventory) sid = Some s"
    and "an_sid_ok an' sid" and "\<And>m. an_event an' m" and "an_runner an' sid = Started p"
  shows "\<exists>sess. Runner_started sid sess p \<in> set effs2 \<and> logon_of sess = (as_session_id s, as_authentication_id s) \<and>
    (if as_authentication_id s = rs_authentication_id (rh_session h)
     then rs_manager_session_id sess = rs_manager_session_id (rh_session h)
     else rs_manager_session_id sess = an_uuid an' sid \<and>
       Signalled (rs_manager_session_id (rh_session h)) \<in> set effs2)"
proof -
  have t: "registrations_ok (ho_controllers ho)" using assms(1) by (simp add: host_ok_iff)
  have rg: "registration_ok rg" by (rule registrations_lookup [OF t assms(2)])
  have distinct: "distinct (map fst (ho_controllers ho))"
    using t by (intro btree_ok_distinct) (simp add: registrations_ok_def)
  obtain saved where saved: "map_of (ho_runtime ho1) sid = Some saved"
    "rs_manager_session_id saved = rg_manager_session_id rg" "Some (rs_authentication_id saved) = rg_authentication_id rg"
    using persisted_lookup [OF assms(5) distinct assms(2) rg assms(3), of "ho_runtime ho"] assms(4)
    by (auto simp: detach_all_def)
  have session: "rs_manager_session_id saved = rs_manager_session_id (rh_session h)" "rs_manager_session_id saved \<noteq> ''''"
    "rs_authentication_id saved = rs_authentication_id (rh_session h)"
    using saved(2,3) rg assms(3) by (simp_all add: registration_ok_def)
  obtain r where "set (snd (snd (reconcile_one an' (av_sessions inventory) (av_conflicts inventory) sid
      (restored (Some saved)) r))) \<subseteq> set effs2"
    using host_new_effects [OF assms(6-8)] saved(1) by auto
  note effects = this [unfolded reconcile_one_def restored_def new_registration_def reconcile_session_def
    forget_previous_def start_controller_runner_def signal_previous_session_def Let_def]
  let ?sess = "\<lambda>m. \<lparr>rs_manager_session_id = m, rs_windows_session_id = as_session_id s,
    rs_authentication_id = as_authentication_id s, rs_controller_process_id = 0, rs_controller_creation_time = 0\<rparr>"
  show ?thesis
  proof (cases "as_authentication_id s = rs_authentication_id (rh_session h)")
    case True
    then have "Runner_started sid (?sess (rs_manager_session_id (rh_session h))) p \<in> set effs2"
      using effects session assms(9-13) by simp
    then show ?thesis using True by (intro exI conjI) (assumption, simp_all add: logon_of_def)
  next
    case False
    then have "Runner_started sid (?sess (an_uuid an' sid)) p \<in> set effs2 \<and>
        Signalled (rs_manager_session_id (rh_session h)) \<in> set effs2"
      using effects session assms(9-13) by simp
    then show ?thesis using False by (intro exI conjI) (erule conjunct1, simp_all add: logon_of_def)
  qed
qed

section \<open>A host with one user\<close>

definition sample_entry :: "u64 \<Rightarrow> wts_entry" where
  "sample_entry a = \<lparr>we_session_id = 1, we_state = Wts_active, we_token = True,
     we_sid = Some ''S-1-5-21'', we_authentication_id = Some a\<rparr>"

definition sample_answers :: "wts_entry list \<Rightarrow> string \<Rightarrow> host_answers" where
  "sample_answers es m = \<lparr>an_inventory = Some (active_sessions_of es), an_registered = True,
     an_sid_ok = (\<lambda>_. True), an_uuid = (\<lambda>_. m), an_event = (\<lambda>_. True),
     an_runner = (\<lambda>_. Started (Some (sample_controller 4))), an_saved = (\<lambda>_. True), an_removed = (\<lambda>_. True)\<rparr>"

definition sample_session :: "string \<Rightarrow> u64 \<Rightarrow> runtime_session" where
  "sample_session m a = \<lparr>rs_manager_session_id = m, rs_windows_session_id = 1, rs_authentication_id = a,
     rs_controller_process_id = 0, rs_controller_creation_time = 0\<rparr>"

definition sample_registration :: "string \<Rightarrow> u64 \<Rightarrow> registration" where
  "sample_registration m a = \<lparr>rg_manager_session_id = m, rg_windows_session_id = Some 1,
     rg_authentication_id = Some a, rg_ending_event = Some m,
     rg_runner = Some \<lparr>rh_session = sample_session m a, rh_thread = fst (runner_start (Some (sample_controller 4)))\<rparr>,
     rg_recorded_process = None, rg_session_conflict = False\<rparr>"

definition sample_host :: "string \<Rightarrow> u64 \<Rightarrow> host" where
  "sample_host m a = \<lparr>ho_controllers = [(''S-1-5-21'', sample_registration m a)], ho_ending = [],
     ho_registered = [''S-1-5-21''],
     ho_runtime = [(''S-1-5-21'', with_process (sample_session m a) (Some (sample_controller 4)))]\<rparr>"

lemma sample_inventory:
  "active_sessions_of [sample_entry a] = \<lparr>av_sessions = [(''S-1-5-21'', \<lparr>as_session_id = 1, as_authentication_id = a\<rparr>)],
     av_conflicts = [], av_logons = [(1, a)]\<rparr>"
  by (simp add: active_sessions_of_def note_session_def eligible_def sample_entry_def)

lemmas host_defs = host_new_def reconcile_def reconcile_one_def reconcile_session_def forget_previous_def
  signal_previous_session_def start_controller_runner_def persist_runtime_def save_runtime_def remove_runtime_def
  runner_process_def released_def restored_def new_registration_def Let_def

lemmas host_sample_defs = sample_answers_def sample_inventory sample_host_def sample_registration_def sample_session_def

lemma sample_start:
  "host_new (sample_answers [sample_entry a] m) [''S-1-5-21''] [] =
     Some (sample_host m a, [Runner_started ''S-1-5-21'' (sample_session m a) (Some (sample_controller 4))])"
  by (simp add: host_defs host_sample_defs runner_start_def with_process_def)

lemma sample_host_ok: "m \<noteq> '''' \<Longrightarrow> host_ok (sample_host m a)"
  by (simp add: host_ok_def btree_ok_def registration_ok_def host_sample_defs runner_start_ok)

lemma sample_host_end:
  "end_windows_session (sample_answers es n) 1 (sample_host m a) =
     ((sample_host m a)\<lparr>
        ho_controllers := [(''S-1-5-21'', new_registration)], ho_ending := [(1, a)], ho_runtime := []\<rparr>,
      [Signalled m, Runner_ended ''S-1-5-21'' (sample_session m a)])"
  by (simp add: end_windows_session_def end_registration_def host_defs host_sample_defs List.map_filter_def)

lemma sample_register:
  "snd (register_user (sample_answers [sample_entry a] n) True ''S-1-5-21''
     ((sample_host m a)\<lparr>ho_controllers := [(''S-1-5-21'', new_registration)], ho_ending := [(1, a)], ho_runtime := []\<rparr>)) =
     ((sample_host n a)\<lparr>ho_ending := [(1, a)]\<rparr>,
      [Runner_started ''S-1-5-21'' (sample_session n a) (Some (sample_controller 4))])"
  by (simp add: register_user_def host_defs host_sample_defs with_process_def runner_start_def)

lemma sample_reconcile:
  "reconcile (sample_answers [sample_entry a] n)
     ((sample_host m a)\<lparr>ho_controllers := [(''S-1-5-21'', new_registration)], ho_ending := [(1, a)], ho_runtime := []\<rparr>) =
     ((sample_host m a)\<lparr>ho_controllers := [(''S-1-5-21'', new_registration)], ho_ending := [(1, a)], ho_runtime := []\<rparr>, [])"
  by (simp add: host_defs host_sample_defs)

theorem one_runner_per_user_witness:
  "tracked_run host_step (sample_host ''m'' 7)
     [Do_restart ''S-1-5-21'', Do_end_session (sample_answers [] ''m'') 1,
      Do_register (sample_answers [sample_entry 7] ''n'') True ''S-1-5-21''] =
     Some ((sample_host ''n'' 7)\<lparr>ho_ending := [(1, 7)]\<rparr>,
       [Runner_restarted ''S-1-5-21'', Signalled ''m'', Runner_ended ''S-1-5-21'' (sample_session ''m'' 7),
        Runner_started ''S-1-5-21'' (sample_session ''n'' 7) (Some (sample_controller 4))]) \<and>
   host_ok ((sample_host ''n'' 7)\<lparr>ho_ending := [(1, 7)]\<rparr>)"
proof (rule context_conjI)
  have restart: "snd (restart_controller ''S-1-5-21'' (sample_host ''m'' 7)) = [Runner_restarted ''S-1-5-21'']"
    by (simp add: restart_controller_def host_sample_defs)
  show run: "tracked_run host_step (sample_host ''m'' 7)
     [Do_restart ''S-1-5-21'', Do_end_session (sample_answers [] ''m'') 1,
      Do_register (sample_answers [sample_entry 7] ''n'') True ''S-1-5-21''] =
     Some ((sample_host ''n'' 7)\<lparr>ho_ending := [(1, 7)]\<rparr>,
       [Runner_restarted ''S-1-5-21'', Signalled ''m'', Runner_ended ''S-1-5-21'' (sample_session ''m'' 7),
        Runner_started ''S-1-5-21'' (sample_session ''n'' 7) (Some (sample_controller 4))])"
    by (simp add: restart sample_host_end sample_register)
  show "host_ok ((sample_host ''n'' 7)\<lparr>ho_ending := [(1, 7)]\<rparr>)"
    using one_runner_per_user [OF sample_start _ run, of undefined] by (simp add: answers_ok_def sample_answers_def)
qed

theorem ending_logon_gets_no_controller_witness:
  "\<exists>effs. tracked_run host_step (fst (end_windows_session (sample_answers [] ''m'') 1 (sample_host ''m'' 7)))
     [Do_reconcile (sample_answers [sample_entry 7] ''n'')] =
     Some (fst (end_windows_session (sample_answers [] ''m'') 1 (sample_host ''m'' 7)), effs) \<and>
   Runner_started ''S-1-5-21'' (sample_session ''n'' 7) (Some (sample_controller 4)) \<notin> set effs"
proof (intro exI conjI)
  show run: "tracked_run host_step (fst (end_windows_session (sample_answers [] ''m'') 1 (sample_host ''m'' 7)))
     [Do_reconcile (sample_answers [sample_entry 7] ''n'')] =
     Some (fst (end_windows_session (sample_answers [] ''m'') 1 (sample_host ''m'' 7)), [])"
    by (simp add: sample_host_end sample_reconcile)
  have user: "(''S-1-5-21'', sample_registration ''m'' 7) \<in> set (ho_controllers (sample_host ''m'' 7))"
    by (simp add: sample_host_def)
  have listed: "list_all (still_listed (1, 7)) [Do_reconcile (sample_answers [sample_entry 7] ''n'')]"
    by (simp add: sample_answers_def sample_inventory)
  have "\<forall>sid sess p. Runner_started sid sess p \<in> set [] \<longrightarrow> logon_of sess \<noteq> (1, 7)"
    using ending_logon_gets_no_controller [OF user _ _ surjective_pairing run listed]
    by (simp add: sample_registration_def)
  moreover have "logon_of (sample_session ''n'' 7) = (1, 7)" by (simp add: logon_of_def sample_session_def)
  ultimately show "Runner_started ''S-1-5-21'' (sample_session ''n'' 7) (Some (sample_controller 4)) \<notin> set []"
    by blast
qed

lemma sample_detach:
  "detach_all (sample_answers [] ''x'') (sample_host m a) =
     ((sample_host m a)\<lparr>ho_controllers := []\<rparr>, [Runner_released ''S-1-5-21'' (sample_session m a)])"
  by (simp add: detach_all_def host_defs host_sample_defs with_process_def runner_start_def)

text \<open>The same logon, and another logon of the user.\<close>

theorem logon_keeps_its_manager_session_witness:
  "(\<exists>ho effs sess. host_new (sample_answers [sample_entry 7] ''n'') [''S-1-5-21'']
       (ho_runtime (fst (detach_all (sample_answers [] ''x'') (sample_host ''m'' 7)))) = Some (ho, effs) \<and>
     Runner_started ''S-1-5-21'' sess (Some (sample_controller 4)) \<in> set effs \<and> rs_manager_session_id sess = ''m'') \<and>
   (\<exists>ho effs sess. host_new (sample_answers [sample_entry 8] ''n'') [''S-1-5-21'']
       (ho_runtime (fst (detach_all (sample_answers [] ''x'') (sample_host ''m'' 7)))) = Some (ho, effs) \<and>
     Runner_started ''S-1-5-21'' sess (Some (sample_controller 4)) \<in> set effs \<and> rs_manager_session_id sess = ''n'' \<and>
     Signalled ''m'' \<in> set effs)"
proof (rule conjI)
  let ?h = "\<lparr>rh_session = sample_session ''m'' 7, rh_thread = fst (runner_start (Some (sample_controller 4)))\<rparr>"
  have new: "\<exists>ho effs. host_new (sample_answers [sample_entry a] ''n'') [''S-1-5-21''] rt = Some (ho, effs)" for a rt
    by (simp add: host_new_def sample_answers_def Let_def)
  have sess: "\<exists>sess. Runner_started ''S-1-5-21'' sess (Some (sample_controller 4)) \<in> set effs \<and>
      logon_of sess = (as_session_id \<lparr>as_session_id = 1, as_authentication_id = a\<rparr>, as_authentication_id \<lparr>as_session_id = 1, as_authentication_id = a\<rparr>) \<and>
      (if as_authentication_id \<lparr>as_session_id = 1, as_authentication_id = a\<rparr> = rs_authentication_id (rh_session ?h)
       then rs_manager_session_id sess = rs_manager_session_id (rh_session ?h)
       else rs_manager_session_id sess = an_uuid (sample_answers [sample_entry a] ''n'') ''S-1-5-21'' \<and>
         Signalled (rs_manager_session_id (rh_session ?h)) \<in> set effs)"
    if "host_new (sample_answers [sample_entry a] ''n'') [''S-1-5-21'']
       (ho_runtime (fst (detach_all (sample_answers [] ''x'') (sample_host ''m'' 7)))) = Some (ho, effs)" for a ho effs
    by (rule logon_keeps_its_manager_session [OF sample_host_ok _ _ surjective_pairing _ that])
      ((simp_all add: host_sample_defs)+)
  show "\<exists>ho effs sess. host_new (sample_answers [sample_entry 7] ''n'') [''S-1-5-21'']
       (ho_runtime (fst (detach_all (sample_answers [] ''x'') (sample_host ''m'' 7)))) = Some (ho, effs) \<and>
     Runner_started ''S-1-5-21'' sess (Some (sample_controller 4)) \<in> set effs \<and> rs_manager_session_id sess = ''m''"
    using new sess [of 7] by (fastforce simp: sample_session_def)
  show "\<exists>ho effs sess. host_new (sample_answers [sample_entry 8] ''n'') [''S-1-5-21'']
       (ho_runtime (fst (detach_all (sample_answers [] ''x'') (sample_host ''m'' 7)))) = Some (ho, effs) \<and>
     Runner_started ''S-1-5-21'' sess (Some (sample_controller 4)) \<in> set effs \<and> rs_manager_session_id sess = ''n'' \<and>
     Signalled ''m'' \<in> set effs"
    using new sess [of 8] by (fastforce simp: sample_session_def sample_answers_def)
qed

end
