(* ===== verification/Spec2Isabelle.thy ===== *)
theory Spec2Isabelle
  imports Execution_Properties Supervisor_Binding Controller_State Config_Loader
    Log_Writer Log_Retention Storage_Properties Run_Properties Retry_Equivalence
    Manager_Properties Process_Encoding Delivery_Properties
    Installation_Properties Host_Properties
begin

text \<open>
  SUSM, a per-user service manager for Windows: a controller owns the configuration and the
  desired state of workloads (services and jobs), starts a supervisor process for every
  execution, and the supervisor launches the attempts, restarts them by policy and captures
  their output. Each theory models one part; its definitions keep the names of the code.

  \<^item> \<open>Prelude\<close>, \<open>Transition\<close>: Rust's \<open>Result\<close> as a sum (\<open>Inl\<close> the error), checked and saturating
    word arithmetic, \<open>Transition\<close> values, runs of a machine over a list of events, and the
    locales the machines are interpreted in: invariants, budgets of effects, numbered effects,
    simulations, and the numbering a simulation carries over.
  \<^item> \<open>Time\<close>, \<open>Ids\<close>, \<open>Restart\<close> (\<open>crates/domain/src/time.rs\<close>, \<open>ids.rs\<close>, \<open>restart.rs\<close>): durations in
    nanoseconds, boot instants in ticks of 100 ns, identifiers and non-zero counters, restart
    policies and the capped exponential delay.
  \<^item> \<open>Execution\<close>, \<open>Lifecycle\<close>, \<open>Restart_Budget\<close>, \<open>Execution_Properties\<close> (\<open>execution.rs\<close>): the
    execution machine, its refinement of an abstract lifecycle on phases, its restart
    decisions as arithmetic on naturals, and its properties.
  \<^item> \<open>Supervisor_Binding\<close> (\<open>supervisor_binding.rs\<close>): launching, adopting and replacing the
    supervisor of an execution, with its failure budget.
  \<^item> \<open>Controller_State\<close> (\<open>controller.rs\<close>): what a service is desired to do and which execution it
    owns; the one active execution of a job.
  \<^item> \<open>Btree\<close>, \<open>Bytes\<close>, \<open>Prefix_Code\<close>: ordered association lists for \<open>BTreeMap\<close> and \<open>BTreeSet\<close>;
    UTF-8, decimal text, lines; little-endian integers and self-delimiting encodings.
  \<^item> \<open>Config_Model\<close>, \<open>Config_Raw\<close>, \<open>Config_Loader\<close>, \<open>Canonical\<close> (\<open>crates/config/src\<close>): accepted
    definitions, their validation from a raw table with every error, the loading of a
    directory, and the bytes hashed for definitions and generations.
  \<^item> \<open>Log_Journal\<close>, \<open>Log_Writer\<close>, \<open>Log_Retention\<close> (\<open>crates/supervisor/src/journal.rs\<close> and the decoder
    in \<open>crates/controller/src/rpc.rs\<close>): entries of captured output, the writer with its segments,
    the retention limits.
  \<^item> \<open>Runtime_Journal\<close> (the rest of \<open>journal.rs\<close>): the write-ahead journal of a supervisor.

  \<^item> \<open>Storage\<close>, \<open>Storage_Properties\<close> (\<open>crates/controller/src/storage.rs\<close>): the tables of the
    controller and every statement on them; consistency, the order of observations, the trigger
    of a session, reloads.
  \<^item> \<open>Supervisor_Messages\<close>, \<open>Snapshot\<close> (\<open>supervisor.proto\<close>, the end of \<open>manager.rs\<close>): the
    configuration a supervisor runs with and the policy update, made from an accepted definition.
  \<^item> \<open>Run_Monad\<close>: processes that return, fail or are cut short, with their triples.
    \<open>Preflight\<close>, \<open>Runner\<close>, \<open>Supervisor_Run\<close> (\<open>crates/supervisor/src/runner.rs\<close>): the supervisor of
    one execution. What the system, the clock and the controller answer is input, consumed turn by
    turn, so the input bounds every loop; \<open>Pending\<close> is a run whose input ended, which is also
    where a crash leaves it. \<open>Run_Protocol\<close>, \<open>Run_Properties\<close>: what every run writes follows the
    protocol of launches. \<open>Retry_Equivalence\<close>: its retry decisions are those of the domain crate.
  \<^item> \<open>Process_Encoding\<close> (\<open>crates/supervisor/src/process.rs\<close>): the quoted command line and the
    environment block handed to Windows, read back by the rules of the C runtime.
  \<^item> \<open>Manager\<close>, \<open>Manager_Supervision\<close>, \<open>Manager_Lifecycle\<close> (\<open>crates/controller/src/manager.rs\<close>): the
    manager's state over the tables, its operations, the reports of supervisors, reloads, opening,
    the task of an execution and the recovery monitors. \<open>Manager_Books\<close>, \<open>Manager_Invariant\<close>:
    the active executions and the open rows of the tables move together in every operation, also
    over restarts of the controller. \<open>Manager_Properties\<close>: the budget of supervisor launches, what
    an ended session forbids, and where the manager departs from the documented states.
  \<^item> \<open>Supervisor_Link\<close> (\<open>controller_link.rs\<close>, \<open>crates/controller/src/supervisor_rpc.rs\<close>): the two ends of
    the stream between a supervisor and the controller. \<open>Delivery\<close> puts them together with the journal
    and the messages in flight, as a machine over events that include every loss and restart; the
    controller is behind the interface \<open>service\<close>. \<open>Delivery_Safety\<close>: the invariant, proved once for
    every store that keeps the laws of the locale \<open>observation_service\<close>; \<open>Delivery_Manager\<close>: the
    manager keeps them; \<open>Delivery_Progress\<close>, \<open>Delivery_Properties\<close>: nothing is lost, repeated or
    reordered, and a stream that stands delivers in as many steps as its \<open>weight\<close>.

  \<^item> \<open>Files\<close>: a tree of files, directories and links with the calls the code makes on it; a program is
    a \<open>Run_Monad\<close> process over them, so an interruption between any two calls is a run that ends
    \<open>Pending\<close>, and the triples of \<open>Run_Monad\<close> speak of every tree a crash can leave.
  \<^item> \<open>Bundle\<close>, \<open>Installer\<close> (\<open>crates/cli/src/installer.rs\<close>): the manifest of a bundle and the whole
    installer: validation, staging, the selection, rollback, garbage collection, removal.
    \<open>Launcher\<close> (\<open>crates/host/src/launcher.rs\<close>): which controller the host launches, with every check,
    and the thread that keeps it running. \<open>Installation\<close>, \<open>Installation_Safety\<close>,
    \<open>Installation_Sample\<close>, \<open>Installation_Properties\<close>: the two programs fit together, also when an
    installation is cut short.
  \<^item> \<open>Tracked\<close>: machines whose effects tell their state (a locale). \<open>Controller_Thread\<close>: the thread of
    the launcher is one. \<open>Host\<close> (\<open>crates/host/src/rpc.rs\<close>, \<open>registration.rs\<close>, the loop of
    \<open>main.rs\<close>): the registrations of users, their sessions and runners; \<open>Host_Properties\<close>: the host is
    one such machine for every user, which logons get a runner, and what a restart of the host keeps.

  Conventions of these parts: a path is a list of names, compared exactly (Windows ignores case), and a
  link is seen under its own path; a read that fails is the error of a missing file; what Windows and
  the registry answer is input; a record of the registry is written whole or not at all; an operation of
  the host is one step, as under its lock. An installation from a ZIP file is modelled but outside the
  properties of installations.

  Not modelled: the Windows calls behind the inputs (processes, pipes, job objects, tokens, services),
  the installation of the host service itself, argument parsing and printing of the command line, the
  diagnostic log, the protobuf, TOML, ZIP and SHA-256 implementations (parameters where a definition uses
  them), tracing. The manager's operations do not interleave in the model; the code holds a lock for
  most of each.
\<close>

end
